(* ===== verification/Prelude.thy ===== *)
theory Prelude
  imports Main "HOL-Library.List_Lexorder" "HOL-Library.Char_ord"
begin

text \<open>
  Shared vocabulary of the development: identifiers, timestamps, SQLite tables as association
  lists in rowid order, the semantics of the SQL statements the daemon sends
  (a keyed UPDATE with a WHERE clause, a trigger and the unique indexes; a set-wise UPDATE; an
  INSERT), and the facts about them that every component proof uses.

  A statement that SQLite refuses is the left summand of a sum; its transaction is rolled back,
  so no state comes with it.
\<close>

named_theorems tbl "lookup facts of the table operations"

type_synonym ident = string
type_synonym time = int
type_synonym 'r table = "(ident \<times> 'r) list"

datatype db_error =
    Trigger_Abort
  | Unique_Violation
  | Check_Violation
  | Row_Not_Found
  | Bail string

section \<open>Rows by primary key\<close>

fun upd_row :: "ident \<Rightarrow> ('r \<Rightarrow> 'r) \<Rightarrow> 'r table \<Rightarrow> 'r table" where
  "upd_row i f [] = []"
| "upd_row i f ((j, r) # t) = (if i = j then (j, f r) # t else (j, r) # upd_row i f t)"

lemma map_of_upd_row [tbl, simp]:
  "map_of (upd_row i f t) j = (if i = j then map_option f (map_of t i) else map_of t j)"
  by (induction t) auto

lemma keys_upd_row [tbl, simp]: "map fst (upd_row i f t) = map fst t"
  by (induction t) auto

lemma upd_row_absent: "map_of t i = None \<Longrightarrow> upd_row i f t = t"
  by (induction t) auto

lemma map_of_snoc [tbl]:
  "map_of (t @ [(i, r)]) j = (case map_of t j of Some x \<Rightarrow> Some x | None \<Rightarrow> if j = i then Some r else None)"
  by (auto simp: map_add_def split: option.splits)

lemma upd_row_upd_row: "upd_row i f (upd_row i g t) = upd_row i (f \<circ> g) t"
  by (induction t) auto

section \<open>Partial unique indexes\<close>

text \<open>
  A (partial) unique index is a key function into \<open>option\<close>: \<open>None\<close> where the row is outside
  the index or a key column is NULL (SQLite never counts NULLs as equal).
\<close>

definition unique_index :: "('r \<Rightarrow> 'k option) \<Rightarrow> 'r table \<Rightarrow> bool" where
  "unique_index key t \<longleftrightarrow> distinct (List.map_filter (\<lambda>e. key (snd e)) t)"

lemma map_filter_simp [simp]:
  "List.map_filter g [] = []"
  "List.map_filter g (x # xs) = (case g x of None \<Rightarrow> List.map_filter g xs | Some y \<Rightarrow> y # List.map_filter g xs)"
  by (simp_all add: List.map_filter_def split: option.splits)

lemma set_map_filter_iff [simp]: "y \<in> set (List.map_filter g xs) \<longleftrightarrow> (\<exists>x \<in> set xs. g x = Some y)"
  by (induction xs) (auto split: option.splits)

lemma unique_indexD:
  assumes "unique_index key t" "map_of t i = Some r" "map_of t j = Some s" "key r = Some k" "key s = Some k"
  shows "i = j"
  using assms
proof (induction t)
  case Nil
  then show ?case by simp
next
  case (Cons e t)
  obtain m x where e: "e = (m, x)" by (cases e)
  have rest: "unique_index key t"
    using Cons.prems(1) by (auto simp: unique_index_def split: option.splits)
  have fresh: "key x = Some k \<Longrightarrow> (\<forall>n y. (n, y) \<in> set t \<longrightarrow> key y \<noteq> Some k)"
    using Cons.prems(1) e by (force simp: unique_index_def)
  show ?case
  proof (cases "m = i \<or> m = j")
    case True
    then show ?thesis
      using Cons.prems(2-5) fresh e by (auto split: if_splits dest!: map_of_SomeD)
  next
    case False
    then show ?thesis using Cons.IH [OF rest] Cons.prems(2-5) e by auto
  qed
qed

text \<open>Under the primary key, uniqueness is a statement about lookups.\<close>

lemma unique_index_inj:
  assumes "distinct (map fst t)"
  shows "unique_index key t \<longleftrightarrow> inj_on (\<lambda>e. the (key (snd e))) {e \<in> set t. key (snd e) \<noteq> None}"
proof -
  have "distinct (filter (\<lambda>e. key (snd e) \<noteq> None) t)"
    using assms unfolding distinct_map by simp
  then show ?thesis
    unfolding unique_index_def List.map_filter_def distinct_map by (simp add: comp_def)
qed

lemma unique_index_iff:
  assumes "distinct (map fst t)"
  shows "unique_index key t \<longleftrightarrow>
    (\<forall>i j r s k. map_of t i = Some r \<longrightarrow> map_of t j = Some s \<longrightarrow> key r = Some k \<longrightarrow> key s = Some k \<longrightarrow> i = j)"
    (is "_ \<longleftrightarrow> ?R")
proof
  assume "unique_index key t"
  then show ?R by (intro allI impI) (rule unique_indexD)
next
  assume R: ?R
  have "(i, r) = (j, s)" if "(i, r) \<in> set t" "(j, s) \<in> set t" "key r = Some k" "key s = Some k" for i r j s k
  proof -
    have m: "map_of t i = Some r" "map_of t j = Some s"
      using that assms by simp_all
    then have "i = j" using R that(3,4) by blast
    with m show ?thesis by simp
  qed
  then show "unique_index key t"
    unfolding unique_index_inj [OF assms] by (intro inj_onI) force
qed

lemma upd_row_const: "map_of ts i = Some t \<Longrightarrow> upd_row i f ts = upd_row i (\<lambda>_. f t) ts"
  by (induction ts) auto

lemma unique_index_upd_row:
  assumes "distinct (map fst t)" "unique_index key t" "map_of t i = Some r"
    and fresh: "\<And>j s k. j \<noteq> i \<Longrightarrow> map_of t j = Some s \<Longrightarrow> key (f r) = Some k \<Longrightarrow> key s \<noteq> Some k"
  shows "unique_index key (upd_row i f t)"
proof -
  have keys: "distinct (map fst (upd_row i f t))" using assms(1) by simp
  show ?thesis
    unfolding unique_index_iff [OF keys]
  proof (intro allI impI)
    fix m n x y k
    assume a: "map_of (upd_row i f t) m = Some x" "map_of (upd_row i f t) n = Some y" "key x = Some k" "key y = Some k"
    show "m = n"
    proof (cases "m = i"; cases "n = i")
      assume "m \<noteq> i" "n \<noteq> i"
      then show ?thesis using a unique_indexD [OF assms(2), of m x n y k] by simp
    qed (use a fresh assms(3) in auto)
  qed
qed

lemma unique_index_upd_row_same:
  assumes "distinct (map fst t)" "unique_index key t" "map_of t i = Some r" "key (f r) = key r"
  shows "unique_index key (upd_row i f t)"
proof (rule unique_index_upd_row [OF assms(1-3)])
  fix j s k
  assume "j \<noteq> i" "map_of t j = Some s" "key (f r) = Some k"
  then show "key s \<noteq> Some k" using unique_indexD [OF assms(2,3), of j s k] assms(4) by auto
qed

lemma unique_index_upd_row_None:
  assumes "distinct (map fst t)" "unique_index key t" "map_of t i = Some r" "key (f r) = None"
  shows "unique_index key (upd_row i f t)"
  using assms by (intro unique_index_upd_row) auto

lemma list_all_upd_row:
  assumes "list_all (\<lambda>e. P (snd e)) t" "\<And>r. map_of t i = Some r \<Longrightarrow> P r \<Longrightarrow> P (f r)"
  shows "list_all (\<lambda>e. P (snd e)) (upd_row i f t)"
  using assms by (induction t) auto

section \<open>Statements\<close>

text \<open>
  \<open>UPDATE t SET f WHERE id=? AND w\<close>: the row count is part of the answer, as in sqlx. The
  trigger sees the old and the new row; the constraints are checked on the resulting table.
\<close>

definition update_by_id ::
  "('r \<Rightarrow> 'r \<Rightarrow> bool) \<Rightarrow> ('r table \<Rightarrow> bool) \<Rightarrow> ident \<Rightarrow> ('r \<Rightarrow> bool) \<Rightarrow> ('r \<Rightarrow> 'r) \<Rightarrow> 'r table
     \<Rightarrow> db_error + 'r table \<times> nat" where
  "update_by_id aborts ok i w f t =
     (case map_of t i of
        None \<Rightarrow> Inr (t, 0)
      | Some r \<Rightarrow>
          if \<not> w r then Inr (t, 0)
          else if aborts r (f r) then Inl Trigger_Abort
          else let t' = upd_row i f t in if ok t' then Inr (t', 1) else Inl Unique_Violation)"

text \<open>\<open>UPDATE t SET f WHERE p\<close> over any rows, atomically.\<close>

definition update_where ::
  "('r \<Rightarrow> 'r \<Rightarrow> bool) \<Rightarrow> ('r table \<Rightarrow> bool) \<Rightarrow> ('r \<Rightarrow> bool) \<Rightarrow> ('r \<Rightarrow> 'r) \<Rightarrow> 'r table
     \<Rightarrow> db_error + 'r table \<times> nat" where
  "update_where aborts ok p f t =
     (if list_ex (\<lambda>e. p (snd e) \<and> aborts (snd e) (f (snd e))) t then Inl Trigger_Abort
      else let t' = map (\<lambda>e. (fst e, if p (snd e) then f (snd e) else snd e)) t
           in if ok t' then Inr (t', length (filter (\<lambda>e. p (snd e)) t)) else Inl Unique_Violation)"

text \<open>\<open>INSERT INTO t\<close>: the primary key and the constraints; rowids grow, so the row goes last.\<close>

definition insert_row :: "('r table \<Rightarrow> bool) \<Rightarrow> ident \<Rightarrow> 'r \<Rightarrow> 'r table \<Rightarrow> db_error + 'r table" where
  "insert_row ok i r t =
     (if map_of t i \<noteq> None then Inl Unique_Violation
      else let t' = t @ [(i, r)] in if ok t' then Inr t' else Inl Unique_Violation)"

lemma update_by_id_cases:
  assumes "update_by_id aborts ok i w f t = Inr (t', n)"
  obtains (miss) "n = 0" "t' = t" "\<And>r. map_of t i = Some r \<Longrightarrow> \<not> w r"
    | (hit) r where "n = 1" "map_of t i = Some r" "w r" "\<not> aborts r (f r)" "t' = upd_row i f t" "ok t'"
  using assms
  by (auto simp: update_by_id_def Let_def split: option.splits if_splits)

lemma map_of_map_snd:
  "map_of (map (\<lambda>e. (fst e, g (snd e))) t) i = map_option g (map_of t i)"
  by (induction t) auto

lemma update_where_rows:
  assumes "update_where aborts ok p f t = Inr (t', n)"
  shows "map_of t' i = map_option (\<lambda>r. if p r then f r else r) (map_of t i)"
    and "ok t'"
    and "map_of t i = Some r \<Longrightarrow> p r \<Longrightarrow> \<not> aborts r (f r)"
  using assms map_of_map_snd [of "\<lambda>r. if p r then f r else r" t i]
  by (auto simp: update_where_def Let_def list_ex_iff split: if_splits dest!: map_of_SomeD)

lemma insert_row_rows:
  assumes "insert_row ok i r t = Inr t'"
  shows "map_of t' j = (if j = i then Some r else map_of t j)" and "ok t'" and "map_of t i = None"
  using assms by (auto simp: insert_row_def Let_def map_add_def split: if_splits option.splits)

section \<open>Sequencing fallible steps\<close>

definition bind_res :: "'e + 'a \<Rightarrow> ('a \<Rightarrow> 'e + 'b) \<Rightarrow> 'e + 'b" where
  "bind_res m k = (case m of Inl e \<Rightarrow> Inl e | Inr a \<Rightarrow> k a)"

lemma bind_res_simps [simp]:
  "bind_res (Inl e) k = Inl e" "bind_res (Inr a) k = k a"
  by (simp_all add: bind_res_def)

lemma bind_res_InrE:
  assumes "bind_res m k = Inr b"
  obtains a where "m = Inr a" "k a = Inr b"
  using assms by (cases m) auto

text \<open>What a failed statement leaves: its transaction rolled back, the old state stands.\<close>

definition kept :: "'e + ('o \<times> 's) \<Rightarrow> 's \<Rightarrow> 's" where
  "kept m s = (case m of Inl _ \<Rightarrow> s | Inr (_, s') \<Rightarrow> s')"

lemma kept_simps [simp]: "kept (Inl e) s = s" "kept (Inr (a, s')) s = s'"
  by (simp_all add: kept_def)

end
