(* ===== verification/Status_Tables.thy ===== *)
theory Status_Tables
  imports Prelude
begin

text \<open>
  The contract the three status columns of the daemon share (\<open>turns.status\<close>, \<open>runs.state\<close>,
  \<open>supervisor_assignments.status\<close>): an operation leaves a row's status alone or moves it along
  one edge of a table of legal edges. What follows from the contract, whatever the operations
  are, is proved here once: the status only moves along paths of legal edges, and a set of
  statuses that the edges never leave is never left.
\<close>

locale guarded_status =
  fixes status_of :: "'s \<Rightarrow> ident \<Rightarrow> string option"
    and edge_ok :: "string \<Rightarrow> string \<Rightarrow> bool"
    and perform :: "'op \<Rightarrow> 's \<Rightarrow> 's"
  assumes perform_edge:
    "status_of s i = Some a \<Longrightarrow> \<exists>b. status_of (perform op s) i = Some b \<and> (a = b \<or> edge_ok a b)"
begin

lemma fold_path:
  "status_of s i = Some a \<Longrightarrow> \<exists>b. status_of (fold perform ops s) i = Some b \<and> edge_ok\<^sup>*\<^sup>* a b"
proof (induction ops arbitrary: s a)
  case Nil
  then show ?case by auto
next
  case (Cons op ops)
  obtain b where b: "status_of (perform op s) i = Some b" "a = b \<or> edge_ok a b"
    using perform_edge [OF Cons.prems] by blast
  obtain c where "status_of (fold perform ops (perform op s)) i = Some c" "edge_ok\<^sup>*\<^sup>* b c"
    using Cons.IH [OF b(1)] by blast
  with b(2) show ?case by (auto intro: converse_rtranclp_into_rtranclp)
qed

lemma closed_path: "edge_ok\<^sup>*\<^sup>* a b \<Longrightarrow> a \<in> S \<Longrightarrow> (\<And>x y. x \<in> S \<Longrightarrow> edge_ok x y \<Longrightarrow> y \<in> S) \<Longrightarrow> b \<in> S"
  by (induction rule: rtranclp_induct) auto

lemma fold_closed:
  assumes "status_of s i = Some a" "a \<in> S" "\<And>x y. x \<in> S \<Longrightarrow> edge_ok x y \<Longrightarrow> y \<in> S"
  shows "\<exists>b \<in> S. status_of (fold perform ops s) i = Some b"
  using fold_path [OF assms(1)] closed_path [of a _ S] assms(2,3) by blast

end

text \<open>A table in which some statuses are final: no edge leaves them to another status.\<close>

locale guarded_final = guarded_status +
  fixes final :: "string \<Rightarrow> bool"
  assumes final_stays: "final a \<Longrightarrow> edge_ok a b \<Longrightarrow> b = a"
begin

lemma fold_final:
  assumes "status_of s i = Some a" "final a"
  shows "status_of (fold perform ops s) i = Some a"
  using fold_closed [OF assms(1), of "{a}" ops] assms(2) final_stays by blast

end

text \<open>
  Rows that are never removed and only change forward in an order: what one operation leaves of a row,
  any sequence of operations leaves of it.
\<close>

locale forward_rows =
  fixes row_of :: "'s \<Rightarrow> ident \<Rightarrow> 'r option"
    and later :: "'r \<Rightarrow> 'r \<Rightarrow> bool"
    and perform :: "'op \<Rightarrow> 's \<Rightarrow> 's"
  assumes perform_later: "row_of s i = Some r \<Longrightarrow> \<exists>q. row_of (perform op s) i = Some q \<and> later r q"
    and later_refl: "later r r"
    and later_trans: "later r q \<Longrightarrow> later q p \<Longrightarrow> later r p"
begin

lemma fold_later: "row_of s i = Some r \<Longrightarrow> \<exists>q. row_of (fold perform ops s) i = Some q \<and> later r q"
proof (induction ops arbitrary: s r)
  case Nil
  then show ?case using later_refl by simp
next
  case (Cons op ops)
  obtain q where q: "row_of (perform op s) i = Some q" "later r q" using perform_later [OF Cons.prems] by blast
  obtain p where "row_of (fold perform ops (perform op s)) i = Some p" "later q p" using Cons.IH [OF q(1)] by blast
  then show ?case using later_trans [OF q(2)] by auto
qed

end

end
