(* ===== verification/Turn_Guard.thy ===== *)
theory Turn_Guard
  imports Prelude
begin

text \<open>
  The guard of \<open>turns.status\<close> (\<open>crates/am-base/src/db/turn_guard.rs\<close>): the one table of legal
  edges, the Rust check over it and the SQLite trigger generated from it; and the descriptive
  tables of \<open>crates/am-lifecycle/src/lifecycle/transitions.rs\<close>. The third component of an edge
  of the source, the prose naming who takes it, is left out.
\<close>

definition ACTIVE :: "string list" where
  "ACTIVE = [''queued'', ''in_flight'']"

definition LEGAL_EDGES :: "(string \<times> string) list" where
  "LEGAL_EDGES =
    [(''queued'', ''in_flight''),
     (''queued'', ''failed''),
     (''in_flight'', ''queued''),
     (''in_flight'', ''completed''),
     (''in_flight'', ''completed_fallback''),
     (''in_flight'', ''failed''),
     (''completed_fallback'', ''completed'')]"

definition is_terminal :: "string \<Rightarrow> bool" where
  "is_terminal status = (\<not> List.member ACTIVE status)"

definition is_legal :: "string \<Rightarrow> string \<Rightarrow> bool" where
  "is_legal frm to = (frm = to \<or> list_ex (\<lambda>(f, t). f = frm \<and> t = to) LEGAL_EDGES)"

text \<open>
  What the trigger of \<open>guard_ddl\<close> does to an UPDATE that sets \<open>status\<close>: it aborts when the
  status changes (\<open>OLD.status IS NOT NEW.status\<close>) and none of the generated disjuncts
  \<open>OLD.status='f' AND NEW.status='t'\<close> holds.
\<close>

definition guard_aborts :: "string \<Rightarrow> string \<Rightarrow> bool" where
  "guard_aborts old new =
     (old \<noteq> new \<and> \<not> list_ex (\<lambda>(f, t). old = f \<and> new = t) LEGAL_EDGES)"

definition TURN_STATUSES :: "string list" where
  "TURN_STATUSES = [''queued'', ''in_flight'', ''completed'', ''completed_fallback'', ''failed'']"

definition RUN_STATES :: "string list" where
  "RUN_STATES = [''starting'', ''running'', ''stopping'', ''stopped'', ''exited'']"

definition TURN_STATUS_EDGES :: "(string \<times> string) list" where
  "TURN_STATUS_EDGES =
    [(''(insert)'', ''queued''),
     (''(insert)'', ''in_flight''),
     (''queued'', ''in_flight''),
     (''queued'', ''failed''),
     (''in_flight'', ''completed''),
     (''in_flight'', ''completed_fallback''),
     (''in_flight'', ''failed''),
     (''completed_fallback'', ''completed'')]"

definition RUN_STATE_EDGES :: "(string \<times> string) list" where
  "RUN_STATE_EDGES =
    [(''(insert)'', ''starting''),
     (''starting'', ''running''),
     (''stopping'', ''running''),
     (''starting'', ''stopping''),
     (''running'', ''stopping''),
     (''stopping'', ''stopping''),
     (''stopping'', ''stopped''),
     (''exited'', ''stopped''),
     (''stopped'', ''exited''),
     (''starting'', ''exited''),
     (''running'', ''exited''),
     (''stopping'', ''exited'')]"

section \<open>Facts of the tables\<close>

lemma is_legal_iff:
  "is_legal a b \<longleftrightarrow> a = b \<or> a = ''queued'' \<and> b \<in> {''in_flight'', ''failed''}
     \<or> a = ''in_flight'' \<and> b \<in> {''queued'', ''completed'', ''completed_fallback'', ''failed''}
     \<or> a = ''completed_fallback'' \<and> b = ''completed''"
  by (auto simp: is_legal_def LEGAL_EDGES_def)

lemma is_terminal_iff: "is_terminal a \<longleftrightarrow> a \<noteq> ''queued'' \<and> a \<noteq> ''in_flight''"
  by (auto simp: is_terminal_def ACTIVE_def)

lemma guard_aborts_iff: "guard_aborts a b \<longleftrightarrow> \<not> is_legal a b"
  by (auto simp: guard_aborts_def is_legal_def list_ex_iff)

lemma is_legal_refl [simp]: "is_legal a a"
  by (simp add: is_legal_def)

lemma terminal_closed: "is_terminal a \<Longrightarrow> is_legal a b \<Longrightarrow> is_terminal b"
  by (auto simp: is_legal_iff is_terminal_iff)

lemma status_closed: "a \<in> set TURN_STATUSES \<Longrightarrow> is_legal a b \<Longrightarrow> b \<in> set TURN_STATUSES"
  by (auto simp: is_legal_iff TURN_STATUSES_def)

definition dead_end :: "string \<Rightarrow> bool" where
  "dead_end a \<longleftrightarrow> a = ''completed'' \<or> a = ''failed''"

lemma dead_end_stays: "dead_end a \<Longrightarrow> is_legal a b \<Longrightarrow> b = a"
  by (auto simp: is_legal_iff dead_end_def)

text \<open>
  The snapshot of \<open>transitions.rs\<close> and the guard: every edge it lists between statuses is in the
  guard's table, and the one edge it misses is the one its own comment names,
  \<open>in_flight -> queued\<close>.
\<close>

lemma snapshot_misses_one_edge:
  "set LEGAL_EDGES = insert (''in_flight'', ''queued'')
     (set (filter (\<lambda>e. fst e \<noteq> ''(insert)'') TURN_STATUS_EDGES))"
  "(''in_flight'', ''queued'') \<notin> set TURN_STATUS_EDGES"
  by (auto simp: LEGAL_EDGES_def TURN_STATUS_EDGES_def)

lemma run_edges_declared:
  "list_all (\<lambda>(f, t). (f = ''(insert)'' \<or> f \<in> set RUN_STATES) \<and> t \<in> set RUN_STATES) RUN_STATE_EDGES"
  by (simp add: RUN_STATE_EDGES_def RUN_STATES_def)

end
