(* ===== verification/Rust_Text.thy ===== *)
theory Rust_Text
  imports Prelude
begin

text \<open>
  The operations of Rust's \<open>str\<close> the modelled code uses. A text is its UTF-8 bytes, one \<open>char\<close>
  each, so that equality, prefixes and splits at ASCII characters are those of the source.
  White space is Unicode's \<open>White_Space\<close> (\<open>char::is_whitespace\<close>), given by its encodings.
\<close>

definition WHITESPACE :: "string list" where
  "WHITESPACE =
    [[CHR 0x20], [CHR 0x09], [CHR 0x0A], [CHR 0x0B], [CHR 0x0C], [CHR 0x0D],
     [CHR 0xC2, CHR 0x85], [CHR 0xC2, CHR 0xA0], [CHR 0xE1, CHR 0x9A, CHR 0x80],
     [CHR 0xE2, CHR 0x80, CHR 0x80], [CHR 0xE2, CHR 0x80, CHR 0x81], [CHR 0xE2, CHR 0x80, CHR 0x82],
     [CHR 0xE2, CHR 0x80, CHR 0x83], [CHR 0xE2, CHR 0x80, CHR 0x84], [CHR 0xE2, CHR 0x80, CHR 0x85],
     [CHR 0xE2, CHR 0x80, CHR 0x86], [CHR 0xE2, CHR 0x80, CHR 0x87], [CHR 0xE2, CHR 0x80, CHR 0x88],
     [CHR 0xE2, CHR 0x80, CHR 0x89], [CHR 0xE2, CHR 0x80, CHR 0x8A], [CHR 0xE2, CHR 0x80, CHR 0xA8],
     [CHR 0xE2, CHR 0x80, CHR 0xA9], [CHR 0xE2, CHR 0x80, CHR 0xAF], [CHR 0xE2, CHR 0x81, CHR 0x9F],
     [CHR 0xE3, CHR 0x80, CHR 0x80]]"

text \<open>The length of the first pattern the text starts with, 0 when it starts with none.\<close>

definition lead :: "string list \<Rightarrow> string \<Rightarrow> nat" where
  "lead ws s = (case List.find (\<lambda>w. w \<noteq> [] \<and> take (length w) s = w) ws of None \<Rightarrow> 0 | Some w \<Rightarrow> length w)"

lemma lead_pos: "lead ws s \<noteq> 0 \<Longrightarrow> s \<noteq> []"
  by (auto simp: lead_def split: option.splits dest!: find_Some_iff [THEN iffD1])

function strip :: "string list \<Rightarrow> string \<Rightarrow> string" where
  "strip ws s = (if lead ws s = 0 then s else strip ws (drop (lead ws s) s))"
  by pat_completeness auto
termination
  by (relation "measure (length \<circ> snd)") (use lead_pos in fastforce)+

declare strip.simps [simp del]

definition trim_start :: "string \<Rightarrow> string" where
  "trim_start s = strip WHITESPACE s"

definition trim_end :: "string \<Rightarrow> string" where
  "trim_end s = rev (strip (map rev WHITESPACE) (rev s))"

definition trim :: "string \<Rightarrow> string" where
  "trim s = trim_end (trim_start s)"

text \<open>\<open>s.map(str::trim).filter(|v| !v.is_empty())\<close>, the shape every optional text of a request takes.\<close>

definition trimmed :: "string option \<Rightarrow> string option" where
  "trimmed s = (case map_option trim s of None \<Rightarrow> None | Some v \<Rightarrow> if v = [] then None else Some v)"

text \<open>Characters of a text: a byte 10xxxxxx continues the character before it.\<close>

definition continues :: "char \<Rightarrow> bool" where
  "continues c \<longleftrightarrow> (128 :: nat) \<le> of_char c \<and> (of_char c :: nat) < 192"

definition char_count :: "string \<Rightarrow> nat" where
  "char_count s = length (filter (\<lambda>c. \<not> continues c) s)"

fun take_chars :: "nat \<Rightarrow> string \<Rightarrow> string" where
  "take_chars n [] = []"
| "take_chars n (c # cs) =
     (if continues c then c # take_chars n cs else case n of 0 \<Rightarrow> [] | Suc m \<Rightarrow> c # take_chars m cs)"

lemma trimmed_None [simp]: "trimmed None = None"
  by (simp add: trimmed_def)

lemma trimmed_Some: "trimmed s = Some v \<longleftrightarrow> (\<exists>t. s = Some t \<and> v = trim t \<and> v \<noteq> [])"
  by (auto simp: trimmed_def split: option.splits)

lemma strip_lead: "lead ws (strip ws s) = 0"
  by (induction ws s rule: strip.induct) (subst strip.simps, auto)

lemma strip_strip [simp]: "strip ws (strip ws s) = strip ws s"
  by (subst strip.simps) (simp add: strip_lead)

lemma trim_end_idem [simp]: "trim_end (trim_end s) = trim_end s"
  by (simp add: trim_end_def)

lemma strip_suffix: "\<exists>p. s = p @ strip ws s"
proof (induction ws s rule: strip.induct)
  case (1 ws s)
  show ?case
  proof (cases "lead ws s = 0")
    case True
    then show ?thesis by (simp add: strip.simps)
  next
    case False
    then obtain p where "drop (lead ws s) s = p @ strip ws (drop (lead ws s) s)" using 1 by blast
    then have "s = (take (lead ws s) s @ p) @ strip ws (drop (lead ws s) s)"
      by (metis append.assoc append_take_drop_id)
    moreover have "strip ws s = strip ws (drop (lead ws s) s)"
      using False by (subst strip.simps) simp
    ultimately show ?thesis by metis
  qed
qed

lemma trim_length: "length (trim s) \<le> length s"
proof -
  obtain p where "s = p @ trim_start s" using strip_suffix trim_start_def by metis
  moreover obtain q where "rev (trim_start s) = q @ rev (trim s)"
    using strip_suffix [of "rev (trim_start s)"] by (auto simp: trim_def trim_end_def)
  ultimately show ?thesis by (metis length_append length_rev le_add2 le_trans)
qed

section \<open>Decimal numerals\<close>

definition ascii_digit :: "char \<Rightarrow> bool" where
  "ascii_digit c \<longleftrightarrow> CHR ''0'' \<le> c \<and> c \<le> CHR ''9''"

definition ascii_upper :: "char \<Rightarrow> bool" where
  "ascii_upper c \<longleftrightarrow> CHR ''A'' \<le> c \<and> c \<le> CHR ''Z''"

definition to_ascii_lowercase :: "char \<Rightarrow> char" where
  "to_ascii_lowercase c = (if ascii_upper c then char_of ((of_char c :: nat) + 32) else c)"

text \<open>\<open>str::parse::<i64>()\<close>: an optional sign, ASCII digits, no overflow.\<close>

definition digits_value :: "string \<Rightarrow> int" where
  "digits_value ds = foldl (\<lambda>v c. 10 * v + (of_char c - 48)) 0 ds"

definition parse_i64 :: "string \<Rightarrow> int option" where
  "parse_i64 s =
     (let signed = (s \<noteq> [] \<and> (hd s = CHR ''-'' \<or> hd s = CHR ''+''));
          ds = (if signed then tl s else s);
          n = (if signed \<and> hd s = CHR ''-'' then - digits_value ds else digits_value ds)
      in if ds \<noteq> [] \<and> list_all ascii_digit ds \<and> - (2 ^ 63) \<le> n \<and> n < 2 ^ 63 then Some n else None)"

text \<open>\<open>format!("{n}")\<close> of an unsigned integer.\<close>

definition digit :: "nat \<Rightarrow> char" where
  "digit n = char_of (48 + n mod 10)"

fun nat_str :: "nat \<Rightarrow> string" where
  "nat_str n = (if n < 10 then [digit n] else nat_str (n div 10) @ [digit n])"

declare nat_str.simps [simp del]

lemma digit_code: "(of_char (digit k) :: nat) = 48 + k mod 10"
  using mod_less_divisor [of 10 k] by (simp add: digit_def)

lemma digit_inj: "digit m = digit n \<longleftrightarrow> m mod 10 = n mod 10"
proof
  assume "digit m = digit n"
  then have "(of_char (digit m) :: nat) = of_char (digit n)" by simp
  then show "m mod 10 = n mod 10" by (simp add: digit_code)
qed (simp add: digit_def)

lemma nat_str_ne [simp]: "nat_str n \<noteq> []" "[] \<noteq> nat_str n"
  by (subst nat_str.simps, simp)+

lemma nat_str_inj: "nat_str m = nat_str n \<longleftrightarrow> m = n"
proof
  show "nat_str m = nat_str n \<Longrightarrow> m = n"
  proof (induction m arbitrary: n rule: nat_str.induct)
    case (1 m)
    have last: "m mod 10 = n mod 10"
    proof -
      have "last (nat_str k) = digit k" for k by (subst nat_str.simps) simp
      then show ?thesis using "1.prems" digit_inj by metis
    qed
    have front: "butlast (nat_str k) = (if k < 10 then [] else nat_str (k div 10))" for k
      by (subst nat_str.simps) simp
    have eq: "butlast (nat_str m) = butlast (nat_str n)" using "1.prems" by simp
    show ?case
    proof (cases "m < 10")
      case True
      then have "n < 10" using eq by (simp add: front split: if_splits)
      then show ?thesis using True last by simp
    next
      case False
      then have "\<not> n < 10" "nat_str (m div 10) = nat_str (n div 10)"
        using eq by (simp_all add: front split: if_splits)
      then have "m div 10 = n div 10" using "1.IH" False by blast
      then show ?thesis using last by (metis div_mult_mod_eq)
    qed
  qed
qed simp

end
