(* ===== verification/Json.thy ===== *)
theory Json
  imports Rust_Text
begin

text \<open>
  \<open>serde_json::Value\<close> and the accessors the code uses. An object is its list of members; numbers
  are the integers the modelled payloads hold.
\<close>

datatype json =
    JNull
  | JBool bool
  | JNum int
  | JStr string
  | JArr "json list"
  | JObj "(string \<times> json) list"

fun json_get :: "string \<Rightarrow> json \<Rightarrow> json option" where
  "json_get k (JObj ms) = map_of ms k"
| "json_get k _ = None"

text \<open>\<open>pointer("/a/b")\<close>; the modelled pointers only go through objects.\<close>

fun pointer :: "string list \<Rightarrow> json \<Rightarrow> json option" where
  "pointer [] v = Some v"
| "pointer (k # ks) v = (case json_get k v of None \<Rightarrow> None | Some w \<Rightarrow> pointer ks w)"

fun as_bool :: "json \<Rightarrow> bool option" where
  "as_bool (JBool b) = Some b"
| "as_bool _ = None"

fun as_str :: "json \<Rightarrow> string option" where
  "as_str (JStr s) = Some s"
| "as_str _ = None"

text \<open>\<open>v[k] = x\<close>: null becomes an object, an object gets the member, anything else panics.\<close>

fun member_set :: "string \<Rightarrow> json \<Rightarrow> (string \<times> json) list \<Rightarrow> (string \<times> json) list" where
  "member_set k x [] = [(k, x)]"
| "member_set k x ((l, y) # ms) = (if l = k then (k, x) # ms else (l, y) # member_set k x ms)"

fun json_set :: "string \<Rightarrow> json \<Rightarrow> json \<Rightarrow> db_error + json" where
  "json_set k x (JObj ms) = Inr (JObj (member_set k x ms))"
| "json_set k x JNull = Inr (JObj [(k, x)])"
| "json_set k x _ = Inl (Bail ''panic: cannot access key in JSON value'')"

lemma map_of_member_set [simp]: "map_of (member_set k x ms) j = (if j = k then Some x else map_of ms j)"
  by (induction ms) auto

lemma json_get_set: "json_set k x v = Inr w \<Longrightarrow> json_get j w = (if j = k then Some x else json_get j v)"
  by (cases v) auto

end
