(* ===== verification/Store_Schema.thy ===== *)
theory Store_Schema
  imports Turn_Guard Json
begin

text \<open>
  The tables the lifecycle writes (\<open>SCHEMA\<close> and the index migrations of
  \<open>crates/am-base/src/db.rs\<close>, \<open>supervisor_assignments\<close> of
  \<open>crates/am-supervisor/src/supervisor/store.rs\<close>): one record per row type with the columns the
  modelled statements read or write, one table per SQLite table, and the CHECKs and unique
  indexes as predicates. A timestamp column holds milliseconds since the epoch: the daemon
  writes one fixed-width UTC format whose text order is the time order (\<open>db::now\<close>).
\<close>

record project =
  p_mode :: string
  p_specialist_dispatch :: int
  p_deleted_at :: "time option"
  p_handed_off_to :: "string option"
  p_deputy_bot_id :: "ident option"

record bot =
  b_project :: ident
  b_kind :: string
  b_role :: "string option"
  b_parent :: "ident option"
  b_deleted_at :: "time option"

record run =
  r_bot :: ident
  r_state :: string
  r_agent_status :: string
  r_pane :: "string option"
  r_adopted :: bool
  r_native_session :: "string option"
  r_resume_session :: "string option"
  r_started_at :: time
  r_ended_at :: "time option"
  r_exit_reason :: "string option"

record turn =
  t_conversation :: ident
  t_run :: "ident option"
  t_status :: string
  t_delivery :: string
  t_crid :: "string option"
  t_queue_class :: string
  t_native_session :: "string option"
  t_native_turn :: "string option"
  t_created_at :: time
  t_completed_at :: "time option"
  t_prompt_text :: "string option"
  t_delivery_verified :: bool
  t_auto_resend :: bool
  t_claimed_from_queue :: bool
  t_flush_retries :: int
  t_next_flush_at :: "time option"
  t_resend_count :: int
  t_awaits_start :: bool
  t_awaits_idle :: bool
  t_rollout_waits :: int
  t_rollout_wait_key :: "string option"
  t_source_event :: "string option"

record message =
  m_conversation :: ident
  m_turn :: "ident option"
  m_role :: string
  m_content :: string
  m_relay_from :: "string option"
  m_relay_unverified :: bool
  m_relay_auth :: "string option"

record assignment =
  a_target_bot :: ident
  a_crid :: string
  a_turn :: "ident option"
  a_text :: string
  a_status :: string
  a_expects_review :: bool
  a_review_role :: "string option"
  a_resume_at :: "time option"
  a_quota_retries :: int
  a_delivery :: "string option"
  a_turn_status :: "string option"
  a_turn_error :: "string option"
  a_evidence_complete :: bool
  a_result :: "string option"
  a_error :: "string option"
  a_attempts :: int
  a_busy_rounds :: int
  a_conflict_since :: "time option"
  a_next_attempt_at :: "time option"
  a_ownership :: "string list option"
  a_request :: "ident option"
  a_follow_up_of :: "ident option"
  a_followup :: "ident option"
  a_review_decision :: "string option"
  a_reviewed_by :: "string option"
  a_reviewed_at :: "time option"
  a_review_reason :: "string option"
  a_created_at :: time
  a_updated_at :: time
  a_completed_at :: "time option"

record schedule =
  s_project :: ident
  s_bot :: ident
  s_next_due :: "time option"
  s_enabled :: bool
  s_generation :: int
  s_deleted_at :: "time option"

record occurrence =
  o_schedule :: ident
  o_source :: string
  o_scheduled_for :: time
  o_generation :: int
  o_bot :: ident
  o_prompt :: string
  o_crid :: "string option"
  o_status :: string
  o_waiting_reason :: "string option"
  o_merged_count :: int
  o_conversation :: "ident option"
  o_turn :: "ident option"
  o_error :: "string option"
  o_updated_at :: time

record relay_request =
  q_to_bot :: ident
  q_redirected_from :: "ident option"
  q_state :: string

record inbox_event =
  i_key :: string
  i_assignment :: "ident option"
  i_bot :: "ident option"
  i_turn :: "ident option"
  i_kind :: string
  i_payload :: json
  i_state :: string
  i_notify_turn :: "ident option"
  i_notify_delivery :: "string option"
  i_attempts :: int
  i_next_at :: "time option"
  i_error :: "string option"
  i_delivered_at :: "time option"
  i_created_at :: time
  i_updated_at :: time
  i_role :: "string option"
  i_wake :: "bool option"
  i_claimed_by :: "string option"
  i_acked_by :: "string option"
  i_merged_into :: "ident option"

record review_row =
  v_assignment :: ident
  v_decision :: string
  v_from :: string
  v_to :: string
  v_actor :: string
  v_source :: string
  v_reason :: "string option"
  v_evidence :: "string option"
  v_followup :: "ident option"
  v_created_at :: time

record request_row =
  u_source :: string
  u_source_key :: "string option"
  u_text :: string
  u_status :: string
  u_created_at :: time

record db =
  projects :: "project table"
  bots :: "bot table"
  conversations :: "ident table" \<comment> \<open>conversation id to its \<open>bot_id\<close>\<close>
  runs :: "run table"
  turns :: "turn table"
  messages :: "message table"
  assignments :: "assignment table"
  schedules :: "schedule table"
  occurrences :: "occurrence table"
  relay_requests :: "relay_request table"
  inbox :: "inbox_event table"
  reviews :: "review_row table"
  requests :: "request_row table"

section \<open>CHECKs and unique indexes of \<open>turns\<close>\<close>

definition check_turn :: "turn \<Rightarrow> bool" where
  "check_turn t \<longleftrightarrow> List.member TURN_STATUSES (t_status t)
     \<and> List.member [''pending'', ''ok'', ''unknown'', ''failed''] (t_delivery t)
     \<and> List.member [''user'', ''relay'', ''daemon''] (t_queue_class t)"

definition one_in_flight_key :: "turn \<Rightarrow> ident option" where
  "one_in_flight_key t = (if t_status t = ''in_flight'' then t_run t else None)"

definition client_req_key :: "turn \<Rightarrow> (ident \<times> string) option" where
  "client_req_key t = map_option (Pair (t_conversation t)) (t_crid t)"

definition native_key :: "turn \<Rightarrow> (string \<times> string) option" where
  "native_key t =
     (case t_native_turn t of None \<Rightarrow> None | Some n \<Rightarrow> map_option (\<lambda>s. (s, n)) (t_native_session t))"

definition one_queued_key :: "turn \<Rightarrow> (string \<times> ident) option" where
  "one_queued_key t = (if t_status t = ''queued'' then Some (t_queue_class t, t_conversation t) else None)"

definition turns_ok :: "turn table \<Rightarrow> bool" where
  "turns_ok ts \<longleftrightarrow> distinct (map fst ts) \<and> list_all (\<lambda>e. check_turn (snd e)) ts
     \<and> unique_index one_in_flight_key ts \<and> unique_index client_req_key ts
     \<and> unique_index native_key ts \<and> unique_index one_queued_key ts
     \<and> unique_index t_source_event ts"

section \<open>CHECKs and the unique index of \<open>runs\<close>\<close>

definition LIVE :: "string list" where
  "LIVE = [''starting'', ''running'', ''stopping'']"

definition check_run :: "run \<Rightarrow> bool" where
  "check_run r \<longleftrightarrow> List.member RUN_STATES (r_state r)
     \<and> List.member [''idle'', ''working'', ''blocked'', ''unknown''] (r_agent_status r)"

definition one_active_key :: "run \<Rightarrow> ident option" where
  "one_active_key r = (if List.member LIVE (r_state r) then Some (r_bot r) else None)"

definition runs_ok :: "run table \<Rightarrow> bool" where
  "runs_ok rs \<longleftrightarrow> distinct (map fst rs) \<and> list_all (\<lambda>e. check_run (snd e)) rs \<and> unique_index one_active_key rs"

section \<open>Queries of \<open>db.rs\<close>\<close>

definition active_run :: "db \<Rightarrow> ident \<Rightarrow> (ident \<times> run) option" where
  "active_run d b = List.find (\<lambda>(i, r). r_bot r = b \<and> List.member LIVE (r_state r)) (runs d)"

definition in_flight_turn :: "db \<Rightarrow> ident \<Rightarrow> (ident \<times> turn) option" where
  "in_flight_turn d rid = List.find (\<lambda>(i, t). t_run t = Some rid \<and> t_status t = ''in_flight'') (turns d)"

definition lane :: "turn \<Rightarrow> nat" where
  "lane t = (if t_queue_class t = ''user'' then 0 else if t_queue_class t = ''relay'' then 1 else 2)"

text \<open>\<open>ORDER BY lane, created_at, id LIMIT 1\<close>: the least row, the first one of equal rows.\<close>

fun least_by :: "('a \<Rightarrow> 'a \<Rightarrow> bool) \<Rightarrow> 'a list \<Rightarrow> 'a option" where
  "least_by lt [] = None"
| "least_by lt (x # xs) = (case least_by lt xs of None \<Rightarrow> Some x | Some y \<Rightarrow> Some (if lt y x then y else x))"

definition queue_before :: "ident \<times> turn \<Rightarrow> ident \<times> turn \<Rightarrow> bool" where
  "queue_before x y \<longleftrightarrow> lane (snd x) < lane (snd y)
     \<or> lane (snd x) = lane (snd y)
       \<and> (t_created_at (snd x) < t_created_at (snd y)
          \<or> t_created_at (snd x) = t_created_at (snd y) \<and> fst x < fst y)"

definition queued_turn :: "db \<Rightarrow> ident \<Rightarrow> (ident \<times> turn) option" where
  "queued_turn d conv =
     least_by queue_before (filter (\<lambda>(i, t). t_conversation t = conv \<and> t_status t = ''queued'') (turns d))"

text \<open>\<open>claim_resend\<close> and \<open>refund_resend\<close>: the budget of automatic re-deliveries of a turn.\<close>

definition claim_resend :: "ident \<Rightarrow> int \<Rightarrow> db \<Rightarrow> db_error + bool \<times> db" where
  "claim_resend i m d =
     bind_res (update_by_id (\<lambda>_ _. False) turns_ok i (\<lambda>t. t_resend_count t < m)
                 (\<lambda>t. t\<lparr>t_resend_count := t_resend_count t + 1\<rparr>) (turns d))
       (\<lambda>(ts, n). Inr (0 < n, d\<lparr>turns := ts\<rparr>))"

definition refund_resend :: "ident \<Rightarrow> db \<Rightarrow> db_error + unit \<times> db" where
  "refund_resend i d =
     bind_res (update_by_id (\<lambda>_ _. False) turns_ok i (\<lambda>t. 0 < t_resend_count t)
                 (\<lambda>t. t\<lparr>t_resend_count := t_resend_count t - 1\<rparr>) (turns d))
       (\<lambda>(ts, n). Inr ((), d\<lparr>turns := ts\<rparr>))"

section \<open>What the indexes give\<close>

lemma turns_ok_rows: "turns_ok ts \<Longrightarrow> map_of ts i = Some t \<Longrightarrow> check_turn t"
  by (force simp: turns_ok_def list_all_iff dest: map_of_SomeD)

lemma one_turn_in_flight:
  assumes "turns_ok ts" "map_of ts i = Some t" "map_of ts j = Some u"
    "t_status t = ''in_flight''" "t_status u = ''in_flight''" "t_run t = Some r" "t_run u = Some r"
  shows "i = j"
  using assms unique_indexD [of one_in_flight_key ts i t j u r]
  by (simp add: turns_ok_def one_in_flight_key_def)

lemma one_turn_queued:
  assumes "turns_ok ts" "map_of ts i = Some t" "map_of ts j = Some u"
    "t_status t = ''queued''" "t_status u = ''queued''"
    "t_conversation t = t_conversation u" "t_queue_class t = t_queue_class u"
  shows "i = j"
  using assms unique_indexD [of one_queued_key ts i t j u "(t_queue_class t, t_conversation t)"]
  by (simp add: turns_ok_def one_queued_key_def)

lemma one_run_active:
  assumes "runs_ok rs" "map_of rs i = Some r" "map_of rs j = Some s"
    "r_state r \<in> set LIVE" "r_state s \<in> set LIVE" "r_bot r = r_bot s"
  shows "i = j"
  using assms unique_indexD [of one_active_key rs i r j s "r_bot r"]
  by (simp add: runs_ok_def one_active_key_def)

lemma least_by_in: "least_by lt xs = Some y \<Longrightarrow> y \<in> set xs"
  by (induction xs arbitrary: y) (auto split: option.splits if_splits)

lemma least_by_None [simp]: "least_by lt xs = None \<longleftrightarrow> xs = []"
  by (cases xs) (auto split: option.splits)

end
