(* ===== verification/Admission.thy ===== *)
theory Admission
  imports Store_Schema
begin

text \<open>
  The three conditions the claim of a queued turn carries in its own WHERE clause: the assignment
  it belongs to is still wanted (\<open>queue::WITHDRAWN_ASSIGNMENT\<close>), its schedule still stands
  (\<open>queue::scheduled_turn_allowed_sql\<close>), and every bot-to-bot message in it is still covered by a
  grant (\<open>relay_grant.rs\<close>).
\<close>

section \<open>Withdrawn assignments\<close>

definition WITHDRAWN_ASSIGNMENT :: "string list" where
  "WITHDRAWN_ASSIGNMENT = [''cancelled'', ''superseded'', ''failed'', ''blocked'', ''quota_blocked'']"

definition assignment_withdrawn :: "db \<Rightarrow> ident \<Rightarrow> bool" where
  "assignment_withdrawn d tid =
     list_ex (\<lambda>(_, a). a_turn a = Some tid \<and> List.member WITHDRAWN_ASSIGNMENT (a_status a)) (assignments d)"

section \<open>Schedules\<close>

definition scheduled_turn_allowed :: "db \<Rightarrow> ident \<Rightarrow> bool" where
  "scheduled_turn_allowed d tid =
     (\<not> list_ex (\<lambda>(_, oc). o_turn oc = Some tid \<and>
          (\<not> List.member [''pending'', ''queued''] (o_status oc) \<or>
           (case map_of (schedules d) (o_schedule oc) of
              None \<Rightarrow> True
            | Some s \<Rightarrow> \<not> s_enabled s \<or> s_deleted_at s \<noteq> None \<or> o_generation oc \<noteq> s_generation s)))
        (occurrences d))"

section \<open>Relay grants\<close>

text \<open>\<open>instr(hay, needle) > 0\<close> for a non-empty needle: the needle occurs in the text.\<close>

fun starts :: "string \<Rightarrow> string \<Rightarrow> bool" where
  "starts [] ys = True"
| "starts (x # xs) [] = False"
| "starts (x # xs) (y # ys) = (x = y \<and> starts xs ys)"

fun instr :: "string \<Rightarrow> string \<Rightarrow> bool" where
  "instr [] needle = starts needle []"
| "instr (c # cs) needle = (starts needle (c # cs) \<or> instr cs needle)"

definition has_item :: "string \<Rightarrow> string \<Rightarrow> bool" where
  "has_item auth item = instr ('','' @ auth @ '','') ('','' @ item @ '','')"

definition needs_grant :: "db \<Rightarrow> ident \<Rightarrow> ident \<Rightarrow> bool" where
  "needs_grant d frm to =
     (case (map_of (bots d) frm, map_of (bots d) to) of
        (Some s, Some x) \<Rightarrow>
          (case map_of (projects d) (b_project s) of
             None \<Rightarrow> False
           | Some p \<Rightarrow> b_project x = b_project s \<and> p_mode p = ''expert''
               \<and> b_role s = Some ''specialist'' \<and> b_role x = Some ''executor''
               \<and> b_parent s = None \<and> b_parent x = None)
      | _ \<Rightarrow> False)"

definition specialist_grant :: "db \<Rightarrow> ident \<Rightarrow> ident \<Rightarrow> string \<Rightarrow> bool" where
  "specialist_grant d frm to auth =
     (case (map_of (bots d) frm, map_of (bots d) to) of
        (Some s, Some x) \<Rightarrow>
          (case map_of (projects d) (b_project s) of
             None \<Rightarrow> False
           | Some p \<Rightarrow> b_project x = b_project s \<and> has_item auth (''specialist:'' @ b_project s)
               \<and> p_mode p = ''expert'' \<and> p_specialist_dispatch p = 1 \<and> p_deleted_at p = None
               \<and> p_handed_off_to p = None
               \<and> b_deleted_at s = None \<and> b_deleted_at x = None \<and> b_parent s = None \<and> b_parent x = None
               \<and> b_role s = Some ''specialist'' \<and> b_role x = Some ''executor'')
      | _ \<Rightarrow> False)"

definition deputy_grant :: "db \<Rightarrow> ident \<Rightarrow> ident \<Rightarrow> string \<Rightarrow> bool" where
  "deputy_grant d frm to auth =
     (case (map_of (bots d) frm, map_of (bots d) to) of
        (Some s, Some x) \<Rightarrow>
          (case map_of (projects d) (b_project s) of
             None \<Rightarrow> False
           | Some p \<Rightarrow> b_project x = b_project s \<and> has_item auth (''deputy:'' @ b_project s)
               \<and> p_mode p = ''expert'' \<and> p_deleted_at p = None \<and> p_handed_off_to p = None
               \<and> p_deputy_bot_id p = Some frm
               \<and> b_deleted_at s = None \<and> b_deleted_at x = None
               \<and> list_ex (\<lambda>(_, q). q_to_bot q = frm \<and> q_redirected_from q \<noteq> None
                            \<and> List.member [''pending'', ''delivered''] (q_state q)) (relay_requests d))
      | _ \<Rightarrow> False)"

definition relay_allowed :: "db \<Rightarrow> ident option \<Rightarrow> ident \<Rightarrow> string option \<Rightarrow> bool" where
  "relay_allowed d frm to auth =
     (case frm of
        None \<Rightarrow> True
      | Some f \<Rightarrow>
          (case auth of
             None \<Rightarrow> \<not> needs_grant d f to
           | Some a \<Rightarrow> specialist_grant d f to a \<or> deputy_grant d f to a))"

definition queued_turn_grants_ok :: "db \<Rightarrow> ident \<Rightarrow> bool" where
  "queued_turn_grants_ok d tid =
     (case map_of (turns d) tid of
        None \<Rightarrow> True
      | Some t \<Rightarrow>
          (case map_of (conversations d) (t_conversation t) of
             None \<Rightarrow> True
           | Some to \<Rightarrow>
               \<not> list_ex (\<lambda>(_, m). m_turn m = Some tid \<and> t_queue_class t = ''relay'' \<and> m_role m = ''user''
                    \<and> m_relay_from m \<noteq> None \<and> \<not> m_relay_unverified m
                    \<and> \<not> relay_allowed d (m_relay_from m) to (m_relay_auth m)) (messages d)))"

section \<open>Facts\<close>

lemma grants_okD:
  assumes "queued_turn_grants_ok d tid" "map_of (turns d) tid = Some t" "t_queue_class t = ''relay''"
    "map_of (conversations d) (t_conversation t) = Some to"
    "(mi, m) \<in> set (messages d)" "m_turn m = Some tid" "m_role m = ''user''"
    "m_relay_from m = Some f" "\<not> m_relay_unverified m"
  shows "relay_allowed d (Some f) to (m_relay_auth m)"
  using assms by (force simp: queued_turn_grants_ok_def list_ex_iff)

lemma specialist_grant_switch:
  "specialist_grant d f to a \<Longrightarrow>
     \<exists>s p. map_of (bots d) f = Some s \<and> map_of (projects d) (b_project s) = Some p
       \<and> p_specialist_dispatch p = 1 \<and> p_deleted_at p = None \<and> p_handed_off_to p = None"
  by (auto simp: specialist_grant_def split: option.splits)

lemma deputy_grant_acting:
  "deputy_grant d f to a \<Longrightarrow>
     \<exists>s p. map_of (bots d) f = Some s \<and> map_of (projects d) (b_project s) = Some p
       \<and> p_deputy_bot_id p = Some f \<and> p_deleted_at p = None \<and> p_handed_off_to p = None"
  by (auto simp: deputy_grant_def split: option.splits)

end
