(* ===== verification/Turn_Controller.thy ===== *)
theory Turn_Controller
  imports Status_Tables Admission
begin

text \<open>
  The only writer of \<open>turns.status\<close>
  (\<open>crates/am-lifecycle/src/lifecycle/turn_controller.rs\<close>): one function per shape of UPDATE,
  each a compare-and-set on the status it starts from, run under the trigger and the indexes of
  the table. \<open>now\<close> is the clock reading \<open>db::now()\<close> of the call.
\<close>

datatype fence_reason = Api_Owner_Gone | Not_Admitted_Generation | Claim_Precondition

datatype outcome = Applied | Raced string | Missing | Fenced fence_reason

datatype delivery_on_fail = Keep | Failed | FailedIfUnknown

type_synonym turn_result = "db_error + outcome \<times> db"

fun delivery_sql :: "delivery_on_fail \<Rightarrow> string \<Rightarrow> string" where
  "delivery_sql Keep dl = dl"
| "delivery_sql Failed dl = ''failed''"
| "delivery_sql FailedIfUnknown dl = (if dl = ''unknown'' then ''failed'' else dl)"

fun coalesce :: "'a option \<Rightarrow> 'a \<Rightarrow> 'a option" where
  "coalesce (Some x) y = Some x"
| "coalesce None y = Some y"

text \<open>One UPDATE of \<open>turns\<close> by id, under \<open>turns_status_transition\<close> and the indexes.\<close>

definition update_turn :: "ident \<Rightarrow> (turn \<Rightarrow> bool) \<Rightarrow> (turn \<Rightarrow> turn) \<Rightarrow> db \<Rightarrow> db_error + db \<times> nat" where
  "update_turn i w f d =
     bind_res (update_by_id (\<lambda>old new. guard_aborts (t_status old) (t_status new)) turns_ok i w f (turns d))
       (\<lambda>(ts, n). Inr (d\<lparr>turns := ts\<rparr>, n))"

text \<open>The compare-and-set missed: say what the row is now.\<close>

definition settled :: "db \<Rightarrow> ident \<Rightarrow> outcome" where
  "settled d i = (case map_of (turns d) i of Some t \<Rightarrow> Raced (t_status t) | None \<Rightarrow> Missing)"

definition settled_or_fenced :: "db \<Rightarrow> ident \<Rightarrow> string \<Rightarrow> fence_reason \<Rightarrow> outcome" where
  "settled_or_fenced d i frm fenced =
     (if map_option t_status (map_of (turns d) i) = Some frm then Fenced fenced else settled d i)"

definition edge :: "string \<Rightarrow> string \<Rightarrow> db_error + unit" where
  "edge frm to = (if is_legal frm to then Inr () else Inl (Bail ''illegal turn status transition''))"

definition fail_on :: "ident \<Rightarrow> delivery_on_fail \<Rightarrow> time \<Rightarrow> db \<Rightarrow> turn_result" where
  "fail_on i dl now d =
     bind_res (update_turn i (\<lambda>t. t_status t = ''in_flight'')
        (\<lambda>t. t\<lparr>t_status := ''failed'', t_delivery := delivery_sql dl (t_delivery t),
               t_completed_at := coalesce (t_completed_at t) now\<rparr>) d)
       (\<lambda>(d', n). Inr (if 0 < n then Applied else settled d' i, d'))"

definition set_status_on :: "ident \<Rightarrow> string \<Rightarrow> string \<Rightarrow> time \<Rightarrow> db \<Rightarrow> turn_result" where
  "set_status_on i frm to now d =
     bind_res (edge frm to) (\<lambda>_.
     bind_res (update_turn i (\<lambda>t. t_status t = frm)
        (\<lambda>t. t\<lparr>t_status := to,
               t_completed_at := (if is_terminal to then coalesce (t_completed_at t) now else t_completed_at t)\<rparr>) d)
       (\<lambda>(d', n). Inr (if 0 < n then Applied else settled d' i, d')))"

record native_evidence_rec =
  ev_session :: "string option"
  ev_turn :: "string option"

text \<open>
  \<open>Admitted\<close>: the proof that the fence let an event of this run through. Its field is private in
  the source; only \<open>Ownership::admit\<close> (theory \<open>Fence\<close>) makes one.
\<close>

datatype admitted = Admitted (run_id: ident)

definition api_owner_live :: "db \<Rightarrow> turn \<Rightarrow> ident \<Rightarrow> ident \<Rightarrow> bool" where
  "api_owner_live d t bot_id rid =
     (case map_of (runs d) rid of
        None \<Rightarrow> False
      | Some r \<Rightarrow>
          (case map_of (bots d) (r_bot r) of
             None \<Rightarrow> False
           | Some b \<Rightarrow> r_state r = ''running'' \<and> r_bot r = bot_id \<and> b_kind b = ''claude-api''
               \<and> b_deleted_at b = None \<and> map_of (conversations d) (t_conversation t) = Some (r_bot r)))"

definition api_bot_terminal_on :: "ident \<Rightarrow> ident \<Rightarrow> ident \<Rightarrow> string \<Rightarrow> time \<Rightarrow> db \<Rightarrow> turn_result" where
  "api_bot_terminal_on bot_id rid i target now d =
     bind_res (edge ''in_flight'' target) (\<lambda>_.
     bind_res (update_turn i
        (\<lambda>t. t_run t = Some rid \<and> t_status t = ''in_flight'' \<and> api_owner_live d t bot_id rid)
        (\<lambda>t. t\<lparr>t_status := target, t_completed_at := coalesce (t_completed_at t) now\<rparr>) d)
       (\<lambda>(d', n). if n = 1 then Inr (Applied, d')
                  else if n = 0 then Inr (settled_or_fenced d' i ''in_flight'' Api_Owner_Gone, d')
                  else Inl (Bail ''API-bot completion changed more than one turn'')))"

definition complete_api_bot_on :: "ident \<Rightarrow> ident \<Rightarrow> ident \<Rightarrow> time \<Rightarrow> db \<Rightarrow> turn_result" where
  "complete_api_bot_on bot_id rid i now d = api_bot_terminal_on bot_id rid i ''completed'' now d"

definition fail_api_bot_on :: "ident \<Rightarrow> ident \<Rightarrow> ident \<Rightarrow> time \<Rightarrow> db \<Rightarrow> turn_result" where
  "fail_api_bot_on bot_id rid i now d = api_bot_terminal_on bot_id rid i ''failed'' now d"

definition complete_with_native_evidence ::
  "ident \<Rightarrow> admitted \<Rightarrow> native_evidence_rec \<Rightarrow> time \<Rightarrow> db \<Rightarrow> turn_result" where
  "complete_with_native_evidence i adm ev now d =
     bind_res (edge ''in_flight'' ''completed'') (\<lambda>_.
     bind_res (update_turn i (\<lambda>t. t_status t = ''in_flight'' \<and> t_run t = Some (run_id adm))
        (\<lambda>t. t\<lparr>t_status := ''completed'',
               t_delivery := (if t_delivery t = ''unknown'' then ''ok'' else t_delivery t),
               t_delivery_verified := True,
               t_completed_at := coalesce (t_completed_at t) now,
               t_native_session := ev_session ev, t_native_turn := ev_turn ev\<rparr>) d)
       (\<lambda>(d', n). Inr (if 0 < n then Applied
                       else settled_or_fenced d' i ''in_flight'' Not_Admitted_Generation, d')))"

definition fail_with_native_evidence ::
  "ident \<Rightarrow> admitted \<Rightarrow> native_evidence_rec \<Rightarrow> time \<Rightarrow> db \<Rightarrow> turn_result" where
  "fail_with_native_evidence i adm ev now d =
     bind_res (edge ''in_flight'' ''failed'') (\<lambda>_.
     bind_res (update_turn i (\<lambda>t. t_status t = ''in_flight'' \<and> t_run t = Some (run_id adm))
        (\<lambda>t. t\<lparr>t_status := ''failed'', t_completed_at := coalesce (t_completed_at t) now,
               t_native_session := ev_session ev, t_native_turn := ev_turn ev\<rparr>) d)
       (\<lambda>(d', n). Inr (if 0 < n then Applied
                       else settled_or_fenced d' i ''in_flight'' Not_Admitted_Generation, d')))"

definition run_running :: "db \<Rightarrow> ident \<Rightarrow> bool" where
  "run_running d rid = (case map_of (runs d) rid of None \<Rightarrow> False | Some r \<Rightarrow> r_state r = ''running'')"

definition claim_queued :: "ident \<Rightarrow> ident \<Rightarrow> db \<Rightarrow> turn_result" where
  "claim_queued i rid d =
     bind_res (edge ''queued'' ''in_flight'') (\<lambda>_.
     bind_res (update_turn i
        (\<lambda>t. t_status t = ''queued'' \<and> run_running d rid \<and> \<not> assignment_withdrawn d i
           \<and> scheduled_turn_allowed d i \<and> queued_turn_grants_ok d i)
        (\<lambda>t. t\<lparr>t_status := ''in_flight'', t_run := Some rid, t_auto_resend := False,
               t_claimed_from_queue := True\<rparr>) d)
       (\<lambda>(d', n). Inr (if 0 < n then Applied
                       else settled_or_fenced d' i ''queued'' Claim_Precondition, d')))"

definition return_to_queue :: "ident \<Rightarrow> time \<Rightarrow> db \<Rightarrow> turn_result" where
  "return_to_queue i next_flush_at d =
     bind_res (edge ''in_flight'' ''queued'') (\<lambda>_.
     bind_res (update_turn i (\<lambda>t. t_status t = ''in_flight'')
        (\<lambda>t. t\<lparr>t_status := ''queued'', t_run := None, t_flush_retries := t_flush_retries t + 1,
               t_next_flush_at := Some next_flush_at\<rparr>) d)
       (\<lambda>(d', n). Inr (if 0 < n then Applied else settled d' i, d')))"

definition return_to_queue_unspent :: "ident \<Rightarrow> time \<Rightarrow> db \<Rightarrow> turn_result" where
  "return_to_queue_unspent i next_flush_at d =
     bind_res (edge ''in_flight'' ''queued'') (\<lambda>_.
     bind_res (update_turn i (\<lambda>t. t_status t = ''in_flight'')
        (\<lambda>t. t\<lparr>t_status := ''queued'', t_run := None, t_next_flush_at := Some next_flush_at\<rparr>) d)
       (\<lambda>(d', n). Inr (if 0 < n then Applied else settled d' i, d')))"

definition retract_queued :: "ident \<Rightarrow> time \<Rightarrow> db \<Rightarrow> turn_result" where
  "retract_queued i now d =
     bind_res (edge ''queued'' ''failed'') (\<lambda>_.
     bind_res (update_turn i (\<lambda>t. t_status t = ''queued'')
        (\<lambda>t. t\<lparr>t_status := ''failed'', t_delivery := ''failed'',
               t_completed_at := coalesce (t_completed_at t) now, t_next_flush_at := None\<rparr>) d)
       (\<lambda>(d', n). Inr (if 0 < n then Applied else settled d' i, d')))"

text \<open>
  \<open>abandon_api_run_turns_on\<close>: a restart fails every active turn of one API-bot run in a single
  statement, which the trigger and the indexes check row by row.
\<close>

definition abandons :: "db \<Rightarrow> ident \<Rightarrow> ident \<Rightarrow> turn \<Rightarrow> bool" where
  "abandons d bot_id rid t \<longleftrightarrow> t_run t = Some rid \<and> List.member [''in_flight'', ''queued''] (t_status t)
     \<and> (case (map_of (conversations d) (t_conversation t), map_of (runs d) rid, map_of (bots d) bot_id) of
          (Some c, Some r, Some b) \<Rightarrow> r_bot r = c \<and> bot_id = r_bot r \<and> b_kind b = ''claude-api''
             \<and> List.member [''starting'', ''running'', ''stopping''] (r_state r)
        | _ \<Rightarrow> False)"

definition abandon_api_run_turns_on :: "ident \<Rightarrow> ident \<Rightarrow> time \<Rightarrow> db \<Rightarrow> db_error + nat \<times> db" where
  "abandon_api_run_turns_on bot_id rid now d =
     bind_res (edge ''in_flight'' ''failed'') (\<lambda>_.
     bind_res (edge ''queued'' ''failed'') (\<lambda>_.
     bind_res (update_where (\<lambda>old new. guard_aborts (t_status old) (t_status new)) turns_ok (abandons d bot_id rid)
        (\<lambda>t. t\<lparr>t_status := ''failed'', t_completed_at := coalesce (t_completed_at t) now,
               t_delivery := (if t_status t = ''queued'' then ''failed'' else t_delivery t)\<rparr>) (turns d))
       (\<lambda>(ts, n). Inr (n, d\<lparr>turns := ts\<rparr>))))"

end
