(* ===== verification/Sample_Data.thy ===== *)
theory Sample_Data
  imports Store_Schema
begin

text \<open>
  A small database the witnesses run on: one expert project, a specialist bot, an executor bot
  with a running run and one queued and one finished turn, and an exited older run.
\<close>

definition mk_turn :: "ident \<Rightarrow> ident option \<Rightarrow> string \<Rightarrow> turn" where
  "mk_turn conv rid st =
     \<lparr>t_conversation = conv, t_run = rid, t_status = st, t_delivery = ''pending'', t_crid = None,
      t_queue_class = ''user'', t_native_session = None, t_native_turn = None, t_created_at = 10,
      t_completed_at = (if is_terminal st then Some 20 else None), t_prompt_text = Some ''hello'',
      t_delivery_verified = False, t_auto_resend = True, t_claimed_from_queue = False,
      t_flush_retries = 0, t_next_flush_at = None, t_resend_count = 0, t_awaits_start = False,
      t_awaits_idle = False, t_rollout_waits = 0, t_rollout_wait_key = None, t_source_event = None\<rparr>"

definition mk_run :: "ident \<Rightarrow> string \<Rightarrow> string option \<Rightarrow> run" where
  "mk_run b st sess =
     \<lparr>r_bot = b, r_state = st, r_agent_status = ''idle'', r_pane = Some ''%1'', r_adopted = False,
      r_native_session = sess, r_resume_session = None, r_started_at = 0, r_ended_at = None,
      r_exit_reason = None\<rparr>"

definition mk_bot :: "string \<Rightarrow> string option \<Rightarrow> bot" where
  "mk_bot kind role =
     \<lparr>b_project = ''P'', b_kind = kind, b_role = role, b_parent = None, b_deleted_at = None\<rparr>"

definition sample :: db where
  "sample =
     \<lparr>projects = [(''P'', \<lparr>p_mode = ''expert'', p_specialist_dispatch = 1, p_deleted_at = None,
                            p_handed_off_to = None, p_deputy_bot_id = None\<rparr>)],
      bots = [(''spec'', mk_bot ''claude'' (Some ''specialist'')), (''B'', mk_bot ''claude'' (Some ''executor''))],
      conversations = [(''C'', ''B'')],
      runs = [(''R0'', mk_run ''B'' ''exited'' (Some ''s0'')), (''R1'', mk_run ''B'' ''running'' (Some ''s1''))],
      turns = [(''T0'', mk_turn ''C'' (Some ''R0'') ''completed''), (''T1'', mk_turn ''C'' None ''queued'')],
      messages = [], assignments = [], schedules = [], occurrences = [], relay_requests = [],
      inbox = [], reviews = [], requests = []\<rparr>"

lemma map_filter_nil_cons [simp]:
  "unique_index key []"
  "unique_index key ((i, r) # t) \<longleftrightarrow>
     (case key r of None \<Rightarrow> unique_index key t
      | Some k \<Rightarrow> (\<forall>e \<in> set t. key (snd e) \<noteq> Some k) \<and> unique_index key t)"
  by (auto simp: unique_index_def split: option.splits)

lemma sample_turns_ok: "turns_ok (turns sample)"
  by (simp add: sample_def turns_ok_def check_turn_def TURN_STATUSES_def mk_turn_def
      one_in_flight_key_def client_req_key_def native_key_def one_queued_key_def)

lemma sample_runs_ok: "runs_ok (runs sample)"
  by (simp add: sample_def runs_ok_def check_run_def RUN_STATES_def LIVE_def mk_run_def one_active_key_def)

end
