(* ===== verification/Turn_Safety.thy ===== *)
theory Turn_Safety
  imports Turn_Controller Sample_Data
begin

text \<open>
  What the turn controller guarantees, for every interleaving of its operations: the instance of
  the status-table contract, the indexes as invariants, the completion stamp, and the exact
  effect of each operation.
\<close>

section \<open>Operations as data\<close>

datatype turn_op =
    Fail_On ident delivery_on_fail time
  | Set_Status ident string string time
  | Complete_Api ident ident ident time
  | Fail_Api ident ident ident time
  | Complete_Native ident admitted native_evidence_rec time
  | Fail_Native ident admitted native_evidence_rec time
  | Claim ident ident
  | Return_Queue ident time
  | Return_Unspent ident time
  | Retract ident time

fun turn_exec :: "turn_op \<Rightarrow> db \<Rightarrow> turn_result" where
  "turn_exec (Fail_On i dl now) = fail_on i dl now"
| "turn_exec (Set_Status i frm to now) = set_status_on i frm to now"
| "turn_exec (Complete_Api b r i now) = complete_api_bot_on b r i now"
| "turn_exec (Fail_Api b r i now) = fail_api_bot_on b r i now"
| "turn_exec (Complete_Native i adm ev now) = complete_with_native_evidence i adm ev now"
| "turn_exec (Fail_Native i adm ev now) = fail_with_native_evidence i adm ev now"
| "turn_exec (Claim i r) = claim_queued i r"
| "turn_exec (Return_Queue i at) = return_to_queue i at"
| "turn_exec (Return_Unspent i at) = return_to_queue_unspent i at"
| "turn_exec (Retract i now) = retract_queued i now"

fun turn_target :: "turn_op \<Rightarrow> ident" where
  "turn_target (Fail_On i _ _) = i"
| "turn_target (Set_Status i _ _ _) = i"
| "turn_target (Complete_Api _ _ i _) = i"
| "turn_target (Fail_Api _ _ i _) = i"
| "turn_target (Complete_Native i _ _ _) = i"
| "turn_target (Fail_Native i _ _ _) = i"
| "turn_target (Claim i _) = i"
| "turn_target (Return_Queue i _) = i"
| "turn_target (Return_Unspent i _) = i"
| "turn_target (Retract i _) = i"

definition turn_perform :: "turn_op \<Rightarrow> db \<Rightarrow> db" where
  "turn_perform op d = kept (turn_exec op d) d"

text \<open>
  Any statement of any path, present or future: a controller operation, the abandonment of an API
  run, a raw \<open>UPDATE turns SET f WHERE id=? AND w\<close>, or a raw UPDATE of any set of rows, which
  go past the controller and meet only the trigger and the indexes.
\<close>

datatype turn_stmt =
    Ctl turn_op
  | Abandon ident ident time
  | Raw ident "turn \<Rightarrow> bool" "turn \<Rightarrow> turn"
  | Bulk "turn \<Rightarrow> bool" "turn \<Rightarrow> turn"

definition update_turns :: "(turn \<Rightarrow> bool) \<Rightarrow> (turn \<Rightarrow> turn) \<Rightarrow> db \<Rightarrow> db_error + nat \<times> db" where
  "update_turns p f d =
     bind_res (update_where (\<lambda>old new. guard_aborts (t_status old) (t_status new)) turns_ok p f (turns d))
       (\<lambda>(ts, n). Inr (n, d\<lparr>turns := ts\<rparr>))"

fun stmt_perform :: "turn_stmt \<Rightarrow> db \<Rightarrow> db" where
  "stmt_perform (Ctl op) d = turn_perform op d"
| "stmt_perform (Abandon b rid now) d = kept (abandon_api_run_turns_on b rid now d) d"
| "stmt_perform (Raw i w f) d = (case update_turn i w f d of Inl _ \<Rightarrow> d | Inr (d', _) \<Rightarrow> d')"
| "stmt_perform (Bulk p f) d = kept (update_turns p f d) d"

section \<open>One statement\<close>

definition hit :: "ident \<Rightarrow> (turn \<Rightarrow> bool) \<Rightarrow> (turn \<Rightarrow> turn) \<Rightarrow> db \<Rightarrow> db \<Rightarrow> bool" where
  "hit i w f d d' \<longleftrightarrow> (\<exists>t. map_of (turns d) i = Some t \<and> w t \<and> is_legal (t_status t) (t_status (f t))
     \<and> d' = d\<lparr>turns := upd_row i f (turns d)\<rparr> \<and> turns_ok (upd_row i f (turns d)))"

definition missed :: "ident \<Rightarrow> (turn \<Rightarrow> bool) \<Rightarrow> db \<Rightarrow> bool" where
  "missed i w d \<longleftrightarrow> (\<forall>t. map_of (turns d) i = Some t \<longrightarrow> \<not> w t)"

lemma update_turn_cases:
  assumes "update_turn i w f d = Inr (d', n)"
  shows "n = 0 \<and> d' = d \<and> missed i w d \<or> n = 1 \<and> hit i w f d d'"
proof -
  obtain ts where u: "update_by_id (\<lambda>old new. guard_aborts (t_status old) (t_status new)) turns_ok i w f (turns d) = Inr (ts, n)"
      and d': "d' = d\<lparr>turns := ts\<rparr>"
    using assms by (auto simp: update_turn_def elim!: bind_res_InrE)
  show ?thesis
    using u by (cases rule: update_by_id_cases) (auto simp: d' missed_def hit_def guard_aborts_iff)
qed

lemma update_turn_then:
  assumes "bind_res (update_turn i w f d) (\<lambda>(d', n). Inr (if 0 < n then Applied else g d', d')) = Inr (out, d')"
  shows "out = g d \<and> d' = d \<and> missed i w d \<or> out = Applied \<and> hit i w f d d'"
  using assms by (auto elim!: bind_res_InrE dest!: update_turn_cases)

lemma update_turn_then3:
  assumes "bind_res (update_turn i w f d) (\<lambda>(d', n). if n = Suc 0 then Inr (Applied, d')
     else if n = 0 then Inr (g d', d') else Inl e) = Inr (out, d')"
  shows "out = g d \<and> d' = d \<and> missed i w d \<or> out = Applied \<and> hit i w f d d'"
  using assms by (auto elim!: bind_res_InrE dest!: update_turn_cases split: if_splits)

lemma edge_Inr [simp]: "edge a b = Inr u \<longleftrightarrow> is_legal a b"
  by (auto simp: edge_def)

lemma legal_edges [simp]:
  "is_legal ''in_flight'' ''completed''" "is_legal ''in_flight'' ''failed''"
  "is_legal ''queued'' ''in_flight''" "is_legal ''in_flight'' ''queued''" "is_legal ''queued'' ''failed''"
  by (simp_all add: is_legal_iff)

lemmas controller_defs =
  fail_on_def set_status_on_def api_bot_terminal_on_def complete_api_bot_on_def fail_api_bot_on_def
  complete_with_native_evidence_def fail_with_native_evidence_def claim_queued_def
  return_to_queue_def return_to_queue_unspent_def retract_queued_def

lemma settled_not_Applied [simp]: "settled d i \<noteq> Applied" "settled_or_fenced d i a r \<noteq> Applied"
    "Applied \<noteq> settled d i" "Applied \<noteq> settled_or_fenced d i a r"
  by (auto simp: settled_def settled_or_fenced_def split: option.splits)

text \<open>Every controller operation either did nothing and said so, or was one hit on its target.\<close>

lemma turn_exec_cases:
  assumes "turn_exec op d = Inr (out, d')"
  shows "out \<noteq> Applied \<and> d' = d \<or> out = Applied \<and> (\<exists>w f. hit (turn_target op) w f d d')"
  using assms
  by (cases op) (auto simp: controller_defs edge_def split: if_splits
      dest!: update_turn_then update_turn_then3)

lemma hit_rows:
  assumes "hit i w f d d'"
  shows "\<exists>t. map_of (turns d) i = Some t \<and> w t \<and> map_of (turns d') i = Some (f t)
           \<and> is_legal (t_status t) (t_status (f t)) \<and> turns_ok (turns d')"
    and "j \<noteq> i \<Longrightarrow> map_of (turns d') j = map_of (turns d) j"
    and "d'\<lparr>turns := turns d\<rparr> = d"
  using assms by (auto simp: hit_def)

section \<open>The contract\<close>

definition turn_status_of :: "db \<Rightarrow> ident \<Rightarrow> string option" where
  "turn_status_of d i = map_option t_status (map_of (turns d) i)"

lemma hit_edge:
  assumes "hit k w f d d'" "turn_status_of d i = Some a"
  shows "\<exists>b. turn_status_of d' i = Some b \<and> (a = b \<or> is_legal a b)"
  using hit_rows(1) [OF assms(1)] hit_rows(2) [OF assms(1), of i] assms(2)
  by (cases "i = k") (auto simp: turn_status_of_def)

lemma turn_perform_cases: "turn_perform op d = d \<or> (\<exists>w f. hit (turn_target op) w f d (turn_perform op d))"
proof (cases "turn_exec op d")
  case (Inl e)
  then show ?thesis by (simp add: turn_perform_def)
next
  case (Inr p)
  obtain out d' where "p = (out, d')" by (cases p)
  with Inr show ?thesis using turn_exec_cases [of op d out d'] by (auto simp: turn_perform_def)
qed

lemma update_turns_moves:
  assumes "update_turns p f d = Inr (n, d')"
  shows "turns_ok (turns d')" and "turn_status_of d i = Some a \<Longrightarrow> \<exists>b. turn_status_of d' i = Some b \<and> (a = b \<or> is_legal a b)"
proof -
  obtain ts where u: "update_where (\<lambda>old new. guard_aborts (t_status old) (t_status new)) turns_ok p f (turns d) = Inr (ts, n)"
      and d': "d' = d\<lparr>turns := ts\<rparr>"
    using assms by (auto simp: update_turns_def elim!: bind_res_InrE)
  show "turns_ok (turns d')" using update_where_rows(2) [OF u] d' by simp
  show "\<exists>b. turn_status_of d' i = Some b \<and> (a = b \<or> is_legal a b)" if st: "turn_status_of d i = Some a"
  proof -
    obtain t where t: "map_of (turns d) i = Some t" "t_status t = a"
      using st by (auto simp: turn_status_of_def)
    show ?thesis
      using update_where_rows(1,3) [OF u, of i] t d' by (cases "p t") (auto simp: turn_status_of_def guard_aborts_iff)
  qed
qed

lemma stmt_perform_cases:
  "stmt_perform st d = d \<or> (\<exists>i w f. hit i w f d (stmt_perform st d))
     \<or> (\<exists>p f n. update_turns p f d = Inr (n, stmt_perform st d))"
proof (cases st)
  case (Ctl op)
  then show ?thesis using turn_perform_cases [of op d] by auto
next
  case (Abandon b rid now)
  let ?f = "\<lambda>t. t\<lparr>t_status := ''failed'', t_completed_at := coalesce (t_completed_at t) now,
               t_delivery := (if t_status t = ''queued'' then ''failed'' else t_delivery t)\<rparr>"
  have eq: "abandon_api_run_turns_on b rid now d = update_turns (abandons d b rid) ?f d"
    by (simp add: abandon_api_run_turns_on_def edge_def update_turns_def)
  show ?thesis
  proof (cases "update_turns (abandons d b rid) ?f d")
    case (Inr r)
    then obtain n d' where r: "update_turns (abandons d b rid) ?f d = Inr (n, d')" by (cases r) auto
    then have "stmt_perform st d = d'" using Abandon eq by simp
    with r show ?thesis by blast
  qed (simp add: Abandon eq)
next
  case (Raw i w f)
  then show ?thesis by (auto split: sum.splits dest!: update_turn_cases)
next
  case (Bulk p f)
  then show ?thesis by (cases "update_turns p f d") auto
qed

lemma stmt_edge:
  "turn_status_of d i = Some a \<Longrightarrow> \<exists>b. turn_status_of (stmt_perform st d) i = Some b \<and> (a = b \<or> is_legal a b)"
  using stmt_perform_cases [of st d] hit_edge update_turns_moves(2) by metis

interpretation turns: guarded_final turn_status_of is_legal stmt_perform dead_end
  by unfold_locales (auto intro: stmt_edge dead_end_stays)

lemma stmts_turns_ok: "turns_ok (turns d) \<Longrightarrow> turns_ok (turns (fold stmt_perform sts d))"
proof (induction sts arbitrary: d)
  case Nil
  then show ?case by simp
next
  case (Cons st sts)
  have "turns_ok (turns (stmt_perform st d))"
    using stmt_perform_cases [of st d] Cons.prems hit_rows(1) update_turns_moves(1) by metis
  then show ?case using Cons.IH by simp
qed

section \<open>Paths of a turn\<close>

text \<open>
  C1. Whatever statements run, through the controller or past it, a turn's status only moves along
  the legal edges: a finished turn is never active again, and a completed or failed turn keeps
  its status.
\<close>

theorem turn_paths_legal:
  assumes "map_of (turns d) i = Some t"
  shows "\<exists>u. map_of (turns (fold stmt_perform sts d)) i = Some u
           \<and> is_legal\<^sup>*\<^sup>* (t_status t) (t_status u)
           \<and> (is_terminal (t_status t) \<longrightarrow> is_terminal (t_status u))
           \<and> (dead_end (t_status t) \<longrightarrow> t_status u = t_status t)"
proof -
  have st: "turn_status_of d i = Some (t_status t)" using assms by (simp add: turn_status_of_def)
  obtain u where u: "map_of (turns (fold stmt_perform sts d)) i = Some u" "is_legal\<^sup>*\<^sup>* (t_status t) (t_status u)"
    using turns.fold_path [OF st, of sts] by (auto simp: turn_status_of_def)
  have "is_terminal (t_status u)" if "is_terminal (t_status t)"
    using turns.fold_closed [OF st, of "{a. is_terminal a}" sts] that u(1) terminal_closed
    by (auto simp: turn_status_of_def)
  moreover have "t_status u = t_status t" if "dead_end (t_status t)"
    using turns.fold_final [OF st that, of sts] u(1) by (simp add: turn_status_of_def)
  ultimately show ?thesis using u by blast
qed

theorem turn_paths_legal_witness:
  "\<exists>u. map_of (turns (fold stmt_perform
          [Raw ''T0'' (\<lambda>_. True) (\<lambda>t. t\<lparr>t_status := ''in_flight''\<rparr>), Ctl (Fail_On ''T0'' Keep 5)] sample)) ''T0'' = Some u
     \<and> t_status u = ''completed''"
proof -
  have "map_of (turns sample) ''T0'' = Some (mk_turn ''C'' (Some ''R0'') ''completed'')" by code_simp
  moreover have "dead_end (t_status (mk_turn ''C'' (Some ''R0'') ''completed''))" by code_simp
  ultimately show ?thesis using turn_paths_legal by (fastforce simp: mk_turn_def)
qed

text \<open>
  The slots: after any statements a run has at most one turn in flight, and a conversation
  has at most one queued turn in each lane.
\<close>

theorem turn_slots_exclusive:
  assumes "turns_ok (turns d)" "d' = fold stmt_perform sts d"
    "map_of (turns d') i = Some t" "map_of (turns d') j = Some u"
    "t_status t = ''in_flight'' \<and> t_status u = ''in_flight'' \<and> t_run t = Some r \<and> t_run u = Some r
     \<or> t_status t = ''queued'' \<and> t_status u = ''queued'' \<and> t_conversation t = t_conversation u
       \<and> t_queue_class t = t_queue_class u"
  shows "i = j"
  using assms(5) one_turn_in_flight [of "turns d'" i t j u r] one_turn_queued [of "turns d'" i t j u]
    stmts_turns_ok [OF assms(1), of sts] assms(2-4) by auto

theorem turn_slots_exclusive_witness:
  "{j. \<exists>u. map_of (turns (fold stmt_perform [Ctl (Claim ''T1'' ''R1'')] sample)) j = Some u
        \<and> t_status u = ''in_flight'' \<and> t_run u = Some ''R1''} = {''T1''}"
proof -
  define d where "d = fold stmt_perform [Ctl (Claim ''T1'' ''R1'')] sample"
  let ?t = "mk_turn ''C'' None ''queued'' \<lparr>t_status := ''in_flight'', t_run := Some ''R1'', t_auto_resend := False,
               t_claimed_from_queue := True\<rparr>"
  have row: "map_of (turns d) ''T1'' = Some ?t"
    unfolding d_def by code_simp
  have t: "t_status ?t = ''in_flight''" "t_run ?t = Some ''R1''" by (simp_all add: mk_turn_def)
  have "''T1'' = j" if "map_of (turns d) j = Some u" "t_status u = ''in_flight''" "t_run u = Some ''R1''" for j u
    by (rule turn_slots_exclusive [OF sample_turns_ok d_def row that(1), of "''R1''"]) (simp add: t that)
  then show ?thesis unfolding d_def [symmetric] using row t by blast
qed

end
