(* ===== verification/Turn_Properties.thy ===== *)
theory Turn_Properties
  imports Turn_Safety
begin

text \<open>
  The answers of the turn controller, the completion stamp, the claim of a queued turn and the
  budget of automatic re-deliveries.
\<close>

section \<open>What an answer means\<close>

fun turn_from :: "turn_op \<Rightarrow> string" where
  "turn_from (Set_Status _ frm _ _) = frm"
| "turn_from (Claim _ _) = ''queued''"
| "turn_from (Retract _ _) = ''queued''"
| "turn_from _ = ''in_flight''"

fun turn_to :: "turn_op \<Rightarrow> string" where
  "turn_to (Set_Status _ _ to _) = to"
| "turn_to (Complete_Api _ _ _ _) = ''completed''"
| "turn_to (Complete_Native _ _ _ _) = ''completed''"
| "turn_to (Claim _ _) = ''in_flight''"
| "turn_to (Return_Queue _ _) = ''queued''"
| "turn_to (Return_Unspent _ _) = ''queued''"
| "turn_to _ = ''failed''"

definition honest :: "db \<Rightarrow> ident \<Rightarrow> string \<Rightarrow> string \<Rightarrow> outcome \<Rightarrow> db \<Rightarrow> bool" where
  "honest d i a b out d' \<longleftrightarrow>
     (case out of
        Applied \<Rightarrow> (\<exists>t u. map_of (turns d) i = Some t \<and> t_status t = a \<and> t_status u = b
                      \<and> d' = d\<lparr>turns := upd_row i (\<lambda>_. u) (turns d)\<rparr>)
      | Raced s \<Rightarrow> d' = d \<and> s \<noteq> a \<and> (\<exists>t. map_of (turns d) i = Some t \<and> t_status t = s)
      | Fenced _ \<Rightarrow> d' = d \<and> (\<exists>t. map_of (turns d) i = Some t \<and> t_status t = a)
      | Missing \<Rightarrow> d' = d \<and> map_of (turns d) i = None)"

lemma honest_hit:
  assumes "hit i w f d d'" "\<And>t. w t \<Longrightarrow> t_status t = a" "\<And>t. t_status (f t) = b"
  shows "honest d i a b Applied d'"
proof -
  obtain t where t: "map_of (turns d) i = Some t" "w t" "d' = d\<lparr>turns := upd_row i f (turns d)\<rparr>"
    using assms(1) by (auto simp: hit_def)
  then have "d' = d\<lparr>turns := upd_row i (\<lambda>_. f t) (turns d)\<rparr>" using upd_row_const [of "turns d" i t f] by simp
  then show ?thesis using t(1,2) assms(2,3) by (auto simp: honest_def)
qed

lemma honest_plain:
  assumes "bind_res (update_turn i w f d) (\<lambda>(d', n). Inr (if 0 < n then Applied else settled d' i, d')) = Inr (out, d')"
    and "\<And>t. w t \<longleftrightarrow> t_status t = a" "\<And>t. t_status (f t) = b"
  shows "honest d i a b out d'"
  using update_turn_then [OF assms(1)] honest_hit [of i w f d d' a b] assms(2,3)
  by (auto simp: missed_def honest_def settled_def split: option.splits)

lemma honest_settled_or_fenced:
  "missed i w d \<Longrightarrow> honest d i a b (settled_or_fenced d i a rs) d"
  by (auto simp: honest_def settled_or_fenced_def settled_def split: option.splits)

lemma honest_fenced:
  assumes "bind_res (update_turn i w f d)
      (\<lambda>(d', n). Inr (if 0 < n then Applied else settled_or_fenced d' i a rs, d')) = Inr (out, d')"
    and "\<And>t. w t \<Longrightarrow> t_status t = a" "\<And>t. t_status (f t) = b"
  shows "honest d i a b out d'"
  using update_turn_then [OF assms(1)] honest_hit [of i w f d d' a b] assms(2,3)
  by (auto intro: honest_settled_or_fenced)

lemma honest_fenced3:
  assumes "bind_res (update_turn i w f d) (\<lambda>(d', n). if n = 1 then Inr (Applied, d')
      else if n = 0 then Inr (settled_or_fenced d' i a rs, d') else Inl e) = Inr (out, d')"
    and "\<And>t. w t \<Longrightarrow> t_status t = a" "\<And>t. t_status (f t) = b"
  shows "honest d i a b out d'"
  using update_turn_then3 [OF assms(1) [unfolded One_nat_def]] honest_hit [of i w f d d' a b] assms(2,3)
  by (auto intro: honest_settled_or_fenced)

lemma turn_exec_honest:
  assumes "turn_exec op d = Inr (out, d')"
  shows "honest d (turn_target op) (turn_from op) (turn_to op) out d'"
  by (cases op; insert assms; hypsubst; unfold turn_exec.simps turn_target.simps turn_from.simps turn_to.simps controller_defs;
      elim bind_res_InrE [of "edge a b" for a b] honest_plain honest_fenced honest_fenced3; auto)

text \<open>
  C2. The answer of every controller operation is the truth about the row: \<open>Applied\<close> means that
  this row, found at the operation's starting status, and nothing else was rewritten to the
  target status; any other answer means that nothing was written, and names what is there.
\<close>

theorem turn_outcome_honest:
  assumes "turn_exec op d = Inr (out, d')"
  shows "case out of
      Applied \<Rightarrow> (\<exists>t u. map_of (turns d) (turn_target op) = Some t \<and> t_status t = turn_from op
                    \<and> t_status u = turn_to op
                    \<and> d' = d\<lparr>turns := upd_row (turn_target op) (\<lambda>_. u) (turns d)\<rparr>)
    | Raced s \<Rightarrow> d' = d \<and> s \<noteq> turn_from op
                    \<and> (\<exists>t. map_of (turns d) (turn_target op) = Some t \<and> t_status t = s)
    | Fenced _ \<Rightarrow> d' = d \<and> (\<exists>t. map_of (turns d) (turn_target op) = Some t \<and> t_status t = turn_from op)
    | Missing \<Rightarrow> d' = d \<and> map_of (turns d) (turn_target op) = None"
  using turn_exec_honest [OF assms] by (simp add: honest_def)

theorem turn_outcome_honest_witness:
  "turn_exec (Retract ''T0'' 9) sample = Inr (Raced ''completed'', sample)
   \<and> (\<exists>t. map_of (turns sample) ''T0'' = Some t \<and> t_status t = ''completed'')"
proof -
  have run: "turn_exec (Retract ''T0'' 9) sample = Inr (Raced ''completed'', sample)" by code_simp
  show ?thesis using run turn_outcome_honest [OF run] by simp
qed

section \<open>The completion stamp\<close>

definition stamped :: "turn \<Rightarrow> bool" where
  "stamped t \<longleftrightarrow> (is_terminal (t_status t) \<longleftrightarrow> t_completed_at t \<noteq> None)"

definition stamp_kept :: "turn \<Rightarrow> turn \<Rightarrow> bool" where
  "stamp_kept t u \<longleftrightarrow> (t_completed_at t \<noteq> None \<longrightarrow> t_completed_at u = t_completed_at t) \<and> (stamped t \<longrightarrow> stamped u)"

lemma coalesce_simps [simp]: "coalesce x y \<noteq> None" "x \<noteq> None \<Longrightarrow> coalesce x y = x"
  by (cases x; simp)+

lemma stamp_kept_refl [simp]: "stamp_kept t t"
  by (simp add: stamp_kept_def)

definition stamps_kept :: "db \<Rightarrow> db \<Rightarrow> bool" where
  "stamps_kept d d' \<longleftrightarrow>
     (\<forall>j t. map_of (turns d) j = Some t \<longrightarrow> (\<exists>u. map_of (turns d') j = Some u \<and> stamp_kept t u))"

lemma stamps_kept_refl [simp]: "stamps_kept d d"
  by (simp add: stamps_kept_def)

lemma stamps_hit:
  assumes "hit i w f d d'" "\<And>t. w t \<Longrightarrow> is_legal (t_status t) (t_status (f t)) \<Longrightarrow> stamp_kept t (f t)"
  shows "stamps_kept d d'"
  using assms by (auto simp: stamps_kept_def hit_def)

lemma stamps_plain:
  assumes "bind_res (update_turn i w f d) (\<lambda>(d', n). Inr (if 0 < n then Applied else g d', d')) = Inr (out, d')"
    and "\<And>t. w t \<Longrightarrow> is_legal (t_status t) (t_status (f t)) \<Longrightarrow> stamp_kept t (f t)"
  shows "stamps_kept d d'"
  using update_turn_then [OF assms(1)] stamps_hit [OF _ assms(2)] by auto

lemma stamps_three:
  assumes "bind_res (update_turn i w f d) (\<lambda>(d', n). if n = 1 then Inr (Applied, d')
      else if n = 0 then Inr (g d', d') else Inl e) = Inr (out, d')"
    and "\<And>t. w t \<Longrightarrow> is_legal (t_status t) (t_status (f t)) \<Longrightarrow> stamp_kept t (f t)"
  shows "stamps_kept d d'"
  using update_turn_then3 [OF assms(1) [unfolded One_nat_def]] stamps_hit [OF _ assms(2)] by auto

lemma stamp_kept_close:
  "t_completed_at u = coalesce (t_completed_at t) now \<Longrightarrow> is_terminal (t_status u) \<Longrightarrow> stamp_kept t u"
  by (simp add: stamp_kept_def stamped_def)

lemma stamp_kept_open:
  "t_completed_at u = t_completed_at t \<Longrightarrow> is_legal (t_status t) (t_status u) \<Longrightarrow> \<not> is_terminal (t_status u)
     \<Longrightarrow> stamp_kept t u"
  using terminal_closed by (auto simp: stamp_kept_def stamped_def)

lemma terminal_words [simp]:
  "is_terminal ''completed''" "is_terminal ''failed''" "\<not> is_terminal ''queued''" "\<not> is_terminal ''in_flight''"
  by (simp_all add: is_terminal_iff)

lemma stamp_kept_set_status:
  assumes "is_legal (t_status t) to"
  shows "is_terminal to \<Longrightarrow> stamp_kept t (t\<lparr>t_status := to, t_completed_at := coalesce (t_completed_at t) now\<rparr>)"
    and "\<not> is_terminal to \<Longrightarrow> stamp_kept t (t\<lparr>t_status := to\<rparr>)"
proof -
  show "is_terminal to \<Longrightarrow> stamp_kept t (t\<lparr>t_status := to, t_completed_at := coalesce (t_completed_at t) now\<rparr>)"
    by (rule stamp_kept_close [of _ _ now]) auto
  show "\<not> is_terminal to \<Longrightarrow> stamp_kept t (t\<lparr>t_status := to\<rparr>)"
    using assms by (intro stamp_kept_open) auto
qed

lemma turn_exec_stamps:
  assumes "turn_exec op d = Inr (out, d')"
  shows "stamps_kept d d'"
proof (cases "\<exists>i frm to now. op = Set_Status i frm to now")
  case True
  then show ?thesis
    using assms by (auto simp: set_status_on_def stamp_kept_set_status
        elim!: bind_res_InrE [of "edge a b" for a b] stamps_plain)
next
  case False
  then show ?thesis
    by (cases op; insert assms; hypsubst; unfold turn_exec.simps controller_defs;
        elim bind_res_InrE [of "edge a b" for a b] stamps_plain stamps_three;
        auto intro: stamp_kept_close stamp_kept_open)
qed

lemma turn_perform_stamps: "stamps_kept d (turn_perform op d)"
proof (cases "turn_exec op d")
  case (Inr p)
  then show ?thesis by (cases p) (simp add: turn_perform_def turn_exec_stamps)
qed (simp add: turn_perform_def)

lemma stamps_kept_trans: "stamps_kept a b \<Longrightarrow> stamps_kept b c \<Longrightarrow> stamps_kept a c"
  unfolding stamps_kept_def stamp_kept_def by (metis option.distinct(1))

lemma fold_stamps: "stamps_kept d (fold turn_perform ops d)"
  by (induction ops arbitrary: d) (auto intro: stamps_kept_trans turn_perform_stamps)

text \<open>
  The completion time of a turn is written when the turn stops being active and never again:
  through any sequence of controller operations a recorded time is kept, and a turn whose stamp
  agrees with its status still does.
\<close>

theorem completion_stamped_once:
  assumes "map_of (turns d) i = Some t"
  shows "\<exists>u. map_of (turns (fold turn_perform ops d)) i = Some u
     \<and> (t_completed_at t \<noteq> None \<longrightarrow> t_completed_at u = t_completed_at t)
     \<and> ((is_terminal (t_status t) \<longleftrightarrow> t_completed_at t \<noteq> None)
          \<longrightarrow> (is_terminal (t_status u) \<longleftrightarrow> t_completed_at u \<noteq> None))"
  using fold_stamps [of d ops] assms by (fastforce simp: stamps_kept_def stamp_kept_def stamped_def)

theorem completion_stamped_once_witness:
  "\<exists>u. map_of (turns (fold turn_perform
            [Claim ''T1'' ''R1'', Set_Status ''T1'' ''in_flight'' ''completed_fallback'' 70,
             Set_Status ''T1'' ''completed_fallback'' ''completed'' 80] sample)) ''T1'' = Some u
     \<and> t_status u = ''completed'' \<and> t_completed_at u = Some 70 \<and> stamped u"
proof -
  let ?ops = "[Claim ''T1'' ''R1'', Set_Status ''T1'' ''in_flight'' ''completed_fallback'' 70]"
  let ?d = "fold turn_perform ?ops sample"
  let ?op = "Set_Status ''T1'' ''completed_fallback'' ''completed'' 80"
  let ?t = "mk_turn ''C'' None ''queued'' \<lparr>t_status := ''completed_fallback'', t_run := Some ''R1'', t_auto_resend := False,
               t_claimed_from_queue := True, t_completed_at := Some 70\<rparr>"
  have row: "map_of (turns ?d) ''T1'' = Some ?t" by code_simp
  have last: "map_option t_status (map_of (turns (turn_perform ?op ?d)) ''T1'') = Some ''completed''" by code_simp
  show ?thesis
    using completion_stamped_once [OF row, of "[?op]"] last by (auto simp: stamped_def is_terminal_iff)
qed

section \<open>The claim of a queued turn\<close>

abbreviation claimed :: "ident \<Rightarrow> turn \<Rightarrow> turn" where
  "claimed rid t \<equiv> t\<lparr>t_status := ''in_flight'', t_run := Some rid, t_auto_resend := False, t_claimed_from_queue := True\<rparr>"

definition claim_admissible :: "db \<Rightarrow> ident \<Rightarrow> ident \<Rightarrow> bool" where
  "claim_admissible d i rid \<longleftrightarrow> run_running d rid \<and> \<not> assignment_withdrawn d i
     \<and> scheduled_turn_allowed d i \<and> queued_turn_grants_ok d i"

lemma claimed_turns_ok:
  assumes ok: "turns_ok ts" and row: "map_of ts i = Some t" and free:
    "\<And>j u. map_of ts j = Some u \<Longrightarrow> t_status u = ''in_flight'' \<Longrightarrow> t_run u \<noteq> Some rid"
  shows "turns_ok (upd_row i (claimed rid) ts)"
proof -
  have parts: "distinct (map fst ts)" "unique_index one_in_flight_key ts" "unique_index client_req_key ts"
    "unique_index native_key ts" "unique_index one_queued_key ts" "unique_index t_source_event ts"
    using ok by (simp_all add: turns_ok_def)
  have "unique_index one_in_flight_key (upd_row i (claimed rid) ts)"
    by (rule unique_index_upd_row [OF parts(1,2) row]) (use free in \<open>auto simp: one_in_flight_key_def split: if_splits\<close>)
  moreover have "unique_index client_req_key (upd_row i (claimed rid) ts)"
    by (rule unique_index_upd_row_same [OF parts(1,3) row]) (simp add: client_req_key_def)
  moreover have "unique_index native_key (upd_row i (claimed rid) ts)"
    by (rule unique_index_upd_row_same [OF parts(1,4) row]) (simp add: native_key_def split: option.splits)
  moreover have "unique_index one_queued_key (upd_row i (claimed rid) ts)"
    by (rule unique_index_upd_row_None [OF parts(1,5) row]) (simp add: one_queued_key_def)
  moreover have "unique_index t_source_event (upd_row i (claimed rid) ts)"
    by (rule unique_index_upd_row_same [OF parts(1,6) row]) simp
  moreover have "list_all (\<lambda>e. check_turn (snd e)) (upd_row i (claimed rid) ts)"
    using ok by (intro list_all_upd_row) (auto simp: turns_ok_def check_turn_def TURN_STATUSES_def)
  ultimately show ?thesis using parts(1) by (simp add: turns_ok_def)
qed

lemma claim_queued_hit:
  assumes "claim_queued i rid d = Inr (Applied, d')"
  shows "hit i (\<lambda>t. t_status t = ''queued'' \<and> claim_admissible d i rid) (claimed rid) d d'"
  using assms by (auto simp: claim_queued_def claim_admissible_def elim!: bind_res_InrE [of "edge a b" for a b]
      dest!: update_turn_then)

text \<open>
  C3. A queued turn is claimed for a run exactly when the run is running, no turn of it is in
  flight, the assignment the turn carries is still wanted, its schedule still stands and every
  relayed message in it is still granted; the claimed turn then belongs to that run, is in
  flight, and can no longer be re-sent automatically.
\<close>

theorem claim_queued_iff:
  assumes "turns_ok (turns d)" "map_of (turns d) i = Some t"
  shows "claim_queued i rid d = Inr (Applied, d') \<longleftrightarrow>
     t_status t = ''queued'' \<and> run_running d rid \<and> \<not> assignment_withdrawn d i
       \<and> scheduled_turn_allowed d i \<and> queued_turn_grants_ok d i
       \<and> (\<forall>j u. map_of (turns d) j = Some u \<and> t_status u = ''in_flight'' \<longrightarrow> t_run u \<noteq> Some rid)
       \<and> d' = d\<lparr>turns := upd_row i (\<lambda>_. t\<lparr>t_status := ''in_flight'', t_run := Some rid,
                   t_auto_resend := False, t_claimed_from_queue := True\<rparr>) (turns d)\<rparr>"
    (is "?L \<longleftrightarrow> ?R")
proof
  assume ?L
  then have h: "hit i (\<lambda>t. t_status t = ''queued'' \<and> claim_admissible d i rid) (claimed rid) d d'"
    by (rule claim_queued_hit)
  then have q: "t_status t = ''queued''" "claim_admissible d i rid" and ok': "turns_ok (turns d')"
    and d': "d' = d\<lparr>turns := upd_row i (claimed rid) (turns d)\<rparr>"
    using assms(2) by (auto simp: hit_def)
  have "t_run u \<noteq> Some rid" if u: "map_of (turns d) j = Some u" "t_status u = ''in_flight''" for j u
  proof
    assume run: "t_run u = Some rid"
    have ne: "i \<noteq> j" using u assms(2) q(1) by auto
    have "i = j"
      by (rule one_turn_in_flight [OF ok', of i "claimed rid t" j u rid]) (use ne u run assms(2) d' in auto)
    with ne show False by simp
  qed
  then have "\<forall>j u. map_of (turns d) j = Some u \<and> t_status u = ''in_flight'' \<longrightarrow> t_run u \<noteq> Some rid" by blast
  then show ?R using q d' upd_row_const [OF assms(2), of "claimed rid"] unfolding claim_admissible_def by metis
next
  assume R: ?R
  then have "turns_ok (upd_row i (claimed rid) (turns d))"
    using claimed_turns_ok [OF assms, of rid] by blast
  then show ?L
    using R assms(2) upd_row_const [OF assms(2), of "claimed rid"]
    by (simp add: claim_queued_def edge_def update_turn_def update_by_id_def guard_aborts_iff)
qed

theorem claim_queued_iff_witness:
  "claim_queued ''T1'' ''R1'' sample = Inr (Applied, turn_perform (Claim ''T1'' ''R1'') sample)
   \<and> (\<nexists>d'. claim_queued ''T1'' ''R0'' sample = Inr (Applied, d'))"
proof -
  have row: "map_of (turns sample) ''T1'' = Some (mk_turn ''C'' None ''queued'')" by code_simp
  have "claim_queued ''T1'' ''R1'' sample = Inr (Applied, turn_perform (Claim ''T1'' ''R1'') sample)" by code_simp
  moreover have "\<not> run_running sample ''R0''" by code_simp
  ultimately show ?thesis using claim_queued_iff [OF sample_turns_ok row, of "''R0''"] by blast
qed

section \<open>The budget of automatic re-deliveries\<close>

datatype resend_op = Take int | Give_Back

fun resend_exec :: "ident \<Rightarrow> resend_op \<Rightarrow> db \<Rightarrow> db" where
  "resend_exec i (Take m) d = kept (claim_resend i m d) d"
| "resend_exec i Give_Back d = kept (refund_resend i d) d"

fun resend_granted :: "ident \<Rightarrow> resend_op \<Rightarrow> db \<Rightarrow> bool" where
  "resend_granted i (Take m) d = (case claim_resend i m d of Inl _ \<Rightarrow> False | Inr (granted, _) \<Rightarrow> granted)"
| "resend_granted i Give_Back d = False"

text \<open>How often the claims among \<open>ops\<close> are answered with a permission to send once more.\<close>

fun grants :: "ident \<Rightarrow> resend_op list \<Rightarrow> db \<Rightarrow> nat" where
  "grants i [] d = 0"
| "grants i (op # ops) d = (if resend_granted i op d then 1 else 0) + grants i ops (resend_exec i op d)"

abbreviation give_backs :: "resend_op list \<Rightarrow> nat" where
  "give_backs ops \<equiv> count_list ops Give_Back"

lemma resend_count_ok:
  assumes ok: "turns_ok ts" and row: "map_of ts i = Some t"
  shows "turns_ok (upd_row i (\<lambda>t. t\<lparr>t_resend_count := g (t_resend_count t)\<rparr>) ts)"
    (is "turns_ok (upd_row i ?f ts)")
proof -
  have "distinct (map fst ts)" using ok by (simp add: turns_ok_def)
  then have keep: "unique_index key ts \<Longrightarrow> key (?f t) = key t \<Longrightarrow> unique_index key (upd_row i ?f ts)"
    for key :: "turn \<Rightarrow> 'k option"
    using unique_index_upd_row_same [OF _ _ row, of key ?f] by blast
  have "native_key (?f t) = native_key t" by (cases "t_native_turn t") (simp_all add: native_key_def)
  moreover have "list_all (\<lambda>e. check_turn (snd e)) (upd_row i ?f ts)"
    using ok by (intro list_all_upd_row) (auto simp: turns_ok_def check_turn_def)
  ultimately show ?thesis
    using ok by (simp add: turns_ok_def keep one_in_flight_key_def client_req_key_def one_queued_key_def)
qed

lemma resend_step_exact:
  assumes "turns_ok (turns d)" "map_of (turns d) i = Some t"
  shows "turns_ok (turns (resend_exec i op d))"
    and "map_of (turns (resend_exec i op d)) i = Some (case op of
           Take m \<Rightarrow> if t_resend_count t < m then t\<lparr>t_resend_count := t_resend_count t + 1\<rparr> else t
         | Give_Back \<Rightarrow> if 0 < t_resend_count t then t\<lparr>t_resend_count := t_resend_count t - 1\<rparr> else t)"
    and "resend_granted i op d \<longleftrightarrow> (\<exists>m. op = Take m \<and> t_resend_count t < m)"
proof -
  have ok: "turns_ok (upd_row i (\<lambda>t. t\<lparr>t_resend_count := g (t_resend_count t)\<rparr>) (turns d))" for g
    by (rule resend_count_ok [OF assms])
  show "turns_ok (turns (resend_exec i op d))"
    "map_of (turns (resend_exec i op d)) i = Some (case op of
           Take m \<Rightarrow> if t_resend_count t < m then t\<lparr>t_resend_count := t_resend_count t + 1\<rparr> else t
         | Give_Back \<Rightarrow> if 0 < t_resend_count t then t\<lparr>t_resend_count := t_resend_count t - 1\<rparr> else t)"
    "resend_granted i op d \<longleftrightarrow> (\<exists>m. op = Take m \<and> t_resend_count t < m)"
    using assms ok [of "\<lambda>c. c + 1"] ok [of "\<lambda>c. c - 1"]
    by (cases op; auto simp: claim_resend_def refund_resend_def update_by_id_def Let_def kept_def bind_res_def
        split: sum.splits option.splits if_splits)+
qed

text \<open>
  C4. However the claims of the queue flush and of the stall watchdog and the refunds of sends
  that never reached the pane interleave: the permissions to re-send a turn are at most the
  budget that was left plus one for each refund, however many claims were made; a refund can
  only give back what was taken, so the count stays between zero and the bound; and afterwards a
  claim is answered yes exactly while the count is below the bound.
\<close>

theorem resend_budget_bounded:
  assumes "turns_ok (turns d)" "map_of (turns d) i = Some t" "0 \<le> t_resend_count t" "t_resend_count t \<le> m"
    "\<forall>op \<in> set ops. op = Take m \<or> op = Give_Back"
  shows "int (grants i ops d) \<le> m - t_resend_count t + int (give_backs ops)
     \<and> (\<exists>u. map_of (turns (fold (resend_exec i) ops d)) i = Some u
           \<and> 0 \<le> t_resend_count u \<and> t_resend_count u \<le> m
           \<and> t_resend_count u \<le> t_resend_count t + int (grants i ops d)
           \<and> (resend_granted i (Take m) (fold (resend_exec i) ops d) \<longleftrightarrow> t_resend_count u < m))"
proof -
  have "\<exists>u. map_of (turns (fold (resend_exec i) ops d)) i = Some u \<and> turns_ok (turns (fold (resend_exec i) ops d))
      \<and> 0 \<le> t_resend_count u \<and> t_resend_count u \<le> m
      \<and> t_resend_count u \<le> t_resend_count t + int (grants i ops d)
      \<and> t_resend_count t + int (grants i ops d) \<le> t_resend_count u + int (give_backs ops)"
    using assms
  proof (induction ops arbitrary: d t)
    case Nil
    then show ?case by simp
  next
    case (Cons op ops)
    note step = resend_step_exact [OF Cons.prems(1,2), of op]
    have op: "op = Take m \<or> op = Give_Back" using Cons.prems(5) by simp
    then show ?case
      using Cons.IH [OF step(1,2)] step(3) Cons.prems(3-5) by (fastforce split: if_splits)
  qed
  then show ?thesis using resend_step_exact(3) [of "fold (resend_exec i) ops d" i _ "Take m"] by fastforce
qed

theorem resend_budget_bounded_witness:
  "int (grants ''T1'' [Take 1, Take 1, Give_Back, Give_Back, Take 1, Take 1] sample) \<le> 3
     \<and> grants ''T1'' [Take 1, Take 1, Give_Back, Give_Back, Take 1, Take 1] sample = 2
     \<and> (\<exists>u. map_of (turns (fold (resend_exec ''T1'') [Take 1, Take 1, Give_Back, Give_Back, Take 1, Take 1] sample)) ''T1'' = Some u
          \<and> t_resend_count u \<le> 1)"
proof -
  have row: "map_of (turns sample) ''T1'' = Some (mk_turn ''C'' None ''queued'')" by code_simp
  have "grants ''T1'' [Take 1, Take 1, Give_Back, Give_Back, Take 1, Take 1] sample = 2" by code_simp
  then show ?thesis
    using resend_budget_bounded [OF sample_turns_ok row, of 1 "[Take 1, Take 1, Give_Back, Give_Back, Take 1, Take 1]"]
    by (auto simp: mk_turn_def)
qed

end
