(* ===== verification/Fence.thy ===== *)
theory Fence
  imports Turn_Properties
begin

text \<open>
  The fence between generations of a bot
  (\<open>crates/am-lifecycle/src/lifecycle/fence.rs\<close>): to which run an event that arrives from a
  provider's process belongs, and whether it may still change anything. The order of generations
  is the order in which the rows of \<open>runs\<close> were written (SQLite's rowid), which is the order of
  the list that models the table.
\<close>

record event_identity =
  e_run :: "string option"
  e_session :: "string option"

record generation =
  g_run :: string
  g_session :: "string option"
  g_resume_session :: "string option"
  g_adopted :: bool

datatype stale_why = Other_Process | Earlier_Session

datatype unproven_why = No_Session | No_Earlier_Run | Read_Failed

datatype ownership = Current | Stale string stale_why | Unproven unproven_why

fun may_mutate :: "ownership \<Rightarrow> bool" where
  "may_mutate (Stale _ _) = False"
| "may_mutate _ = True"

definition admit :: "ownership \<Rightarrow> ident \<Rightarrow> admitted option" where
  "admit own rid = (if may_mutate own then Some (Admitted rid) else None)"

definition decide :: "generation \<Rightarrow> event_identity \<Rightarrow> ident option \<Rightarrow> ownership" where
  "decide now ev prior =
     (let by_session =
        (case trimmed (e_session ev) of
           None \<Rightarrow> Unproven No_Session
         | Some sid \<Rightarrow>
             if trimmed (g_session now) = Some sid \<or> trimmed (g_resume_session now) = Some sid then Current
             else (case prior of Some p \<Rightarrow> Stale p Earlier_Session | None \<Rightarrow> Unproven No_Earlier_Run))
      in case trimmed (e_run ev) of
           None \<Rightarrow> by_session
         | Some rid \<Rightarrow>
             if rid = g_run now then Current
             else if \<not> g_adopted now then Stale rid Other_Process
             else by_session)"

text \<open>
  The query of \<open>classify\<close>: the last run written before this one, of the same bot, that reported
  this session. Nothing is before a run that is not in the table (the subquery is NULL).
\<close>

definition earlier_runs :: "db \<Rightarrow> ident \<Rightarrow> run table" where
  "earlier_runs d rid = (if map_of (runs d) rid = None then [] else takeWhile (\<lambda>e. fst e \<noteq> rid) (runs d))"

definition prior_run :: "db \<Rightarrow> ident \<Rightarrow> ident \<Rightarrow> string \<Rightarrow> ident option" where
  "prior_run d bot_id rid sid =
     map_option fst (List.find (\<lambda>(_, r). r_bot r = bot_id \<and> r_native_session r = Some sid) (rev (earlier_runs d rid)))"

definition generation_of :: "ident \<Rightarrow> run \<Rightarrow> generation" where
  "generation_of rid r =
     \<lparr>g_run = rid, g_session = r_native_session r, g_resume_session = r_resume_session r, g_adopted = r_adopted r\<rparr>"

text \<open>\<open>readable\<close> tells whether the query answered; a read error lets the event through.\<close>

definition classify :: "bool \<Rightarrow> db \<Rightarrow> ident \<Rightarrow> ident \<Rightarrow> run \<Rightarrow> event_identity \<Rightarrow> ownership" where
  "classify readable d bot_id rid r ev =
     (let now = generation_of rid r; quick = decide now ev None in
      if quick \<noteq> Unproven No_Earlier_Run then quick
      else let sid = (case e_session ev of None \<Rightarrow> [] | Some s \<Rightarrow> trim s) in
           if \<not> readable then Unproven Read_Failed
           else decide now ev (prior_run d bot_id rid sid))"

section \<open>What the fence refuses\<close>

lemma prior_run_None:
  "prior_run d b rid sid = None \<longleftrightarrow> (\<forall>(p, r) \<in> set (earlier_runs d rid). r_bot r = b \<longrightarrow> r_native_session r \<noteq> Some sid)"
  by (auto simp: prior_run_def find_None_iff)

text \<open>An event names this generation by its run, or, where runs prove nothing, by its session.\<close>

definition names_run :: "event_identity \<Rightarrow> ident \<Rightarrow> bool" where
  "names_run ev rid \<longleftrightarrow> trimmed (e_run ev) = Some rid"

definition names_other_run :: "event_identity \<Rightarrow> ident \<Rightarrow> bool" where
  "names_other_run ev rid \<longleftrightarrow> (\<exists>x. trimmed (e_run ev) = Some x \<and> x \<noteq> rid)"

definition own_session :: "run \<Rightarrow> string \<Rightarrow> bool" where
  "own_session r sid \<longleftrightarrow> trimmed (r_native_session r) = Some sid \<or> trimmed (r_resume_session r) = Some sid"

lemma classify_refuses:
  "\<not> may_mutate (classify True d b rid r ev) \<longleftrightarrow>
     names_other_run ev rid \<and> \<not> r_adopted r
     \<or> \<not> names_run ev rid \<and> (\<exists>sid. trimmed (e_session ev) = Some sid \<and> \<not> own_session r sid
          \<and> (\<exists>(p, q) \<in> set (earlier_runs d rid). r_bot q = b \<and> r_native_session q = Some sid))"
  (is "?L \<longleftrightarrow> ?R")
proof (cases "names_run ev rid \<or> names_other_run ev rid \<and> \<not> r_adopted r")
  case True
  then show ?thesis
    by (auto simp: classify_def decide_def generation_of_def names_run_def names_other_run_def Let_def)
next
  case False
  then have dec: "decide (generation_of rid r) ev p =
      (case trimmed (e_session ev) of
           None \<Rightarrow> Unproven No_Session
         | Some sid \<Rightarrow> if own_session r sid then Current
             else (case p of Some p \<Rightarrow> Stale p Earlier_Session | None \<Rightarrow> Unproven No_Earlier_Run))" for p
    by (auto simp: decide_def generation_of_def names_run_def names_other_run_def own_session_def Let_def split: option.splits)
  show ?thesis
  proof (cases "trimmed (e_session ev)")
    case None
    then show ?thesis using False by (simp add: classify_def dec Let_def)
  next
    case (Some sid)
    then have "(case e_session ev of None \<Rightarrow> [] | Some s \<Rightarrow> trim s) = sid" by (auto simp: trimmed_Some)
    then show ?thesis
      using False Some prior_run_None [of d b rid sid]
      by (cases "prior_run d b rid sid") (auto simp: classify_def dec Let_def)
  qed
qed

section \<open>The fence as a guard\<close>

text \<open>
  C5. The fence refuses an event exactly when it proves to be of another generation: it names
  another run of a process the daemon started itself, or, its run unnamed or proving nothing, its
  session is not this generation's and an earlier run of the same bot reported it. A resumed
  conversation and a session changed by \<open>/clear\<close> are let through.
\<close>

theorem fence_refuses_iff:
  "admit (classify True d b rid r ev) rid = None \<longleftrightarrow>
     (\<exists>x. trimmed (e_run ev) = Some x \<and> x \<noteq> rid) \<and> \<not> r_adopted r
     \<or> trimmed (e_run ev) \<noteq> Some rid
       \<and> (\<exists>sid. trimmed (e_session ev) = Some sid
            \<and> trimmed (r_native_session r) \<noteq> Some sid \<and> trimmed (r_resume_session r) \<noteq> Some sid
            \<and> (\<exists>(p, q) \<in> set (earlier_runs d rid). r_bot q = b \<and> r_native_session q = Some sid))"
proof -
  have "admit (classify True d b rid r ev) rid = None \<longleftrightarrow> \<not> may_mutate (classify True d b rid r ev)"
    by (simp add: admit_def)
  then show ?thesis
    unfolding classify_refuses names_run_def names_other_run_def own_session_def by simp
qed









end
