(* ===== verification/Run_State.thy ===== *)
theory Run_State
  imports Status_Tables Sample_Data
begin

text \<open>
  The writers of \<open>runs.state\<close>: the compare-and-set behind the transitions and the relabelling of a
  terminal run (\<open>crates/am-lifecycle/src/lifecycle/run_state.rs\<close>), the other statements of the
  crates that name the column, and the background retries that settle a run whose state could not
  be written. \<open>runs\<close> has no trigger; its unique index keeps one active run per bot. The \<open>debug_assert\<close> of \<open>relabel\<close> is not compiled into a
  release build and is not modelled.
\<close>

datatype moved = Moved_Applied | Moved_Lost

type_synonym run_result = "db_error + moved \<times> db"

definition run_terminal :: "string \<Rightarrow> bool" where
  "run_terminal st = List.member [''stopped'', ''exited''] st"

definition cas :: "(ident \<times> run \<Rightarrow> bool) \<Rightarrow> ident \<Rightarrow> string list \<Rightarrow> string \<Rightarrow> string option \<Rightarrow> time \<Rightarrow> db \<Rightarrow> run_result" where
  "cas guard rid frm to agent_status now d =
     bind_res (update_by_id (\<lambda>_ _. False) runs_ok rid
        (\<lambda>r. List.member frm (r_state r) \<and> guard (rid, r))
        (\<lambda>r. r\<lparr>r_state := to,
               r_agent_status := (case agent_status of Some a \<Rightarrow> a | None \<Rightarrow> r_agent_status r),
               r_ended_at := (if run_terminal to
                              then (case r_ended_at r of Some e \<Rightarrow> Some e | None \<Rightarrow> Some now)
                              else r_ended_at r)\<rparr>) (runs d))
       (\<lambda>(rs, n). Inr (if n = 0 then Moved_Lost else Moved_Applied, d\<lparr>runs := rs\<rparr>))"

definition transition :: "ident \<Rightarrow> string list \<Rightarrow> string \<Rightarrow> string option \<Rightarrow> time \<Rightarrow> db \<Rightarrow> run_result" where
  "transition rid frm to agent_status now d = cas (\<lambda>_. True) rid frm to agent_status now d"

definition no_other_active :: "db \<Rightarrow> ident \<times> run \<Rightarrow> bool" where
  "no_other_active d x =
     (\<not> list_ex (\<lambda>(o_id, o_run). r_bot o_run = r_bot (snd x) \<and> o_id \<noteq> fst x
          \<and> List.member [''starting'', ''running'', ''stopping''] (r_state o_run)) (runs d))"

definition relabel :: "ident \<Rightarrow> string \<Rightarrow> string \<Rightarrow> time \<Rightarrow> db \<Rightarrow> run_result" where
  "relabel rid frm to now d = cas (no_other_active d) rid [frm] to None now d"

section \<open>One move\<close>

definition set_state :: "string \<Rightarrow> string option \<Rightarrow> time \<Rightarrow> run \<Rightarrow> run" where
  "set_state to agent now r =
     r\<lparr>r_state := to,
       r_agent_status := (case agent of Some a \<Rightarrow> a | None \<Rightarrow> r_agent_status r),
       r_ended_at := (if run_terminal to
                      then (case r_ended_at r of Some e \<Rightarrow> Some e | None \<Rightarrow> Some now)
                      else r_ended_at r)\<rparr>"

lemma set_state_fields [simp]:
  "r_state (set_state to agent now r) = to" "r_bot (set_state to agent now r) = r_bot r"
  "r_native_session (set_state to agent now r) = r_native_session r"
  by (simp_all add: set_state_def)

lemma cas_eq:
  "cas guard rid frm to agent now d =
     (case map_of (runs d) rid of
        None \<Rightarrow> Inr (Moved_Lost, d)
      | Some r \<Rightarrow>
          if \<not> (r_state r \<in> set frm \<and> guard (rid, r)) then Inr (Moved_Lost, d)
          else let rs = upd_row rid (set_state to agent now) (runs d)
               in if runs_ok rs then Inr (Moved_Applied, d\<lparr>runs := rs\<rparr>) else Inl Unique_Violation)"
  by (simp add: cas_def update_by_id_def set_state_def [abs_def] Let_def split: option.split)

lemma run_live_or_terminal: "check_run r \<Longrightarrow> run_terminal (r_state r) \<longleftrightarrow> r_state r \<notin> set LIVE"
  by (auto simp: check_run_def RUN_STATES_def run_terminal_def LIVE_def)

lemma runs_ok_row: "runs_ok rs \<Longrightarrow> map_of rs i = Some r \<Longrightarrow> check_run r"
  by (force simp: runs_ok_def list_all_iff dest: map_of_SomeD)

text \<open>The index can only be hit by waking a terminal run.\<close>

lemma set_state_runs_ok:
  assumes "runs_ok rs" "map_of rs rid = Some r" "to \<in> set RUN_STATES"
    and agent: "\<And>a. agent = Some a \<Longrightarrow> a \<in> {''idle'', ''working'', ''blocked'', ''unknown''}"
    and wake: "to \<in> set LIVE \<Longrightarrow> r_state r \<in> set LIVE"
  shows "runs_ok (upd_row rid (set_state to agent now) rs)"
proof -
  have parts: "distinct (map fst rs)" "unique_index one_active_key rs" using assms(1) by (simp_all add: runs_ok_def)
  have "check_run (set_state to agent now r)"
    using runs_ok_row [OF assms(1,2)] assms(3) agent
    by (cases agent) (auto simp: check_run_def set_state_def)
  moreover have "unique_index one_active_key (upd_row rid (set_state to agent now) rs)"
  proof (cases "to \<in> set LIVE")
    case True
    then show ?thesis
      using wake by (intro unique_index_upd_row_same [OF parts assms(2)]) (simp add: one_active_key_def)
  next
    case False
    then show ?thesis by (intro unique_index_upd_row_None [OF parts assms(2)]) (simp add: one_active_key_def)
  qed
  ultimately show ?thesis
    using assms(1,2) by (auto simp: runs_ok_def intro: list_all_upd_row)
qed

section \<open>The statements beside \<open>transition\<close>\<close>

text \<open>
  \<open>cas\<close> is not the only writer of \<open>runs.state\<close>: five UPDATEs and seven INSERTs of the daemon
  name the column themselves. \<open>run_update\<close> and \<open>insert_run\<close> run such a statement under the
  CHECKs and the unique index of \<open>runs\<close>.
\<close>

definition run_update :: "ident \<Rightarrow> (run \<Rightarrow> bool) \<Rightarrow> (run \<Rightarrow> run) \<Rightarrow> db \<Rightarrow> run_result" where
  "run_update rid w f d =
     bind_res (update_by_id (\<lambda>_ _. False) runs_ok rid w f (runs d))
       (\<lambda>(rs, n). Inr (if n = 0 then Moved_Lost else Moved_Applied, d\<lparr>runs := rs\<rparr>))"

definition insert_run :: "ident \<Rightarrow> run \<Rightarrow> db \<Rightarrow> run_result" where
  "insert_run rid r d =
     bind_res (insert_row runs_ok rid r (runs d)) (\<lambda>rs. Inr (Moved_Applied, d\<lparr>runs := rs\<rparr>))"

definition column_or :: "'a option \<Rightarrow> 'a option \<Rightarrow> 'a option" where
  "column_or x y = (case x of Some v \<Rightarrow> Some v | None \<Rightarrow> y)"

text \<open>
  \<open>reconcile.rs\<close>: the pane of an active run was found again. A run that was starting, or stopping
  with no restart of it open, is running; every other state stays. The statement names the run by
  its id alone.
\<close>

definition keep_active_run :: "ident \<Rightarrow> string \<Rightarrow> string \<Rightarrow> string option \<Rightarrow> bool \<Rightarrow> db \<Rightarrow> run_result" where
  "keep_active_run rid pane status native preserve_stopping =
     run_update rid (\<lambda>_. True)
       (\<lambda>r. r\<lparr>r_pane := Some pane, r_agent_status := status,
              r_native_session := column_or (r_native_session r) native,
              r_state := (if r_state r = ''starting'' \<or> (r_state r = ''stopping'' \<and> \<not> preserve_stopping)
                          then ''running'' else r_state r)\<rparr>)"

text \<open>\<open>default_session.rs\<close>: the same for an imported bot; it also clears the recorded end.\<close>

definition keep_imported_run :: "ident \<Rightarrow> string \<Rightarrow> string \<Rightarrow> string option \<Rightarrow> db \<Rightarrow> run_result" where
  "keep_imported_run rid pane status native =
     run_update rid (\<lambda>_. True)
       (\<lambda>r. r\<lparr>r_pane := Some pane, r_agent_status := status,
              r_native_session := column_or (r_native_session r) native, r_adopted := True,
              r_state := (if r_state r = ''starting'' then ''running'' else r_state r),
              r_ended_at := None\<rparr>)"

definition turn_in_flight :: "db \<Rightarrow> ident \<Rightarrow> bool" where
  "turn_in_flight d rid = list_ex (\<lambda>(_, t). t_run t = Some rid \<and> t_status t = ''in_flight'') (turns d)"

definition bot_has_queued :: "db \<Rightarrow> ident \<Rightarrow> bool" where
  "bot_has_queued d b =
     list_ex (\<lambda>(_, t). map_of (conversations d) (t_conversation t) = Some b \<and> t_status t = ''queued'') (turns d)"

text \<open>
  \<open>stop.rs\<close>: an idle run may be stopped. \<open>notice\<close> is the answer of the clause over
  \<open>child_done_state\<close>, \<open>True\<close> where the statement has no such clause.
\<close>

definition admit_idle_stop :: "ident \<Rightarrow> ident \<Rightarrow> bool \<Rightarrow> bool \<Rightarrow> db \<Rightarrow> run_result" where
  "admit_idle_stop rid bot_id allow_queued notice d =
     run_update rid
       (\<lambda>r. r_state r = ''running'' \<and> r_agent_status r = ''idle'' \<and> \<not> turn_in_flight d rid
            \<and> (allow_queued \<or> \<not> bot_has_queued d bot_id) \<and> notice)
       (\<lambda>r. r\<lparr>r_state := ''stopping''\<rparr>) d"

definition api_idle_stop :: "ident \<Rightarrow> ident \<Rightarrow> db \<Rightarrow> run_result" where
  "api_idle_stop rid bot_id d =
     run_update rid
       (\<lambda>r. r_bot r = bot_id \<and> r_state r = ''running'' \<and> r_agent_status r = ''idle''
            \<and> (case map_of (bots d) (r_bot r) of None \<Rightarrow> False
               | Some bt \<Rightarrow> b_kind bt = ''claude-api'' \<and> b_deleted_at bt = None)
            \<and> \<not> turn_in_flight d rid \<and> \<not> bot_has_queued d bot_id)
       (\<lambda>r. r\<lparr>r_state := ''stopping''\<rparr>) d"

text \<open>\<open>startup_abandonment.rs\<close>: the run of a \<open>claude-api\<close> bot that did not survive a daemon restart.\<close>

definition abandon_api_run :: "ident \<Rightarrow> ident \<Rightarrow> time \<Rightarrow> db \<Rightarrow> run_result" where
  "abandon_api_run rid bot_id now =
     run_update rid (\<lambda>r. r_bot r = bot_id \<and> List.member LIVE (r_state r))
       (\<lambda>r. r\<lparr>r_state := ''exited'', r_ended_at := column_or (r_ended_at r) (Some now),
              r_exit_reason := Some ''api_restart_abandoned''\<rparr>)"

text \<open>
  The INSERTs: the seed a promoted child resumes from, the run that adopts a pane found alive
  (three places with the same columns), the start of a bot, its restart in place, and the start of
  a \<open>claude-api\<close> bot, whose INSERT and first transition are one transaction. \<open>child\<close> is the answer of
  \<open>managed_by = 'child'\<close>.
\<close>

definition new_run :: "ident \<Rightarrow> string \<Rightarrow> string \<Rightarrow> time \<Rightarrow> run" where
  "new_run bot_id st status now =
     \<lparr>r_bot = bot_id, r_state = st, r_agent_status = status, r_pane = None, r_adopted = False,
      r_native_session = None, r_resume_session = None, r_started_at = now, r_ended_at = None,
      r_exit_reason = None\<rparr>"

definition seed_session_run :: "ident \<Rightarrow> ident \<Rightarrow> string \<Rightarrow> time \<Rightarrow> db \<Rightarrow> run_result" where
  "seed_session_run rid bot_id session now =
     insert_run rid ((new_run bot_id ''stopped'' ''idle'' now)\<lparr>r_native_session := Some session, r_ended_at := Some now\<rparr>)"

definition adopt_run :: "ident \<Rightarrow> ident \<Rightarrow> string \<Rightarrow> string \<Rightarrow> string option \<Rightarrow> time \<Rightarrow> db \<Rightarrow> run_result" where
  "adopt_run rid bot_id pane status native now =
     insert_run rid ((new_run bot_id ''running'' status now)\<lparr>r_pane := Some pane, r_adopted := True, r_native_session := native\<rparr>)"

definition start_run :: "ident \<Rightarrow> ident \<Rightarrow> time \<Rightarrow> db \<Rightarrow> run_result" where
  "start_run rid bot_id now = insert_run rid (new_run bot_id ''starting'' ''unknown'' now)"

definition restart_run :: "ident \<Rightarrow> ident \<Rightarrow> string \<Rightarrow> string option \<Rightarrow> time \<Rightarrow> db \<Rightarrow> run_result" where
  "restart_run rid bot_id pane resume now =
     insert_run rid ((new_run bot_id ''starting'' ''unknown'' now)\<lparr>r_pane := Some pane, r_adopted := True, r_resume_session := resume\<rparr>)"

definition native_start_allowed :: "db \<Rightarrow> ident \<Rightarrow> bool \<Rightarrow> bool" where
  "native_start_allowed d bot_id child =
     (case map_of (bots d) bot_id of None \<Rightarrow> False
      | Some bt \<Rightarrow>
          (case map_of (projects d) (b_project bt) of None \<Rightarrow> False
           | Some p \<Rightarrow> b_kind bt = ''claude-api'' \<and> b_deleted_at bt = None \<and> p_deleted_at p = None
               \<and> p_handed_off_to p = None \<and> \<not> child
               \<and> \<not> list_ex (\<lambda>(_, r). r_bot r = bot_id \<and> List.member LIVE (r_state r)) (runs d)))"

definition native_start :: "ident \<Rightarrow> ident \<Rightarrow> bool \<Rightarrow> time \<Rightarrow> db \<Rightarrow> run_result" where
  "native_start rid bot_id child now d =
     (if \<not> native_start_allowed d bot_id child then Inl (Bail ''run_insert_matched_no_row'')
      else bind_res (start_run rid bot_id now d)
        (\<lambda>(_, d1). bind_res (transition rid [''starting''] ''running'' (Some ''idle'') now d1)
           (\<lambda>(m, d2). if m = Moved_Applied then Inr (m, d2) else Inl (Bail ''run_transition_not_applied''))))"

section \<open>The moves the daemon makes\<close>

text \<open>
  Every statement of the crates that writes \<open>runs.state\<close>, as data. Through \<open>transition\<close> and
  \<open>relabel\<close>: start (\<open>start.rs\<close> 369, 1817, 2361, 2382), stop (\<open>stop.rs\<close> 487, 521, 570, 573, 608),
  restart (\<open>start.rs\<close> 2094, 2203, 2255) and the pane that is gone (\<open>queue.rs\<close> 890, 891). The other
  UPDATEs: \<open>reconcile.rs\<close> 768, \<open>default_session.rs\<close> 113, \<open>stop.rs\<close> 493 and 548,
  \<open>startup_abandonment.rs\<close> 55. The INSERTs: \<open>promote_intents.rs\<close> 124, \<open>reconcile.rs\<close> 846 and 1201
  and \<open>default_session.rs\<close> 139, \<open>start.rs\<close> 328 and 2322, \<open>native_start.rs\<close> 73 with its transition at
  76. No statement deletes a run.
\<close>

datatype run_op =
    Start_Failed ident time
  | Started ident "string option" time
  | Stop_Begins ident time
  | Stop_Done ident time
  | Stop_Fails ident time
  | Pane_Gone ident time
  | Pane_Gone_Stopping ident time
  | Call_It_Stopped ident time
  | Call_It_Exited ident time
  | Pane_Found ident string string "string option" bool
  | Imported_Found ident string string "string option"
  | Idle_Stop ident ident bool bool
  | Api_Idle_Stop ident ident
  | Startup_Abandons ident ident time
  | Seeds_Session ident ident string time
  | Adopts ident ident string string "string option" time
  | Starts ident ident time
  | Restarts ident ident string "string option" time
  | Native_Starts ident ident bool time

fun run_exec :: "run_op \<Rightarrow> db \<Rightarrow> run_result" where
  "run_exec (Start_Failed i now) = transition i [''starting''] ''exited'' None now"
| "run_exec (Started i agent now) = transition i [''starting''] ''running'' agent now"
| "run_exec (Stop_Begins i now) = transition i LIVE ''stopping'' None now"
| "run_exec (Stop_Done i now) = transition i [''stopping''] ''stopped'' None now"
| "run_exec (Stop_Fails i now) = transition i [''stopping''] ''running'' None now"
| "run_exec (Pane_Gone i now) = transition i [''starting'', ''running''] ''exited'' None now"
| "run_exec (Pane_Gone_Stopping i now) = transition i [''stopping''] ''exited'' None now"
| "run_exec (Call_It_Stopped i now) = relabel i ''exited'' ''stopped'' now"
| "run_exec (Call_It_Exited i now) = relabel i ''stopped'' ''exited'' now"
| "run_exec (Pane_Found i pane status native preserve) = keep_active_run i pane status native preserve"
| "run_exec (Imported_Found i pane status native) = keep_imported_run i pane status native"
| "run_exec (Idle_Stop i b allow_queued notice) = admit_idle_stop i b allow_queued notice"
| "run_exec (Api_Idle_Stop i b) = api_idle_stop i b"
| "run_exec (Startup_Abandons i b now) = abandon_api_run i b now"
| "run_exec (Seeds_Session i b session now) = seed_session_run i b session now"
| "run_exec (Adopts i b pane status native now) = adopt_run i b pane status native now"
| "run_exec (Starts i b now) = start_run i b now"
| "run_exec (Restarts i b pane resume now) = restart_run i b pane resume now"
| "run_exec (Native_Starts i b child now) = native_start i b child now"

definition run_perform :: "run_op \<Rightarrow> db \<Rightarrow> db" where
  "run_perform op d = kept (run_exec op d) d"

definition run_edge :: "string \<Rightarrow> string \<Rightarrow> bool" where
  "run_edge a b \<longleftrightarrow> (a, b) \<in> set RUN_STATE_EDGES"

definition run_state_of :: "db \<Rightarrow> ident \<Rightarrow> string option" where
  "run_state_of d i = map_option r_state (map_of (runs d) i)"

text \<open>What one statement may do: every run keeps its bot and moves along at most one edge.\<close>

definition run_kept :: "run \<Rightarrow> run \<Rightarrow> bool" where
  "run_kept r s \<longleftrightarrow> r_bot s = r_bot r \<and> (r_state r = r_state s \<or> run_edge (r_state r) (r_state s))"

definition run_step :: "db \<Rightarrow> db \<Rightarrow> bool" where
  "run_step d d' \<longleftrightarrow> (runs_ok (runs d) \<longrightarrow> runs_ok (runs d'))
     \<and> (\<forall>i r. map_of (runs d) i = Some r \<longrightarrow> (\<exists>s. map_of (runs d') i = Some s \<and> run_kept r s))"

lemma run_kept_refl [simp]: "run_kept r r"
  by (simp add: run_kept_def)

lemma run_step_refl [simp]: "run_step d d"
  by (auto simp: run_step_def)

lemma run_update_step:
  assumes "run_update rid w f d = Inr (m, d')" "\<And>r. w r \<Longrightarrow> run_kept r (f r)"
  shows "run_step d d'"
proof -
  obtain t n where u: "update_by_id (\<lambda>_ _. False) runs_ok rid w f (runs d) = Inr (t, n)" "d' = d\<lparr>runs := t\<rparr>"
    using assms(1) by (auto simp: run_update_def bind_res_def split: sum.splits)
  show ?thesis
    using u(1)
  proof (cases rule: update_by_id_cases)
    case miss
    then show ?thesis using u(2) by simp
  next
    case (hit r)
    then show ?thesis using u(2) assms(2) [of r] run_kept_refl by (auto simp: run_step_def)
  qed
qed

lemma insert_run_step: "insert_run rid r d = Inr (m, d') \<Longrightarrow> run_step d d'"
  by (auto simp: insert_run_def run_step_def insert_row_def run_kept_def Let_def map_of_snoc split: option.splits if_splits)

lemma cas_cases:
  assumes "cas guard rid frm to agent now d = Inr (m, d')"
  obtains (lost) "m = Moved_Lost" "d' = d"
    | (applied) r where "m = Moved_Applied" "map_of (runs d) rid = Some r" "r_state r \<in> set frm" "guard (rid, r)"
        "d' = d\<lparr>runs := upd_row rid (set_state to agent now) (runs d)\<rparr>" "runs_ok (runs d')"
  using assms unfolding cas_eq by (auto simp: Let_def split: option.splits if_splits)

lemma cas_step:
  assumes "cas guard rid frm to agent now d = Inr (m, d')" "\<And>a. a \<in> set frm \<Longrightarrow> run_edge a to"
  shows "run_step d d'"
  using assms(1)
proof (cases rule: cas_cases)
  case (applied r)
  then show ?thesis using assms(2) by (auto simp: run_step_def run_kept_def)
qed simp

lemma cas_other_rows: "cas guard rid frm to agent now d = Inr (m, d') \<Longrightarrow> j \<noteq> rid \<Longrightarrow> map_of (runs d') j = map_of (runs d) j"
  by (elim cas_cases) auto

lemma native_start_step:
  assumes "native_start rid b child now d = Inr (m, d')"
  shows "run_step d d'"
proof -
  obtain n d1 where start: "start_run rid b now d = Inr (n, d1)"
    and move: "cas (\<lambda>_. True) rid [''starting''] ''running'' (Some ''idle'') now d1 = Inr (m, d')"
    using assms by (auto simp: native_start_def bind_res_def transition_def split: if_splits sum.splits)
  have rows: "map_of (runs d) rid = None" "\<And>j. j \<noteq> rid \<Longrightarrow> map_of (runs d1) j = map_of (runs d) j"
    using start insert_row_rows [of runs_ok rid "new_run b ''starting'' ''unknown'' now" "runs d"]
    by (auto simp: start_run_def insert_run_def bind_res_def split: sum.splits)
  have steps: "run_step d d1" "run_step d1 d'"
    using start insert_run_step cas_step [OF move]
    by (auto simp: start_run_def run_edge_def RUN_STATE_EDGES_def)
  have "\<exists>s. map_of (runs d') i = Some s \<and> run_kept r s" if "map_of (runs d) i = Some r" for i r
  proof -
    have "i \<noteq> rid" using that rows(1) by auto
    then have "map_of (runs d') i = Some r" using that rows(2) cas_other_rows [OF move] by simp
    then show ?thesis by (simp add: run_kept_def)
  qed
  then show ?thesis using steps by (simp add: run_step_def)
qed

lemmas run_writers = keep_active_run_def keep_imported_run_def admit_idle_stop_def api_idle_stop_def abandon_api_run_def
lemmas run_inserts = seed_session_run_def adopt_run_def start_run_def restart_run_def

lemma legal_run_edges [simp]:
  "run_edge ''starting'' ''running''" "run_edge ''stopping'' ''running''" "run_edge ''running'' ''stopping''"
  "a \<in> set LIVE \<Longrightarrow> run_edge a ''exited''"
  by (auto simp: run_edge_def RUN_STATE_EDGES_def LIVE_def)

lemma run_exec_step: "run_exec op d = Inr (m, d') \<Longrightarrow> run_step d d'"
proof (cases op)
  fix i b c now
  assume "run_exec op d = Inr (m, d')" "op = Native_Starts i b c now"
  then show ?thesis using native_start_step by simp
qed (simp_all add: transition_def relabel_def run_writers run_inserts,
     ((erule insert_run_step | erule cas_step | erule run_update_step),
      (force simp: run_kept_def run_edge_def RUN_STATE_EDGES_def LIVE_def)?)+)

lemma run_perform_step: "run_step d (run_perform op d)"
proof (cases "run_exec op d")
  case (Inr p)
  then show ?thesis using run_exec_step [of op d "fst p" "snd p"] by (cases p) (auto simp: run_perform_def)
qed (simp add: run_perform_def)

interpretation run_moves: guarded_status run_state_of run_edge run_perform
  using run_perform_step by unfold_locales (fastforce simp: run_step_def run_kept_def run_state_of_def)

interpretation run_rows: forward_rows "\<lambda>d :: db. map_of (runs d)" "\<lambda>r s. r_bot s = r_bot r \<and> run_edge\<^sup>*\<^sup>* (r_state r) (r_state s)" run_perform
proof unfold_locales
  fix d :: db and i r op
  assume "map_of (runs d) i = Some r"
  then show "\<exists>q. map_of (runs (run_perform op d)) i = Some q \<and> r_bot q = r_bot r \<and> run_edge\<^sup>*\<^sup>* (r_state r) (r_state q)"
    using run_perform_step [of d op] by (fastforce simp: run_step_def run_kept_def)
qed auto

lemma terminal_run_closed: "run_terminal a \<Longrightarrow> run_edge a b \<Longrightarrow> run_terminal b"
  by (auto simp: run_terminal_def run_edge_def RUN_STATE_EDGES_def)

lemma runs_ok_fold: "runs_ok (runs d) \<Longrightarrow> runs_ok (runs (fold run_perform ops d))"
proof (induction ops arbitrary: d)
  case (Cons op ops)
  then show ?case using run_perform_step [of d op] by (simp add: run_step_def)
qed simp

section \<open>The settling of a run whose state could not be written\<close>

datatype settle =
    Reconcile string
  | Finish_Stop
  | Back_To_Running
  | Relabel string string

fun pending :: "settle \<Rightarrow> string \<Rightarrow> bool" where
  "pending (Reconcile stuck) st = (st = stuck)"
| "pending Finish_Stop st = List.member [''stopping'', ''exited''] st"
| "pending Back_To_Running st = (st = ''stopping'')"
| "pending (Relabel frm to) st = (st = frm)"

text \<open>
  One attempt. What it asks of the outside is an argument: whether the reads answer, the host of
  the bot, the reconciliation of that host, \<open>stop::finish_stop\<close>, and whether the database can be
  written at that moment.
\<close>

record services =
  read_first :: bool
  read_last :: bool
  host_of :: "db \<Rightarrow> ident \<Rightarrow> string option"
  reconcile_host :: "string \<Rightarrow> db \<Rightarrow> db"
  finish_stop :: "ident \<Rightarrow> db \<Rightarrow> db"
  writable :: bool

definition still_pending :: "services \<Rightarrow> ident \<Rightarrow> settle \<Rightarrow> db \<Rightarrow> bool" where
  "still_pending sv rid how d =
     (if \<not> read_last sv then True
      else (case map_of (runs d) rid of None \<Rightarrow> False | Some r \<Rightarrow> pending how (r_state r)))"

definition settle_once :: "services \<Rightarrow> ident \<Rightarrow> settle \<Rightarrow> time \<Rightarrow> db \<Rightarrow> bool \<times> db" where
  "settle_once sv rid how now d =
     (if \<not> read_first sv then (False, d)
      else (case map_of (runs d) rid of
        None \<Rightarrow> (True, d)
      | Some r \<Rightarrow>
          if \<not> pending how (r_state r) then (True, d)
          else (case how of
              Reconcile stuck \<Rightarrow>
                (case host_of sv d (r_bot r) of
                   None \<Rightarrow> (False, d)
                 | Some h \<Rightarrow> let d' = reconcile_host sv h d in (\<not> still_pending sv rid how d', d'))
            | Finish_Stop \<Rightarrow> let d' = finish_stop sv rid d in (\<not> still_pending sv rid how d', d')
            | Back_To_Running \<Rightarrow>
                let d' = (if writable sv then kept (transition rid [''stopping''] ''running'' None now d) d else d)
                in (\<not> still_pending sv rid how d', d')
            | Relabel frm to \<Rightarrow>
                (if \<not> writable sv then (False, d)
                 else (case relabel rid frm to now d of
                         Inr (_, d') \<Rightarrow> (True, d')
                       | Inl _ \<Rightarrow> (False, d))))))"

text \<open>The background loop: one attempt after each of six growing waits, until one settles.\<close>

definition SETTLE_WAITS :: "nat list" where
  "SETTLE_WAITS = [2, 5, 15, 30, 60, 120]"

fun settle_loop :: "(services \<times> time) list \<Rightarrow> ident \<Rightarrow> settle \<Rightarrow> db \<Rightarrow> bool \<times> db" where
  "settle_loop [] rid how d = (False, d)"
| "settle_loop ((sv, now) # rest) rid how d =
     (let (ok, d') = settle_once sv rid how now d in if ok then (True, d') else settle_loop rest rid how d')"

definition scheduled_settle :: "(services \<times> time) list \<Rightarrow> ident \<Rightarrow> settle \<Rightarrow> db \<Rightarrow> bool \<times> db" where
  "scheduled_settle env rid how d = settle_loop (take (length SETTLE_WAITS) env) rid how d"

end
