(* ===== verification/Run_Properties.thy ===== *)
theory Run_Properties
  imports Run_State
begin

text \<open>
  What the writers of \<open>runs.state\<close> guarantee: the paths of a run, the relabelling of a terminal
  run, and the settling of a run whose state could not be written.
\<close>

section \<open>Paths of a run\<close>

text \<open>
  C7. Through any sequence of the statements that write \<open>runs.state\<close> (every transition, relabelling,
  UPDATE and INSERT of the daemon), from a table that meets its constraints: a run that is there at
  some point stays its bot's and follows the documented edges from then on, a run that ended is
  never live again, and no bot ever has two active runs, the ones inserted on the way included.
\<close>

theorem run_never_revives:
  assumes "runs_ok (runs d)" "map_of (runs (fold run_perform before d)) i = Some r"
    "d' = fold run_perform (before @ after) d"
  shows "(\<exists>s. map_of (runs d') i = Some s \<and> r_bot s = r_bot r \<and> run_edge\<^sup>*\<^sup>* (r_state r) (r_state s)
       \<and> (run_terminal (r_state r) \<longrightarrow> run_terminal (r_state s)))
     \<and> (\<forall>j k u v. map_of (runs d') j = Some u \<and> map_of (runs d') k = Some v \<and> r_bot u = r_bot v
          \<and> r_state u \<in> set LIVE \<and> r_state v \<in> set LIVE \<longrightarrow> j = k)"
proof -
  have d': "d' = fold run_perform after (fold run_perform before d)" using assms(3) by simp
  obtain s where s: "map_of (runs d') i = Some s" "r_bot s = r_bot r" "run_edge\<^sup>*\<^sup>* (r_state r) (r_state s)"
    using run_rows.fold_later [OF assms(2), of after] d' by blast
  have "run_terminal (r_state s)" if "run_terminal (r_state r)"
    using run_moves.closed_path [OF s(3), of "Collect run_terminal"] that terminal_run_closed by auto
  moreover have "runs_ok (runs d')" unfolding assms(3) by (rule runs_ok_fold [OF assms(1)])
  ultimately show ?thesis using s one_run_active by blast
qed

theorem run_never_revives_witness:
  "\<exists>s. map_of (runs (fold run_perform [Adopts ''R2'' ''spec'' ''%2'' ''idle'' None 5, Pane_Gone ''R2'' 6,
          Pane_Found ''R2'' ''%3'' ''idle'' None False, Starts ''R3'' ''spec'' 7] sample)) ''R2'' = Some s
     \<and> r_bot s = ''spec'' \<and> run_terminal (r_state s)"
proof -
  let ?before = "[Adopts ''R2'' ''spec'' ''%2'' ''idle'' None 5, Pane_Gone ''R2'' 6]"
  let ?r = "(new_run ''spec'' ''exited'' ''idle'' 5)\<lparr>r_pane := Some ''%2'', r_adopted := True, r_ended_at := Some 6\<rparr>"
  let ?after = "[Pane_Found ''R2'' ''%3'' ''idle'' None False, Starts ''R3'' ''spec'' 7]"
  have row: "map_of (runs (fold run_perform ?before sample)) ''R2'' = Some ?r" by code_simp
  have r: "run_terminal (r_state ?r)" "r_bot ?r = ''spec''" by code_simp+
  have "?before @ ?after = [Adopts ''R2'' ''spec'' ''%2'' ''idle'' None 5, Pane_Gone ''R2'' 6,
      Pane_Found ''R2'' ''%3'' ''idle'' None False, Starts ''R3'' ''spec'' 7]"
    by (simp only: append.simps)
  then show ?thesis
    using run_never_revives [OF sample_runs_ok row refl, of ?after] r by (simp only: simp_thms) blast
qed

text \<open>
  The statements that adopt a pane name the run by its id alone. When the pane of an imported bot is
  gone between the read and the statement, the run stays ended but loses its recorded end, and
  \<open>last_native_session\<close>, which asks for \<open>ended_at IS NOT NULL\<close>, no longer finds its conversation.
\<close>

lemma import_forgets_end:
  "map_option (\<lambda>r. (r_state r, r_ended_at r))
     (map_of (runs (fold run_perform [Pane_Gone ''R1'' 8, Imported_Found ''R1'' ''%1'' ''idle'' (Some ''s1'')] sample)) ''R1'')
   = Some (''exited'', None)"
  by code_simp

section \<open>Relabelling\<close>

text \<open>
  Relabelling a terminal run never fails on the index. It rewrites the state of that run
  exactly when the run carries the old label and no other run of its bot is active, keeping the
  recorded end; otherwise it answers \<open>Lost\<close> and writes nothing.
\<close>

theorem relabel_exact:
  assumes "runs_ok (runs d)" "run_terminal frm" "run_terminal to"
  shows "relabel rid frm to now d =
     (case map_of (runs d) rid of
        None \<Rightarrow> Inr (Moved_Lost, d)
      | Some r \<Rightarrow>
          if r_state r = frm \<and> (\<forall>j u. (j, u) \<in> set (runs d) \<and> r_bot u = r_bot r \<and> r_state u \<in> set LIVE \<longrightarrow> j = rid)
          then Inr (Moved_Applied, d\<lparr>runs := upd_row rid
                      (\<lambda>_. r\<lparr>r_state := to, r_ended_at := Some (case r_ended_at r of None \<Rightarrow> now | Some e \<Rightarrow> e)\<rparr>) (runs d)\<rparr>)
          else Inr (Moved_Lost, d))"
proof (cases "map_of (runs d) rid")
  case None
  then show ?thesis by (simp add: relabel_def cas_eq)
next
  case (Some r)
  have to: "to \<in> set RUN_STATES" "to \<notin> set LIVE"
    using assms(3) by (auto simp: run_terminal_def RUN_STATES_def LIVE_def)
  have ok: "runs_ok (upd_row rid (set_state to None now) (runs d))"
    using set_state_runs_ok [OF assms(1) Some to(1), of None now] to(2) by auto
  have eq: "upd_row rid (set_state to None now) (runs d) = upd_row rid
       (\<lambda>_. r\<lparr>r_state := to, r_ended_at := Some (case r_ended_at r of None \<Rightarrow> now | Some e \<Rightarrow> e)\<rparr>) (runs d)"
    using upd_row_const [OF Some, of "set_state to None now"] assms(3)
    by (simp add: set_state_def) (cases "r_ended_at r"; simp)
  have "no_other_active d (rid, r) \<longleftrightarrow>
      (\<forall>j u. (j, u) \<in> set (runs d) \<and> r_bot u = r_bot r \<and> r_state u \<in> set LIVE \<longrightarrow> j = rid)"
    by (auto simp: no_other_active_def list_ex_iff LIVE_def)
  then show ?thesis
    using Some ok by (simp add: relabel_def cas_eq eq)
qed

theorem relabel_exact_witness:
  "relabel ''R0'' ''exited'' ''stopped'' 9 sample = Inr (Moved_Lost, sample)
   \<and> (\<exists>d'. relabel ''R0'' ''exited'' ''stopped'' 9 (run_perform (Pane_Gone ''R1'' 8) sample) = Inr (Moved_Applied, d')
        \<and> run_state_of d' ''R0'' = Some ''stopped'')"
proof -
  let ?d = "run_perform (Pane_Gone ''R1'' 8) sample"
  have lbl: "run_terminal ''exited''" "run_terminal ''stopped''" by code_simp+
  have lost: "\<not> (\<forall>(j, u) \<in> set (runs sample). r_bot u = ''B'' \<and> r_state u \<in> set LIVE \<longrightarrow> j = ''R0'')" by code_simp
  have won: "\<forall>(j, u) \<in> set (runs ?d). r_bot u = ''B'' \<and> r_state u \<in> set LIVE \<longrightarrow> j = ''R0''" by code_simp
  have rows: "map_of (runs sample) ''R0'' = Some (mk_run ''B'' ''exited'' (Some ''s0''))"
    "map_of (runs ?d) ''R0'' = Some (mk_run ''B'' ''exited'' (Some ''s0''))" by code_simp+
  have ok: "runs_ok (runs ?d)" using runs_ok_fold [OF sample_runs_ok, of "[Pane_Gone ''R1'' 8]"] by simp
  have "relabel ''R0'' ''exited'' ''stopped'' 9 sample = Inr (Moved_Lost, sample)"
    using relabel_exact [OF sample_runs_ok lbl, of "''R0''" 9] lost by (auto simp: rows mk_run_def)
  moreover have "\<exists>d'. relabel ''R0'' ''exited'' ''stopped'' 9 ?d = Inr (Moved_Applied, d') \<and> run_state_of d' ''R0'' = Some ''stopped''"
    using relabel_exact [OF ok lbl, of "''R0''" 9] won rows(2) by (auto simp: mk_run_def run_state_of_def)
  ultimately show ?thesis by blast
qed

section \<open>Settling\<close>

lemma still_pending_False: "\<not> still_pending sv rid how d \<Longrightarrow> map_of (runs d) rid = Some r \<Longrightarrow> \<not> pending how (r_state r)"
  by (auto simp: still_pending_def split: if_splits)

definition settled_run :: "ident \<Rightarrow> settle \<Rightarrow> db \<Rightarrow> bool" where
  "settled_run rid how d \<longleftrightarrow>
     (\<forall>r. map_of (runs d) rid = Some r \<and> pending how (r_state r) \<longrightarrow>
        (\<exists>frm to. how = Relabel frm to \<and> (frm = to \<or> \<not> no_other_active d (rid, r))))"

lemma settle_once_settled:
  assumes "settle_once sv rid how now d = (True, d')"
  shows "settled_run rid how d'"
proof (cases how)
  case (Relabel frm to)
  then show ?thesis
    using assms
    by (auto simp: settle_once_def settled_run_def relabel_def cas_eq Let_def split: if_splits option.splits sum.splits)
qed (use assms in \<open>auto simp: settle_once_def settled_run_def Let_def dest: still_pending_False split: if_splits option.splits\<close>)

lemma settle_loop_settled: "settle_loop env rid how d = (True, d') \<Longrightarrow> settled_run rid how d'"
  by (induction env rid how d rule: settle_loop.induct) (auto split: prod.splits if_splits dest: settle_once_settled)

text \<open>
  C8. The background retries report a run as settled only when it is: the row is gone, or has
  left the state the retry was scheduled for, or its old label no longer speaks for the bot
  because another run is active. Whatever the reads, the reconciliation and the writes do on the
  way, a failed read or write is never taken for success.
\<close>

theorem settled_is_settled:
  assumes "scheduled_settle env rid how d = (True, d')" "map_of (runs d') rid = Some r" "pending how (r_state r)"
  shows "\<exists>frm to. how = Relabel frm to \<and> (frm = to \<or>
           (\<exists>(j, u) \<in> set (runs d'). j \<noteq> rid \<and> r_bot u = r_bot r \<and> r_state u \<in> set LIVE))"
  using settle_loop_settled [OF assms(1) [unfolded scheduled_settle_def]] assms(2,3)
  by (auto simp: settled_run_def no_other_active_def list_ex_iff LIVE_def)

definition outage :: services where
  "outage = \<lparr>read_first = True, read_last = True, host_of = \<lambda>_ _. None, reconcile_host = \<lambda>_ d. d,
      finish_stop = \<lambda>_ d. d, writable = False\<rparr>"

definition healthy :: services where
  "healthy = outage\<lparr>writable := True\<rparr>"

theorem settled_is_settled_witness:
  "(let d = sample; r = scheduled_settle [(outage, 5), (healthy, 10)] ''R0'' (Relabel ''exited'' ''stopped'') d in
     fst r \<and> (\<exists>(j, u) \<in> set (runs (snd r)). j \<noteq> ''R0'' \<and> r_bot u = ''B'' \<and> r_state u \<in> set LIVE))"
proof -
  let ?r = "scheduled_settle [(outage, 5), (healthy, 10)] ''R0'' (Relabel ''exited'' ''stopped'') sample"
  have run: "?r = (True, sample)" by code_simp
  have row: "map_of (runs sample) ''R0'' = Some (mk_run ''B'' ''exited'' (Some ''s0''))" by code_simp
  have pend: "pending (Relabel ''exited'' ''stopped'') (r_state (mk_run ''B'' ''exited'' (Some ''s0'')))" by code_simp
  show ?thesis
    using settled_is_settled [OF run row pend] by (simp add: run Let_def mk_run_def)
qed

text \<open>
  The other direction: an attempt made while the reads answer, the database can be written and
  the outside does its part settles the run, whatever the earlier attempts did.
\<close>

definition good_attempt :: "services \<Rightarrow> ident \<Rightarrow> settle \<Rightarrow> bool" where
  "good_attempt sv rid how \<longleftrightarrow> read_first sv \<and> read_last sv \<and> writable sv
     \<and> (case how of
          Reconcile stuck \<Rightarrow> (\<forall>d b. host_of sv d b \<noteq> None)
            \<and> (\<forall>d h r. map_of (runs (reconcile_host sv h d)) rid = Some r \<longrightarrow> r_state r \<noteq> stuck)
        | Finish_Stop \<Rightarrow> (\<forall>d r. map_of (runs (finish_stop sv rid d)) rid = Some r \<longrightarrow> \<not> pending how (r_state r))
        | _ \<Rightarrow> True)"

definition sane_services :: "services \<Rightarrow> bool" where
  "sane_services sv \<longleftrightarrow> (\<forall>d h. runs_ok (runs d) \<longrightarrow> runs_ok (runs (reconcile_host sv h d)))
     \<and> (\<forall>d i. runs_ok (runs d) \<longrightarrow> runs_ok (runs (finish_stop sv i d)))"

lemma cas_runs_ok: "runs_ok (runs d) \<Longrightarrow> cas g rid frm to agent now d = Inr (m, d') \<Longrightarrow> runs_ok (runs d')"
  by (erule cas_cases) auto

lemma kept_cas_runs_ok: "runs_ok (runs d) \<Longrightarrow> runs_ok (runs (kept (cas g rid frm to agent now d) d))"
  using cas_runs_ok by (cases "cas g rid frm to agent now d") force+

lemma settle_once_runs_ok:
  assumes "runs_ok (runs d)" "sane_services sv"
  shows "runs_ok (runs (snd (settle_once sv rid how now d)))"
  using assms kept_cas_runs_ok [OF assms(1)] cas_runs_ok [OF assms(1)]
  by (cases how) (auto simp: settle_once_def sane_services_def transition_def relabel_def Let_def
      split: option.splits sum.splits)

lemma good_attempt_settles:
  assumes "good_attempt sv rid how" "runs_ok (runs d)" "\<forall>frm to. how = Relabel frm to \<longrightarrow> run_terminal to"
  shows "fst (settle_once sv rid how now d)"
proof (cases how)
  case Back_To_Running
  have "kept (transition rid [''stopping''] ''running'' None now d) d =
      (case map_of (runs d) rid of None \<Rightarrow> d
       | Some r \<Rightarrow> if r_state r = ''stopping'' then d\<lparr>runs := upd_row rid (set_state ''running'' None now) (runs d)\<rparr> else d)"
    using set_state_runs_ok [OF assms(2), of rid _ "''running''" None now]
    by (auto simp: transition_def cas_eq Let_def RUN_STATES_def LIVE_def split: option.splits)
  then show ?thesis
    using assms(1) Back_To_Running
    by (auto simp: settle_once_def good_attempt_def still_pending_def split: option.splits)
next
  case (Relabel frm to)
  have "to \<in> set RUN_STATES \<and> to \<notin> set LIVE"
    using assms(3) Relabel by (auto simp: run_terminal_def RUN_STATES_def LIVE_def)
  then have "\<exists>p. relabel rid frm to now d = Inr p"
    using set_state_runs_ok [OF assms(2), of rid _ to None now]
    by (auto simp: relabel_def cas_eq Let_def split: option.split)
  then show ?thesis using assms(1) Relabel by (auto simp: settle_once_def good_attempt_def split: option.splits)
next
  case (Reconcile stuck)
  then have host: "\<And>d b. \<exists>h. host_of sv d b = Some h" using assms(1) by (auto simp: good_attempt_def)
  have fin: "\<not> still_pending sv rid how (reconcile_host sv h d)" for h
    using assms(1) Reconcile by (auto simp: good_attempt_def still_pending_def split: option.split)
  show ?thesis
  proof (cases "map_of (runs d) rid")
    case (Some r)
    obtain h where "host_of sv d (r_bot r) = Some h" using host by blast
    then show ?thesis using assms(1) Reconcile fin Some by (simp add: settle_once_def good_attempt_def Let_def)
  qed (use assms(1) in \<open>simp add: settle_once_def good_attempt_def\<close>)
next
  case Finish_Stop
  then show ?thesis using assms(1)
    by (auto simp: settle_once_def good_attempt_def still_pending_def Let_def split: option.splits)
qed

lemma settle_loop_good:
  assumes "(sv, now) \<in> set env" "good_attempt sv rid how" "runs_ok (runs d)"
    "\<forall>(sv, _) \<in> set env. sane_services sv" "\<forall>frm to. how = Relabel frm to \<longrightarrow> run_terminal to"
  shows "fst (settle_loop env rid how d)"
  using assms
proof (induction env rid how d rule: settle_loop.induct)
  case (2 sv' now' rest rid how d)
  show ?case
  proof (cases "settle_once sv' rid how now' d")
    case (Pair ok d1)
    have ok1: "runs_ok (runs d1)" using settle_once_runs_ok [OF "2.prems"(3), of sv' rid how now'] "2.prems"(4) Pair by simp
    show ?thesis
    proof (cases "(sv, now) = (sv', now')")
      case True
      then show ?thesis using good_attempt_settles [OF "2.prems"(2,3,5), of now'] Pair by simp
    next
      case False
      then show ?thesis using "2.IH" [OF Pair [symmetric] refl] "2.prems" ok1 Pair by auto
    qed
  qed
qed simp

text \<open>
  C9. One good attempt among the six is enough: if at one of the scheduled times the reads
  answer, the database can be written and the outside has done its part, the run is settled,
  whatever the other attempts met.
\<close>

theorem settle_converges:
  assumes "runs_ok (runs d)" "k < length env" "k < 6" "good_attempt (fst (env ! k)) rid how"
    "\<forall>(sv, now) \<in> set env. sane_services sv" "\<forall>frm to. how = Relabel frm to \<longrightarrow> run_terminal to"
  shows "\<exists>d'. scheduled_settle env rid how d = (True, d')"
proof -
  let ?env = "take (length SETTLE_WAITS) env"
  have "env ! k = ?env ! k" "k < length ?env" using assms(2,3) by (simp_all add: SETTLE_WAITS_def)
  then have mem: "(fst (env ! k), snd (env ! k)) \<in> set ?env" by (metis nth_mem prod.collapse)
  have sane: "\<forall>(sv, now) \<in> set ?env. sane_services sv" using assms(5) set_take_subset by fastforce
  have "fst (settle_loop ?env rid how d)" by (rule settle_loop_good [OF mem assms(4,1) sane assms(6)])
  then show ?thesis by (metis prod.collapse scheduled_settle_def)
qed

theorem settle_converges_witness:
  "\<exists>d'. scheduled_settle [(outage, 1), (outage\<lparr>read_first := False\<rparr>, 2), (healthy, 3)] ''R1'' Back_To_Running
          (run_perform (Stop_Begins ''R1'' 0) sample) = (True, d') \<and> run_state_of d' ''R1'' = Some ''running''"
proof -
  let ?env = "[(outage, 1), (outage\<lparr>read_first := False\<rparr>, 2), (healthy, 3)]"
  let ?d = "run_perform (Stop_Begins ''R1'' 0) sample"
  have ok: "runs_ok (runs ?d)" using runs_ok_fold [OF sample_runs_ok, of "[Stop_Begins ''R1'' 0]"] by simp
  have sane: "\<forall>(sv, now) \<in> set ?env. sane_services sv" by (simp add: sane_services_def outage_def healthy_def)
  have st: "run_state_of (snd (scheduled_settle ?env ''R1'' Back_To_Running ?d)) ''R1'' = Some ''running''" by code_simp
  have good: "good_attempt (fst (?env ! 2)) ''R1'' Back_To_Running"
    by (simp add: good_attempt_def outage_def healthy_def)
  obtain d' where "scheduled_settle ?env ''R1'' Back_To_Running ?d = (True, d')"
    using settle_converges [OF ok _ _ good sane] by auto
  with st show ?thesis by auto
qed

end
