(* ===== verification/Assignment_State.thy ===== *)
theory Assignment_State
  imports Status_Tables Store_Schema
begin

text \<open>
  The state machine of assignments
  (\<open>crates/am-supervisor/src/supervisor/assignment_state.rs\<close>): the transition table, the sources
  computed from it, the typed state, the trigger generated from the table, and the one entry for
  changing the status.
\<close>

definition TERMINAL :: "string list" where
  "TERMINAL = [''completed'', ''failed'', ''cancelled'', ''superseded'']"

definition IN_FLIGHT :: "string list" where
  "IN_FLIGHT = [''queued'', ''delivered'', ''unknown'']"

definition asg_terminal :: "string \<Rightarrow> bool" where
  "asg_terminal st = List.member TERMINAL st"

definition is_decision :: "string \<Rightarrow> bool" where
  "is_decision st = (asg_terminal st \<or> st = ''blocked'')"

definition allowed :: "string \<Rightarrow> string \<Rightarrow> bool" where
  "allowed frm to =
     (if asg_terminal frm then False
      else if is_decision to then True
      else if (to = ''delivered'' \<or> to = ''unknown'') \<and> List.member IN_FLIGHT frm then True
      else if to = ''awaiting_review'' \<and> List.member IN_FLIGHT frm then True
      else if to = ''quota_blocked'' \<and> List.member IN_FLIGHT frm then True
      else if frm = ''quota_blocked'' \<and> to = ''queued'' then True
      else False)"

definition ALL_STATES :: "string list" where
  "ALL_STATES = [''queued'', ''delivered'', ''unknown'', ''awaiting_review'', ''blocked'', ''quota_blocked'',
          ''completed'', ''failed'', ''cancelled'', ''superseded'']"

definition sources_for :: "string \<Rightarrow> string list" where
  "sources_for to = filter (\<lambda>frm. allowed frm to) ALL_STATES"

datatype assignment_state =
    Queued | Delivered | UnknownDelivery | AwaitingReview | Blocked | QuotaBlocked
  | Completed | FailedWork | Cancelled | Superseded

fun state_str :: "assignment_state \<Rightarrow> string" where
  "state_str Queued = ''queued''"
| "state_str Delivered = ''delivered''"
| "state_str UnknownDelivery = ''unknown''"
| "state_str AwaitingReview = ''awaiting_review''"
| "state_str Blocked = ''blocked''"
| "state_str QuotaBlocked = ''quota_blocked''"
| "state_str Completed = ''completed''"
| "state_str FailedWork = ''failed''"
| "state_str Cancelled = ''cancelled''"
| "state_str Superseded = ''superseded''"

definition state_parse :: "string \<Rightarrow> assignment_state option" where
  "state_parse s =
     (if s = ''queued'' then Some Queued
      else if s = ''delivered'' then Some Delivered
      else if s = ''unknown'' then Some UnknownDelivery
      else if s = ''awaiting_review'' then Some AwaitingReview
      else if s = ''blocked'' then Some Blocked
      else if s = ''quota_blocked'' then Some QuotaBlocked
      else if s = ''completed'' then Some Completed
      else if s = ''failed'' then Some FailedWork
      else if s = ''cancelled'' then Some Cancelled
      else if s = ''superseded'' then Some Superseded
      else None)"

text \<open>The trigger: the status changes and none of the pairs generated from \<open>ALL_STATES x ALL_STATES\<close> matches.\<close>

definition allowed_pairs :: "(string \<times> string) list" where
  "allowed_pairs = concat (map (\<lambda>frm. map (Pair frm) (filter (allowed frm) ALL_STATES)) ALL_STATES)"

definition asg_guard_aborts :: "string \<Rightarrow> string \<Rightarrow> bool" where
  "asg_guard_aborts old new = (old \<noteq> new \<and> \<not> list_ex (\<lambda>(f, t). old = f \<and> new = t) allowed_pairs)"

text \<open>The unique index \<open>supervisor_assignments_crid\<close> (there is one supervisor).\<close>

definition assignments_ok :: "assignment table \<Rightarrow> bool" where
  "assignments_ok t \<longleftrightarrow> distinct (map fst t) \<and> unique_index (\<lambda>a. Some (a_crid a)) t"

definition update_assignment ::
  "ident \<Rightarrow> (assignment \<Rightarrow> bool) \<Rightarrow> (assignment \<Rightarrow> assignment) \<Rightarrow> db \<Rightarrow> db_error + db \<times> nat" where
  "update_assignment i w f d =
     bind_res (update_by_id (\<lambda>old new. asg_guard_aborts (a_status old) (a_status new)) assignments_ok i w f (assignments d))
       (\<lambda>(t, n). Inr (d\<lparr>assignments := t\<rparr>, n))"

datatype asg_outcome = AsgApplied | AsgRaced string | AsgMissing

definition asg_set_status_on ::
  "ident \<Rightarrow> assignment_state \<Rightarrow> assignment_state \<Rightarrow> time \<Rightarrow> db \<Rightarrow> db_error + asg_outcome \<times> db" where
  "asg_set_status_on i frm to now d =
     (if frm \<noteq> to \<and> \<not> allowed (state_str frm) (state_str to) then Inl (Bail ''illegal assignment status transition'')
      else bind_res (update_assignment i (\<lambda>a. a_status a = state_str frm)
              (\<lambda>a. a\<lparr>a_status := state_str to, a_updated_at := now\<rparr>) d)
             (\<lambda>(d', n). Inr (if 0 < n then AsgApplied
                             else (case map_of (assignments d') i of
                                     Some a \<Rightarrow> AsgRaced (a_status a)
                                   | None \<Rightarrow> AsgMissing), d')))"

section \<open>Facts of the table\<close>

lemma asg_terminal_iff: "asg_terminal s \<longleftrightarrow> s = ''completed'' \<or> s = ''failed'' \<or> s = ''cancelled'' \<or> s = ''superseded''"
  by (auto simp: asg_terminal_def TERMINAL_def)

lemma allowed_iff:
  "allowed a b \<longleftrightarrow> \<not> asg_terminal a \<and> (asg_terminal b \<or> b = ''blocked''
     \<or> a \<in> {''queued'', ''delivered'', ''unknown''} \<and> b \<in> {''delivered'', ''unknown'', ''awaiting_review'', ''quota_blocked''}
     \<or> a = ''quota_blocked'' \<and> b = ''queued'')"
  by (auto simp: allowed_def is_decision_def IN_FLIGHT_def)

lemma state_parse_str [simp]: "state_parse (state_str s) = Some s"
  by (cases s) (simp_all add: state_parse_def)

lemma state_str_parse: "state_parse s = Some x \<Longrightarrow> state_str x = s"
  by (auto simp: state_parse_def split: if_splits)

lemma state_parse_ALL: "state_parse s \<noteq> None \<longleftrightarrow> s \<in> set ALL_STATES"
  by (auto simp: state_parse_def ALL_STATES_def)

lemma sources_in_flight:
  "to \<in> {''delivered'', ''unknown'', ''awaiting_review'', ''quota_blocked''} \<Longrightarrow> sources_for to = IN_FLIGHT"
  by (auto simp: sources_for_def ALL_STATES_def IN_FLIGHT_def allowed_iff asg_terminal_iff)

text \<open>The trigger agrees with the table on every status the table knows.\<close>

lemma guard_legal: "\<not> asg_guard_aborts a b \<Longrightarrow> a = b \<or> allowed a b"
  by (auto simp: asg_guard_aborts_def allowed_pairs_def list_ex_iff)

lemma guard_passes: "a \<in> set ALL_STATES \<Longrightarrow> b \<in> set ALL_STATES \<Longrightarrow> allowed a b \<Longrightarrow> \<not> asg_guard_aborts a b"
  by (auto simp: asg_guard_aborts_def allowed_pairs_def list_ex_iff)

lemma guard_same [simp]: "\<not> asg_guard_aborts a a"
  by (simp add: asg_guard_aborts_def)

lemma terminal_final: "asg_terminal a \<Longrightarrow> allowed a b \<Longrightarrow> b = a"
  by (simp add: allowed_iff)

end
