(* ===== verification/Assignment_Store.thy ===== *)
theory Assignment_Store
  imports Assignment_State
begin

text \<open>
  The operations on assignments and what they write to the inbox and to the audit table
  (\<open>crates/am-supervisor/src/supervisor/store.rs\<close>, \<open>crates/am-base/src/supervisor_inbox.rs\<close>). Ids
  a function draws itself (\<open>db::ulid()\<close>) and its clock reading are arguments. A function that
  opens a transaction answers \<open>Inl\<close> when the transaction is rolled back.
\<close>

section \<open>The inbox and the requests\<close>

text \<open>\<open>INSERT OR IGNORE\<close>: a known event key (or id) is a duplicate, not an error.\<close>

definition inbox_ok :: "inbox_event table \<Rightarrow> bool" where
  "inbox_ok t \<longleftrightarrow> distinct (map fst t) \<and> unique_index (\<lambda>e. Some (i_key e)) t"

definition new_event ::
  "string \<Rightarrow> string \<Rightarrow> ident option \<Rightarrow> ident option \<Rightarrow> ident option \<Rightarrow> json \<Rightarrow> time \<Rightarrow> inbox_event" where
  "new_event event_key kind assignment_id bot_id turn_id payload now =
     \<lparr>i_key = event_key, i_assignment = assignment_id, i_bot = bot_id, i_turn = turn_id, i_kind = kind,
      i_payload = payload, i_state = ''pending'', i_notify_turn = None, i_notify_delivery = None,
      i_attempts = 0, i_next_at = None, i_error = None, i_delivered_at = None, i_created_at = now,
      i_updated_at = now, i_role = None, i_wake = None, i_claimed_by = None, i_acked_by = None,
      i_merged_into = None\<rparr>"

definition insert_or_ignore :: "ident \<Rightarrow> inbox_event \<Rightarrow> db \<Rightarrow> bool \<times> db" where
  "insert_or_ignore eid ev d =
     (if map_of (inbox d) eid \<noteq> None \<or> list_ex (\<lambda>(_, e). i_key e = i_key ev) (inbox d) then (False, d)
      else (True, d\<lparr>inbox := inbox d @ [(eid, ev)]\<rparr>))"

definition push_inbox_tx ::
  "ident \<Rightarrow> string \<Rightarrow> string \<Rightarrow> ident option \<Rightarrow> ident option \<Rightarrow> ident option \<Rightarrow> json \<Rightarrow> time \<Rightarrow> db \<Rightarrow> ident option \<times> db" where
  "push_inbox_tx eid event_key kind assignment_id bot_id turn_id payload now d =
     (let (fresh, d') = insert_or_ignore eid (new_event event_key kind assignment_id bot_id turn_id payload now) d
      in (if fresh then Some eid else None, d'))"

definition request_key :: "string option \<Rightarrow> string option" where
  "request_key k = (case k of None \<Rightarrow> None | Some s \<Rightarrow> if trim s = [] then None else Some s)"

definition requests_ok :: "request_row table \<Rightarrow> bool" where
  "requests_ok t \<longleftrightarrow> distinct (map fst t) \<and> unique_index u_source_key t"

definition upsert_request :: "ident \<Rightarrow> string \<Rightarrow> string option \<Rightarrow> string \<Rightarrow> time \<Rightarrow> db \<Rightarrow> db_error + ident \<times> db" where
  "upsert_request uid source source_key txt now d =
     (let known = (case request_key source_key of
                     None \<Rightarrow> None
                   | Some k \<Rightarrow> map_option fst (List.find (\<lambda>(_, u). u_source_key u = Some k) (requests d)))
      in case known of
           Some rid \<Rightarrow> Inr (rid, d)
         | None \<Rightarrow>
             bind_res (insert_row requests_ok uid
                 \<lparr>u_source = source, u_source_key = request_key source_key, u_text = txt, u_status = ''open'', u_created_at = now\<rparr>
                 (requests d))
               (\<lambda>t. Inr (uid, d\<lparr>requests := t\<rparr>)))"

section \<open>Creating an assignment and sending it\<close>

definition new_assignment ::
  "ident option \<Rightarrow> ident \<Rightarrow> string \<Rightarrow> string \<Rightarrow> string list \<Rightarrow> ident option \<Rightarrow> bool \<Rightarrow> string option \<Rightarrow> time \<Rightarrow> assignment" where
  "new_assignment request_id target crid txt ownership follow_up_of expects_review review_role now =
     \<lparr>a_target_bot = target, a_crid = crid, a_turn = None, a_text = txt, a_status = ''queued'',
      a_expects_review = expects_review, a_review_role = review_role, a_resume_at = None, a_quota_retries = 0,
      a_delivery = None, a_turn_status = None, a_turn_error = None, a_evidence_complete = False, a_result = None,
      a_error = None, a_attempts = 0, a_busy_rounds = 0, a_conflict_since = None, a_next_attempt_at = None,
      a_ownership = (if ownership = [] then None else Some ownership), a_request = request_id,
      a_follow_up_of = follow_up_of, a_followup = None, a_review_decision = None, a_reviewed_by = None,
      a_reviewed_at = None, a_review_reason = None, a_created_at = now, a_updated_at = now, a_completed_at = None\<rparr>"

definition insert_assignment_linked ::
  "ident \<Rightarrow> ident option \<Rightarrow> ident \<Rightarrow> string \<Rightarrow> string \<Rightarrow> string list \<Rightarrow> ident option \<Rightarrow> bool \<Rightarrow> string option \<Rightarrow> time \<Rightarrow> db
     \<Rightarrow> db_error + (ident \<times> assignment) option \<times> db" where
  "insert_assignment_linked aid request_id target crid txt ownership follow_up_of expects_review review_role now d =
     bind_res (insert_row assignments_ok aid
         (new_assignment request_id target crid txt ownership follow_up_of expects_review review_role now) (assignments d))
       (\<lambda>t. Inr (List.find (\<lambda>(_, a). a_crid a = crid) t, d\<lparr>assignments := t\<rparr>))"

definition mark_delivered :: "ident \<Rightarrow> ident \<Rightarrow> string \<Rightarrow> time \<Rightarrow> db \<Rightarrow> db_error + bool \<times> db" where
  "mark_delivered i turn_id delivery now d =
     (let status = (if delivery = ''unknown'' then ''unknown'' else ''delivered'') in
      bind_res (update_assignment i (\<lambda>a. List.member (sources_for status) (a_status a))
         (\<lambda>a. a\<lparr>a_turn := Some turn_id, a_delivery := Some delivery, a_status := status,
                a_attempts := a_attempts a + 1, a_next_attempt_at := None, a_conflict_since := None, a_updated_at := now\<rparr>) d)
       (\<lambda>(d', n). Inr (0 < n, d')))"

definition hold :: "ident \<Rightarrow> time \<Rightarrow> string \<Rightarrow> time \<Rightarrow> db \<Rightarrow> db_error + unit \<times> db" where
  "hold i until why now d =
     bind_res (update_assignment i (\<lambda>a. a_status a = ''queued'')
        (\<lambda>a. a\<lparr>a_next_attempt_at := Some until, a_error := Some why, a_conflict_since := None, a_updated_at := now\<rparr>) d)
       (\<lambda>(d', _). Inr ((), d'))"

text \<open>\<open>LIKE 'restart window held until %'\<close>; SQLite's LIKE ignores the case of ASCII letters.\<close>

definition ascii_lower :: "char \<Rightarrow> char" where
  "ascii_lower c = (if CHR ''A'' \<le> c \<and> c \<le> CHR ''Z'' then char_of (of_char c + 32 :: nat) else c)"

definition held_by_window :: "string option \<Rightarrow> bool" where
  "held_by_window err =
     (let p = ''restart window held until '' in
      case err of None \<Rightarrow> False | Some e \<Rightarrow> map ascii_lower (take (length p) e) = p)"

definition clear_restart_holds :: "time \<Rightarrow> db \<Rightarrow> db_error + nat \<times> db" where
  "clear_restart_holds now d =
     bind_res (update_where (\<lambda>old new. asg_guard_aborts (a_status old) (a_status new)) assignments_ok
        (\<lambda>a. a_status a = ''queued'' \<and> held_by_window (a_error a))
        (\<lambda>a. a\<lparr>a_next_attempt_at := None, a_error := None, a_conflict_since := None, a_updated_at := now\<rparr>) (assignments d))
       (\<lambda>(t, n). Inr (n, d\<lparr>assignments := t\<rparr>))"

definition defer_attempt :: "ident \<Rightarrow> time \<Rightarrow> string \<Rightarrow> time \<Rightarrow> db \<Rightarrow> db_error + unit \<times> db" where
  "defer_attempt i next_at why now d =
     bind_res (update_assignment i (\<lambda>a. a_status a = ''queued'')
        (\<lambda>a. a\<lparr>a_attempts := a_attempts a + 1, a_next_attempt_at := Some next_at, a_error := Some why, a_updated_at := now\<rparr>) d)
       (\<lambda>(d', _). Inr ((), d'))"

definition defer_conflict :: "ident \<Rightarrow> time \<Rightarrow> string \<Rightarrow> time \<Rightarrow> db \<Rightarrow> db_error + unit \<times> db" where
  "defer_conflict i next_at why now d =
     bind_res (update_assignment i (\<lambda>a. a_status a = ''queued'')
        (\<lambda>a. a\<lparr>a_busy_rounds := a_busy_rounds a + 1, a_next_attempt_at := Some next_at, a_error := Some why,
               a_conflict_since := (case a_conflict_since a of None \<Rightarrow> Some now | Some t \<Rightarrow> Some t),
               a_updated_at := now\<rparr>) d)
       (\<lambda>(d', _). Inr ((), d'))"

definition set_turn_error :: "ident \<Rightarrow> string \<Rightarrow> db \<Rightarrow> db_error + unit \<times> db" where
  "set_turn_error i err d =
     bind_res (update_assignment i (\<lambda>_. True) (\<lambda>a. a\<lparr>a_turn_error := Some err\<rparr>) d) (\<lambda>(d', _). Inr ((), d'))"

definition mark_undeliverable :: "ident \<Rightarrow> string \<Rightarrow> string \<Rightarrow> json \<Rightarrow> ident \<Rightarrow> time \<Rightarrow> db \<Rightarrow> db_error + bool \<times> db" where
  "mark_undeliverable i why event_key payload eid now d =
     bind_res (asg_set_status_on i Queued Blocked now d) (\<lambda>(out, d1).
       if out \<noteq> AsgApplied then Inr (False, d1)
       else bind_res (update_assignment i (\<lambda>_. True)
              (\<lambda>a. a\<lparr>a_error := Some why, a_next_attempt_at := None, a_updated_at := now\<rparr>) d1) (\<lambda>(d2, _).
            case map_of (assignments d2) i of
              None \<Rightarrow> Inl Row_Not_Found
            | Some a \<Rightarrow>
                (let (_, d3) = push_inbox_tx eid event_key ''assignment_undeliverable'' (Some i) (Some (a_target_bot a)) None payload now d2
                 in Inr (True, d3))))"

section \<open>The end of the execution\<close>

record settled_asg =
  moved :: bool
  event_new :: bool

definition settle_and_notify_on ::
  "ident \<Rightarrow> string \<Rightarrow> bool \<Rightarrow> string option \<Rightarrow> string option \<Rightarrow> string \<Rightarrow> string \<Rightarrow> json \<Rightarrow> ident \<Rightarrow> time \<Rightarrow> db
     \<Rightarrow> db_error + settled_asg \<times> db" where
  "settle_and_notify_on i turn_status evidence_complete result err event_key kind payload eid now d =
     (let ok_turn = (turn_status = ''completed'' \<or> turn_status = ''completed_fallback'') in
      bind_res (update_assignment i (\<lambda>a. List.member (sources_for ''awaiting_review'') (a_status a))
         (\<lambda>a. a\<lparr>a_status := (if ok_turn \<and> \<not> a_expects_review a then ''completed'' else ''awaiting_review''),
                a_turn_status := Some turn_status, a_evidence_complete := evidence_complete,
                a_result := (case result of None \<Rightarrow> a_result a | Some r \<Rightarrow> Some r),
                a_error := (case err of None \<Rightarrow> a_error a | Some e \<Rightarrow> Some e),
                a_completed_at := Some now, a_updated_at := now\<rparr>) d) (\<lambda>(d1, n).
      if n = 0 then Inr (\<lparr>moved = False, event_new = False\<rparr>, d1)
      else case map_of (assignments d1) i of
          None \<Rightarrow> Inl Row_Not_Found
        | Some a \<Rightarrow>
            (let notice = (\<not> a_expects_review a \<and> a_status a = ''completed'') in
             bind_res (if notice then bind_res (json_set ''needs_review'' (JBool False) payload) (json_set ''kind'' (JStr ''notice''))
                       else Inr payload) (\<lambda>p.
             (let (fresh, d2) = insert_or_ignore eid
                (new_event event_key (if notice then ''assignment_noticed'' else kind) (Some i) (Some (a_target_bot a)) (a_turn a) p now) d1
              in Inr (\<lparr>moved = True, event_new = fresh\<rparr>, d2))))))"

definition block_stale_queue_tx :: "ident \<Rightarrow> string \<Rightarrow> time \<Rightarrow> db \<Rightarrow> db_error + bool \<times> db" where
  "block_stale_queue_tx i why now d =
     bind_res (asg_set_status_on i Delivered Blocked now d) (\<lambda>(out, d1).
       if out \<noteq> AsgApplied then Inr (False, d1)
       else bind_res (update_assignment i (\<lambda>_. True) (\<lambda>a. a\<lparr>a_error := Some why, a_updated_at := now\<rparr>) d1)
              (\<lambda>(d2, _). Inr (True, d2)))"

section \<open>Waiting for quota\<close>

definition park_quota_blocked ::
  "ident \<Rightarrow> time \<Rightarrow> string \<Rightarrow> string \<Rightarrow> json \<Rightarrow> ident \<Rightarrow> time \<Rightarrow> db \<Rightarrow> db_error + settled_asg \<times> db" where
  "park_quota_blocked i resume_at why event_key payload eid now d =
     bind_res (update_assignment i (\<lambda>a. List.member (sources_for ''quota_blocked'') (a_status a))
        (\<lambda>a. a\<lparr>a_status := ''quota_blocked'', a_resume_at := Some resume_at, a_error := Some why,
               a_conflict_since := None, a_updated_at := now\<rparr>) d) (\<lambda>(d1, n).
     if n = 0 then Inr (\<lparr>moved = False, event_new = False\<rparr>, d1)
     else case map_of (assignments d1) i of
         None \<Rightarrow> Inl Row_Not_Found
       | Some a \<Rightarrow>
           (let (fresh, d2) = insert_or_ignore eid
              (new_event event_key ''assignment_quota_blocked'' (Some i) (Some (a_target_bot a)) (a_turn a) payload now) d1
            in Inr (\<lparr>moved = True, event_new = fresh\<rparr>, d2)))"

definition resume_quota_blocked :: "ident \<Rightarrow> string \<Rightarrow> json \<Rightarrow> ident \<Rightarrow> time \<Rightarrow> db \<Rightarrow> db_error + settled_asg \<times> db" where
  "resume_quota_blocked i event_key payload eid now d =
     bind_res (asg_set_status_on i QuotaBlocked Queued now d) (\<lambda>(out, d1).
       if out \<noteq> AsgApplied then Inr (\<lparr>moved = False, event_new = False\<rparr>, d1)
       else bind_res (update_assignment i (\<lambda>_. True)
              (\<lambda>a. a\<lparr>a_quota_retries := a_quota_retries a + 1, a_resume_at := None, a_turn := None, a_delivery := None,
                     a_next_attempt_at := None, a_attempts := 0, a_updated_at := now\<rparr>) d1) (\<lambda>(d2, _).
            case map_of (assignments d2) i of
              None \<Rightarrow> Inl Row_Not_Found
            | Some a \<Rightarrow>
                (let (fresh, d3) = insert_or_ignore eid
                   (new_event event_key ''assignment_quota_resumed'' (Some i) (Some (a_target_bot a)) None payload now) d2
                 in Inr (\<lparr>moved = True, event_new = fresh\<rparr>, d3))))"

definition extend_quota_blocked :: "ident \<Rightarrow> time \<Rightarrow> time \<Rightarrow> db \<Rightarrow> db_error + unit \<times> db" where
  "extend_quota_blocked i resume_at now d =
     bind_res (update_assignment i (\<lambda>a. a_status a = ''quota_blocked'')
        (\<lambda>a. a\<lparr>a_resume_at := Some resume_at, a_quota_retries := a_quota_retries a + 1, a_updated_at := now\<rparr>) d)
       (\<lambda>(d', _). Inr ((), d'))"

text \<open>\<open>Assignment::dispatch_crid\<close>: the request id of this sending.\<close>

definition dispatch_crid :: "assignment \<Rightarrow> string" where
  "dispatch_crid a =
     (if a_quota_retries a \<le> 0 then a_crid a else a_crid a @ ''#r'' @ nat_str (nat (a_quota_retries a)))"

section \<open>Decisions\<close>

definition decision_status :: "string \<Rightarrow> string option" where
  "decision_status decision =
     (if decision = ''accept'' then Some ''completed''
      else if decision = ''fail'' then Some ''failed''
      else if decision = ''cancel'' then Some ''cancelled''
      else if decision = ''block'' then Some ''blocked''
      else if decision = ''followup'' then Some ''superseded''
      else None)"

definition insert_review :: "ident \<Rightarrow> review_row \<Rightarrow> db \<Rightarrow> db_error + db" where
  "insert_review vid v d =
     bind_res (insert_row (\<lambda>t. distinct (map fst t)) vid v (reviews d)) (\<lambda>t. Inr (d\<lparr>reviews := t\<rparr>))"

text \<open>\<open>review\<close>: \<open>before\<close> is the row as it was read before the transaction began.\<close>

definition review ::
  "assignment option \<Rightarrow> ident \<Rightarrow> string \<Rightarrow> string \<Rightarrow> string \<Rightarrow> string option \<Rightarrow> string option \<Rightarrow> ident option \<Rightarrow> ident \<Rightarrow> time \<Rightarrow> db
     \<Rightarrow> db_error + assignment option \<times> db" where
  "review before i decision actor source reason evidence followup vid now d =
     (case (decision_status decision, before) of
        (Some to_status, Some b) \<Rightarrow>
          if \<not> allowed (a_status b) to_status then Inr (None, d)
          else (case (state_parse (a_status b), state_parse to_status) of
             (Some frm, Some to) \<Rightarrow>
               bind_res (asg_set_status_on i frm to now d) (\<lambda>(out, d1).
                 if out \<noteq> AsgApplied then Inr (None, d)
                 else bind_res (update_assignment i (\<lambda>_. True)
                        (\<lambda>a. a\<lparr>a_review_decision := Some decision, a_reviewed_by := Some actor, a_reviewed_at := Some now,
                               a_review_reason := reason,
                               a_followup := (case followup of None \<Rightarrow> a_followup a | Some f \<Rightarrow> Some f),
                               a_updated_at := now\<rparr>) d1) (\<lambda>(d2, _).
                      bind_res (insert_review vid
                          \<lparr>v_assignment = i, v_decision = decision, v_from = a_status b, v_to = to_status, v_actor = actor,
                           v_source = source, v_reason = reason, v_evidence = evidence, v_followup = followup, v_created_at = now\<rparr> d2)
                        (\<lambda>d3. Inr (map_of (assignments d3) i, d3))))
           | _ \<Rightarrow> Inr (None, d))
      | _ \<Rightarrow> Inr (None, d))"

datatype store_error = Db db_error | Followup_Id_Taken string ident

definition lift_db :: "db_error + 'a \<Rightarrow> store_error + 'a" where
  "lift_db m = (case m of Inl e \<Rightarrow> Inl (Db e) | Inr x \<Rightarrow> Inr x)"

record followup_spec =
  f_target :: ident
  f_crid :: string
  f_text :: string
  f_ownership :: "string list"
  f_request :: "ident option"

text \<open>The continuation: an identical one is adopted, another row with the id is an error.\<close>

definition create_followup :: "ident \<Rightarrow> followup_spec \<Rightarrow> ident \<Rightarrow> time \<Rightarrow> db \<Rightarrow> store_error + ident \<times> db" where
  "create_followup parent f aid now d =
     (case List.find (\<lambda>(_, a). a_crid a = f_crid f) (assignments d) of
        Some (eid, e) \<Rightarrow>
          if a_follow_up_of e \<noteq> Some parent \<or> a_target_bot e \<noteq> f_target f \<or> a_text e \<noteq> f_text f
          then Inl (Followup_Id_Taken (f_crid f) eid)
          else Inr (eid, d)
      | None \<Rightarrow>
          (let expects = (case map_of (assignments d) parent of None \<Rightarrow> True | Some p \<Rightarrow> a_expects_review p) in
           bind_res (lift_db (insert_row assignments_ok aid
               (new_assignment (f_request f) (f_target f) (f_crid f) (f_text f) (f_ownership f) (Some parent) expects None now)
               (assignments d))) (\<lambda>t.
           bind_res (lift_db (update_assignment aid (\<lambda>_. True)
               (\<lambda>a. a\<lparr>a_review_role := Option.bind (map_of t parent) a_review_role\<rparr>) (d\<lparr>assignments := t\<rparr>))) (\<lambda>(d', _).
           Inr (aid, d')))))"

definition review_with_followup ::
  "ident \<Rightarrow> string \<Rightarrow> string \<Rightarrow> string \<Rightarrow> string \<Rightarrow> string option \<Rightarrow> string option \<Rightarrow> followup_spec option \<Rightarrow> ident \<Rightarrow> ident \<Rightarrow> time \<Rightarrow> db
     \<Rightarrow> store_error + ident option option \<times> db" where
  "review_with_followup i expect_status decision actor source reason evidence followup aid vid now d =
     (case decision_status decision of
        None \<Rightarrow> Inr (None, d)
      | Some to_status \<Rightarrow>
          bind_res (lift_db (update_assignment i (\<lambda>a. a_status a = expect_status)
             (\<lambda>a. a\<lparr>a_status := to_status, a_review_decision := Some decision, a_reviewed_by := Some actor,
                    a_reviewed_at := Some now, a_review_reason := reason, a_updated_at := now\<rparr>) d)) (\<lambda>(d1, n).
          if n = 0 then Inr (None, d)
          else bind_res (case followup of
                   None \<Rightarrow> Inr (None, d1)
                 | Some f \<Rightarrow>
                     bind_res (create_followup i f aid now d1) (\<lambda>(new_id, d2).
                     bind_res (lift_db (update_assignment i (\<lambda>_. True)
                        (\<lambda>a. a\<lparr>a_followup := Some new_id, a_updated_at := now\<rparr>) d2)) (\<lambda>(d3, _).
                     Inr (Some new_id, d3)))) (\<lambda>(created, d4).
               bind_res (lift_db (insert_review vid
                   \<lparr>v_assignment = i, v_decision = decision, v_from = expect_status, v_to = to_status, v_actor = actor,
                    v_source = source, v_reason = reason, v_evidence = evidence, v_followup = created, v_created_at = now\<rparr> d4))
                 (\<lambda>d5. Inr (Some created, d5)))))"

definition amend_review_evidence :: "ident \<Rightarrow> string option \<Rightarrow> string option \<Rightarrow> db \<Rightarrow> db_error + bool \<times> db" where
  "amend_review_evidence vid expected evidence d =
     bind_res (update_by_id (\<lambda>_ _. False) (\<lambda>t. distinct (map fst t)) vid (\<lambda>v. v_evidence v = expected)
        (\<lambda>v. v\<lparr>v_evidence := evidence\<rparr>) (reviews d))
       (\<lambda>(t, n). Inr (0 < n, d\<lparr>reviews := t\<rparr>))"

definition link_followup :: "ident \<Rightarrow> ident \<Rightarrow> time \<Rightarrow> db \<Rightarrow> db_error + unit \<times> db" where
  "link_followup i followup now d =
     bind_res (update_assignment i (\<lambda>_. True) (\<lambda>a. a\<lparr>a_followup := Some followup, a_updated_at := now\<rparr>) d)
       (\<lambda>(d', _). Inr ((), d'))"

end
