(* ===== verification/Assignment_Safety.thy ===== *)
theory Assignment_Safety
  imports Assignment_Store Sample_Data
begin

text \<open>
  What every operation on assignments keeps: the status moves along the table, the identity of
  an assignment never changes, its counts of quota re-sends and of refusals never fall, one request id names one
  assignment. The operations as data, the
  instance of the status-table contract, and the first property.
\<close>

section \<open>Operations as data\<close>

datatype asg_op =
    Create ident "ident option" ident string string "string list" "ident option" bool "string option" time
  | Sent ident ident string time
  | Hold_It ident time string time
  | Lift_Holds time
  | Defer_It ident time string time
  | Conflict ident time string time
  | Turn_Error ident string
  | Undeliverable ident string string json ident time
  | Settle ident string bool "string option" "string option" string string json ident time
  | Stale ident string time
  | Park ident time string string json ident time
  | Resume ident string json ident time
  | Extend ident time time
  | Review "assignment option" ident string string string "string option" "string option" "ident option" ident time
  | Decide ident string string string string "string option" "string option" "followup_spec option" ident ident time
  | Link ident ident time

fun asg_perform :: "asg_op \<Rightarrow> db \<Rightarrow> db" where
  "asg_perform (Create aid r t c x ow fu ex ro now) d = kept (insert_assignment_linked aid r t c x ow fu ex ro now d) d"
| "asg_perform (Sent i t dl now) d = kept (mark_delivered i t dl now d) d"
| "asg_perform (Hold_It i u why now) d = kept (hold i u why now d) d"
| "asg_perform (Lift_Holds now) d = kept (clear_restart_holds now d) d"
| "asg_perform (Defer_It i nx why now) d = kept (defer_attempt i nx why now d) d"
| "asg_perform (Conflict i nx why now) d = kept (defer_conflict i nx why now d) d"
| "asg_perform (Turn_Error i e) d = kept (set_turn_error i e d) d"
| "asg_perform (Undeliverable i why k p eid now) d = kept (mark_undeliverable i why k p eid now d) d"
| "asg_perform (Settle i ts ec res er k kind p eid now) d = kept (settle_and_notify_on i ts ec res er k kind p eid now d) d"
| "asg_perform (Stale i why now) d = kept (block_stale_queue_tx i why now d) d"
| "asg_perform (Park i rs why k p eid now) d = kept (park_quota_blocked i rs why k p eid now d) d"
| "asg_perform (Resume i k p eid now) d = kept (resume_quota_blocked i k p eid now d) d"
| "asg_perform (Extend i rs now) d = kept (extend_quota_blocked i rs now d) d"
| "asg_perform (Review b i dc ac src re ev fu vid now) d = kept (review b i dc ac src re ev fu vid now d) d"
| "asg_perform (Decide i ex dc ac src re ev fu aid vid now) d = kept (review_with_followup i ex dc ac src re ev fu aid vid now d) d"
| "asg_perform (Link i f now) d = kept (link_followup i f now d) d"

section \<open>Moves of the table of assignments\<close>

definition same_work :: "assignment \<Rightarrow> assignment \<Rightarrow> bool" where
  "same_work a b \<longleftrightarrow> a_crid b = a_crid a \<and> a_target_bot b = a_target_bot a \<and> a_text b = a_text a
     \<and> a_follow_up_of b = a_follow_up_of a \<and> a_request b = a_request a \<and> a_expects_review b = a_expects_review a
     \<and> a_ownership b = a_ownership a \<and> a_created_at b = a_created_at a
     \<and> a_quota_retries a \<le> a_quota_retries b \<and> a_busy_rounds a \<le> a_busy_rounds b"

definition asg_move :: "(string \<Rightarrow> string \<Rightarrow> bool) \<Rightarrow> db \<Rightarrow> db \<Rightarrow> bool" where
  "asg_move R d d' \<longleftrightarrow>
     (\<forall>i a. map_of (assignments d) i = Some a \<longrightarrow>
        (\<exists>b. map_of (assignments d') i = Some b \<and> R (a_status a) (a_status b) \<and> same_work a b))
     \<and> (assignments_ok (assignments d) \<longrightarrow> assignments_ok (assignments d'))"

abbreviation asg_step :: "db \<Rightarrow> db \<Rightarrow> bool" where
  "asg_step \<equiv> asg_move (\<lambda>a b. a = b \<or> allowed a b)"

abbreviation asg_still :: "db \<Rightarrow> db \<Rightarrow> bool" where
  "asg_still \<equiv> asg_move (=)"

named_theorems moves "facts that a statement is a move of the table of assignments"

lemma same_work_refl [simp]: "same_work a a"
  by (simp add: same_work_def)

lemma same_work_trans: "same_work a b \<Longrightarrow> same_work b c \<Longrightarrow> same_work a c"
  by (simp add: same_work_def)

lemma asg_move_same [simp]: "assignments d' = assignments d \<Longrightarrow> asg_still d d'"
  by (simp add: asg_move_def)

lemma asg_step_same [simp]: "assignments d' = assignments d \<Longrightarrow> asg_step d d'"
  by (simp add: asg_move_def)

lemma asg_still_step: "asg_still d d' \<Longrightarrow> asg_step d d'"
  by (fastforce simp: asg_move_def)

lemma asg_move_still:
  assumes "asg_move R d d'" "asg_still d' d''"
  shows "asg_move R d d''"
  unfolding asg_move_def
proof (intro conjI allI impI)
  fix i a
  assume a: "map_of (assignments d) i = Some a"
  obtain b where b: "map_of (assignments d') i = Some b" "R (a_status a) (a_status b)" "same_work a b"
    using assms(1) a unfolding asg_move_def by blast
  obtain c where c: "map_of (assignments d'') i = Some c" "a_status b = a_status c" "same_work b c"
    using assms(2) b(1) unfolding asg_move_def by blast
  then have "R (a_status a) (a_status c)" "same_work a c" using b same_work_trans by auto
  with c(1) show "\<exists>b. map_of (assignments d'') i = Some b \<and> R (a_status a) (a_status b) \<and> same_work a b" by blast
next
  assume "assignments_ok (assignments d)"
  then show "assignments_ok (assignments d'')" using assms unfolding asg_move_def by blast
qed

lemmas asg_step_still = asg_move_still [of "\<lambda>a b. a = b \<or> allowed a b"]
lemmas asg_still_trans = asg_move_still [of "(=)"]

lemma update_assignment_cases:
  assumes "update_assignment i w f d = Inr (d', n)"
  obtains (miss) "n = 0" "d' = d" "\<And>a. map_of (assignments d) i = Some a \<Longrightarrow> \<not> w a"
    | (hit) a where "n = 1" "map_of (assignments d) i = Some a" "w a"
        "a_status (f a) = a_status a \<or> allowed (a_status a) (a_status (f a))"
        "d' = d\<lparr>assignments := upd_row i f (assignments d)\<rparr>" "assignments_ok (assignments d')"
proof -
  obtain t where u: "update_by_id (\<lambda>old new. asg_guard_aborts (a_status old) (a_status new)) assignments_ok i w f (assignments d) = Inr (t, n)"
      and d': "d' = d\<lparr>assignments := t\<rparr>"
    using assms by (auto simp: update_assignment_def elim!: bind_res_InrE)
  show thesis
    using u
  proof (cases rule: update_by_id_cases)
    case miss
    then show thesis using that(1) d' by simp
  next
    case (hit r)
    then have "a_status (f r) = a_status r \<or> allowed (a_status r) (a_status (f r))"
      using guard_legal by fastforce
    then show thesis using hit d' by (intro that(2)) simp_all
  qed
qed

lemma update_assignment_step:
  assumes "update_assignment i w f d = Inr (d', n)" "\<And>a. same_work a (f a)"
  shows "asg_step d d'"
  using assms(1)
proof (cases rule: update_assignment_cases)
  case (hit a)
  then show ?thesis using assms(2) by (auto simp: asg_move_def)
qed simp

lemma update_assignment_still:
  assumes "update_assignment i w f d = Inr (d', n)" "\<And>a. same_work a (f a)" "\<And>a. a_status (f a) = a_status a"
  shows "asg_still d d'"
  using assms(1)
proof (cases rule: update_assignment_cases)
  case (hit a)
  then show ?thesis using assms(2,3) by (auto simp: asg_move_def)
qed simp

lemma insert_or_ignore_rows:
  assumes "insert_or_ignore eid ev d = (fresh, d')"
  shows "assignments d' = assignments d" "turns d' = turns d" "reviews d' = reviews d"
  using assms by (auto simp: insert_or_ignore_def split: if_splits)

lemma push_inbox_rows:
  assumes "push_inbox_tx eid k kind a b t p now d = (r, d')"
  shows "assignments d' = assignments d"
  using assms insert_or_ignore_rows(1) by (auto simp: push_inbox_tx_def split: prod.splits)

lemma insert_review_rows: "insert_review vid v d = Inr d' \<Longrightarrow> assignments d' = assignments d"
  by (auto simp: insert_review_def elim!: bind_res_InrE)

lemma asg_set_status_cases:
  assumes "asg_set_status_on i frm to now d = Inr (out, d')"
  shows "out \<noteq> AsgApplied \<and> d' = d \<or>
     out = AsgApplied \<and> (\<exists>a. map_of (assignments d) i = Some a \<and> a_status a = state_str frm
       \<and> d' = d\<lparr>assignments := upd_row i (\<lambda>a. a\<lparr>a_status := state_str to, a_updated_at := now\<rparr>) (assignments d)\<rparr>)"
    and "asg_step d d'"
proof -
  let ?f = "\<lambda>a. a\<lparr>a_status := state_str to, a_updated_at := now\<rparr>"
  obtain n where u: "update_assignment i (\<lambda>a. a_status a = state_str frm) ?f d = Inr (d', n)"
      and out: "out = (if 0 < n then AsgApplied else (case map_of (assignments d') i of Some a \<Rightarrow> AsgRaced (a_status a) | None \<Rightarrow> AsgMissing))"
    using assms by (auto simp: asg_set_status_on_def split: if_splits elim!: bind_res_InrE)
  show "asg_step d d'" by (rule update_assignment_step [OF u]) (simp add: same_work_def)
  show "out \<noteq> AsgApplied \<and> d' = d \<or>
     out = AsgApplied \<and> (\<exists>a. map_of (assignments d) i = Some a \<and> a_status a = state_str frm
       \<and> d' = d\<lparr>assignments := upd_row i ?f (assignments d)\<rparr>)"
    using u by (cases rule: update_assignment_cases) (auto simp: out split: option.splits)
qed

lemma insert_assignment_still:
  assumes "insert_row assignments_ok aid a (assignments d) = Inr t"
  shows "asg_still d (d\<lparr>assignments := t\<rparr>)"
  using insert_row_rows [OF assms] by (auto simp: asg_move_def)

text \<open>The two shapes of the operations: one statement, or a status change followed by more.\<close>

lemma bind_update_step:
  assumes "bind_res (update_assignment i w f d) k = Inr (x, d')" "\<And>a. same_work a (f a)"
    "\<And>d1 n. k (d1, n) = Inr (x, d') \<Longrightarrow> asg_still d1 d'"
  shows "asg_step d d'"
proof -
  obtain d1 n where u: "update_assignment i w f d = Inr (d1, n)" "k (d1, n) = Inr (x, d')"
    using assms(1) by (auto elim!: bind_res_InrE)
  show ?thesis using asg_step_still [OF update_assignment_step [OF u(1) assms(2)] assms(3) [OF u(2)]] .
qed

lemma bind_update_still:
  assumes "bind_res (update_assignment i w f d) k = Inr (x, d')" "\<And>a. same_work a (f a)" "\<And>a. a_status (f a) = a_status a"
    "\<And>d1 n. k (d1, n) = Inr (x, d') \<Longrightarrow> asg_still d1 d'"
  shows "asg_still d d'"
proof -
  obtain d1 n where u: "update_assignment i w f d = Inr (d1, n)" "k (d1, n) = Inr (x, d')"
    using assms(1) by (auto elim!: bind_res_InrE)
  show ?thesis using asg_still_trans [OF update_assignment_still [OF u(1) assms(2,3)] assms(4) [OF u(2)]] .
qed

lemma bind_status_step:
  assumes "bind_res (asg_set_status_on i frm to now d) k = Inr (x, d')"
    "\<And>out d1. k (out, d1) = Inr (x, d') \<Longrightarrow> asg_still d1 d' \<or> d' = d"
  shows "asg_step d d'"
proof -
  obtain out d1 where u: "asg_set_status_on i frm to now d = Inr (out, d1)" "k (out, d1) = Inr (x, d')"
    using assms(1) by (auto elim!: bind_res_InrE)
  show ?thesis using asg_step_still [OF asg_set_status_cases(2) [OF u(1)]] assms(2) [OF u(2)] by auto
qed

lemma kept_step: "(\<And>x d'. m = Inr (x, d') \<Longrightarrow> asg_step d d') \<Longrightarrow> asg_step d (kept m d)"
  by (cases m) auto

lemma kept_still: "(\<And>x d'. m = Inr (x, d') \<Longrightarrow> asg_still d d') \<Longrightarrow> asg_step d (kept m d)"
  by (rule kept_step) (simp add: asg_still_step)

text \<open>One lemma per operation.\<close>

lemma update_only [moves]:
  assumes "bind_res (update_assignment i w f d) (\<lambda>(d', n). Inr (g n, d')) = Inr (x, d')" "\<And>a. same_work a (f a)"
  shows "asg_step d d'"
  using assms update_assignment_step [of i w f d] by (auto elim!: bind_res_InrE)

lemma settle_step: "settle_and_notify_on i ts ec res er k kind p eid now d = Inr (x, d') \<Longrightarrow> asg_step d d'"
  unfolding settle_and_notify_on_def Let_def
  by (erule bind_update_step)
     (auto simp: same_work_def split: if_splits option.splits prod.splits elim!: bind_res_InrE dest!: insert_or_ignore_rows(1))

lemma park_step: "park_quota_blocked i rs why k p eid now d = Inr (x, d') \<Longrightarrow> asg_step d d'"
  unfolding park_quota_blocked_def Let_def
  by (erule bind_update_step)
     (auto simp: same_work_def split: if_splits option.splits prod.splits dest!: insert_or_ignore_rows(1))

lemma undeliverable_step:
  assumes "mark_undeliverable i why k p eid now d = Inr (x, d')"
  shows "asg_step d d'"
  using assms unfolding mark_undeliverable_def
  apply (elim bind_status_step)
  apply (clarsimp split: if_splits)
  apply (erule bind_update_still)
    apply (auto simp: same_work_def Let_def split: option.splits prod.splits dest!: push_inbox_rows)
  done

lemma stale_step:
  assumes "block_stale_queue_tx i why now d = Inr (x, d')"
  shows "asg_step d d'"
  using assms unfolding block_stale_queue_tx_def
  by (elim bind_status_step)
     (auto split: if_splits elim!: bind_update_still [where k = "\<lambda>(d2, _). Inr (True, d2)"] simp: same_work_def)

lemma resume_step:
  assumes "resume_quota_blocked i k p eid now d = Inr (x, d')"
  shows "asg_step d d'"
  using assms unfolding resume_quota_blocked_def
  apply (elim bind_status_step)
  apply (clarsimp split: if_splits)
  apply (erule bind_update_still)
    apply (auto simp: same_work_def Let_def split: option.splits prod.splits dest!: insert_or_ignore_rows(1))
  done

lemma review_step:
  assumes "review b i dc ac src re ev fu vid now d = Inr (x, d')"
  shows "asg_step d d'"
  using assms unfolding review_def
  apply (clarsimp split: option.splits if_splits)
  apply (elim bind_status_step)
  apply (clarsimp split: if_splits)
  apply (erule bind_update_still)
    apply (auto simp: same_work_def split: option.splits elim!: bind_res_InrE dest!: insert_review_rows)
  done

lemma lift_db_Inr [simp]: "lift_db m = Inr x \<longleftrightarrow> m = Inr x"
  by (cases m) (auto simp: lift_db_def)

lemma create_followup_still:
  assumes "create_followup parent f aid now d = Inr (nid, d')"
  shows "asg_still d d'"
proof (cases "List.find (\<lambda>(_, a). a_crid a = f_crid f) (assignments d)")
  case (Some e)
  then show ?thesis using assms by (auto simp: create_followup_def split: prod.splits if_splits)
next
  case None
  then obtain t n d2 a where t: "insert_row assignments_ok aid a (assignments d) = Inr t"
      and u: "update_assignment aid (\<lambda>_. True) (\<lambda>a. a\<lparr>a_review_role := Option.bind (map_of t parent) a_review_role\<rparr>)
                (d\<lparr>assignments := t\<rparr>) = Inr (d', n)"
    using assms by (auto simp: create_followup_def Let_def elim!: bind_res_InrE)
  show ?thesis
    by (rule asg_still_trans [OF insert_assignment_still [OF t] update_assignment_still [OF u]]) (simp_all add: same_work_def)
qed

lemma decide_step:
  assumes "review_with_followup i ex dc ac src re ev fu aid vid now d = Inr (x, d')"
  shows "asg_step d d'"
proof (cases "decision_status dc")
  case None
  then show ?thesis using assms by (simp add: review_with_followup_def)
next
  case (Some to)
  let ?f = "\<lambda>a. a\<lparr>a_status := to, a_review_decision := Some dc, a_reviewed_by := Some ac,
                    a_reviewed_at := Some now, a_review_reason := re, a_updated_at := now\<rparr>"
  obtain d1 n where u: "update_assignment i (\<lambda>a. a_status a = ex) ?f d = Inr (d1, n)"
    using assms Some by (auto simp: review_with_followup_def elim!: bind_res_InrE)
  have first: "asg_step d d1" by (rule update_assignment_step [OF u]) (simp add: same_work_def)
  show ?thesis
  proof (cases "n = 0")
    case True
    then show ?thesis using assms Some u by (simp add: review_with_followup_def lift_db_def)
  next
    case False
    obtain created d4 where mid: "(case fu of
                   None \<Rightarrow> Inr (None, d1)
                 | Some f \<Rightarrow>
                     bind_res (create_followup i f aid now d1) (\<lambda>(new_id, d2).
                     bind_res (lift_db (update_assignment i (\<lambda>_. True)
                        (\<lambda>a. a\<lparr>a_followup := Some new_id, a_updated_at := now\<rparr>) d2)) (\<lambda>(d3, _).
                     Inr (Some new_id, d3)))) = Inr (created, d4)"
        and last: "assignments d' = assignments d4"
      using assms Some u False
      by (auto simp: review_with_followup_def lift_db_def [of "Inr _"] elim!: bind_res_InrE dest!: insert_review_rows)
    have "asg_still d1 d4"
    proof (cases fu)
      case (Some f)
      then obtain nid d2 m where c: "create_followup i f aid now d1 = Inr (nid, d2)"
          and w: "update_assignment i (\<lambda>_. True) (\<lambda>a. a\<lparr>a_followup := Some nid, a_updated_at := now\<rparr>) d2 = Inr (d4, m)"
        using mid by (auto elim!: bind_res_InrE)
      show ?thesis
        by (rule asg_still_trans [OF create_followup_still [OF c] update_assignment_still [OF w]]) (simp_all add: same_work_def)
    qed (use mid in simp)
    then show ?thesis using asg_step_still [OF first] asg_still_trans [OF _ asg_move_same [OF last]] by blast
  qed
qed

lemma create_still: "insert_assignment_linked aid r t c x ow fu ex ro now d = Inr (y, d') \<Longrightarrow> asg_still d d'"
  unfolding insert_assignment_linked_def by (auto elim!: bind_res_InrE dest!: insert_assignment_still)

lemma lift_holds_step:
  assumes "clear_restart_holds now d = Inr (n, d')"
  shows "asg_step d d'"
proof -
  obtain t where u: "update_where (\<lambda>old new. asg_guard_aborts (a_status old) (a_status new)) assignments_ok
        (\<lambda>a. a_status a = ''queued'' \<and> held_by_window (a_error a))
        (\<lambda>a. a\<lparr>a_next_attempt_at := None, a_error := None, a_conflict_since := None, a_updated_at := now\<rparr>) (assignments d) = Inr (t, n)"
      and d': "d' = d\<lparr>assignments := t\<rparr>"
    using assms by (auto simp: clear_restart_holds_def elim!: bind_res_InrE)
  show ?thesis
    using update_where_rows(1,2) [OF u] d' by (auto simp: asg_move_def same_work_def)
qed

lemma asg_perform_step: "asg_step d (asg_perform op d)"
proof (cases op)
  case (Create aid r t c x ow fu ex ro now)
  then show ?thesis using create_still by (auto intro: kept_still)
next
  case (Sent i t dl now)
  then show ?thesis
    by (auto simp: mark_delivered_def Let_def intro!: kept_step elim!: update_only [where g = "\<lambda>n. 0 < n"]) (simp_all add: same_work_def)
next
  case (Lift_Holds now)
  then show ?thesis using lift_holds_step by (auto intro: kept_step)
next
  case (Undeliverable i why k p eid now)
  then show ?thesis using undeliverable_step by (auto intro: kept_step)
next
  case (Settle i ts ec res er k kind p eid now)
  then show ?thesis using settle_step by (auto intro: kept_step)
next
  case (Stale i why now)
  then show ?thesis using stale_step by (auto intro: kept_step)
next
  case (Park i rs why k p eid now)
  then show ?thesis using park_step by (auto intro: kept_step)
next
  case (Resume i k p eid now)
  then show ?thesis using resume_step by (auto intro: kept_step)
next
  case (Review b i dc ac src re ev fu vid now)
  then show ?thesis using review_step by (auto intro: kept_step)
next
  case (Decide i ex dc ac src re ev fu aid vid now)
  have "asg_step d (kept m d)" if "\<And>x d'. m = Inr (x, d') \<Longrightarrow> asg_step d d'" for m :: "store_error + ident option option \<times> db"
    using that by (cases m) auto
  then show ?thesis using Decide decide_step by auto
qed (auto simp: hold_def defer_attempt_def defer_conflict_def set_turn_error_def extend_quota_blocked_def link_followup_def
      intro!: kept_step elim!: update_only [where g = "\<lambda>_. ()"] simp: same_work_def)

section \<open>The contract\<close>

definition asg_status_of :: "db \<Rightarrow> ident \<Rightarrow> string option" where
  "asg_status_of d i = map_option a_status (map_of (assignments d) i)"

lemma asg_perform_edge:
  "asg_status_of d i = Some a \<Longrightarrow> \<exists>b. asg_status_of (asg_perform op d) i = Some b \<and> (a = b \<or> allowed a b)"
  using asg_perform_step [of d op] unfolding asg_move_def asg_status_of_def by fastforce

interpretation works: guarded_final asg_status_of allowed asg_perform asg_terminal
  by unfold_locales (auto intro: asg_perform_edge terminal_final)

lemma asg_fold_keeps:
  assumes "map_of (assignments d) i = Some a"
  shows "\<exists>b. map_of (assignments (fold asg_perform ops d)) i = Some b \<and> same_work a b"
  using assms
proof (induction ops arbitrary: d a)
  case (Cons op ops)
  obtain b where b: "map_of (assignments (asg_perform op d)) i = Some b" "same_work a b"
    using asg_perform_step [of d op] Cons.prems unfolding asg_move_def by blast
  show ?case using Cons.IH [OF b(1)] same_work_trans [OF b(2)] by auto
qed simp

lemma asg_fold_ok: "assignments_ok (assignments d) \<Longrightarrow> assignments_ok (assignments (fold asg_perform ops d))"
  by (induction ops arbitrary: d) (use asg_perform_step in \<open>auto simp: asg_move_def\<close>)

end
