(* ===== verification/Assignment_Properties.thy ===== *)
theory Assignment_Properties
  imports Assignment_Safety
begin

text \<open>
  The properties of the assignment store: no way back for decided work, one request id for one
  piece of work, notification exactly with the move, the atomic follow-up, and the fresh request
  id of every re-send after a quota stop.
\<close>

definition an_assignment :: "string \<Rightarrow> string \<Rightarrow> assignment" where
  "an_assignment crid st = (new_assignment None ''B'' crid ''do it'' [] None True None 5)\<lparr>a_status := st\<rparr>"

definition office :: db where
  "office = sample\<lparr>assignments := [(''A0'', an_assignment ''c0'' ''cancelled''), (''A1'', an_assignment ''c1'' ''delivered''),
                                  (''A2'', an_assignment ''c2'' ''queued'')]\<rparr>"

lemma office_ok: "assignments_ok (assignments office)"
  by (simp add: office_def assignments_ok_def an_assignment_def new_assignment_def)

section \<open>Paths of an assignment\<close>

text \<open>
  Whatever the dispatcher, the settling of turns, the quota waits and the reviewers do, in
  any order, an assignment's status moves only along the transition table, and an assignment
  that was completed, failed, cancelled or superseded keeps that status for good: a delivery
  recorded late, a late end of a turn or a second decision cannot bring it back.
\<close>

theorem decided_work_stays_decided:
  assumes "map_of (assignments d) i = Some a"
  shows "\<exists>b. map_of (assignments (fold asg_perform ops d)) i = Some b \<and> allowed\<^sup>*\<^sup>* (a_status a) (a_status b)
     \<and> (asg_terminal (a_status a) \<longrightarrow> a_status b = a_status a)"
proof -
  have st: "asg_status_of d i = Some (a_status a)" using assms by (simp add: asg_status_of_def)
  obtain b where "map_of (assignments (fold asg_perform ops d)) i = Some b" "allowed\<^sup>*\<^sup>* (a_status a) (a_status b)"
    using works.fold_path [OF st, of ops] by (auto simp: asg_status_of_def)
  then show ?thesis using works.fold_final [OF st, of ops] by (auto simp: asg_status_of_def)
qed

theorem decided_work_stays_decided_witness:
  "asg_status_of (fold asg_perform
       [Sent ''A0'' ''T9'' ''ok'' 7, Settle ''A0'' ''completed'' True None None ''k'' ''assignment_completed'' (JObj []) ''E'' 8,
        Decide ''A0'' ''cancelled'' ''accept'' ''user'' ''api'' None None None ''A9'' ''V9'' 9] office) ''A0'' = Some ''cancelled''"
proof -
  let ?ops = "[Sent ''A0'' ''T9'' ''ok'' 7, Settle ''A0'' ''completed'' True None None ''k'' ''assignment_completed'' (JObj []) ''E'' 8,
        Decide ''A0'' ''cancelled'' ''accept'' ''user'' ''api'' None None None ''A9'' ''V9'' 9]"
  have row: "map_of (assignments office) ''A0'' = Some (an_assignment ''c0'' ''cancelled'')" by code_simp
  have st: "a_status (an_assignment ''c0'' ''cancelled'') = ''cancelled''" "asg_terminal ''cancelled''" by code_simp+
  obtain b where "map_of (assignments (fold asg_perform ?ops office)) ''A0'' = Some b" "a_status b = ''cancelled''"
    using decided_work_stays_decided [OF row, of ?ops] st by metis
  then show ?thesis by (simp only: asg_status_of_def option.map)
qed

section \<open>Identity\<close>

text \<open>
  What an assignment asks never changes after it was written down: its request id, its bot,
  its text and its lineage survive any sequence of operations, and one request id never names
  two assignments, so a retry is recognised as the same piece of work.
\<close>

theorem one_id_one_piece_of_work:
  assumes "assignments_ok (assignments d)" "d' = fold asg_perform ops d"
    "map_of (assignments d) i = Some a"
  shows "\<exists>b. map_of (assignments d') i = Some b
     \<and> a_crid b = a_crid a \<and> a_target_bot b = a_target_bot a \<and> a_text b = a_text a \<and> a_follow_up_of b = a_follow_up_of a
     \<and> (\<forall>j x. map_of (assignments d') j = Some x \<and> a_crid x = a_crid a \<longrightarrow> j = i)"
proof -
  obtain b where b: "map_of (assignments d') i = Some b" "same_work a b"
    using asg_fold_keeps [OF assms(3)] assms(2) by blast
  have "assignments_ok (assignments d')" using asg_fold_ok [OF assms(1)] assms(2) by simp
  then have "unique_index (\<lambda>a. Some (a_crid a)) (assignments d')" by (simp add: assignments_ok_def)
  then have "j = i" if "map_of (assignments d') j = Some x" "a_crid x = a_crid a" for j x
    by (rule unique_indexD [OF _ that(1) b(1)]) (use that(2) b(2) in \<open>simp_all add: same_work_def\<close>)
  moreover have "a_crid b = a_crid a" "a_target_bot b = a_target_bot a" "a_text b = a_text a" "a_follow_up_of b = a_follow_up_of a"
    using b(2) by (simp_all add: same_work_def)
  ultimately show ?thesis using b(1) by blast
qed

theorem one_id_one_piece_of_work_witness:
  "{j. \<exists>x. map_of (assignments (fold asg_perform [Create ''A7'' None ''B'' ''c1'' ''other'' [] None True None 6] office)) j = Some x
      \<and> a_crid x = ''c1''} = {''A1''}"
proof -
  define d where "d = fold asg_perform [Create ''A7'' None ''B'' ''c1'' ''other'' [] None True None 6] office"
  have row: "map_of (assignments office) ''A1'' = Some (an_assignment ''c1'' ''delivered'')" by code_simp
  have id: "a_crid (an_assignment ''c1'' ''delivered'') = ''c1''" by code_simp
  show ?thesis
    using one_id_one_piece_of_work [OF office_ok d_def row] unfolding id d_def [symmetric] by blast
qed

section \<open>Notification\<close>

fun notice :: "asg_op \<Rightarrow> (ident \<times> string \<times> ident) option" where
  "notice (Settle i _ _ _ _ key _ _ eid _) = Some (i, key, eid)"
| "notice (Park i _ _ key _ eid _) = Some (i, key, eid)"
| "notice (Resume i key _ eid _) = Some (i, key, eid)"
| "notice (Undeliverable i _ key _ eid _) = Some (i, key, eid)"
| "notice _ = None"

definition told :: "string \<Rightarrow> db \<Rightarrow> bool" where
  "told key d = list_ex (\<lambda>(_, e). i_key e = key) (inbox d)"

definition moved_and_told :: "ident \<Rightarrow> string \<Rightarrow> db \<Rightarrow> db \<Rightarrow> bool" where
  "moved_and_told i key d d' \<longleftrightarrow> asg_status_of d' i \<noteq> asg_status_of d i \<and> told key d'
     \<and> (inbox d' = inbox d \<or> (\<exists>x. inbox d' = inbox d @ [x]))"

lemma insert_or_ignore_told:
  assumes "insert_or_ignore eid (new_event key kind a b t p now) d = (fresh, d')" "map_of (inbox d) eid = None"
  shows "told key d' \<and> (inbox d' = inbox d \<or> (\<exists>x. inbox d' = inbox d @ [x])) \<and> assignments d' = assignments d"
  using assms by (auto simp: insert_or_ignore_def told_def new_event_def split: if_splits)

lemma update_assignment_inbox: "update_assignment i w f d = Inr (d', n) \<Longrightarrow> inbox d' = inbox d"
  by (erule update_assignment_cases) auto

lemma in_flight_sources:
  "a_status a \<in> set (sources_for ''awaiting_review'') \<longleftrightarrow> a_status a \<in> set IN_FLIGHT"
  "a_status a \<in> set (sources_for ''quota_blocked'') \<longleftrightarrow> a_status a \<in> set IN_FLIGHT"
  by (simp_all add: sources_in_flight)

lemma settle_told:
  assumes "settle_and_notify_on i ts ec res er key kind p eid now d = Inr (s, d')" "map_of (inbox d) eid = None"
  shows "d' = d \<and> \<not> moved s \<or> moved s \<and> moved_and_told i key d d'"
proof -
  let ?ok = "ts = ''completed'' \<or> ts = ''completed_fallback''"
  let ?f = "\<lambda>a. a\<lparr>a_status := (if ?ok \<and> \<not> a_expects_review a then ''completed'' else ''awaiting_review''),
                a_turn_status := Some ts, a_evidence_complete := ec,
                a_result := (case res of None \<Rightarrow> a_result a | Some r \<Rightarrow> Some r),
                a_error := (case er of None \<Rightarrow> a_error a | Some e \<Rightarrow> Some e),
                a_completed_at := Some now, a_updated_at := now\<rparr>"
  obtain d1 n where u: "update_assignment i (\<lambda>a. List.member (sources_for ''awaiting_review'') (a_status a)) ?f d = Inr (d1, n)"
    using assms(1) by (auto simp: settle_and_notify_on_def elim!: bind_res_InrE)
  show ?thesis
    using u
  proof (cases rule: update_assignment_cases)
    case miss
    then show ?thesis using assms(1) u by (auto simp: settle_and_notify_on_def)
  next
    case (hit a)
    have "a_status a \<in> set IN_FLIGHT" using hit(3) by (simp add: in_flight_sources)
    then have st: "asg_status_of d i \<noteq> asg_status_of d1 i"
      using hit(2) by (auto simp: asg_status_of_def hit(5) IN_FLIGHT_def)
    obtain a1 where row: "map_of (assignments d1) i = Some a1" using hit(2,5) by simp
    obtain k b t q fresh where ins: "insert_or_ignore eid (new_event key k (Some i) b t q now) d1 = (fresh, d')" and m: "moved s"
      using assms(1) u hit(1) row
      by (auto simp: settle_and_notify_on_def Let_def split: prod.splits if_splits elim!: bind_res_InrE)
    have box: "inbox d1 = inbox d" by (rule update_assignment_inbox [OF u])
    show ?thesis
      using insert_or_ignore_told [OF ins] assms(2) st m box by (simp add: moved_and_told_def asg_status_of_def)
  qed
qed

lemma park_told:
  assumes "park_quota_blocked i rs why key p eid now d = Inr (s, d')" "map_of (inbox d) eid = None"
  shows "d' = d \<and> \<not> moved s \<or> moved s \<and> moved_and_told i key d d'"
proof -
  let ?f = "\<lambda>a. a\<lparr>a_status := ''quota_blocked'', a_resume_at := Some rs, a_error := Some why,
               a_conflict_since := None, a_updated_at := now\<rparr>"
  obtain d1 n where u: "update_assignment i (\<lambda>a. List.member (sources_for ''quota_blocked'') (a_status a)) ?f d = Inr (d1, n)"
    using assms(1) by (auto simp: park_quota_blocked_def elim!: bind_res_InrE)
  show ?thesis
    using u
  proof (cases rule: update_assignment_cases)
    case miss
    then show ?thesis using assms(1) u by (auto simp: park_quota_blocked_def)
  next
    case (hit a)
    have "a_status a \<in> set IN_FLIGHT" using hit(3) by (simp add: in_flight_sources)
    then have st: "asg_status_of d i \<noteq> asg_status_of d1 i"
      using hit(2) by (auto simp: asg_status_of_def hit(5) IN_FLIGHT_def)
    obtain a1 where row: "map_of (assignments d1) i = Some a1" using hit(2,5) by simp
    obtain k b t q fresh where ins: "insert_or_ignore eid (new_event key k (Some i) b t q now) d1 = (fresh, d')" and m: "moved s"
      using assms(1) row unfolding park_quota_blocked_def u by (auto simp: hit(1) Let_def split: prod.splits)
    have box: "inbox d1 = inbox d" by (rule update_assignment_inbox [OF u])
    show ?thesis
      using insert_or_ignore_told [OF ins] assms(2) st m box by (simp add: moved_and_told_def asg_status_of_def)
  qed
qed

text \<open>A status change followed by an update that keeps the status, in one transaction.\<close>

lemma status_then_fields:
  assumes "asg_set_status_on i frm to now d = Inr (AsgApplied, d1)" "frm \<noteq> to"
    and "update_assignment i (\<lambda>_. True) f d1 = Inr (d2, n)" "\<And>a. a_status (f a) = a_status a"
  shows "asg_status_of d2 i \<noteq> asg_status_of d i" and "inbox d2 = inbox d" and "asg_status_of d2 i = Some (state_str to)"
proof -
  obtain a where a: "map_of (assignments d) i = Some a" "a_status a = state_str frm"
      "d1 = d\<lparr>assignments := upd_row i (\<lambda>a. a\<lparr>a_status := state_str to, a_updated_at := now\<rparr>) (assignments d)\<rparr>"
    using asg_set_status_cases(1) [OF assms(1)] by auto
  have ne: "state_str frm \<noteq> state_str to" using assms(2) state_parse_str by (metis option.inject)
  show "asg_status_of d2 i = Some (state_str to)"
    using assms(3) by (cases rule: update_assignment_cases) (auto simp: a asg_status_of_def assms(4))
  then show "asg_status_of d2 i \<noteq> asg_status_of d i" using a(1,2) ne by (auto simp: asg_status_of_def)
  show "inbox d2 = inbox d" using update_assignment_inbox [OF assms(3)] a(3) by simp
qed

lemma resume_told:
  assumes "resume_quota_blocked i key p eid now d = Inr (s, d')" "map_of (inbox d) eid = None"
  shows "d' = d \<and> \<not> moved s \<or> moved s \<and> moved_and_told i key d d' \<and> asg_status_of d' i = Some ''queued''"
proof -
  obtain out d1 where st: "asg_set_status_on i QuotaBlocked Queued now d = Inr (out, d1)"
    using assms(1) by (auto simp: resume_quota_blocked_def elim!: bind_res_InrE)
  show ?thesis
  proof (cases "out = AsgApplied")
    case False
    then show ?thesis using assms(1) st asg_set_status_cases(1) [OF st] by (auto simp: resume_quota_blocked_def)
  next
    case True
    let ?f = "\<lambda>a. a\<lparr>a_quota_retries := a_quota_retries a + 1, a_resume_at := None, a_turn := None, a_delivery := None,
                     a_next_attempt_at := None, a_attempts := 0, a_updated_at := now\<rparr>"
    obtain d2 n a where u: "update_assignment i (\<lambda>_. True) ?f d1 = Inr (d2, n)" and row: "map_of (assignments d2) i = Some a"
      using assms(1) st True by (auto simp: resume_quota_blocked_def elim!: bind_res_InrE split: option.splits)
    note moved = status_then_fields [OF st [unfolded True] _ u]
    obtain k b t q fresh where ins: "insert_or_ignore eid (new_event key k (Some i) b t q now) d2 = (fresh, d')" and m: "moved s"
      using assms(1) st True u row by (auto simp: resume_quota_blocked_def Let_def split: prod.splits)
    show ?thesis
      using insert_or_ignore_told [OF ins] assms(2) moved m by (simp add: moved_and_told_def asg_status_of_def)
  qed
qed

lemma undeliverable_told:
  assumes "mark_undeliverable i why key p eid now d = Inr (s, d')" "map_of (inbox d) eid = None"
  shows "d' = d \<and> \<not> s \<or> s \<and> moved_and_told i key d d'"
proof -
  obtain out d1 where st: "asg_set_status_on i Queued Blocked now d = Inr (out, d1)"
    using assms(1) by (auto simp: mark_undeliverable_def elim!: bind_res_InrE)
  show ?thesis
  proof (cases "out = AsgApplied")
    case False
    then show ?thesis using assms(1) st asg_set_status_cases(1) [OF st] by (auto simp: mark_undeliverable_def)
  next
    case True
    let ?f = "\<lambda>a. a\<lparr>a_error := Some why, a_next_attempt_at := None, a_updated_at := now\<rparr>"
    obtain d2 n a where u: "update_assignment i (\<lambda>_. True) ?f d1 = Inr (d2, n)" and row: "map_of (assignments d2) i = Some a"
      using assms(1) st True by (auto simp: mark_undeliverable_def elim!: bind_res_InrE split: option.splits)
    note moved = status_then_fields [OF st [unfolded True] _ u]
    obtain k b t q fresh where ins: "insert_or_ignore eid (new_event key k (Some i) b t q now) d2 = (fresh, d')" and m: s
      using assms(1) st True u row by (auto simp: mark_undeliverable_def push_inbox_tx_def Let_def split: prod.splits)
    show ?thesis
      using insert_or_ignore_told [OF ins] assms(2) moved m by (simp add: moved_and_told_def asg_status_of_def)
  qed
qed

text \<open>
  C14. The operations that end an execution, park it for quota, take it up again or give up its
  delivery tell the manager exactly when they move the assignment: either nothing at all was
  written, or the status changed and an event with the given key is in the inbox, at most one
  event having been added. There is no closed assignment nobody was told about, and no call to
  review work that another decision already closed.
\<close>

theorem told_iff_moved:
  assumes "notice op = Some (i, key, eid)" "map_of (inbox d) eid = None" "d' = asg_perform op d"
  shows "d' = d \<or> asg_status_of d' i \<noteq> asg_status_of d i \<and> list_ex (\<lambda>(_, e). i_key e = key) (inbox d')
     \<and> (inbox d' = inbox d \<or> (\<exists>x. inbox d' = inbox d @ [x]))"
proof -
  have kept: "kept m d = d \<or> moved_and_told i key d (kept m d)"
    if "\<And>s e. m = Inr (s, e) \<Longrightarrow> e = d \<or> moved_and_told i key d e" for m :: "db_error + 'x \<times> db"
    using that by (cases m) auto
  have "asg_perform op d = d \<or> moved_and_told i key d (asg_perform op d)"
    using assms(1)
  proof (cases op)
    case (Settle i ts ec res er k kind p eid' now)
    show ?thesis
      unfolding Settle asg_perform.simps by (rule kept) (use settle_told assms(1,2) Settle in fastforce)
  next
    case (Park i rs why k p eid' now)
    show ?thesis
      unfolding Park asg_perform.simps by (rule kept) (use park_told assms(1,2) Park in fastforce)
  next
    case (Resume i k p eid' now)
    show ?thesis
      unfolding Resume asg_perform.simps by (rule kept) (use resume_told assms(1,2) Resume in fastforce)
  next
    case (Undeliverable i why k p eid' now)
    show ?thesis
      unfolding Undeliverable asg_perform.simps by (rule kept) (use undeliverable_told assms(1,2) Undeliverable in fastforce)
  qed simp_all
  then show ?thesis unfolding assms(3) moved_and_told_def told_def .
qed

theorem told_iff_moved_witness:
  "(let d = asg_perform (Settle ''A1'' ''completed'' True (Some ''done'') None ''turn:T9:completed'' ''assignment_completed'' (JObj []) ''E1'' 9) office in
     asg_status_of d ''A1'' = Some ''awaiting_review'' \<and> told ''turn:T9:completed'' d)
   \<and> asg_perform (Settle ''A0'' ''completed'' True None None ''turn:T8:completed'' ''assignment_completed'' (JObj []) ''E2'' 9) office = office"
proof -
  let ?go = "Settle ''A1'' ''completed'' True (Some ''done'') None ''turn:T9:completed'' ''assignment_completed'' (JObj []) ''E1'' 9"
  let ?no = "Settle ''A0'' ''completed'' True None None ''turn:T8:completed'' ''assignment_completed'' (JObj []) ''E2'' 9"
  have n: "notice ?go = Some (''A1'', ''turn:T9:completed'', ''E1'')" "notice ?no = Some (''A0'', ''turn:T8:completed'', ''E2'')" by simp_all
  have f: "map_of (inbox office) ''E1'' = None" "map_of (inbox office) ''E2'' = None" by code_simp+
  have st: "asg_status_of (asg_perform ?go office) ''A1'' = Some ''awaiting_review''" "asg_status_of office ''A1'' = Some ''delivered''"
    "asg_status_of (asg_perform ?no office) ''A0'' = asg_status_of office ''A0''" by code_simp+
  have "asg_perform ?go office \<noteq> office" using st(1,2) by auto
  then have "told ''turn:T9:completed'' (asg_perform ?go office)"
    using told_iff_moved [OF n(1) f(1) refl] unfolding told_def by blast
  moreover have "asg_perform ?no office = office"
    using told_iff_moved [OF n(2) f(2) refl] st(3) by blast
  ultimately show ?thesis using st(1) by (simp only: Let_def simp_thms)
qed

section \<open>Re-sends after a quota stop\<close>

lemma dispatch_crid_inj:
  assumes "a_crid a = a_crid b" "0 \<le> a_quota_retries a" "a_quota_retries a < a_quota_retries b"
  shows "dispatch_crid a \<noteq> dispatch_crid b"
  using assms by (auto simp: dispatch_crid_def nat_str_inj)

lemma resume_counts:
  assumes "resume_quota_blocked i key p eid now d = Inr (s, d')" "moved s" "map_of (assignments d) i = Some a"
  shows "\<exists>b. map_of (assignments d') i = Some b \<and> a_quota_retries b = a_quota_retries a + 1
     \<and> a_status b = ''queued'' \<and> a_turn b = None \<and> a_delivery b = None \<and> a_resume_at b = None \<and> a_crid b = a_crid a"
proof -
  let ?f = "\<lambda>a. a\<lparr>a_quota_retries := a_quota_retries a + 1, a_resume_at := None, a_turn := None, a_delivery := None,
                     a_next_attempt_at := None, a_attempts := 0, a_updated_at := now\<rparr>"
  obtain out d1 where st: "asg_set_status_on i QuotaBlocked Queued now d = Inr (out, d1)"
    using assms(1) by (auto simp: resume_quota_blocked_def elim!: bind_res_InrE)
  have app: "out = AsgApplied" using assms(1,2) st by (auto simp: resume_quota_blocked_def split: if_splits)
  obtain d2 n where u: "update_assignment i (\<lambda>_. True) ?f d1 = Inr (d2, n)"
    using assms(1) st app by (auto simp: resume_quota_blocked_def elim!: bind_res_InrE)
  have d': "assignments d' = assignments d2"
    using assms(1) st app u
    by (auto simp: resume_quota_blocked_def Let_def split: option.splits prod.splits dest!: insert_or_ignore_rows(1))
  have d1: "map_of (assignments d1) i = Some (a\<lparr>a_status := ''queued'', a_updated_at := now\<rparr>)"
    using asg_set_status_cases(1) [OF st] app assms(3) by auto
  show ?thesis
    using u by (cases rule: update_assignment_cases) (auto simp: d' d1)
qed

text \<open>
  C15. Every re-sending after a quota stop goes out under a request id of its own: whatever
  happened to the assignment between, an assignment that was taken up again never reuses the
  request id of an earlier sending, so the prompt endpoint cannot take the new sending for a
  retry of the turn that hit the limit. The resumption itself puts the assignment back into the
  queue with one more retry counted, and leaves neither the old turn nor its delivery linked.
\<close>

theorem resend_has_fresh_id:
  assumes "map_of (assignments d) i = Some a" "0 \<le> a_quota_retries a"
    "map_of (assignments (fold asg_perform before d)) i = Some b"
    "resume_quota_blocked i key p eid now (fold asg_perform before d) = Inr (s, d2)" "moved s"
    "map_of (assignments (fold asg_perform after d2)) i = Some c"
  shows "dispatch_crid c \<noteq> dispatch_crid a \<and> dispatch_crid c \<noteq> dispatch_crid b
     \<and> (\<exists>r. map_of (assignments d2) i = Some r \<and> a_status r = ''queued'' \<and> a_turn r = None \<and> a_delivery r = None
           \<and> a_resume_at r = None \<and> a_quota_retries r = a_quota_retries b + 1 \<and> dispatch_crid r \<noteq> dispatch_crid b)"
proof -
  have ab: "same_work a b" using asg_fold_keeps [OF assms(1), of before] assms(3) by simp
  obtain b' where b': "map_of (assignments d2) i = Some b'" "a_quota_retries b' = a_quota_retries b + 1" "a_crid b' = a_crid b"
    and clean: "a_status b' = ''queued''" "a_turn b' = None" "a_delivery b' = None" "a_resume_at b' = None"
    using resume_counts [OF assms(4,5,3)] by blast
  have bc: "same_work b' c" using asg_fold_keeps [OF b'(1), of after] assms(6) by simp
  show ?thesis
    using dispatch_crid_inj [of a c] dispatch_crid_inj [of b c] dispatch_crid_inj [of b b'] ab bc b' clean assms(2)
    by (simp add: same_work_def)
qed

theorem resend_has_fresh_id_witness:
  "(let d = fold asg_perform [Park ''A1'' 60 ''limit'' ''k1'' (JObj []) ''E1'' 9] office;
        d2 = asg_perform (Resume ''A1'' ''k2'' (JObj []) ''E2'' 70) d in
     map_option dispatch_crid (map_of (assignments d2) ''A1'') = Some ''c1#r1''
     \<and> map_option a_turn (map_of (assignments d2) ''A1'') = Some None
     \<and> dispatch_crid (the (map_of (assignments d2) ''A1'')) \<noteq> dispatch_crid (an_assignment ''c1'' ''delivered''))"
proof -
  let ?before = "[Park ''A1'' 60 ''limit'' ''k1'' (JObj []) ''E1'' 9]"
  let ?d = "fold asg_perform ?before office"
  let ?d2 = "asg_perform (Resume ''A1'' ''k2'' (JObj []) ''E2'' 70) ?d"
  have row: "map_of (assignments office) ''A1'' = Some (an_assignment ''c1'' ''delivered'')" by code_simp
  have zero: "0 \<le> a_quota_retries (an_assignment ''c1'' ''delivered'')" by code_simp
  have parked: "map_of (assignments ?d) ''A1'' = Some ((an_assignment ''c1'' ''delivered'')\<lparr>a_status := ''quota_blocked'',
      a_resume_at := Some 60, a_error := Some ''limit'', a_updated_at := 9\<rparr>)" by code_simp
  have res: "resume_quota_blocked ''A1'' ''k2'' (JObj []) ''E2'' 70 ?d = Inr (\<lparr>moved = True, event_new = True\<rparr>, ?d2)" by code_simp
  have c: "map_of (assignments (fold asg_perform [] ?d2)) ''A1'' = Some (the (map_of (assignments ?d2) ''A1''))" by code_simp
  have id: "map_option dispatch_crid (map_of (assignments ?d2) ''A1'') = Some ''c1#r1''" by code_simp
  note fact = resend_has_fresh_id [OF row zero parked res _ c]
  have "dispatch_crid (the (map_of (assignments ?d2) ''A1'')) \<noteq> dispatch_crid (an_assignment ''c1'' ''delivered'')"
    using fact by (simp only: settled_asg.simps simp_thms)
  moreover have "map_option a_turn (map_of (assignments ?d2) ''A1'') = Some None"
    using fact unfolding settled_asg.simps by (metis option.map(2))
  ultimately show ?thesis using id by (simp only: Let_def simp_thms)
qed

section \<open>The follow-up\<close>

definition continues :: "db \<Rightarrow> ident \<Rightarrow> followup_spec \<Rightarrow> ident \<Rightarrow> bool" where
  "continues d parent f fid \<longleftrightarrow> (\<exists>b. map_of (assignments d) fid = Some b \<and> a_crid b = f_crid f
     \<and> a_follow_up_of b = Some parent \<and> a_target_bot b = f_target f \<and> a_text b = f_text f)"

lemma continues_still: "continues d p f fid \<Longrightarrow> asg_still d d' \<Longrightarrow> continues d' p f fid"
  unfolding continues_def asg_move_def same_work_def by metis

lemma find_assignment:
  assumes "assignments_ok (assignments d)" "List.find (\<lambda>(_, a). P a) (assignments d) = Some (i, a)"
  shows "map_of (assignments d) i = Some a \<and> P a"
  using assms by (auto simp: find_Some_iff assignments_ok_def in_set_conv_nth)

lemma create_followup_continues:
  assumes ok: "assignments_ok (assignments d)" and c: "create_followup parent f aid now d = Inr (fid, d')"
  shows "continues d' parent f fid"
    and "map_of (assignments d) fid = None \<Longrightarrow> map_of (assignments d) parent = Some p \<Longrightarrow>
      \<exists>b. map_of (assignments d') fid = Some b \<and> a_status b = ''queued'' \<and> a_expects_review b = a_expects_review p
        \<and> a_review_role b = a_review_role p"
proof -
  have "continues d' parent f fid \<and> (map_of (assignments d) fid = None \<and> map_of (assignments d) parent = Some p \<longrightarrow>
      (\<exists>b. map_of (assignments d') fid = Some b \<and> a_status b = ''queued'' \<and> a_expects_review b = a_expects_review p
        \<and> a_review_role b = a_review_role p))"
  proof (cases "List.find (\<lambda>(_, a). a_crid a = f_crid f) (assignments d)")
    case (Some e)
    then show ?thesis
      using c find_assignment [OF ok, of "\<lambda>a. a_crid a = f_crid f" "fst e" "snd e"]
      by (auto simp: create_followup_def continues_def split: prod.splits if_splits)
  next
    case None
    define a where "a = new_assignment (f_request f) (f_target f) (f_crid f) (f_text f) (f_ownership f) (Some parent)
        (case map_of (assignments d) parent of None \<Rightarrow> True | Some p \<Rightarrow> a_expects_review p) None now"
    obtain t n where t: "insert_row assignments_ok aid a (assignments d) = Inr t"
        and u: "update_assignment aid (\<lambda>_. True) (\<lambda>a. a\<lparr>a_review_role := Option.bind (map_of t parent) a_review_role\<rparr>)
                  (d\<lparr>assignments := t\<rparr>) = Inr (d', n)"
        and fid: "fid = aid"
      using c None by (auto simp: create_followup_def Let_def a_def elim!: bind_res_InrE)
    have row: "map_of t aid = Some a" using insert_row_rows(1) [OF t, of aid] by simp
    have "map_of (assignments d') aid = Some (a\<lparr>a_review_role := Option.bind (map_of t parent) a_review_role\<rparr>)"
      using u row by (cases rule: update_assignment_cases) auto
    moreover have "map_of t parent = map_of (assignments d) parent" if "map_of (assignments d) parent = Some p"
      using insert_row_rows(1,3) [OF t] that by (metis option.distinct(1))
    ultimately show ?thesis by (auto simp: fid continues_def a_def new_assignment_def)
  qed
  then show "continues d' parent f fid"
    and "map_of (assignments d) fid = None \<Longrightarrow> map_of (assignments d) parent = Some p \<Longrightarrow>
      \<exists>b. map_of (assignments d') fid = Some b \<and> a_status b = ''queued'' \<and> a_expects_review b = a_expects_review p
        \<and> a_review_role b = a_review_role p" by blast+
qed

text \<open>The successful half of a decision with a follow-up, statement by statement.\<close>

lemma decide_followup_steps:
  assumes "review_with_followup i ex dc ac src re ev (Some f) aid vid now d = Inr (Some created, d')"
  obtains a to d1 fid d2 d3 n where "map_of (assignments d) i = Some a" "a_status a = ex" "decision_status dc = Some to"
    "d1 = d\<lparr>assignments := upd_row i (\<lambda>a. a\<lparr>a_status := to, a_review_decision := Some dc, a_reviewed_by := Some ac,
                    a_reviewed_at := Some now, a_review_reason := re, a_updated_at := now\<rparr>) (assignments d)\<rparr>"
    "assignments_ok (assignments d1)" "create_followup i f aid now d1 = Inr (fid, d2)" "created = Some fid"
    "update_assignment i (\<lambda>_. True) (\<lambda>a. a\<lparr>a_followup := Some fid, a_updated_at := now\<rparr>) d2 = Inr (d3, n)"
    "assignments d' = assignments d3"
proof -
  let ?f = "\<lambda>to a. a\<lparr>a_status := to, a_review_decision := Some dc, a_reviewed_by := Some ac,
                    a_reviewed_at := Some now, a_review_reason := re, a_updated_at := now\<rparr>"
  obtain to where to: "decision_status dc = Some to" using assms by (auto simp: review_with_followup_def split: option.splits)
  obtain d1 n where u: "update_assignment i (\<lambda>a. a_status a = ex) (?f to) d = Inr (d1, n)"
    using assms to by (auto simp: review_with_followup_def elim!: bind_res_InrE)
  have n: "n \<noteq> 0" using assms to u by (auto simp: review_with_followup_def lift_db_def [of "Inr _"] split: if_splits)
  obtain fid d2 d3 m d4 where rest: "create_followup i f aid now d1 = Inr (fid, d2)" "created = Some fid"
      "update_assignment i (\<lambda>_. True) (\<lambda>a. a\<lparr>a_followup := Some fid, a_updated_at := now\<rparr>) d2 = Inr (d3, m)"
      "insert_review vid d4 d3 = Inr d'"
    using assms to u n by (auto simp: review_with_followup_def lift_db_def [of "Inr _"] elim!: bind_res_InrE)
  show thesis
    using u
  proof (cases rule: update_assignment_cases)
    case (hit a)
    then show thesis using that [OF hit(2) _ to _ _ rest(1,2,3) insert_review_rows [OF rest(4)]] by simp
  qed (use n in simp)
qed

lemma decide_none:
  assumes "review_with_followup i ex dc ac src re ev fu aid vid now d = Inr (None, e)"
  shows "e = d"
proof (cases "decision_status dc")
  case None
  then show ?thesis using assms by (simp add: review_with_followup_def)
next
  case (Some to)
  then show ?thesis
    using assms unfolding review_with_followup_def
    by (auto split: if_splits elim!: bind_res_InrE)
qed

text \<open>
  C16. A follow-up decision is all or nothing. If it answers that it decided, the assignment was
  still in the status the decider saw, it now carries the decision and points at its
  continuation, and that continuation exists, carries the given request id, text and bot and
  points back; a continuation created by the decision is queued and inherits whether it must be
  reviewed and by whom. If it answers anything else, nothing was written.
\<close>

theorem followup_all_or_nothing:
  assumes ok: "assignments_ok (assignments d)"
    and "r = review_with_followup i ex dc ac src re ev (Some f) aid vid now d" "d' = kept r d"
  shows "d' = d \<and> (\<forall>x e. r = Inr (x, e) \<longrightarrow> x = None) \<or>
     (\<exists>a b fid. r = Inr (Some (Some fid), d') \<and> map_of (assignments d) i = Some a \<and> a_status a = ex
       \<and> map_of (assignments d') i = Some b \<and> Some (a_status b) = decision_status dc \<and> a_followup b = Some fid
       \<and> continues d' i f fid
       \<and> (map_of (assignments d) fid = None \<longrightarrow>
            (\<exists>c. map_of (assignments d') fid = Some c \<and> a_status c = ''queued'' \<and> a_expects_review c = a_expects_review a
               \<and> a_review_role c = a_review_role a)))"
proof (cases "\<exists>created e. r = Inr (Some created, e)")
  case False
  then show ?thesis
    using assms(2,3) decide_none by (cases r) fastforce+
next
  case True
  then obtain created where r: "r = Inr (Some created, d')" using assms(3) by auto
  obtain a to d1 fid d2 d3 n where s: "map_of (assignments d) i = Some a" "a_status a = ex" "decision_status dc = Some to"
    "d1 = d\<lparr>assignments := upd_row i (\<lambda>a. a\<lparr>a_status := to, a_review_decision := Some dc, a_reviewed_by := Some ac,
                    a_reviewed_at := Some now, a_review_reason := re, a_updated_at := now\<rparr>) (assignments d)\<rparr>"
    "assignments_ok (assignments d1)" "create_followup i f aid now d1 = Inr (fid, d2)" "created = Some fid"
    "update_assignment i (\<lambda>_. True) (\<lambda>a. a\<lparr>a_followup := Some fid, a_updated_at := now\<rparr>) d2 = Inr (d3, n)"
    "assignments d' = assignments d3"
    using decide_followup_steps [OF assms(2) [symmetric, unfolded r]] by blast
  let ?a = "a\<lparr>a_status := to, a_review_decision := Some dc, a_reviewed_by := Some ac,
                    a_reviewed_at := Some now, a_review_reason := re, a_updated_at := now\<rparr>"
  have row1: "map_of (assignments d1) i = Some ?a" using s(1,4) by simp
  obtain b2 where row2: "map_of (assignments d2) i = Some b2" "a_status b2 = to"
    using create_followup_still [OF s(6)] row1 unfolding asg_move_def by fastforce
  have hit: "map_of (assignments d') i = Some (b2\<lparr>a_followup := Some fid, a_updated_at := now\<rparr>)"
    "\<And>j. j \<noteq> i \<Longrightarrow> map_of (assignments d') j = map_of (assignments d2) j"
    using s(8) row2(1) by (cases rule: update_assignment_cases; simp add: s(9))+
  have "asg_still d2 d3" by (rule update_assignment_still [OF s(8)]) (simp_all add: same_work_def)
  then have cont: "continues d' i f fid"
    using continues_still [OF create_followup_continues(1) [OF s(5,6)]] s(9) by (simp add: continues_def)
  have new: "\<exists>c. map_of (assignments d') fid = Some c \<and> a_status c = ''queued'' \<and> a_expects_review c = a_expects_review a
       \<and> a_review_role c = a_review_role a" if "map_of (assignments d) fid = None"
  proof -
    have "fid \<noteq> i" using that s(1) by auto
    moreover have "map_of (assignments d1) fid = None" using that s(4) by simp
    ultimately show ?thesis using create_followup_continues(2) [OF s(5,6) _ row1] hit(2) [of fid] by auto
  qed
  let ?b = "b2\<lparr>a_followup := Some fid, a_updated_at := now\<rparr>"
  have "r = Inr (Some (Some fid), d')" using r s(7) by simp
  moreover have "Some (a_status ?b) = decision_status dc" "a_followup ?b = Some fid" using s(3) row2(2) by simp_all
  ultimately show ?thesis
    using s(1,2) hit(1) cont new by (intro disjI2 exI [of _ a] exI [of _ ?b] exI [of _ fid]) blast
qed

theorem followup_all_or_nothing_witness:
  "(let f = \<lparr>f_target = ''B'', f_crid = ''c9'', f_text = ''again'', f_ownership = [], f_request = None\<rparr>;
        r = review_with_followup ''A1'' ''delivered'' ''followup'' ''patrol'' ''api'' None None (Some f) ''A9'' ''V1'' 30 office;
        late = review_with_followup ''A1'' ''delivered'' ''followup'' ''user'' ''api'' None None (Some f) ''A8'' ''V2'' 31 (kept r office) in
     asg_status_of (kept r office) ''A1'' = Some ''superseded'' \<and> continues (kept r office) ''A1'' f ''A9''
     \<and> kept late (kept r office) = kept r office)"
proof -
  let ?f = "\<lparr>f_target = ''B'', f_crid = ''c9'', f_text = ''again'', f_ownership = [], f_request = None\<rparr>"
  let ?r = "review_with_followup ''A1'' ''delivered'' ''followup'' ''patrol'' ''api'' None None (Some ?f) ''A9'' ''V1'' 30 office"
  let ?d = "kept ?r office"
  let ?late = "review_with_followup ''A1'' ''delivered'' ''followup'' ''user'' ''api'' None None (Some ?f) ''A8'' ''V2'' 31 ?d"
  have st: "asg_status_of ?d ''A1'' = Some ''superseded''" "asg_status_of office ''A1'' = Some ''delivered''" by code_simp+
  have fid: "fst (projr ?r) = Some (Some ''A9'')" by code_simp
  have "?d \<noteq> office" using st by auto
  then obtain fid where "?r = Inr (Some (Some fid), ?d)" "continues ?d ''A1'' ?f fid"
    using followup_all_or_nothing [OF office_ok refl refl] by blast
  moreover have "fid = ''A9''" using fid calculation(1) by (metis fst_conv option.inject sum.sel(2))
  moreover have "assignments_ok (assignments ?d)"
    using asg_fold_ok [OF office_ok, of "[Decide ''A1'' ''delivered'' ''followup'' ''patrol'' ''api'' None None (Some ?f) ''A9'' ''V1'' 30]"] by simp
  moreover have "kept ?late ?d = ?d"
  proof -
    have none: "\<not> (\<exists>a. map_of (assignments ?d) ''A1'' = Some a \<and> a_status a = ''delivered'')"
      using st(1) unfolding asg_status_of_def by auto
    show ?thesis using followup_all_or_nothing [OF calculation(4) refl refl] none by blast
  qed
  ultimately show ?thesis using st(1) by (simp only: Let_def simp_thms)
qed

end
