(* ===== verification/Inbox_Roles.thy ===== *)
theory Inbox_Roles
  imports Assignment_Store
begin

text \<open>
  The two supervisor roles and the inbox they share
  (\<open>crates/am-supervisor/src/supervisor/roles.rs\<close>, and the inbox half of \<open>store.rs\<close>): which role
  an event goes to and whether it wakes it, which events are due, who may deliver and who may
  close an event, and the merging of events nobody needs to read. No statement here can violate
  a constraint, so none fails.
\<close>

datatype role = Patrol | Responder

fun role_str :: "role \<Rightarrow> string" where
  "role_str Patrol = ''patrol''"
| "role_str Responder = ''responder''"

definition role_parse :: "string \<Rightarrow> role option" where
  "role_parse s = (if trim s = ''patrol'' then Some Patrol else if trim s = ''responder'' then Some Responder else None)"

section \<open>The routing table\<close>

record route_to =
  rt_role :: role
  rt_wake :: bool

definition ROLE_UNAVAILABLE_KIND :: string where
  "ROLE_UNAVAILABLE_KIND = ''role_unavailable''"

definition str_at :: "string list \<Rightarrow> json \<Rightarrow> string option" where
  "str_at ks p = Option.bind (pointer ks p) as_str"

definition bool_at :: "string \<Rightarrow> json \<Rightarrow> bool option" where
  "bool_at k p = Option.bind (json_get k p) as_bool"

definition to_role :: "json \<Rightarrow> role \<Rightarrow> role" where
  "to_role p dflt = (case Option.bind (str_at [''to_role''] p) role_parse of None \<Rightarrow> dflt | Some r \<Rightarrow> r)"

definition wake_or :: "json \<Rightarrow> bool \<Rightarrow> bool" where
  "wake_or p dflt = (case bool_at ''wake'' p of None \<Rightarrow> dflt | Some w \<Rightarrow> w)"

definition known_route :: "string \<Rightarrow> json \<Rightarrow> string option \<Rightarrow> route_to option" where
  "known_route kind p review_role =
     (let reviewer = (case Option.bind review_role role_parse of None \<Rightarrow> Responder | Some r \<Rightarrow> r);
          r = (\<lambda>role wake. Some \<lparr>rt_role = role, rt_wake = wake\<rparr>);
          incident = (kind = ''incident_opened'' \<or> kind = ''incident_resolved'')
      in if kind = ''bot_request'' then r (to_role p Responder) (wake_or p True)
         else if kind = ''assignment_completed'' \<or> kind = ''assignment_failed'' then r reviewer (bool_at ''needs_review'' p \<noteq> Some False)
         else if kind = ''judge_report_evidence'' then r reviewer False
         else if kind = ''assignment_undeliverable'' then r reviewer True
         else if List.member [''assignment_noticed'', ''assignment_queued'', ''assignment_quota_blocked'', ''assignment_quota_resumed''] kind
              then r reviewer False
         else if kind = ''approval_requested'' then r (to_role p Responder) True
         else if List.member [''mission_created'', ''mission_question'', ''mission_answered'', ''mission_resumed'',
                    ''mission_identity_switch'', ''mission_paused'', ''mission_cancelled'', ''mission_next''] kind
              then r Responder True
         else if kind = ''watchdog_gave_up'' then r Responder True
         else if kind = ''inbox_gave_up'' then r (to_role p Patrol) True
         else if incident \<and> str_at [''incident'', ''kind''] p = Some ''notify_exhausted'' then r Responder (kind = ''incident_opened'')
         else if incident \<and> str_at [''incident'', ''kind''] p = Some ROLE_UNAVAILABLE_KIND
              then r (if Option.bind (str_at [''incident'', ''resource''] p) role_parse = Some Patrol then Responder else Patrol)
                     (kind = ''incident_opened'')
         else if List.member [''incident_opened'', ''responder_watchdog_gave_up'', ''responder_bot_missing'', ''bot_restart_failed'',
                    ''intent_failed'', ''supervisor_restart_retry'', ''agm_cli_stale'', ''bot_shim_stale'', ''pane_unowned'',
                    ''pane_orphaned'', ''judge_stuck_screen'', ''judge_same_work'', ''child_retire_refused'', ''persona_changed'',
                    ''bot_lost''] kind
              then r Patrol True
         else if kind = ''ops_alert'' then r (to_role p Patrol) True
         else if kind = ''deploy_waiting'' then r Patrol (wake_or p True)
         else if kind = ''release_triage_notice'' then r Patrol (wake_or p True)
         else if kind = ''incident_resolved'' then r Patrol False
         else if kind = ''health_changed''
              then r Patrol ((case str_at [''manager_health'', ''status''] p of None \<Rightarrow> ''unknown'' | Some s \<Rightarrow> s) \<noteq> ''healthy''
                             \<or> (case str_at [''responder_health'', ''status''] p of None \<Rightarrow> ''healthy'' | Some s \<Rightarrow> s) \<noteq> ''healthy'')
         else None)"

definition route :: "string \<Rightarrow> json \<Rightarrow> string option \<Rightarrow> route_to" where
  "route kind p review_role =
     (case known_route kind p review_role of None \<Rightarrow> \<lparr>rt_role = Patrol, rt_wake = True\<rparr> | Some r \<Rightarrow> r)"

section \<open>Classification\<close>

definition REPEAT_WAKE_BACKOFF_SECS :: int where
  "REPEAT_WAKE_BACKOFF_SECS = 12 * 3600"

definition repeat_backoff_kind :: "string \<Rightarrow> bool" where
  "repeat_backoff_kind kind = (kind = ''ops_alert'')"

definition update_event :: "ident \<Rightarrow> (inbox_event \<Rightarrow> bool) \<Rightarrow> (inbox_event \<Rightarrow> inbox_event) \<Rightarrow> db \<Rightarrow> db \<times> nat" where
  "update_event i w f d =
     (case map_of (inbox d) i of
        None \<Rightarrow> (d, 0)
      | Some e \<Rightarrow> if w e then (d\<lparr>inbox := upd_row i f (inbox d)\<rparr>, 1) else (d, 0))"

text \<open>
  A text member of the payload, the empty text when it is missing or null. A member of another
  type equals no text (\<open>json_extract\<close> answers a number for it, or the text of an array or object,
  which no writer puts there).
\<close>

definition field_is :: "json \<Rightarrow> string \<Rightarrow> string \<Rightarrow> bool" where
  "field_is p k s = (case json_get k p of None \<Rightarrow> s = [] | Some JNull \<Rightarrow> s = [] | Some (JStr t) \<Rightarrow> s = t | Some _ \<Rightarrow> False)"

definition field_text :: "json \<Rightarrow> string \<Rightarrow> string" where
  "field_text p k = (case str_at [k] p of None \<Rightarrow> [] | Some s \<Rightarrow> s)"

definition or_empty :: "string option \<Rightarrow> string" where
  "or_empty s = (case s of None \<Rightarrow> [] | Some t \<Rightarrow> t)"

definition repeats_recent_wake :: "ident \<Rightarrow> inbox_event \<Rightarrow> db \<Rightarrow> bool" where
  "repeats_recent_wake i ev d =
     list_ex (\<lambda>(j, e). i_kind e = i_kind ev \<and> j \<noteq> i \<and> i_wake e = Some True
        \<and> or_empty (i_bot e) = or_empty (i_bot ev)
        \<and> field_is (i_payload e) ''source'' (field_text (i_payload ev) ''source'')
        \<and> field_is (i_payload e) ''reason'' (field_text (i_payload ev) ''reason'')
        \<and> field_is (i_payload e) ''subject'' (field_text (i_payload ev) ''subject'')
        \<and> i_created_at ev - 1000 * REPEAT_WAKE_BACKOFF_SECS \<le> i_created_at e \<and> i_created_at e \<le> i_created_at ev) (inbox d)"

definition by_age :: "inbox_event table \<Rightarrow> inbox_event table" where
  "by_age t = sort_key (\<lambda>e. i_created_at (snd e)) t"

definition classify_one :: "ident \<times> inbox_event \<Rightarrow> db \<Rightarrow> db" where
  "classify_one x d =
     (let (i, ev) = x;
          review_role = Option.bind (Option.bind (i_assignment ev) (map_of (assignments d))) a_review_role;
          rt = route (i_kind ev) (i_payload ev) review_role;
          wake = (if rt_wake rt \<and> repeat_backoff_kind (i_kind ev) \<and> repeats_recent_wake i ev d then False else rt_wake rt)
      in fst (update_event i (\<lambda>e. i_role e = None) (\<lambda>e. e\<lparr>i_role := Some (role_str (rt_role rt)), i_wake := Some wake\<rparr>) d))"

definition classify_inbox :: "db \<Rightarrow> db" where
  "classify_inbox d = fold classify_one (by_age (filter (\<lambda>(_, e). i_role e = None) (inbox d))) d"

section \<open>Who an event belongs to\<close>

definition owner :: "inbox_event \<Rightarrow> string option" where
  "owner e = (case i_claimed_by e of Some c \<Rightarrow> Some c | None \<Rightarrow> i_role e)"

definition DEFAULT_OWNER :: string where
  "DEFAULT_OWNER = ''patrol''"

definition owner_or_default :: "inbox_event \<Rightarrow> string" where
  "owner_or_default e = (case owner e of None \<Rightarrow> DEFAULT_OWNER | Some r \<Rightarrow> r)"

definition owned_and_capped :: "role \<Rightarrow> bool \<Rightarrow> int \<Rightarrow> inbox_event \<Rightarrow> bool" where
  "owned_and_capped r configured max_attempts e =
     (case r of
        Responder \<Rightarrow> owner e = Some ''responder''
      | Patrol \<Rightarrow>
          if configured then owner e = Some ''patrol'' \<and> i_attempts e < max_attempts
          else (owner e = Some ''patrol'' \<or> owner e = Some ''responder'')
               \<and> (owner e = Some ''responder'' \<or> i_attempts e < max_attempts))"

definition due_for :: "role \<Rightarrow> bool \<Rightarrow> time \<Rightarrow> int \<Rightarrow> db \<Rightarrow> inbox_event table" where
  "due_for r configured now max_attempts d =
     by_age (filter (\<lambda>(_, e). i_state e = ''pending'' \<and> owned_and_capped r configured max_attempts e
        \<and> (case i_next_at e of None \<Rightarrow> True | Some t \<Rightarrow> t \<le> now)) (inbox d))"

definition list_for :: "role option \<Rightarrow> bool \<Rightarrow> nat \<Rightarrow> db \<Rightarrow> inbox_event table" where
  "list_for r everything limit d =
     (let mine = filter (\<lambda>(_, e). (everything \<or> i_state e \<noteq> ''handled'')
                   \<and> (case r of None \<Rightarrow> True | Some x \<Rightarrow> owner e = Some (role_str x))) (inbox d)
      in take limit (if everything then rev (by_age mine) else by_age mine))"

section \<open>Delivering, acknowledging, merging\<close>

fun inbox_mark_delivered :: "ident list \<Rightarrow> role \<Rightarrow> ident \<Rightarrow> string \<Rightarrow> time \<Rightarrow> db \<Rightarrow> nat \<times> db" where
  "inbox_mark_delivered [] r turn_id delivery now d = (0, d)"
| "inbox_mark_delivered (i # ids) r turn_id delivery now d =
     (let (d1, n) = update_event i
            (\<lambda>e. i_state e \<noteq> ''handled'' \<and> (i_claimed_by e = None \<or> i_claimed_by e = Some (role_str r)))
            (\<lambda>e. e\<lparr>i_state := ''delivered'', i_claimed_by := Some (role_str r), i_notify_turn := Some turn_id,
                   i_notify_delivery := Some delivery, i_delivered_at := Some now, i_attempts := i_attempts e + 1,
                   i_next_at := None, i_error := None, i_updated_at := now\<rparr>) d;
          (m, d2) = inbox_mark_delivered ids r turn_id delivery now d1
      in (n + m, d2))"

datatype ack_outcome = Acked | AlreadyHandled | NotFound | ClaimedByOther string

definition may_ack :: "role \<Rightarrow> bool \<Rightarrow> inbox_event \<Rightarrow> bool" where
  "may_ack actor configured e =
     (if actor = Patrol \<and> \<not> configured then owner e = Some ''patrol'' \<or> owner e = Some ''responder''
      else owner e = Some (role_str actor))"

definition ack :: "ident \<Rightarrow> role \<Rightarrow> bool \<Rightarrow> time \<Rightarrow> db \<Rightarrow> ack_outcome \<times> db" where
  "ack i actor configured now d =
     (let (d1, n) = update_event i (\<lambda>e. i_state e \<noteq> ''handled'' \<and> may_ack actor configured e)
            (\<lambda>e. e\<lparr>i_state := ''handled'', i_acked_by := Some (role_str actor), i_updated_at := now\<rparr>) d
      in if 0 < n then (Acked, d1)
         else (case map_of (inbox d1) i of
                 None \<Rightarrow> (NotFound, d1)
               | Some e \<Rightarrow> if i_state e = ''handled'' then (AlreadyHandled, d1) else (ClaimedByOther (owner_or_default e), d1)))"

fun defer_notify :: "ident list \<Rightarrow> time \<Rightarrow> string \<Rightarrow> time \<Rightarrow> db \<Rightarrow> db" where
  "defer_notify [] next_at why now d = d"
| "defer_notify (i # ids) next_at why now d =
     defer_notify ids next_at why now
       (fst (update_event i (\<lambda>e. i_state e \<noteq> ''handled'')
          (\<lambda>e. e\<lparr>i_attempts := i_attempts e + 1, i_next_at := Some next_at, i_error := Some why, i_updated_at := now\<rparr>) d))"

definition requeue_inbox :: "ident \<Rightarrow> string \<Rightarrow> time \<Rightarrow> db \<Rightarrow> bool \<times> db" where
  "requeue_inbox i why now d =
     (let (d1, n) = update_event i (\<lambda>e. i_state e = ''delivered'')
            (\<lambda>e. e\<lparr>i_state := ''pending'', i_error := Some why, i_next_at := None, i_updated_at := now\<rparr>) d
      in (0 < n, d1))"

definition give_up_inbox_and_notify ::
  "ident \<Rightarrow> string \<Rightarrow> string \<Rightarrow> ident option \<Rightarrow> ident option \<Rightarrow> json \<Rightarrow> ident \<Rightarrow> time \<Rightarrow> db \<Rightarrow> bool \<times> db" where
  "give_up_inbox_and_notify i why notice_key assignment_id bot_id payload eid now d =
     (let (d1, n) = update_event i (\<lambda>e. i_state e = ''delivered'')
            (\<lambda>e. e\<lparr>i_state := ''gave_up'', i_error := Some why, i_next_at := None, i_updated_at := now\<rparr>) d
      in if n = 0 then (False, d)
         else (True, snd (push_inbox_tx eid notice_key ''inbox_gave_up'' assignment_id bot_id None payload now d1)))"

definition unsent :: "inbox_event \<Rightarrow> bool" where
  "unsent e \<longleftrightarrow> i_notify_turn e = None \<and> i_delivered_at e = None"

definition merge_into :: "ident \<Rightarrow> time \<Rightarrow> ident \<Rightarrow> db \<Rightarrow> db" where
  "merge_into keep now i d =
     fst (update_event i (\<lambda>e. i_state e = ''pending'')
       (\<lambda>e. e\<lparr>i_state := ''handled'', i_acked_by := Some ''daemon'', i_merged_into := Some keep, i_updated_at := now\<rparr>) d)"

definition health_rows :: "db \<Rightarrow> inbox_event table" where
  "health_rows d = rev (by_age (filter (\<lambda>(_, e). i_state e = ''pending'' \<and> i_kind e = ''health_changed'' \<and> unsent e) (inbox d)))"

definition coalesce_health :: "time \<Rightarrow> db \<Rightarrow> db" where
  "coalesce_health now d =
     (case health_rows d of [] \<Rightarrow> d | (keep, _) # older \<Rightarrow> fold (merge_into keep now) (map fst older) d)"

definition flaps :: "db \<Rightarrow> (ident \<times> ident) list" where
  "flaps d = concat (map (\<lambda>(i, x).
       map (\<lambda>(j, _). (i, j)) (filter (\<lambda>(_, y). i_key y = take (length (i_key x) - 6) (i_key x) @ ''resolved''
                                          \<and> i_state y = ''pending'') (inbox d)))
     (filter (\<lambda>(_, x). i_kind x = ''incident_opened'' \<and> i_state x = ''pending'' \<and> unsent x) (inbox d)))"

definition coalesce_patrol :: "time \<Rightarrow> db \<Rightarrow> db" where
  "coalesce_patrol now d =
     (let d1 = coalesce_health now d
      in fold (\<lambda>(opened, resolved) d. merge_into resolved now resolved (merge_into resolved now opened d)) (flaps d1) d1)"

end
