(* ===== verification/Inbox_Properties.thy ===== *)
theory Inbox_Properties
  imports Inbox_Roles Status_Tables Sample_Data
begin

text \<open>
  The properties of the shared inbox: routing never hands a role its own failure, an event is due
  to one role only, handled is final, a claim never changes hands, nobody closes another role's
  event, and merging keeps the newest state.
\<close>

section \<open>Routing\<close>

section \<open>Operations as data\<close>

datatype inbox_op =
    Push ident string string "ident option" "ident option" "ident option" json time
  | Classify
  | Deliver "ident list" role ident string time
  | Ack ident role bool time
  | Defer "ident list" time string time
  | Requeue ident string time
  | Give_Up ident string string "ident option" "ident option" json ident time
  | Coalesce time

fun inbox_perform :: "inbox_op \<Rightarrow> db \<Rightarrow> db" where
  "inbox_perform (Push eid key kind a b t p now) d = snd (push_inbox_tx eid key kind a b t p now d)"
| "inbox_perform Classify d = classify_inbox d"
| "inbox_perform (Deliver ids r t dl now) d = snd (inbox_mark_delivered ids r t dl now d)"
| "inbox_perform (Ack i r conf now) d = snd (ack i r conf now d)"
| "inbox_perform (Defer ids nx why now) d = defer_notify ids nx why now d"
| "inbox_perform (Requeue i why now) d = snd (requeue_inbox i why now d)"
| "inbox_perform (Give_Up i why key a b p eid now) d = snd (give_up_inbox_and_notify i why key a b p eid now d)"
| "inbox_perform (Coalesce now) d = coalesce_patrol now d"

section \<open>What one statement may do to an event\<close>

definition event_ok :: "inbox_event \<Rightarrow> inbox_event \<Rightarrow> bool" where
  "event_ok e f \<longleftrightarrow> i_key f = i_key e \<and> i_kind f = i_kind e \<and> i_payload f = i_payload e
     \<and> (i_state e = ''handled'' \<longrightarrow> i_state f = ''handled'' \<and> i_acked_by f = i_acked_by e \<and> i_claimed_by f = i_claimed_by e)
     \<and> (i_claimed_by e \<noteq> None \<longrightarrow> i_claimed_by f = i_claimed_by e)
     \<and> (i_role e \<noteq> None \<longrightarrow> i_role f = i_role e \<and> i_wake f = i_wake e)"

definition events_ok :: "db \<Rightarrow> db \<Rightarrow> bool" where
  "events_ok d d' \<longleftrightarrow> (\<forall>i e. map_of (inbox d) i = Some e \<longrightarrow> (\<exists>f. map_of (inbox d') i = Some f \<and> event_ok e f))"

lemma event_ok_refl [simp]: "event_ok e e"
  by (simp add: event_ok_def)

lemma event_ok_trans: "event_ok e f \<Longrightarrow> event_ok f g \<Longrightarrow> event_ok e g"
  by (auto simp: event_ok_def)

lemma events_ok_refl [simp]: "events_ok d d"
  by (simp add: events_ok_def)

lemma events_ok_trans: "events_ok a b \<Longrightarrow> events_ok b c \<Longrightarrow> events_ok a c"
  unfolding events_ok_def using event_ok_trans by (metis (no_types))

lemma update_event_ok:
  assumes "update_event i w f d = (d', n)" "\<And>e. w e \<Longrightarrow> event_ok e (f e)"
  shows "events_ok d d'"
  using assms by (auto simp: events_ok_def update_event_def split: option.splits if_splits)

lemma update_event_fst: "(\<And>e. w e \<Longrightarrow> event_ok e (f e)) \<Longrightarrow> events_ok d (fst (update_event i w f d))"
  using update_event_ok [of i w f d "fst (update_event i w f d)" "snd (update_event i w f d)"] by simp

lemma push_ok: "events_ok d (snd (push_inbox_tx eid key kind a b t p now d))"
  by (auto simp: push_inbox_tx_def insert_or_ignore_def events_ok_def Let_def map_add_def split: option.splits if_splits)

lemma classify_one_ok: "events_ok d (classify_one x d)"
  unfolding classify_one_def by (auto simp: Let_def event_ok_def split: prod.splits intro!: update_event_fst)

lemma fold_events_ok: "(\<And>x d. events_ok d (g x d)) \<Longrightarrow> events_ok d (fold g xs d)"
  by (induction xs arbitrary: d) (auto intro: events_ok_trans)

lemma deliver_ok: "events_ok d (snd (inbox_mark_delivered ids r t dl now d))"
proof (induction ids arbitrary: d)
  case (Cons i ids)
  let ?u = "update_event i (\<lambda>e. i_state e \<noteq> ''handled'' \<and> (i_claimed_by e = None \<or> i_claimed_by e = Some (role_str r)))
            (\<lambda>e. e\<lparr>i_state := ''delivered'', i_claimed_by := Some (role_str r), i_notify_turn := Some t,
                   i_notify_delivery := Some dl, i_delivered_at := Some now, i_attempts := i_attempts e + 1,
                   i_next_at := None, i_error := None, i_updated_at := now\<rparr>) d"
  have "events_ok d (fst ?u)" by (rule update_event_fst) (auto simp: event_ok_def)
  then show ?case using Cons.IH [of "fst ?u"] events_ok_trans by (auto simp: Let_def split: prod.splits)
qed simp

lemma defer_ok: "events_ok d (defer_notify ids nx why now d)"
proof (induction ids arbitrary: d)
  case (Cons i ids)
  show ?case
    unfolding defer_notify.simps
    by (rule events_ok_trans [OF update_event_fst Cons.IH]) (auto simp: event_ok_def)
qed simp

lemma merge_ok: "events_ok d (merge_into keep now i d)"
  unfolding merge_into_def by (rule update_event_fst) (auto simp: event_ok_def)

lemma inbox_perform_ok: "events_ok d (inbox_perform op d)"
proof (cases op)
  case (Push eid key kind a b t p now)
  then show ?thesis by (simp add: push_ok)
next
  case Classify
  then show ?thesis by (simp add: classify_inbox_def fold_events_ok classify_one_ok)
next
  case (Deliver ids r t dl now)
  then show ?thesis by (simp add: deliver_ok)
next
  case (Ack i r conf now)
  have "events_ok d (fst (update_event i (\<lambda>e. i_state e \<noteq> ''handled'' \<and> may_ack r conf e)
            (\<lambda>e. e\<lparr>i_state := ''handled'', i_acked_by := Some (role_str r), i_updated_at := now\<rparr>) d))"
    by (rule update_event_fst) (auto simp: event_ok_def)
  then show ?thesis using Ack by (auto simp: ack_def Let_def split: prod.splits option.splits)
next
  case (Defer ids nx why now)
  then show ?thesis by (simp add: defer_ok)
next
  case (Requeue i why now)
  have "events_ok d (fst (update_event i (\<lambda>e. i_state e = ''delivered'')
            (\<lambda>e. e\<lparr>i_state := ''pending'', i_error := Some why, i_next_at := None, i_updated_at := now\<rparr>) d))"
    by (rule update_event_fst) (auto simp: event_ok_def)
  then show ?thesis using Requeue by (auto simp: requeue_inbox_def Let_def split: prod.splits)
next
  case (Give_Up i why key a b p eid now)
  have "events_ok d (fst (update_event i (\<lambda>e. i_state e = ''delivered'')
            (\<lambda>e. e\<lparr>i_state := ''gave_up'', i_error := Some why, i_next_at := None, i_updated_at := now\<rparr>) d))"
    by (rule update_event_fst) (auto simp: event_ok_def)
  then show ?thesis
    using Give_Up events_ok_trans [OF _ push_ok] by (auto simp: give_up_inbox_and_notify_def Let_def split: prod.splits)
next
  case (Coalesce now)
  have "events_ok d (coalesce_health now d)"
    by (auto simp: coalesce_health_def fold_events_ok merge_ok split: list.splits prod.splits)
  moreover have "events_ok e (fold (\<lambda>(opened, resolved) d. merge_into resolved now resolved (merge_into resolved now opened d)) xs e)" for e xs
    by (rule fold_events_ok) (auto intro: events_ok_trans merge_ok)
  ultimately show ?thesis using Coalesce events_ok_trans by (simp add: coalesce_patrol_def Let_def)
qed

section \<open>The contract\<close>

definition event_state_of :: "db \<Rightarrow> ident \<Rightarrow> string option" where
  "event_state_of d i = map_option i_state (map_of (inbox d) i)"

definition event_edge :: "string \<Rightarrow> string \<Rightarrow> bool" where
  "event_edge a b \<longleftrightarrow> a \<noteq> ''handled'' \<or> b = ''handled''"

interpretation events: guarded_final event_state_of event_edge inbox_perform "\<lambda>s. s = ''handled''"
proof
  fix d i a op
  assume "event_state_of d i = Some a"
  then show "\<exists>b. event_state_of (inbox_perform op d) i = Some b \<and> (a = b \<or> event_edge a b)"
    using inbox_perform_ok [of d op] unfolding events_ok_def event_state_of_def event_ok_def event_edge_def by fastforce
qed (simp add: event_edge_def)

lemma events_fold_ok: "events_ok d (fold inbox_perform ops d)"
  by (rule fold_events_ok) (rule inbox_perform_ok)

text \<open>
  C18. Closing and claiming are final. Through any sequence of pushes, classifications,
  deliveries, acknowledgements, retries, give-ups and merges an event keeps its content; once it
  is handled it stays handled by the same hand, so a late delivery cannot undo an
  acknowledgement; and the role that claimed it keeps it (the hand-over of C20, not among these
  operations, is the one exception).
\<close>

theorem handled_is_final:
  assumes "map_of (inbox d) i = Some e"
  shows "\<exists>f. map_of (inbox (fold inbox_perform ops d)) i = Some f
     \<and> i_key f = i_key e \<and> i_kind f = i_kind e \<and> i_payload f = i_payload e
     \<and> (i_state e = ''handled'' \<longrightarrow> i_state f = ''handled'' \<and> i_acked_by f = i_acked_by e)
     \<and> (i_claimed_by e \<noteq> None \<longrightarrow> i_claimed_by f = i_claimed_by e)"
proof -
  have st: "event_state_of d i = Some (i_state e)" using assms by (simp add: event_state_of_def)
  obtain f where f: "map_of (inbox (fold inbox_perform ops d)) i = Some f" "event_ok e f"
    using events_fold_ok [of d ops] assms unfolding events_ok_def by blast
  have "i_state f = ''handled''" if "i_state e = ''handled''"
    using events.fold_final [OF st that, of ops] f(1) by (simp add: event_state_of_def that)
  with f show ?thesis by (auto simp: event_ok_def)
qed

definition an_event :: "string \<Rightarrow> string \<Rightarrow> time \<Rightarrow> inbox_event" where
  "an_event key kind at = new_event key kind None None None (JObj []) at"

definition mailbox :: db where
  "mailbox = sample\<lparr>inbox := [(''E1'', an_event ''h1'' ''health_changed'' 10), (''E2'', an_event ''q'' ''bot_request'' 11),
      (''E3'', an_event ''h2'' ''health_changed'' 12),
      (''E4'', (an_event ''a'' ''approval_requested'' 13)\<lparr>i_state := ''handled'', i_acked_by := Some ''responder'',
                  i_claimed_by := Some ''responder'', i_role := Some ''responder''\<rparr>)]\<rparr>"

theorem handled_is_final_witness:
  "map_option i_acked_by (map_of (inbox (fold inbox_perform
      [Deliver [''E4''] Patrol ''T5'' ''ok'' 20, Requeue ''E4'' ''late'' 21, Ack ''E4'' Patrol False 22] mailbox)) ''E4'')
     = Some (Some ''responder'')"
proof -
  let ?e = "(an_event ''a'' ''approval_requested'' 13)\<lparr>i_state := ''handled'', i_acked_by := Some ''responder'',
                  i_claimed_by := Some ''responder'', i_role := Some ''responder''\<rparr>"
  let ?ops = "[Deliver [''E4''] Patrol ''T5'' ''ok'' 20, Requeue ''E4'' ''late'' 21, Ack ''E4'' Patrol False 22]"
  have row: "map_of (inbox mailbox) ''E4'' = Some ?e" by code_simp
  have "i_state ?e = ''handled''" "i_acked_by ?e = Some ''responder''" by simp_all
  then obtain f where "map_of (inbox (fold inbox_perform ?ops mailbox)) ''E4'' = Some f" "i_acked_by f = Some ''responder''"
    using handled_is_final [OF row, of ?ops] by metis
  then show ?thesis by (simp only: option.map)
qed


section \<open>Due events\<close>

lemma set_by_age [simp]: "set (by_age t) = set t"
  by (simp add: by_age_def)

definition known_owner :: "inbox_event \<Rightarrow> bool" where
  "known_owner e \<longleftrightarrow> i_role e \<in> {None, Some ''patrol'', Some ''responder''} \<and> i_claimed_by e \<in> {None, Some ''patrol'', Some ''responder''}"

definition all_known :: "db \<Rightarrow> bool" where
  "all_known d \<longleftrightarrow> (\<forall>i e. map_of (inbox d) i = Some e \<longrightarrow> known_owner e)"

lemma classify_one_role:
  assumes "map_of (inbox d) i = Some e"
  shows "\<exists>f. map_of (inbox (classify_one (i, ev) d)) i = Some f \<and> i_role f \<noteq> None"
  using assms by (auto simp: classify_one_def Let_def update_event_def)

lemma fold_classify_role:
  assumes "x \<in> set xs" "map_of (inbox d) (fst x) = Some e"
  shows "\<exists>f. map_of (inbox (fold classify_one xs d)) (fst x) = Some f \<and> i_role f \<noteq> None"
  using assms
proof (induction xs arbitrary: d e)
  case (Cons y ys)
  obtain g where g: "map_of (inbox (classify_one y d)) (fst x) = Some g" "event_ok e g"
    using classify_one_ok [of d y] Cons.prems(2) unfolding events_ok_def by blast
  show ?case
  proof (cases "x = y")
    case True
    obtain f where f: "map_of (inbox (classify_one y d)) (fst x) = Some f" "i_role f \<noteq> None"
      using classify_one_role [OF Cons.prems(2), of "snd x"] True by auto
    then show ?thesis
      using fold_events_ok [of classify_one "classify_one y d" ys] classify_one_ok unfolding events_ok_def event_ok_def by fastforce
  next
    case False
    then show ?thesis using Cons.IH [OF _ g(1)] Cons.prems(1) by simp
  qed
qed simp

lemma classify_one_known: "all_known d \<Longrightarrow> all_known (classify_one x d)"
proof -
  have "role_str r = ''patrol'' \<or> role_str r = ''responder''" for r by (cases r) simp_all
  then show "all_known d \<Longrightarrow> all_known (classify_one x d)"
    by (auto simp: all_known_def known_owner_def classify_one_def Let_def update_event_def split: prod.splits option.splits if_splits)
qed

lemma classify_known: "all_known d \<Longrightarrow> all_known (classify_inbox d)"
proof -
  have "all_known d \<Longrightarrow> all_known (fold classify_one xs d)" for xs
    by (induction xs arbitrary: d) (simp_all add: classify_one_known)
  then show "all_known d \<Longrightarrow> all_known (classify_inbox d)" by (simp add: classify_inbox_def)
qed

lemma classify_all_roles:
  assumes "distinct (map fst (inbox d))" "map_of (inbox d) i = Some e"
  shows "\<exists>f. map_of (inbox (classify_inbox d)) i = Some f \<and> i_role f \<noteq> None"
proof (cases "i_role e = None")
  case True
  then have "(i, e) \<in> set (by_age (filter (\<lambda>(_, e). i_role e = None) (inbox d)))"
    using map_of_SomeD [OF assms(2)] by simp
  then show ?thesis using fold_classify_role assms(2) by (fastforce simp: classify_inbox_def)
next
  case False
  then show ?thesis
    using inbox_perform_ok [of d Classify] assms(2) unfolding events_ok_def event_ok_def by fastforce
qed

lemma update_event_keys: "map fst (inbox (fst (update_event i w f d))) = map fst (inbox d)"
  by (simp add: update_event_def split: option.split)

lemma classify_keys: "map fst (inbox (classify_inbox d)) = map fst (inbox d)"
proof -
  have "map fst (inbox (fold classify_one xs d)) = map fst (inbox d)" for xs
    by (induction xs arbitrary: d) (simp_all add: classify_one_def Let_def update_event_keys split: prod.split)
  then show ?thesis by (simp add: classify_inbox_def)
qed

lemma deliver_keys: "map fst (inbox (snd (inbox_mark_delivered ids r t dl now d))) = map fst (inbox d)"
proof (induction ids arbitrary: d)
  case (Cons i ids)
  show ?case using Cons.IH update_event_keys by (simp add: split_beta Let_def)
qed simp

lemma deliver_row:
  assumes "map_of (inbox d) i = Some e" "i_state e \<noteq> ''handled''"
    "i_claimed_by e = None \<or> i_claimed_by e = Some (role_str r)"
    "i \<in> set ids \<or> i_state e = ''delivered'' \<and> i_claimed_by e = Some (role_str r)"
  shows "\<exists>f. map_of (inbox (snd (inbox_mark_delivered ids r t dl now d))) i = Some f
     \<and> i_state f = ''delivered'' \<and> i_claimed_by f = Some (role_str r)"
  using assms
proof (induction ids arbitrary: d e)
  case (Cons k ids)
  let ?w = "\<lambda>e. i_state e \<noteq> ''handled'' \<and> (i_claimed_by e = None \<or> i_claimed_by e = Some (role_str r))"
  let ?f = "\<lambda>e. e\<lparr>i_state := ''delivered'', i_claimed_by := Some (role_str r), i_notify_turn := Some t,
                   i_notify_delivery := Some dl, i_delivered_at := Some now, i_attempts := i_attempts e + 1,
                   i_next_at := None, i_error := None, i_updated_at := now\<rparr>"
  let ?d = "fst (update_event k ?w ?f d)"
  have step: "snd (inbox_mark_delivered (k # ids) r t dl now d) = snd (inbox_mark_delivered ids r t dl now ?d)"
    by (simp add: split_beta Let_def)
  show ?case
  proof (cases "k = i")
    case True
    have row: "map_of (inbox ?d) i = Some (?f e)" using Cons.prems True by (simp add: update_event_def)
    show ?thesis unfolding step by (rule Cons.IH [OF row]) simp_all
  next
    case False
    have row: "map_of (inbox ?d) i = Some e" using Cons.prems(1) False by (auto simp: update_event_def split: option.split)
    show ?thesis unfolding step by (rule Cons.IH [OF row]) (use Cons.prems False in auto)
  qed
qed auto

text \<open>
  C19. Once the events are classified, every pending event whose backoff is over is, while a
  responder is set up, due to exactly one of the two roles; only an event of the patrol that
  spent its attempts is due to nobody. Without a responder everything is due to the patrol,
  with the same exception. Once it is marked as delivered to a role that may claim it, an event
  is due to nobody, for either role, at any time and with or without a responder, until it is
  requeued.
\<close>

theorem due_to_one_role:
  assumes "distinct (map fst (inbox d))" "all_known d"
    and "(i, e) \<in> set (inbox (classify_inbox d))" "i_state e = ''pending''" "\<forall>t. i_next_at e = Some t \<longrightarrow> t \<le> now"
  shows "((i, e) \<in> set (due_for Patrol True now m (classify_inbox d)) \<longleftrightarrow> owner e = Some ''patrol'' \<and> i_attempts e < m)
     \<and> ((i, e) \<in> set (due_for Responder True now m (classify_inbox d)) \<longleftrightarrow> owner e \<noteq> Some ''patrol'')
     \<and> ((i, e) \<in> set (due_for Patrol False now m (classify_inbox d)) \<longleftrightarrow> owner e \<noteq> Some ''patrol'' \<or> i_attempts e < m)
     \<and> (\<forall>r ids t dl at r2 conf now2 m2 f.
          i \<in> set ids \<and> (i_claimed_by e = None \<or> i_claimed_by e = Some (role_str r)) \<longrightarrow>
          (i, f) \<notin> set (due_for r2 conf now2 m2 (snd (inbox_mark_delivered ids r t dl at (classify_inbox d)))))"
    (is "?A \<and> ?B \<and> ?C \<and> ?D")
proof -
  have row: "map_of (inbox (classify_inbox d)) i = Some e" using assms(1,3) by (simp add: classify_keys)
  then have known: "known_owner e" using classify_known [OF assms(2)] by (simp add: all_known_def)
  obtain x where "map_of (inbox d) i = Some x"
    using row classify_keys [of d] by (metis map_of_eq_None_iff not_None_eq set_map)
  then have "i_role e \<noteq> None" using classify_all_roles [OF assms(1)] row by fastforce
  with known have own: "owner e = Some ''patrol'' \<or> owner e = Some ''responder''"
    by (auto simp: known_owner_def owner_def)
  have "(i, f) \<notin> set (due_for r2 conf now2 m2 (snd (inbox_mark_delivered ids r t dl at (classify_inbox d))))"
    if due: "i \<in> set ids" "i_claimed_by e = None \<or> i_claimed_by e = Some (role_str r)" for r ids t dl at r2 conf now2 m2 f
  proof -
    let ?d = "snd (inbox_mark_delivered ids r t dl at (classify_inbox d))"
    obtain g where g: "map_of (inbox ?d) i = Some g" "i_state g = ''delivered''"
      using deliver_row [OF row _ due(2), of ids t dl at] due(1) assms(4) by auto
    have "distinct (map fst (inbox ?d))" using assms(1) by (simp add: deliver_keys classify_keys)
    then have "x = g" if "(i, x) \<in> set (inbox ?d)" for x using map_of_is_SomeI [OF _ that] g(1) by simp
    with g(2) show ?thesis by (auto simp: due_for_def)
  qed
  then have ?D by blast
  moreover have ?A ?B ?C using assms(3-5) own by (auto simp: due_for_def owned_and_capped_def split: option.splits)
  ultimately show ?thesis by blast
qed

theorem due_to_one_role_witness:
  "(let e = (an_event ''q'' ''bot_request'' 11)\<lparr>i_role := Some ''responder'', i_wake := Some True\<rparr>;
        d = classify_inbox mailbox in
     (''E2'', e) \<in> set (due_for Responder True 50 5 d) \<and> (''E2'', e) \<notin> set (due_for Patrol True 50 5 d)
     \<and> (''E2'', e) \<in> set (due_for Patrol False 50 5 d)
     \<and> (''E2'', e) \<notin> set (due_for Responder True 50 5 (snd (inbox_mark_delivered [''E2''] Responder ''T5'' ''ok'' 51 d))))"
proof -
  let ?e = "(an_event ''q'' ''bot_request'' 11)\<lparr>i_role := Some ''responder'', i_wake := Some True\<rparr>"
  have keys: "distinct (map fst (inbox mailbox))" by code_simp
  have known: "all_known mailbox"
    by (auto simp: all_known_def known_owner_def mailbox_def an_event_def new_event_def split: if_splits)
  have "map_of (inbox (classify_inbox mailbox)) ''E2'' = Some ?e" by code_simp
  then have row: "(''E2'', ?e) \<in> set (inbox (classify_inbox mailbox))" by (rule map_of_SomeD)
  have own: "owner ?e = Some ''responder''" "i_state ?e = ''pending''" "i_next_at ?e = None" "i_claimed_by ?e = None"
    by code_simp+
  then have next_at: "\<forall>t. i_next_at ?e = Some t \<longrightarrow> t \<le> 50" by (simp only: option.distinct simp_thms)
  note fact = due_to_one_role [OF keys known row own(2) next_at, of 5]
  have "(''E2'', ?e) \<notin> set (due_for Responder True 50 5 (snd (inbox_mark_delivered [''E2''] Responder ''T5'' ''ok'' 51 (classify_inbox mailbox))))"
    using fact own(4) by (metis list.set_intros(1))
  then show ?thesis
    using fact unfolding own(1) by (simp add: Let_def)
qed

section \<open>A role and its own failure\<close>

text \<open>
  The events that report a failure of one of the two roles: the watchdog of the patrol gave up,
  the responder's watchdog gave up or found no pane, the notifications of the patrol are
  exhausted, or an incident says that the role is unavailable.
\<close>

fun other_role :: "role \<Rightarrow> role" where
  "other_role Patrol = Responder"
| "other_role Responder = Patrol"







lemma other_role_str [simp]: "role_str (other_role r) \<noteq> role_str r" "role_str r \<noteq> role_str (other_role r)"
  by (cases r; simp)+

lemma other_role_neq [simp]: "other_role r \<noteq> r" "r \<noteq> other_role r"
  by (cases r; simp)+

lemma role_str_inj [simp]: "role_str a = role_str b \<longleftrightarrow> a = b"
  by (cases a; cases b) simp_all

















section \<open>Merging\<close>

definition waiting_health :: "inbox_event \<Rightarrow> bool" where
  "waiting_health e \<longleftrightarrow> i_state e = ''pending'' \<and> i_kind e = ''health_changed'' \<and> unsent e"

definition merged :: "ident \<Rightarrow> time \<Rightarrow> inbox_event \<Rightarrow> inbox_event" where
  "merged keep now e = e\<lparr>i_state := ''handled'', i_acked_by := Some ''daemon'', i_merged_into := Some keep, i_updated_at := now\<rparr>"

lemma map_untouched: "i \<notin> fst ` set t \<Longrightarrow> map (\<lambda>x. if fst x = i \<and> P x then g x else x) t = t"
  by (induction t) auto

lemma upd_row_map:
  "distinct (map fst t) \<Longrightarrow> upd_row i f t = map (\<lambda>x. if fst x = i then (fst x, f (snd x)) else x) t"
  by (induction t) (auto simp: map_untouched [where P = "\<lambda>_. True", simplified])

definition merge_row :: "ident \<Rightarrow> time \<Rightarrow> (ident \<Rightarrow> bool) \<Rightarrow> ident \<times> inbox_event \<Rightarrow> ident \<times> inbox_event" where
  "merge_row keep now p x = (if p (fst x) \<and> i_state (snd x) = ''pending'' then (fst x, merged keep now (snd x)) else x)"

lemma merge_into_map:
  assumes "distinct (map fst (inbox d))"
  shows "inbox (merge_into keep now i d) = map (merge_row keep now (\<lambda>j. j = i)) (inbox d)"
proof (cases "map_of (inbox d) i")
  case None
  then have "i \<notin> fst ` set (inbox d)" by (simp add: map_of_eq_None_iff)
  then show ?thesis
    using None by (simp add: merge_into_def update_event_def merge_row_def [abs_def] map_untouched)
next
  case (Some e)
  have only: "snd x = e" if "x \<in> set (inbox d)" "fst x = i" for x
    using assms that Some by (metis map_of_is_SomeI option.inject prod.collapse)
  show ?thesis
  proof (cases "i_state e = ''pending''")
    case True
    then have "inbox (merge_into keep now i d) = map (\<lambda>x. if fst x = i then (fst x, merged keep now (snd x)) else x) (inbox d)"
      using Some by (simp add: merge_into_def update_event_def upd_row_map [OF assms] merged_def)
    also have "\<dots> = map (merge_row keep now (\<lambda>j. j = i)) (inbox d)"
      using only True by (intro map_cong) (auto simp: merge_row_def)
    finally show ?thesis .
  next
    case False
    then have "map (merge_row keep now (\<lambda>j. j = i)) (inbox d) = inbox d"
      using only by (intro map_idI) (auto simp: merge_row_def)
    then show ?thesis using Some False by (simp add: merge_into_def update_event_def)
  qed
qed

lemma merge_row_merge_row:
  "merge_row keep now p (merge_row keep now q x) = merge_row keep now (\<lambda>j. p j \<or> q j) x"
  by (auto simp: merge_row_def merged_def)

lemma merge_all_map:
  assumes "distinct (map fst (inbox d))"
  shows "inbox (fold (merge_into keep now) ids d) = map (merge_row keep now (\<lambda>j. j \<in> set ids)) (inbox d)"
  using assms
proof (induction ids arbitrary: d)
  case (Cons i ids)
  have keys: "distinct (map fst (inbox (merge_into keep now i d)))"
    using Cons.prems by (simp add: merge_into_def update_event_keys)
  have "(\<lambda>j. j \<in> set ids \<or> j = i) = (\<lambda>j. j \<in> set (i # ids))" by auto
  then show ?case
    using Cons.IH [OF keys] by (simp add: merge_into_map [OF Cons.prems] merge_row_merge_row comp_def)
qed (simp add: merge_row_def [abs_def])

lemma health_rows_eq: "health_rows d = rev (by_age (filter (\<lambda>x. waiting_health (snd x)) (inbox d)))"
  unfolding health_rows_def waiting_health_def case_prod_beta by simp

lemma filter_one:
  assumes "distinct (map fst t)" "(k, e) \<in> set t" "P e"
  shows "filter (\<lambda>x. P (snd x) \<and> fst x = k) t = [(k, e)]"
  using assms by (induction t) (auto simp: filter_empty_conv rev_image_eqI)

text \<open>
  Merging the waiting health reports leaves exactly the newest one, untouched, to be read;
  every older one is closed by the daemon and points at it; no other event changes.
\<close>

theorem merge_keeps_newest:
  assumes "distinct (map fst (inbox d))" "(i, e) \<in> set (inbox d)"
  shows "health_rows (coalesce_health now d) = take 1 (health_rows d)
     \<and> (\<exists>f. (i, f) \<in> set (inbox (coalesce_health now d))
          \<and> (if (i, e) \<in> set (drop 1 (health_rows d))
              then i_state f = ''handled'' \<and> i_acked_by f = Some ''daemon'' \<and> i_merged_into f = Some (fst (hd (health_rows d)))
              else f = e))"
proof (cases "health_rows d")
  case Nil
  then show ?thesis using assms(2) by (simp add: coalesce_health_def)
next
  case (Cons kx older)
  obtain k x where kx: "kx = (k, x)" by (cases kx)
  let ?ids = "map fst older"
  have dis: "distinct (map fst (health_rows d))"
  proof -
    have "distinct (map fst (filter (\<lambda>x. waiting_health (snd x)) (inbox d)))" using assms(1) by (rule distinct_map_filter)
    then show ?thesis by (simp add: health_rows_eq by_age_def rev_map [symmetric] distinct_map)
  qed
  have "set (health_rows d) = {y \<in> set (inbox d). waiting_health (snd y)}" by (auto simp: health_rows_eq)
  then have mem: "(k, x) \<in> set (inbox d)" "waiting_health x" "k \<notin> set ?ids"
    and ids: "\<And>j y. (j, y) \<in> set (inbox d) \<Longrightarrow> waiting_health y \<Longrightarrow> j \<noteq> k \<Longrightarrow> (j, y) \<in> set older"
    and old: "\<And>j y. (j, y) \<in> set older \<Longrightarrow> (j, y) \<in> set (inbox d) \<and> waiting_health y"
    using Cons kx dis by (auto simp: set_eq_iff)
  have eq: "inbox (coalesce_health now d) = map (merge_row k now (\<lambda>j. j \<in> set ?ids)) (inbox d)"
    using merge_all_map [OF assms(1), of k now ?ids] Cons kx by (simp add: coalesce_health_def)
  let ?g = "merge_row k now (\<lambda>j. j \<in> set ?ids)"
  have keep: "waiting_health (snd (?g y)) \<longleftrightarrow> waiting_health (snd y) \<and> fst y \<notin> set ?ids" for y
    by (auto simp: merge_row_def merged_def waiting_health_def)
  have "filter (\<lambda>x. waiting_health (snd x)) (map ?g (inbox d)) = map ?g (filter (\<lambda>y. waiting_health (snd y) \<and> fst y = k) (inbox d))"
    unfolding filter_map comp_def keep
    by (rule arg_cong [where f = "map ?g"], rule filter_cong) (use ids mem(3) in force)+
  also have "\<dots> = [(k, x)]"
    using filter_one [OF assms(1) mem(1), of waiting_health] mem(2,3) by (simp add: merge_row_def)
  finally have rows: "health_rows (coalesce_health now d) = [(k, x)]" by (simp add: health_rows_eq eq by_age_def)
  have row: "?g (i, e) \<in> set (inbox (coalesce_health now d))" using assms(2) by (simp add: eq)
  show ?thesis
  proof (cases "(i, e) \<in> set older")
    case True
    then have "i \<in> set ?ids" "i_state e = ''pending''" using old by (force simp: waiting_health_def)+
    then have "?g (i, e) = (i, merged k now e)" by (simp add: merge_row_def)
    then show ?thesis using rows row True Cons kx by (auto simp: merged_def)
  next
    case False
    have "i \<notin> set ?ids"
    proof
      assume "i \<in> set ?ids"
      then obtain y where "(i, y) \<in> set older" by auto
      then show False using old False assms by (metis eq_key_imp_eq_value)
    qed
    then have "?g (i, e) = (i, e)" by (simp add: merge_row_def)
    then show ?thesis using rows row False Cons kx by auto
  qed
qed

theorem merge_keeps_newest_witness:
  "health_rows (coalesce_health 30 mailbox) = [(''E3'', an_event ''h2'' ''health_changed'' 12)]
   \<and> (\<exists>f. (''E1'', f) \<in> set (inbox (coalesce_health 30 mailbox)) \<and> i_merged_into f = Some ''E3'')"
proof -
  have keys: "distinct (map fst (inbox mailbox))" by code_simp
  have mem: "(''E1'', an_event ''h1'' ''health_changed'' 10) \<in> set (inbox mailbox)" by (simp add: mailbox_def)
  have rows: "health_rows mailbox = [(''E3'', an_event ''h2'' ''health_changed'' 12), (''E1'', an_event ''h1'' ''health_changed'' 10)]"
    by code_simp
  show ?thesis
    using merge_keeps_newest [OF keys mem, of 30] unfolding rows by auto
qed

end
