(* ===== verification/Kill_Regex.thy ===== *)
theory Kill_Regex
  imports Rust_Text
begin

text \<open>
  The small regular expressions of the kill guard (\<open>crates/am-base/src/kill_guard.rs\<close>, second half):
  the syntax that can be judged, its parser, the compilation to a Thompson automaton and its
  simulation. A text is its bytes; outside ASCII the syntax check already refuses a pattern. The
  automaton is the source's: one instruction list that is patched in place, one generation mark
  per instruction, a work stack.
\<close>

datatype atom =
    Lit char
  | AnyChar
  | CharClass "(char \<times> char) list" bool
  | Group "item list list"
  | Bol
  | Eol
and item = Item (item_atom: atom) (item_min: nat) (item_max: "nat option")

text \<open>\<open>item_max = None\<close> is \<open>usize::MAX\<close>.\<close>

section \<open>The syntax that can be judged\<close>

definition MAX_PATTERN_CHARS :: nat where
  "MAX_PATTERN_CHARS = 256"

definition MAX_GROUP_DEPTH :: nat where
  "MAX_GROUP_DEPTH = 8"

datatype prev = SeqStart | PAtom | PQuant | PBol | PEol

definition META :: string where
  "META = ''.*+?|()[]^${}'' @ [CHR 0x5C]"

definition ascii_alnum :: "char \<Rightarrow> bool" where
  "ascii_alnum c \<longleftrightarrow> ascii_digit c \<or> ascii_upper c \<or> CHR ''a'' \<le> c \<and> c \<le> CHR ''z''"

fun class_range :: "string \<Rightarrow> bool" where
  "class_range (x # y # z # _) \<longleftrightarrow> y = CHR ''-'' \<and>
     (x = CHR ''0'' \<and> z = CHR ''9'' \<or> x = CHR ''a'' \<and> z = CHR ''z'' \<or> x = CHR ''A'' \<and> z = CHR ''Z'')"
| "class_range _ \<longleftrightarrow> False"

text \<open>Past the body of a character class: the number of its parts and what follows the \<open>]\<close>.\<close>

function skip_class :: "nat \<Rightarrow> string \<Rightarrow> (nat \<times> string) option" where
  "skip_class n cs =
     (case cs of
        [] \<Rightarrow> None
      | x # xs \<Rightarrow>
          if x = CHR '']'' then Some (n, xs)
          else if class_range cs then skip_class (n + 1) (drop 3 cs)
          else if ascii_alnum x \<or> List.member '' _./:,@='' x then skip_class (n + 1) xs
          else None)"
  by pat_completeness auto
termination by (relation "measure (length \<circ> snd)") auto

declare skip_class.simps [simp del]

lemma skip_class_length: "skip_class n cs = Some (m, rest) \<Longrightarrow> length rest < length cs"
proof (induction n cs rule: skip_class.induct)
  case (1 n cs)
  note prem = "1.prems" [unfolded skip_class.simps [of n cs]]
  show ?case
  proof (cases cs)
    case Nil
    then show ?thesis using prem by simp
  next
    case (Cons x xs)
    have "length (drop 3 cs) < length cs" using Cons by simp
    then show ?thesis
      using prem "1.IH"(1) [OF Cons] "1.IH"(2) [OF Cons] Cons
      by (auto split: if_splits dest: less_trans simp: less_SucI)
  qed
qed

function subset_from :: "nat \<Rightarrow> prev \<Rightarrow> string \<Rightarrow> bool" where
  "subset_from depth prev cs =
     (case cs of
        [] \<Rightarrow> depth = 0 \<and> (prev = PAtom \<or> prev = PQuant \<or> prev = PEol)
      | ch # xs \<Rightarrow>
          if prev = PEol \<and> ch \<noteq> CHR ''|'' \<and> ch \<noteq> CHR '')'' then False
          else if ch = CHR 0x5C then
            (case xs of n # ys \<Rightarrow> if List.member META n then subset_from depth PAtom ys else False | [] \<Rightarrow> False)
          else if ch = CHR ''['' then
            (case skip_class 0 (case xs of x # ys \<Rightarrow> if x = CHR ''^'' then ys else xs | [] \<Rightarrow> xs) of
               None \<Rightarrow> False
             | Some (tokens, rest) \<Rightarrow> if tokens = 0 then False else subset_from depth PAtom rest)
          else if ch = CHR ''('' then
            (if depth + 1 > MAX_GROUP_DEPTH then False else subset_from (depth + 1) SeqStart xs)
          else if ch = CHR '')'' then
            (if depth = 0 \<or> \<not> (prev = PAtom \<or> prev = PQuant) then False else subset_from (depth - 1) PAtom xs)
          else if ch = CHR ''|'' then
            (if \<not> (prev = PAtom \<or> prev = PQuant \<or> prev = PEol) then False else subset_from depth SeqStart xs)
          else if ch = CHR ''*'' \<or> ch = CHR ''+'' \<or> ch = CHR ''?'' then
            (if prev \<noteq> PAtom then False else subset_from depth PQuant xs)
          else if ch = CHR ''^'' then
            (if depth \<noteq> 0 \<or> prev \<noteq> SeqStart then False else subset_from depth PBol xs)
          else if ch = CHR ''$'' then
            (if depth \<noteq> 0 \<or> \<not> (prev = PAtom \<or> prev = PQuant \<or> prev = PBol) then False else subset_from depth PEol xs)
          else if ch = CHR ''{'' \<or> ch = CHR ''}'' \<or> ch = CHR '']'' then False
          else if ch = CHR ''.'' then subset_from depth PAtom xs
          else if CHR '' '' \<le> ch \<and> ch \<le> CHR ''~'' then subset_from depth PAtom xs
          else False)"
  by pat_completeness auto
termination
  by (relation "measure (length \<circ> snd \<circ> snd)")
     (auto dest!: skip_class_length split: list.splits if_splits)

declare subset_from.simps [simp del]

definition in_common_subset :: "string \<Rightarrow> bool" where
  "in_common_subset pat =
     (if pat = [] \<or> length pat > MAX_PATTERN_CHARS then False else subset_from 0 SeqStart pat)"

section \<open>The parser\<close>

function class_ranges :: "(char \<times> char) list \<Rightarrow> string \<Rightarrow> ((char \<times> char) list \<times> string) option" where
  "class_ranges acc cs =
     (case cs of
        [] \<Rightarrow> None
      | x # xs \<Rightarrow>
          if x = CHR '']'' then Some (acc, xs)
          else (case xs of
                  d # y # ys \<Rightarrow> if d = CHR ''-'' \<and> y \<noteq> CHR '']'' then class_ranges (acc @ [(x, y)]) ys
                               else class_ranges (acc @ [(x, x)]) xs
                | _ \<Rightarrow> class_ranges (acc @ [(x, x)]) xs))"
  by pat_completeness auto
termination by (relation "measure (length \<circ> snd)") auto

declare class_ranges.simps [simp del]

lemma class_ranges_length: "class_ranges acc cs = Some (rs, rest) \<Longrightarrow> length rest < length cs"
proof (induction acc cs rule: class_ranges.induct)
  case (1 acc cs)
  note prem = "1.prems" [unfolded class_ranges.simps [of acc cs]]
  show ?case
  proof (cases cs)
    case Nil
    then show ?thesis using prem by simp
  next
    case (Cons x xs)
    show ?thesis
    proof (cases "x = CHR '']''")
      case True
      then show ?thesis using prem Cons by simp
    next
      case False
      consider "xs = []" | y where "xs = [y]" | d y ys where "xs = d # y # ys"
        by (metis list.exhaust)
      then show ?thesis
        using prem "1.IH" [OF Cons False] Cons False
        by cases (fastforce split: if_splits)+
    qed
  qed
qed

fun quantifier :: "string \<Rightarrow> nat \<times> nat option \<times> string" where
  "quantifier [] = (1, Some 1, [])"
| "quantifier (q # qs) =
     (if q = CHR ''*'' then (0, None, qs)
      else if q = CHR ''+'' then (1, None, qs)
      else if q = CHR ''?'' then (0, Some 1, qs)
      else (1, Some 1, q # qs))"

lemma quantifier_length: "quantifier cs = (a, b, rest) \<Longrightarrow> length rest \<le> length cs"
  by (cases cs) (auto split: if_splits)

text \<open>
  One step of the parser outside \<open>|\<close>, \<open>(\<close> and the closing \<open>)\<close>: the atom at the head of the text.
\<close>

definition parse_plain :: "char \<Rightarrow> string \<Rightarrow> (atom \<times> string) option" where
  "parse_plain ch xs =
     (if ch = CHR ''.'' then Some (AnyChar, xs)
      else if ch = CHR ''^'' then Some (Bol, xs)
      else if ch = CHR ''$'' then Some (Eol, xs)
      else if ch = CHR 0x5C then (case xs of [] \<Rightarrow> None | e # ys \<Rightarrow> Some (Lit e, ys))
      else if ch = CHR ''['' then
        (let neg = (case xs of x # _ \<Rightarrow> x = CHR ''^'' | [] \<Rightarrow> False)
         in map_option (\<lambda>(rs, rest). (CharClass rs neg, rest)) (class_ranges [] (if neg then tl xs else xs)))
      else if ch = CHR ''*'' \<or> ch = CHR ''+'' \<or> ch = CHR ''?'' then None
      else Some (Lit ch, xs))"

lemma parse_plain_length: "parse_plain ch xs = Some (a, rest) \<Longrightarrow> length rest \<le> length xs"
  by (auto simp: parse_plain_def Let_def split: if_splits list.splits dest!: class_ranges_length)

text \<open>\<open>parse_alt\<close>: \<open>alts\<close> are the finished alternatives, \<open>cur\<close> the one being read.\<close>

function (domintros) parse_alt :: "nat \<Rightarrow> item list list \<Rightarrow> item list \<Rightarrow> string \<Rightarrow> (item list list \<times> string) option" where
  "parse_alt nested alts cur [] = (if nested > 0 then None else Some (alts @ [cur], []))"
| "parse_alt nested alts cur (ch # xs) =
     (if ch = CHR ''|'' then parse_alt nested (alts @ [cur]) [] xs
      else if ch = CHR '')'' \<and> nested > 0 then Some (alts @ [cur], xs)
      else (case (if ch = CHR ''('' then map_option (\<lambda>(g, rest). (Group g, rest)) (parse_alt (nested + 1) [] [] xs)
                  else parse_plain ch xs) of
              None \<Rightarrow> None
            | Some (a, rest) \<Rightarrow>
                (case quantifier rest of (mn, mx, rest') \<Rightarrow> parse_alt nested alts (cur @ [Item a mn mx]) rest')))"
  by pat_completeness auto

lemma parse_alt_length_dom:
  "parse_alt_dom (nested, alts, cur, cs) \<Longrightarrow> parse_alt nested alts cur cs = Some (g, rest) \<Longrightarrow> length rest \<le> length cs"
proof (induction arbitrary: g rest rule: parse_alt.pinduct)
  case (1 nested alts cur)
  then show ?case by (simp add: parse_alt.psimps split: if_splits)
next
  case (2 nested alts cur ch xs)
  note prem = "2.prems" [unfolded parse_alt.psimps(2) [OF "2.hyps"]]
  show ?case
  proof (cases "ch = CHR ''|'' \<or> ch = CHR '')'' \<and> nested > 0")
    case True
    then show ?thesis using prem "2.IH"(1) by (auto split: if_splits)
  next
    case False
    then obtain a r where a: "(if ch = CHR ''('' then map_option (\<lambda>(g, rest). (Group g, rest)) (parse_alt (nested + 1) [] [] xs)
                  else parse_plain ch xs) = Some (a, r)"
      using prem by (auto split: option.splits if_splits)
    have r: "length r \<le> length xs"
      using a "2.IH"(2) False parse_plain_length by (auto split: if_splits)
    obtain mn mx r' where q: "quantifier r = (mn, mx, r')" by (cases "quantifier r") auto
    have "parse_alt nested alts (cur @ [Item a mn mx]) r' = Some (g, rest)"
      using prem False a q by (auto split: if_splits)
    then have "length rest \<le> length r'"
      using "2.IH"(3) [OF _ _ a _ q [symmetric]] False q by auto
    then show ?thesis using r quantifier_length [OF q] by simp
  qed
qed

termination parse_alt
proof (relation "measure (\<lambda>(_, _, _, cs). length cs)", goal_cases)
  case 1 show ?case by simp
next
  case 2 then show ?case by simp
next
  case 3 then show ?case by simp
next
  case (4 nested alts cur ch xs x2 x y xa ya xb yb)
  have "length y \<le> length xs"
  proof (cases "ch = CHR ''(''")
    case True
    then show ?thesis using 4(3,4) parse_alt_length_dom [OF 4(7) [OF True]] by (auto split: option.splits)
  next
    case False
    then show ?thesis using 4(3,4) by (auto dest: parse_plain_length)
  qed
  then show ?case using 4(5,6) quantifier_length [of y xa xb yb] by simp
qed

section \<open>The automaton\<close>

datatype inst =
    IAtom atom
  | Split nat nat
  | Jmp nat
  | IBol
  | IEol
  | Match

type_synonym prog = "inst list"

fun emit_atom :: "prog \<Rightarrow> atom \<Rightarrow> prog"
and emit_item :: "prog \<Rightarrow> item \<Rightarrow> prog"
and emit_items :: "prog \<Rightarrow> item list \<Rightarrow> prog"
and emit_alts :: "prog \<Rightarrow> item list list \<Rightarrow> prog"
and emit_loop :: "prog \<Rightarrow> nat list \<Rightarrow> item list list \<Rightarrow> prog \<times> nat list"
where
  "emit_atom prog (Group alts) = emit_alts prog alts"
| "emit_atom prog Bol = prog @ [IBol]"
| "emit_atom prog Eol = prog @ [IEol]"
| "emit_atom prog a = prog @ [IAtom a]"
| "emit_item prog (Item a mn mx) =
     (if mn = 0 \<and> mx = Some 1 then
        (let s = length prog; prog' = emit_atom (prog @ [Split (s + 1) 0]) a
         in prog'[s := Split (s + 1) (length prog')])
      else if mn = 0 \<and> mx = None then
        (let s = length prog; prog' = emit_atom (prog @ [Split (s + 1) 0]) a @ [Jmp s]
         in prog'[s := Split (s + 1) (length prog')])
      else if mn = 1 \<and> mx = None then
        (let s = length prog; prog' = emit_atom prog a
         in prog' @ [Split s (length prog' + 1)])
      else emit_atom prog a)"
| "emit_items prog [] = prog"
| "emit_items prog (it # its) = emit_items (emit_item prog it) its"
| "emit_alts prog alts =
     (case emit_loop prog [] alts of (prog', jmps) \<Rightarrow> fold (\<lambda>j p. p[j := Jmp (length prog')]) jmps prog')"
| "emit_loop prog jmps [] = (prog, jmps)"
| "emit_loop prog jmps (alt # alts) =
     (if alts \<noteq> [] then
        (let split = length prog; body = emit_items (prog @ [Split (split + 1) 0]) alt;
             prog' = body @ [Jmp 0]; nxt = length prog'
         in emit_loop (prog'[split := Split (split + 1) nxt]) (jmps @ [length body]) alts)
      else (emit_items prog alt, jmps))"

datatype regex_error = Outside_Subset

definition compile_pattern :: "string \<Rightarrow> regex_error + prog" where
  "compile_pattern pat =
     (if \<not> in_common_subset pat then Inl Outside_Subset
      else (case parse_alt 0 [] [] pat of
              None \<Rightarrow> Inl Outside_Subset
            | Some (alts, _) \<Rightarrow> Inr (emit_alts [] alts @ [Match])))"

definition atom_one :: "atom \<Rightarrow> char \<Rightarrow> bool \<Rightarrow> bool" where
  "atom_one a ch icase =
     (let f = (\<lambda>x. if icase then to_ascii_lowercase x else x)
      in case a of
           Lit l \<Rightarrow> f l = f ch
         | AnyChar \<Rightarrow> True
         | CharClass r neg \<Rightarrow> list_ex (\<lambda>(lo, hi). f lo \<le> f ch \<and> f ch \<le> f hi) r \<noteq> neg
         | _ \<Rightarrow> False)"

section \<open>The simulation\<close>

lemma unmarked_less:
  "pc < length mark \<Longrightarrow> mark ! pc \<noteq> Some gen \<Longrightarrow>
   length (filter (\<lambda>m. m \<noteq> Some gen) (mark[pc := Some gen])) < length (filter (\<lambda>m. m \<noteq> Some gen) mark)"
proof (induction mark arbitrary: pc)
  case Nil
  then show ?case by simp
next
  case (Cons m ms)
  then show ?case by (cases pc) (auto simp: le_imp_less_Suc)
qed

text \<open>
  \<open>mark\<close> holds per instruction the generation it was last added in (\<open>None\<close> is the initial
  \<open>usize::MAX\<close>). An index outside the program would panic in the source: the result is \<open>None\<close>;
  what is in a state set has been indexed already when it was added.
\<close>

function add_states :: "prog \<Rightarrow> nat \<Rightarrow> nat \<Rightarrow> nat \<Rightarrow> nat option list \<Rightarrow> nat list \<Rightarrow> nat list \<Rightarrow>
    (nat option list \<times> nat list) option" where
  "add_states prog gen pos len mark acc [] = Some (mark, acc)"
| "add_states prog gen pos len mark acc (pc # stack) =
     (if pc \<ge> length mark \<or> pc \<ge> length prog then None
      else if mark ! pc = Some gen then add_states prog gen pos len mark acc stack
      else
        (let mark' = mark[pc := Some gen]
         in case prog ! pc of
              Jmp t \<Rightarrow> add_states prog gen pos len mark' acc (t # stack)
            | Split a b \<Rightarrow> add_states prog gen pos len mark' acc (a # b # stack)
            | IBol \<Rightarrow> add_states prog gen pos len mark' acc (if pos = 0 then (pc + 1) # stack else stack)
            | IEol \<Rightarrow> add_states prog gen pos len mark' acc (if pos = len then (pc + 1) # stack else stack)
            | IAtom _ \<Rightarrow> add_states prog gen pos len mark' (acc @ [pc]) stack
            | Match \<Rightarrow> add_states prog gen pos len mark' (acc @ [pc]) stack))"
  by pat_completeness auto
termination
proof (relation "inv_image (less_than <*lex*> less_than)
    (\<lambda>(_, gen, _, _, mark, _, stack). (length (filter (\<lambda>m. m \<noteq> Some gen) mark), length stack))", goal_cases)
  case 1 show ?case by (simp add: wf_inv_image wf_lex_prod)
next
  case 2 then show ?case by simp
qed (auto intro!: unmarked_less)

definition add_state :: "prog \<Rightarrow> nat option list \<Rightarrow> nat \<Rightarrow> nat list \<Rightarrow> nat \<Rightarrow> nat \<Rightarrow> nat \<Rightarrow>
    (nat option list \<times> nat list) option" where
  "add_state prog mark gen acc pc pos len = add_states prog gen pos len mark acc [pc]"

text \<open>The inner loop over \<open>cur\<close>: every state that reads the character \<open>ch\<close> adds its successor.\<close>

fun advance :: "prog \<Rightarrow> bool \<Rightarrow> char \<Rightarrow> nat \<Rightarrow> nat \<Rightarrow> nat option list \<Rightarrow> nat list \<Rightarrow> nat list \<Rightarrow>
    (nat option list \<times> nat list) option" where
  "advance prog icase ch pos len mark nxt [] = Some (mark, nxt)"
| "advance prog icase ch pos len mark nxt (pc # pcs) =
     (case prog ! pc of
        IAtom a \<Rightarrow>
          if atom_one a ch icase then
            (case add_state prog mark (pos + 1) nxt (pc + 1) (pos + 1) len of
               None \<Rightarrow> None
             | Some (mark', nxt') \<Rightarrow> advance prog icase ch pos len mark' nxt' pcs)
          else advance prog icase ch pos len mark nxt pcs
      | _ \<Rightarrow> advance prog icase ch pos len mark nxt pcs)"

text \<open>The loop over the positions; \<open>rest\<close> is the text from \<open>pos\<close> on.\<close>

fun run_from :: "prog \<Rightarrow> bool \<Rightarrow> bool \<Rightarrow> nat \<Rightarrow> nat \<Rightarrow> string \<Rightarrow> nat option list \<Rightarrow> nat list \<Rightarrow> bool option" where
  "run_from prog icase exact len pos rest mark cur =
     (case (if pos > 0 \<and> \<not> exact then add_state prog mark pos cur 0 pos len else Some (mark, cur)) of
        None \<Rightarrow> None
      | Some (mark, cur) \<Rightarrow>
          if list_ex (\<lambda>pc. prog ! pc = Match) cur \<and> (\<not> exact \<or> pos = len) then Some True
          else (case rest of
                  [] \<Rightarrow> Some False
                | ch # rest' \<Rightarrow>
                    (case advance prog icase ch pos len mark [] cur of
                       None \<Rightarrow> None
                     | Some (mark', nxt) \<Rightarrow> run_from prog icase exact len (pos + 1) rest' mark' nxt)))"

definition is_match :: "prog \<Rightarrow> string \<Rightarrow> bool \<Rightarrow> bool \<Rightarrow> bool option" where
  "is_match prog txt icase exact =
     (case add_state prog (replicate (length prog) None) 0 [] 0 0 (length txt) of
        None \<Rightarrow> None
      | Some (mark, cur) \<Rightarrow> run_from prog icase exact (length txt) 0 txt mark cur)"

text \<open>\<open>regex_match_limited\<close>: the error of the compiler, or the answer (\<open>None\<close>: an index out of range).\<close>

definition regex_match_limited :: "string \<Rightarrow> string \<Rightarrow> bool \<Rightarrow> bool \<Rightarrow> regex_error + bool option" where
  "regex_match_limited pat txt icase exact =
     map_sum id (\<lambda>prog. is_match prog txt icase exact) (compile_pattern pat)"

end
