(* ===== verification/Kill_Shell.thy ===== *)
theory Kill_Shell
  imports Kill_Regex
begin

text \<open>
  The shell reader of the kill guard (\<open>crates/am-base/src/kill_guard.rs\<close>, the part that cuts a
  command line into simple commands). A function that walks \<open>chars[i..]\<close> takes the text from \<open>i\<close> on
  and returns what is left of it. All characters with a meaning are ASCII, so the bytes of a text
  are cut where its characters are.
\<close>

definition starts_with :: "string \<Rightarrow> string \<Rightarrow> bool" where
  "starts_with p s \<longleftrightarrow> take (length p) s = p"

section \<open>Substitutions\<close>

text \<open>\<open>backtick\<close>, from behind the opening one: the text between, and what follows the closing one.\<close>

fun backtick :: "string \<Rightarrow> (string \<times> string) option" where
  "backtick [] = None"
| "backtick (c # cs) =
     (if c = CHR 0x5C then
        (case cs of [] \<Rightarrow> None | d # ds \<Rightarrow> map_option (\<lambda>(t, r). (c # d # t, r)) (backtick ds))
      else if c = CHR ''`'' then Some ([], cs)
      else map_option (\<lambda>(t, r). (c # t, r)) (backtick cs))"

datatype paren_mode = M_Cmd | M_Sq | M_Dq

text \<open>One round of the loop of \<open>dollar_paren\<close>: the new stack, the characters used, the rest.\<close>

definition paren_step :: "paren_mode list \<Rightarrow> char \<Rightarrow> string \<Rightarrow> (paren_mode list \<times> string \<times> string) option" where
  "paren_step st c cs =
     (case st of
        [] \<Rightarrow> None
      | M_Sq # ms \<Rightarrow> if c = CHR 0x27 then Some (ms, [c], cs) else Some (st, [c], cs)
      | M_Dq # ms \<Rightarrow>
          if c = CHR 0x22 then Some (ms, [c], cs)
          else if c = CHR 0x5C then Some (st, c # take 1 cs, drop 1 cs)
          else if c = CHR ''$'' \<and> starts_with ''('' cs then Some (M_Cmd # st, c # take 1 cs, drop 1 cs)
          else Some (st, [c], cs)
      | M_Cmd # ms \<Rightarrow>
          if c = CHR 0x27 then Some (M_Sq # st, [c], cs)
          else if c = CHR 0x22 then Some (M_Dq # st, [c], cs)
          else if c = CHR 0x5C then Some (st, c # take 1 cs, drop 1 cs)
          else if c = CHR ''$'' \<and> starts_with ''('' cs then Some (M_Cmd # st, c # take 1 cs, drop 1 cs)
          else if c = CHR ''('' then Some (M_Cmd # st, [c], cs)
          else if c = CHR '')'' then Some (ms, [c], cs)
          else if c = CHR ''`'' then map_option (\<lambda>(t, r). (st, c # t @ ''`'', r)) (backtick cs)
          else Some (st, [c], cs))"

lemma backtick_length: "backtick cs = Some (t, r) \<Longrightarrow> length r < length cs"
  by (induction cs arbitrary: t r rule: backtick.induct) (fastforce split: if_splits list.splits)+

lemma paren_step_length: "paren_step st c cs = Some (st', used, rest) \<Longrightarrow> length rest \<le> length cs"
  by (auto simp: paren_step_def split: list.splits paren_mode.splits if_splits dest!: backtick_length)

text \<open>\<open>dollar_paren\<close>, from behind the \<open>$(\<close>; \<open>acc\<close> is what has been used so far.\<close>

function dollar_paren :: "paren_mode list \<Rightarrow> string \<Rightarrow> string \<Rightarrow> (string \<times> string) option" where
  "dollar_paren st acc [] = None"
| "dollar_paren st acc (c # cs) =
     (case paren_step st c cs of
        None \<Rightarrow> None
      | Some (st', used, rest) \<Rightarrow>
          if st' = [] then Some (butlast (acc @ used), rest) else dollar_paren st' (acc @ used) rest)"
  by pat_completeness auto
termination
  by (relation "measure (\<lambda>(_, _, cs). length cs)") (auto dest: paren_step_length)

lemma dollar_paren_length: "dollar_paren st acc cs = Some (t, r) \<Longrightarrow> length r < length cs"
proof (induction st acc cs rule: dollar_paren.induct)
  case (2 st acc c cs)
  then show ?case
    by (auto split: option.splits prod.splits if_splits dest!: paren_step_length) (metis less_SucI less_le_trans)
qed simp

definition sub_at :: "string \<Rightarrow> (string \<times> string) option" where
  "sub_at cs = dollar_paren [M_Cmd] [] cs"

lemma sub_at_length: "sub_at cs = Some (t, r) \<Longrightarrow> length r < length cs"
  unfolding sub_at_def by (rule dollar_paren_length)

function doc_subs :: "string \<Rightarrow> string list" where
  "doc_subs [] = []"
| "doc_subs (c # cs) =
     (if c = CHR 0x5C then doc_subs (drop 1 cs)
      else if c = CHR ''$'' \<and> starts_with ''('' cs then
        (case sub_at (drop 1 cs) of None \<Rightarrow> [] | Some (t, rest) \<Rightarrow> t # doc_subs rest)
      else if c = CHR ''`'' then
        (case backtick cs of None \<Rightarrow> [] | Some (t, rest) \<Rightarrow> t # doc_subs rest)
      else doc_subs cs)"
  by pat_completeness auto
termination
proof (relation "measure length", goal_cases)
  case 3
  then show ?case by (auto dest!: sub_at_length)
qed (auto dest: backtick_length)

section \<open>Here documents\<close>

record doc =
  d_body :: string
  d_expands :: bool

record simple_cmd =
  sc_words :: "string list"
  sc_docs :: "doc list"

record pending_doc =
  pd_delim :: string
  pd_strip :: bool
  pd_expands :: bool
  pd_owner :: nat

definition delim_stop :: "char \<Rightarrow> bool" where
  "delim_stop c \<longleftrightarrow> List.member ('' ;&|()<>'' @ [CHR 0x09, CHR 0x0A]) c"

text \<open>The loop of \<open>heredoc_delim\<close>: the word, whether a part of it was quoted, the rest.\<close>

function delim_word :: "string \<Rightarrow> bool \<Rightarrow> string \<Rightarrow> string \<times> bool \<times> string" where
  "delim_word d quoted [] = (d, quoted, [])"
| "delim_word d quoted (c # cs) =
     (if c = CHR 0x27 \<or> c = CHR 0x22 then
        delim_word (d @ takeWhile (\<lambda>x. x \<noteq> c) cs) True (drop 1 (dropWhile (\<lambda>x. x \<noteq> c) cs))
      else if c = CHR 0x5C then delim_word (d @ take 1 cs) True (drop 1 cs)
      else if delim_stop c then (d, quoted, c # cs)
      else delim_word (d @ [c]) quoted cs)"
  by pat_completeness auto
termination
  by (relation "measure (\<lambda>(_, _, cs). length cs)") (auto simp: less_Suc_eq_le intro: le_trans [OF diff_le_self length_dropWhile_le])

definition heredoc_delim :: "string \<Rightarrow> (string \<times> bool \<times> bool \<times> string) option" where
  "heredoc_delim cs =
     (let strip = starts_with ''-'' cs;
          (d, quoted, rest) = delim_word [] False (dropWhile (\<lambda>c. c = CHR '' '' \<or> c = CHR 0x09) (if strip then drop 1 cs else cs))
      in if d = [] then None else Some (d, strip, quoted, rest))"

lemma delim_word_length: "delim_word d q cs = (e, q', rest) \<Longrightarrow> length rest \<le> length cs"
proof (induction d q cs rule: delim_word.induct)
  case (2 d quoted c cs)
  have "length (drop 1 (dropWhile (\<lambda>x. x \<noteq> c) cs)) \<le> length cs"
    by (simp add: le_diff_conv) (metis le_SucI length_dropWhile_le)
  then show ?case using 2 by (auto split: if_splits)
qed simp

lemma heredoc_delim_length: "heredoc_delim cs = Some (d, s, q, rest) \<Longrightarrow> length rest \<le> length cs"
  by (auto simp: heredoc_delim_def Let_def split: prod.splits if_splits dest!: delim_word_length)
     (metis le_trans length_dropWhile_le length_drop diff_le_self)+

text \<open>One body of \<open>consume_docs\<close>: the lines up to the delimiter, or to the end of the text.\<close>

function doc_body :: "string \<Rightarrow> bool \<Rightarrow> string \<Rightarrow> string \<times> string" where
  "doc_body delim tabs cs =
     (if cs = [] then ([], [])
      else
        (let line = takeWhile (\<lambda>c. c \<noteq> CHR 0x0A) cs; rest = drop (length line + 1) cs;
             cmp = (if tabs then dropWhile (\<lambda>c. c = CHR 0x09) line else line)
         in if cmp = delim then ([], rest)
            else (case doc_body delim tabs rest of (body, rest') \<Rightarrow> (line @ [CHR 0x0A] @ body, rest'))))"
  by pat_completeness auto
termination by (relation "measure (\<lambda>(_, _, cs). length cs)") auto

declare doc_body.simps [simp del]

lemma doc_body_length: "doc_body delim tabs cs = (body, rest) \<Longrightarrow> length rest \<le> length cs"
proof (induction delim tabs cs arbitrary: body rest rule: doc_body.induct)
  case (1 delim tabs cs)
  show ?case
  proof (cases "cs = []")
    case False
    then show ?thesis
      using 1 by (subst (asm) (2) doc_body.simps) (fastforce simp: Let_def split: if_splits prod.splits)
  qed (use 1 in \<open>simp add: doc_body.simps\<close>)
qed

definition add_doc :: "nat \<Rightarrow> doc \<Rightarrow> simple_cmd list \<Rightarrow> simple_cmd list" where
  "add_doc k dc cmds = (if k < length cmds then cmds[k := (cmds ! k)\<lparr>sc_docs := sc_docs (cmds ! k) @ [dc]\<rparr>] else cmds)"

fun consume_docs :: "pending_doc list \<Rightarrow> simple_cmd list \<Rightarrow> string \<Rightarrow> simple_cmd list \<times> string" where
  "consume_docs [] cmds cs = (cmds, cs)"
| "consume_docs (p # ps) cmds cs =
     (case doc_body (pd_delim p) (pd_strip p) cs of
        (body, rest) \<Rightarrow> consume_docs ps (add_doc (pd_owner p) \<lparr>d_body = body, d_expands = pd_expands p\<rparr> cmds) rest)"

lemma consume_docs_length: "consume_docs ps cmds cs = (cmds', rest) \<Longrightarrow> length rest \<le> length cs"
  by (induction ps cmds cs rule: consume_docs.induct) (fastforce split: prod.splits dest: doc_body_length)+

section \<open>Redirections\<close>

definition HERE_STRING :: string where
  "HERE_STRING = CHR 0x02 # ''<<<''"

definition SUB_PLACEHOLDER :: string where
  "SUB_PLACEHOLDER = ''$(..)''"

fun strip_redirects :: "string list \<Rightarrow> string list \<times> doc list" where
  "strip_redirects [] = ([], [])"
| "strip_redirects (w # ws) =
     (if w = HERE_STRING then
        (case ws of
           [] \<Rightarrow> ([], [])
         | body # rest \<Rightarrow> (case strip_redirects rest of (out, docs) \<Rightarrow> (out, \<lparr>d_body = body, d_expands = False\<rparr> # docs)))
      else
        (let op = dropWhile ascii_digit w in
         if starts_with ''>'' op \<or> starts_with ''<'' op \<or> starts_with ''&>'' op then
           strip_redirects (if List.member [''>'', ''>>'', ''<'', ''&>'', ''&>>'', ''>|''] op then drop 1 ws else ws)
         else (case strip_redirects ws of (out, docs) \<Rightarrow> (w # out, docs))))"

section \<open>Cutting a command line\<close>

datatype parse_failure = Unbalanced_Paren | Unbalanced_Backtick | Unclosed_Quote

record scanner =
  z_raw :: "simple_cmd list"
  z_subs :: "string list"
  z_words :: "string list"
  z_cur :: string
  z_has :: bool
  z_pending :: "pending_doc list"
  z_line_cmds :: nat
  z_line_subs :: nat
  z_single :: bool
  z_double :: bool

record script =
  s_cmds :: "simple_cmd list"
  s_subs :: "string list"
  s_failed :: "parse_failure option"

definition scanner_start :: scanner where
  "scanner_start = \<lparr>z_raw = [], z_subs = [], z_words = [], z_cur = [], z_has = False, z_pending = [],
     z_line_cmds = 0, z_line_subs = 0, z_single = False, z_double = False\<rparr>"

definition flush_word :: "scanner \<Rightarrow> scanner" where
  "flush_word z = (if z_has z then z\<lparr>z_words := z_words z @ [z_cur z], z_cur := [], z_has := False\<rparr> else z)"

definition push_char :: "char \<Rightarrow> scanner \<Rightarrow> scanner" where
  "push_char c z = z\<lparr>z_cur := z_cur z @ [c], z_has := True\<rparr>"

definition push_cmd :: "scanner \<Rightarrow> scanner" where
  "push_cmd z = (if z_words z = [] then z
     else z\<lparr>z_raw := z_raw z @ [\<lparr>sc_words = z_words z, sc_docs = []\<rparr>], z_words := []\<rparr>)"

definition push_sub :: "string \<Rightarrow> scanner \<Rightarrow> scanner" where
  "push_sub t z = z\<lparr>z_subs := z_subs z @ [t], z_cur := z_cur z @ SUB_PLACEHOLDER, z_has := True\<rparr>"

text \<open>\<open><<\<close>: a here-string, a here-document, or else a plain \<open><\<close>.\<close>

definition here_step :: "scanner \<Rightarrow> string \<Rightarrow> scanner \<times> string" where
  "here_step z cs =
     (if starts_with ''<<'' cs then (z\<lparr>z_words := z_words z @ [HERE_STRING]\<rparr>, drop 2 cs)
      else (case heredoc_delim (drop 1 cs) of
              Some (delim, tabs, quoted, rest) \<Rightarrow>
                (z\<lparr>z_pending := z_pending z @ [\<lparr>pd_delim = delim, pd_strip = tabs, pd_expands = \<not> quoted, pd_owner = length (z_raw z)\<rparr>]\<rparr>, rest)
            | None \<Rightarrow> (push_char (CHR ''<'') z, cs)))"

text \<open>The end of a line: the bodies of its here-documents are read, its commands are safe from a later failure.\<close>

definition end_line :: "scanner \<Rightarrow> string \<Rightarrow> scanner \<times> string" where
  "end_line z cs =
     (let (raw, rest) = (if z_pending z = [] then (z_raw z, cs) else consume_docs (z_pending z) (z_raw z) cs)
      in (z\<lparr>z_raw := raw, z_pending := [], z_line_cmds := length raw, z_line_subs := length (z_subs z)\<rparr>, rest))"

text \<open>Outside quotes.\<close>

definition plain_step :: "scanner \<Rightarrow> char \<Rightarrow> string \<Rightarrow> scanner \<times> string" where
  "plain_step z c cs =
     (if c = CHR 0x27 then (z\<lparr>z_single := True, z_has := True\<rparr>, cs)
      else if c = CHR 0x22 then (z\<lparr>z_double := True, z_has := True\<rparr>, cs)
      else if c = CHR 0x5C \<and> cs \<noteq> [] then (push_char (hd cs) z, tl cs)
      else if c = CHR ''#'' \<and> \<not> z_has z then (z, dropWhile (\<lambda>x. x \<noteq> CHR 0x0A) cs)
      else if c = CHR '' '' \<or> c = CHR 0x09 \<or> c = CHR 0x0D then (flush_word z, cs)
      else if c = CHR ''<'' \<and> starts_with ''<'' cs then here_step (flush_word z) cs
      else if c = CHR ''&'' \<and> (z_cur z \<noteq> [] \<and> (last (z_cur z) = CHR ''>'' \<or> last (z_cur z) = CHR ''<'') \<or> starts_with ''>'' cs)
        then (push_char c z, cs)
      else if List.member (''&;|()'' @ [CHR 0x0A]) c then
        (if c = CHR 0x0A then end_line (push_cmd (flush_word z)) cs else (push_cmd (flush_word z), cs))
      else (push_char c z, cs))"

definition scan_step :: "scanner \<Rightarrow> char \<Rightarrow> string \<Rightarrow> parse_failure + scanner \<times> string" where
  "scan_step z c cs =
     (if \<not> z_single z \<and> c = CHR ''$'' \<and> starts_with ''('' cs then
        (case sub_at (drop 1 cs) of None \<Rightarrow> Inl Unbalanced_Paren | Some (t, rest) \<Rightarrow> Inr (push_sub t z, rest))
      else if \<not> z_single z \<and> c = CHR ''`'' then
        (case backtick cs of None \<Rightarrow> Inl Unbalanced_Backtick | Some (t, rest) \<Rightarrow> Inr (push_sub t z, rest))
      else if z_single z then
        Inr (if c = CHR 0x27 then z\<lparr>z_single := False\<rparr> else z\<lparr>z_cur := z_cur z @ [c]\<rparr>, cs)
      else if z_double z then
        Inr (if c = CHR 0x22 then (z\<lparr>z_double := False\<rparr>, cs)
             else if c = CHR 0x5C \<and> cs \<noteq> [] then (z\<lparr>z_cur := z_cur z @ [hd cs]\<rparr>, tl cs)
             else (z\<lparr>z_cur := z_cur z @ [c]\<rparr>, cs))
      else Inr (plain_step z c cs))"

lemma here_step_length: "length (snd (here_step z cs)) \<le> length cs"
  by (auto simp: here_step_def split: option.split dest: heredoc_delim_length)

lemma end_line_length: "length (snd (end_line z cs)) \<le> length cs"
  by (auto simp: end_line_def Let_def split: prod.split dest: consume_docs_length)

lemma plain_step_length: "length (snd (plain_step z c cs)) \<le> length cs"
  by (simp add: plain_step_def here_step_length end_line_length length_dropWhile_le)

lemma scan_step_length:
  assumes "scan_step z c cs = Inr (z', rest)"
  shows "length rest \<le> length cs"
proof -
  have "length (drop 1 cs) \<le> length cs" by simp
  then show ?thesis
    using assms plain_step_length [of z c cs]
    by (auto simp: scan_step_def split: if_splits option.splits dest!: sub_at_length backtick_length)
qed

function scan :: "scanner \<Rightarrow> string \<Rightarrow> parse_failure option \<times> scanner" where
  "scan z [] = (if z_single z \<or> z_double z then Some Unclosed_Quote else None, z)"
| "scan z (c # cs) =
     (case scan_step z c cs of Inl why \<Rightarrow> (Some why, z) | Inr (z', rest) \<Rightarrow> scan z' rest)"
  by pat_completeness auto
termination
  by (relation "measure (\<lambda>(_, cs). length cs)") (auto dest: scan_step_length)

text \<open>
  \<open>parse_shell\<close>: an unbalanced quote or substitution drops the line it stands on and what follows,
  what came before is kept. The words lose their redirections.
\<close>

definition finish_cmd :: "simple_cmd \<Rightarrow> simple_cmd" where
  "finish_cmd c = (case strip_redirects (sc_words c) of (words, docs) \<Rightarrow> \<lparr>sc_words = words, sc_docs = sc_docs c @ docs\<rparr>)"

definition parse_shell :: "string \<Rightarrow> script" where
  "parse_shell cmd =
     (let (failed, z) = scan scanner_start cmd;
          raw = (if failed \<noteq> None then take (z_line_cmds z) (z_raw z) else z_raw (push_cmd (flush_word z)));
          subs = (if failed \<noteq> None then take (z_line_subs z) (z_subs z) else z_subs z)
      in \<lparr>s_cmds = filter (\<lambda>c. sc_words c \<noteq> []) (map finish_cmd raw), s_subs = subs, s_failed = failed\<rparr>)"

end
