(* ===== verification/Kill_Guard.thy ===== *)
theory Kill_Guard
  imports Kill_Shell Json
begin

text \<open>
  The judgement of the kill guard (\<open>crates/am-base/src/kill_guard.rs\<close>): prefixes are taken off a
  simple command, \<open>kill\<close>, \<open>pkill\<close> and \<open>killall\<close> are judged by their arguments, what a shell is given
  to run is judged again, up to a nesting depth. A reason is a value instead of a sentence, a note
  names what could not be judged.
\<close>

section \<open>Constants, reasons, notes\<close>

definition PROTECTED_NAMES :: "string list" where
  "PROTECTED_NAMES = [''claude'', ''codex'', ''grok'', ''herdr'', ''agents-managerd'', ''agy'', ''antigravity'', ''node'',
     ''sh'', ''bash'', ''zsh'', ''sshd'']"

definition PROTECTED_CMDLINES :: "string list" where
  "PROTECTED_CMDLINES =
    [''claude --settings /home/u/.config/agents-manager/bots/01MXXXXXXXXXXXXXXXXXXXXXXX/claude-settings.json --verbose'',
     ''/home/u/.local/bin/claude --dangerously-skip-permissions'',
     ''node /usr/lib/node_modules/@anthropic-ai/claude-code/cli.js'',
     ''codex -c notify=['' @ [CHR 0x22] @ ''agents-managerd'' @ [CHR 0x22] @ '','' @ [CHR 0x22] @ ''hook'' @ [CHR 0x22]
       @ '','' @ [CHR 0x22] @ ''codex'' @ [CHR 0x22] @ '']'',
     ''node /usr/lib/node_modules/@openai/codex/bin/codex.js'',
     ''grok --always-approve'',
     ''herdr server'',
     ''agents-managerd serve'',
     ''agy --dangerously-skip-permissions'',
     ''antigravity'']"

definition MIN_PATTERN_CHARS :: nat where
  "MIN_PATTERN_CHARS = 3"

definition MAX_DEPTH :: nat where
  "MAX_DEPTH = 4"

definition MAX_REGEX_PATTERNS :: nat where
  "MAX_REGEX_PATTERNS = 16"

definition MAX_ENV_S_EXPANSIONS :: nat where
  "MAX_ENV_S_EXPANSIONS = 16"

datatype why_broad = Too_Short nat | Hits string | Is_Protected string

datatype reason =
    Kill_Minus_One
  | Kill_Target string
  | Pkill_Order "string list"
  | Pkill_No_Pattern
  | Pkill_Pattern string why_broad
  | Killall_No_Name
  | Killall_Name string why_broad

datatype verdict = Allow | Deny reason

datatype gnote = Too_Deep | Parse_Failed parse_failure | Too_Many_Env_S | Not_Tried string | Not_Judged string

definition add_note :: "gnote \<Rightarrow> gnote list \<Rightarrow> gnote list" where
  "add_note n ctx = (if length ctx < 16 then ctx @ [n] else ctx)"

text \<open>The first refusal in a list decides; the notes of what was looked at before it stay.\<close>

fun first_deny :: "('a \<Rightarrow> gnote list \<Rightarrow> verdict \<times> gnote list) \<Rightarrow> 'a list \<Rightarrow> gnote list \<Rightarrow> verdict \<times> gnote list" where
  "first_deny f [] ctx = (Allow, ctx)"
| "first_deny f (x # xs) ctx =
     (case f x ctx of (Deny r, ctx') \<Rightarrow> (Deny r, ctx') | (Allow, ctx') \<Rightarrow> first_deny f xs ctx')"

section \<open>Taking prefixes off\<close>

definition basename :: "string \<Rightarrow> string" where
  "basename p = rev (takeWhile (\<lambda>c. c \<noteq> CHR ''/'') (rev p))"

definition is_assignment :: "string \<Rightarrow> bool" where
  "is_assignment w =
     (let name = takeWhile (\<lambda>c. c \<noteq> CHR ''='') w
      in List.member w (CHR ''='') \<and> name \<noteq> [] \<and> \<not> ascii_digit (hd name)
         \<and> list_all (\<lambda>c. ascii_alnum c \<or> c = CHR ''_'') name)"

text \<open>\<open>env -S\<close>: the string to split and how many arguments it took.\<close>

definition env_split_string :: "string list \<Rightarrow> (string \<times> nat) option" where
  "env_split_string rest =
     (case rest of
        [] \<Rightarrow> None
      | a # others \<Rightarrow>
          if starts_with ''--split-string='' a then Some (drop 15 a, 1)
          else if a = ''--split-string'' then (case others of [] \<Rightarrow> None | v # _ \<Rightarrow> Some (v, 2))
          else if \<not> starts_with ''-'' a \<or> starts_with ''--'' a then None
          else
            (let cluster = tl a; flags = takeWhile (\<lambda>c. c \<noteq> CHR ''S'') cluster; tail = drop (length flags + 1) cluster
             in if \<not> List.member cluster (CHR ''S'') \<or> \<not> list_all (\<lambda>c. List.member ''i0v'' c) flags then None
                else if tail = [] then (case others of [] \<Rightarrow> None | v # _ \<Rightarrow> Some (v, 2))
                else Some (tail, 1)))"

definition valued_options :: "string \<Rightarrow> string list option" where
  "valued_options name =
     (if name = ''sudo'' \<or> name = ''doas'' then Some [''-u'', ''-g'', ''-h'', ''-p'', ''-C'', ''-D'', ''-R'', ''-T'', ''-U'']
      else if name = ''env'' then Some [''-u'', ''-C'', ''--unset'', ''--chdir'']
      else if name = ''nice'' then Some [''-n'']
      else if name = ''ionice'' then Some [''-c'', ''-n'', ''-p'']
      else if name = ''timeout'' then Some [''-s'', ''-k'']
      else if name = ''xargs'' then Some [''-n'', ''-I'', ''-P'', ''-L'', ''-d'', ''-E'', ''-s'', ''-a'', ''-J'']
      else if List.member [''command'', ''exec'', ''builtin'', ''nohup'', ''time'', ''setsid'', ''stdbuf''] name then Some []
      else None)"

definition KEYWORDS :: "string list" where
  "KEYWORDS = [''!'', ''{'', ''then'', ''do'', ''else'', ''elif'', ''if'', ''while'', ''until'']"

text \<open>The options of a prefix: an \<open>env -S\<close> string with the arguments behind it, or what is left.\<close>

function wrapper_options :: "string \<Rightarrow> string list \<Rightarrow> string list \<Rightarrow> string \<times> string list + string list" where
  "wrapper_options name valued [] = Inr []"
| "wrapper_options name valued (a # rest) =
     (if a = ''--'' then Inr rest
      else case (if name = ''env'' then env_split_string (a # rest) else None) of
          Some (val, used) \<Rightarrow> Inl (val, drop used (a # rest))
        | None \<Rightarrow>
            if List.member valued a then wrapper_options name valued (drop 1 rest)
            else if starts_with ''-'' a \<and> length a > 1 \<or> name = ''env'' \<and> is_assignment a
            then wrapper_options name valued rest
            else Inr (a # rest))"
  by pat_completeness auto
termination by (relation "measure (\<lambda>(_, _, ws). length ws)") auto

lemma wrapper_options_length:
  "wrapper_options name valued ws = Inr rest \<Longrightarrow> length rest \<le> length ws"
  by (induction name valued ws rule: wrapper_options.induct) (fastforce split: if_splits option.splits)+

text \<open>\<open>None\<close>: the budget of \<open>env -S\<close> strings is spent.\<close>

function unwrap_budgeted :: "nat \<Rightarrow> string list \<Rightarrow> string list option" where
  "unwrap_budgeted expansions [] = Some []"
| "unwrap_budgeted expansions (head # args) =
     (if is_assignment head \<or> List.member KEYWORDS head then unwrap_budgeted expansions args
      else case valued_options (basename head) of
          None \<Rightarrow> Some (head # args)
        | Some valued \<Rightarrow>
            (case wrapper_options (basename head) valued args of
               Inl (val, after) \<Rightarrow>
                 if expansions + 1 > MAX_ENV_S_EXPANSIONS then None
                 else unwrap_budgeted (expansions + 1)
                   ((case s_cmds (parse_shell val) of [] \<Rightarrow> [] | c # _ \<Rightarrow> sc_words c) @ after)
             | Inr rest \<Rightarrow> unwrap_budgeted expansions (if basename head = ''timeout'' then drop 1 rest else rest)))"
  by pat_completeness auto
termination
proof (relation "inv_image (less_than <*lex*> less_than) (\<lambda>(e, ws). (MAX_ENV_S_EXPANSIONS + 1 - e, length ws))", goal_cases)
  case (4 expansions head args valued rest)
  then have "length rest \<le> length args" by (auto dest: wrapper_options_length)
  then show ?case by auto
qed auto

definition unwrap_wrappers :: "string list \<Rightarrow> string list option" where
  "unwrap_wrappers ws = unwrap_budgeted 0 ws"

section \<open>The options of a shell\<close>

record shell_opts_rec =
  so_noexec :: bool
  so_command :: "nat option"
  so_stdin :: bool
  so_positional :: nat

definition SHELL_FLAGS :: string where
  "SHELL_FLAGS = ''abefhikmnprstuvxBCDEHIJLPTclsX''"

definition SHELL_LONG_FLAGS :: "string list" where
  "SHELL_LONG_FLAGS = [''posix'', ''noediting'', ''noprofile'', ''norc'', ''restricted'', ''verbose'', ''login'', ''debugger'',
     ''dump-strings'', ''dump-po-strings'', ''help'', ''version'']"

definition is_shell :: "string \<Rightarrow> bool" where
  "is_shell name \<longleftrightarrow> List.member [''sh'', ''bash'', ''zsh'', ''dash'', ''ksh''] name"

record opt_state =
  os_noexec :: bool
  os_c :: bool
  os_stdin :: bool
  os_unsure :: bool
  os_cancel :: bool
  os_used :: nat \<comment> \<open>\<open>consumed\<close>\<close>

definition plain_name :: "string \<Rightarrow> string" where
  "plain_name v = filter (\<lambda>c. c \<noteq> CHR ''_'') (map to_ascii_lowercase v)"

text \<open>One letter of a cluster; \<open>rest\<close> are the arguments from the cluster on.\<close>

definition opt_char :: "bool \<Rightarrow> string list \<Rightarrow> char \<Rightarrow> opt_state \<Rightarrow> opt_state" where
  "opt_char on rest ch s =
     (if ch = CHR ''n'' then s\<lparr>os_noexec := on\<rparr>
      else if ch = CHR ''c'' then s\<lparr>os_c := on\<rparr>
      else if ch = CHR ''s'' then s\<lparr>os_stdin := on\<rparr>
      else if ch = CHR ''o'' then
        (if os_used s < length rest \<and> plain_name (rest ! os_used s) = ''noexec''
         then s\<lparr>os_noexec := on, os_used := os_used s + 1\<rparr> else s\<lparr>os_cancel := True, os_used := os_used s + 1\<rparr>)
      else if ch = CHR ''O'' then
        (if os_used s < length rest \<and> plain_name (rest ! os_used s) = ''exec''
         then s\<lparr>os_cancel := True, os_used := os_used s + 1\<rparr> else s\<lparr>os_used := os_used s + 1\<rparr>)
      else if List.member SHELL_FLAGS ch then s
      else s\<lparr>os_unsure := True\<rparr>)"

lemma opt_chars_used: "os_used (fold (opt_char on rest) chs s) \<ge> os_used s"
proof (induction chs arbitrary: s)
  case (Cons c cs)
  have "os_used (opt_char on rest c s) \<ge> os_used s" by (auto simp: opt_char_def)
  then show ?case using Cons [of "opt_char on rest c s"] by simp
qed simp

text \<open>The loop: the position where it stops and the state; \<open>i\<close> is the position of \<open>rest\<close> in the arguments.\<close>

function shell_options :: "nat \<Rightarrow> string list \<Rightarrow> opt_state \<Rightarrow> nat \<times> opt_state" where
  "shell_options i [] s = (i, s)"
| "shell_options i (a # rest) s =
     (let on = starts_with ''-'' a in
      if a = ''--'' then (i + 1, s)
      else if \<not> (on \<or> starts_with ''+'' a) \<or> length a < 2 then (i, s)
      else if starts_with ''--'' a then
        (if drop 2 a = ''rcfile'' \<or> drop 2 a = ''init-file'' then shell_options (i + 2) (drop 1 rest) s
         else shell_options (i + 1) rest (if List.member SHELL_LONG_FLAGS (drop 2 a) then s else s\<lparr>os_unsure := True\<rparr>))
      else
        (let s' = fold (opt_char on (a # rest)) (tl a) (s\<lparr>os_used := 1\<rparr>)
         in shell_options (i + os_used s') (drop (os_used s' - 1) rest) s'))"
  by pat_completeness auto
termination by (relation "measure (\<lambda>(_, rest, _). length rest)") auto

text \<open>\<open>position\<close> of an iterator.\<close>

fun position :: "('a \<Rightarrow> bool) \<Rightarrow> 'a list \<Rightarrow> nat option" where
  "position p [] = None"
| "position p (x # xs) = (if p x then Some 0 else map_option Suc (position p xs))"

definition shell_opts :: "string list \<Rightarrow> shell_opts_rec" where
  "shell_opts args =
     (let (i, s) = shell_options 0 args
            \<lparr>os_noexec = False, os_c = False, os_stdin = False, os_unsure = False, os_cancel = False, os_used = 1\<rparr>;
          n = length args;
          command = (if os_c s \<and> i < n then Some i else None);
          positional = (if command \<noteq> None then i + 1 else min i n)
      in \<lparr>so_noexec = os_noexec s \<and> \<not> os_unsure s \<and> \<not> os_cancel s,
          so_command = (if os_unsure s then
              (case position (\<lambda>a. starts_with ''-'' a \<and> \<not> starts_with ''--'' a \<and> List.member a (CHR ''c'')) args of
                 None \<Rightarrow> None | Some p \<Rightarrow> if p + 1 < n then Some (p + 1) else None)
            else command),
          so_stdin = os_stdin s,
          so_positional = (if os_unsure s then
              (case position (\<lambda>a. \<not> (starts_with ''-'' a \<or> starts_with ''+'' a)) args of None \<Rightarrow> n | Some p \<Rightarrow> p)
            else positional)\<rparr>)"

section \<open>\<open>kill\<close>\<close>

definition strip_prefix :: "string \<Rightarrow> string \<Rightarrow> string" where
  "strip_prefix p s = (if starts_with p s then drop (length p) s else s)"

definition is_signal_spec :: "string \<Rightarrow> bool" where
  "is_signal_spec a \<longleftrightarrow> starts_with ''-'' a \<and>
     (let rest = strip_prefix ''SIG'' (drop 1 a)
      in rest \<noteq> [] \<and> (list_all ascii_digit rest \<or> list_all (\<lambda>c. ascii_upper c \<or> ascii_digit c) rest))"

text \<open>The targets; \<open>None\<close> when the command only lists signals.\<close>

function kill_targets :: "bool \<Rightarrow> bool \<Rightarrow> string list \<Rightarrow> string list option" where
  "kill_targets signal dashdash [] = Some []"
| "kill_targets signal dashdash (a # rest) =
     (if dashdash then map_option ((#) a) (kill_targets signal dashdash rest)
      else if a = ''--'' then kill_targets signal True rest
      else if a = ''-l'' \<or> a = ''-L'' \<or> a = ''-t'' then None
      else if a = ''-s'' \<or> a = ''-n'' then kill_targets True dashdash (drop 1 rest)
      else if \<not> signal \<and> is_signal_spec a then kill_targets True dashdash rest
      else map_option ((#) a) (kill_targets signal dashdash rest))"
  by pat_completeness auto
termination by (relation "measure (\<lambda>(_, _, args). length args)") auto

definition everybody :: "string \<Rightarrow> bool" where
  "everybody t \<longleftrightarrow> t = ''-1'' \<or> t = ''0''"

definition check_kill :: "string list \<Rightarrow> verdict" where
  "check_kill args =
     (case kill_targets False False args of
        None \<Rightarrow> Allow
      | Some targets \<Rightarrow>
          if args = [''-1''] then Deny Kill_Minus_One
          else (case List.find everybody targets of Some t \<Rightarrow> Deny (Kill_Target t) | None \<Rightarrow> Allow))"

section \<open>The arguments of \<open>pkill\<close> and \<open>killall\<close>\<close>

record parsed =
  p_flags :: "string list"
  p_values :: "(string \<times> string) list"
  p_patterns :: "string list"

definition has_flag :: "parsed \<Rightarrow> string \<Rightarrow> bool" where
  "has_flag p f = List.member (p_flags p) f"

definition value_of :: "parsed \<Rightarrow> string list \<Rightarrow> string option" where
  "value_of p names = map_option snd (List.find (\<lambda>(k, _). List.member names k) (p_values p))"

definition SIGNAL_NAMES :: "string list" where
  "SIGNAL_NAMES = [''HUP'', ''INT'', ''QUIT'', ''KILL'', ''TERM'', ''USR1'', ''USR2'', ''STOP'', ''CONT'', ''ALRM'', ''TSTP'',
     ''PIPE'', ''ABRT'']"

definition is_signal_option :: "string \<Rightarrow> bool" where
  "is_signal_option a \<longleftrightarrow> starts_with ''-'' a
     \<and> (list_all ascii_digit (drop 1 a) \<or> List.member SIGNAL_NAMES (strip_prefix ''SIG'' (drop 1 a)))"

text \<open>A cluster of letters: whether its last option took the next argument.\<close>

fun parse_cluster :: "(char \<Rightarrow> bool) \<Rightarrow> string list \<Rightarrow> string \<Rightarrow> parsed \<Rightarrow> parsed \<times> bool" where
  "parse_cluster valued rest [] p = (p, False)"
| "parse_cluster valued rest (c # cs) p =
     (if valued c then
        (if cs \<noteq> [] then (p\<lparr>p_values := p_values p @ [([c], cs)]\<rparr>, False)
         else (case rest of [] \<Rightarrow> (p, False) | v # _ \<Rightarrow> (p\<lparr>p_values := p_values p @ [([c], v)]\<rparr>, True)))
      else parse_cluster valued rest cs (p\<lparr>p_flags := p_flags p @ [[c]]\<rparr>))"

definition split_at_eq :: "string \<Rightarrow> (string \<times> string) option" where
  "split_at_eq s = (let k = takeWhile (\<lambda>c. c \<noteq> CHR ''='') s
     in if List.member s (CHR ''='') then Some (k, drop (length k + 1) s) else None)"

definition is_option :: "string \<Rightarrow> bool" where
  "is_option a \<longleftrightarrow> starts_with ''-'' a \<and> length a > 1"

function parse_from :: "bool \<Rightarrow> (char \<Rightarrow> bool) \<Rightarrow> string list \<Rightarrow> string list \<Rightarrow> parsed \<Rightarrow> parsed" where
  "parse_from bsd valued_short valued_long [] p = p"
| "parse_from bsd valued_short valued_long (a # rest) p =
     (if a = ''--'' then p\<lparr>p_patterns := p_patterns p @ rest\<rparr>
      else if \<not> is_option a then
        (if bsd then p\<lparr>p_patterns := p_patterns p @ a # rest\<rparr>
         else parse_from bsd valued_short valued_long rest (p\<lparr>p_patterns := p_patterns p @ [a]\<rparr>))
      else if is_signal_option a then parse_from bsd valued_short valued_long rest p
      else if starts_with ''--'' a then
        (let long = drop 2 a in
         case split_at_eq long of
           Some kv \<Rightarrow> parse_from bsd valued_short valued_long rest (p\<lparr>p_values := p_values p @ [kv]\<rparr>)
         | None \<Rightarrow>
             if List.member valued_long long \<and> rest \<noteq> []
             then parse_from bsd valued_short valued_long (tl rest) (p\<lparr>p_values := p_values p @ [(long, hd rest)]\<rparr>)
             else parse_from bsd valued_short valued_long rest (p\<lparr>p_flags := p_flags p @ [long]\<rparr>))
      else
        (case parse_cluster valued_short rest (tl a) p of
           (p', took) \<Rightarrow> parse_from bsd valued_short valued_long (if took then tl rest else rest) p'))"
  by pat_completeness auto
termination by (relation "measure (\<lambda>(_, _, _, args, _). length args)") (auto simp: less_Suc_eq_le)

definition no_args :: parsed where
  "no_args = \<lparr>p_flags = [], p_values = [], p_patterns = []\<rparr>"

definition parse_args :: "string list \<Rightarrow> bool \<Rightarrow> (char \<Rightarrow> bool) \<Rightarrow> string list \<Rightarrow> parsed" where
  "parse_args args bsd valued_short valued_long = parse_from bsd valued_short valued_long args no_args"

definition pkill_valued_short :: "char \<Rightarrow> bool" where
  "pkill_valued_short c = List.member ''PUugGstTFJjMN'' c"

definition parse_pkill :: "string list \<Rightarrow> bool \<Rightarrow> parsed" where
  "parse_pkill args bsd = parse_args args bsd pkill_valued_short
     [''parent'', ''euid'', ''uid'', ''pgroup'', ''group'', ''session'', ''terminal'', ''signal'', ''pidfile'', ''runstates'',
      ''ns'', ''nslist'', ''older'', ''newer'']"

definition misordered_options :: "string list \<Rightarrow> string list" where
  "misordered_options args =
     (let bsd = p_patterns (parse_pkill args True); gnu = p_patterns (parse_pkill args False);
          after_dd = drop 1 (dropWhile (\<lambda>a. a \<noteq> ''--'') args)
      in if length bsd = length gnu then []
         else filter (\<lambda>p. is_option p \<and> \<not> List.member after_dd p) bsd)"

section \<open>Patterns that reach too far\<close>

definition first_word :: "string \<Rightarrow> string" where
  "first_word s = takeWhile (\<lambda>c. c \<noteq> CHR '' '') (dropWhile (\<lambda>c. c = CHR '' '') s)"

definition broad_pattern :: "string \<Rightarrow> bool \<Rightarrow> bool \<Rightarrow> bool \<Rightarrow> bool \<Rightarrow> gnote list \<Rightarrow> why_broad option \<times> gnote list" where
  "broad_pattern pat full exact icase regex_ok ctx =
     (if \<not> exact \<and> length pat < MIN_PATTERN_CHARS then (Some (Too_Short (length pat)), ctx)
      else if \<not> regex_ok then (None, add_note (Not_Tried pat) ctx)
      else case compile_pattern pat of
          Inl _ \<Rightarrow> (None, add_note (Not_Judged pat) ctx)
        | Inr prog \<Rightarrow>
            (case List.find (\<lambda>s. is_match prog s icase exact = Some True) (if full then PROTECTED_CMDLINES else PROTECTED_NAMES) of
               None \<Rightarrow> (None, ctx)
             | Some hit \<Rightarrow> (Some (Hits (if full then basename (first_word hit) else hit)), ctx)))"

definition check_pkill :: "string list \<Rightarrow> gnote list \<Rightarrow> verdict \<times> gnote list" where
  "check_pkill args ctx =
     (let bad = misordered_options args; p = parse_pkill args True in
      if bad \<noteq> [] then (Deny (Pkill_Order bad), ctx)
      else
        (let full = has_flag p ''f'' \<or> has_flag p ''full''; exact = has_flag p ''x'' \<or> has_flag p ''exact'';
             icase = has_flag p ''i'' \<or> has_flag p ''ignore-case'' in
         if p_patterns p = [] then
           (if value_of p [''u'', ''U'', ''G'', ''g'', ''s'', ''t'', ''euid'', ''uid'', ''group'', ''pgroup'', ''session'', ''terminal''] \<noteq> None
               \<or> value_of p [''P'', ''parent''] = Some ''0'' \<or> value_of p [''P'', ''parent''] = Some ''1''
            then (Deny Pkill_No_Pattern, ctx) else (Allow, ctx))
         else first_deny
           (\<lambda>(i, pat) ctx. case broad_pattern pat full exact icase (i < MAX_REGEX_PATTERNS) ctx of
                (Some why, ctx') \<Rightarrow> (Deny (Pkill_Pattern pat why), ctx')
              | (None, ctx') \<Rightarrow> (Allow, ctx'))
           (List.enumerate 0 (p_patterns p)) ctx))"

definition same_name :: "bool \<Rightarrow> string \<Rightarrow> string \<Rightarrow> bool" where
  "same_name icase a b = (if icase then map to_ascii_lowercase a = map to_ascii_lowercase b else a = b)"

text \<open>\<open>killall -s SIGNAL\<close>: the option and its value are taken out first.\<close>

function drop_signals :: "string list \<Rightarrow> string list" where
  "drop_signals [] = []"
| "drop_signals (a # rest) =
     (if a = ''-s'' \<and> rest \<noteq> [] \<and> is_signal_spec (''-'' @ hd rest) then drop_signals (tl rest) else a # drop_signals rest)"
  by pat_completeness auto
termination by (relation "measure length") auto

definition check_killall :: "string list \<Rightarrow> gnote list \<Rightarrow> verdict \<times> gnote list" where
  "check_killall args ctx =
     (let p = parse_args (drop_signals args) False (List.member ''uoyZtc'') [''user'', ''older-than'', ''younger-than'', ''context''];
          regex = (has_flag p ''r'' \<or> has_flag p ''m'' \<or> has_flag p ''regexp'');
          icase = (has_flag p ''I'' \<or> has_flag p ''ignore-case'') in
      if p_patterns p = [] then
        (if value_of p [''u'', ''user'', ''t'', ''c''] \<noteq> None then (Deny Killall_No_Name, ctx) else (Allow, ctx))
      else first_deny
        (\<lambda>(i, name) ctx.
           case (if regex then broad_pattern name False False icase (i < MAX_REGEX_PATTERNS) ctx
                 else (map_option Is_Protected (List.find (\<lambda>n. same_name icase n name) PROTECTED_NAMES), ctx)) of
             (Some why, ctx') \<Rightarrow> (Deny (Killall_Name name why), ctx')
           | (None, ctx') \<Rightarrow> (Allow, ctx'))
        (List.enumerate 0 (p_patterns p)) ctx)"

section \<open>A command and a command line\<close>

text \<open>\<open>check_simple\<close>; \<open>deeper\<close> judges a command line one level deeper.\<close>

definition join_words :: "string list \<Rightarrow> string" where
  "join_words ws = concat (case ws of [] \<Rightarrow> [] | w # rest \<Rightarrow> w # map ((#) (CHR '' '')) rest)"

definition check_doc ::
  "(string \<Rightarrow> gnote list \<Rightarrow> verdict \<times> gnote list) \<Rightarrow> bool \<Rightarrow> doc \<Rightarrow> gnote list \<Rightarrow> verdict \<times> gnote list" where
  "check_doc deeper as_script dc ctx =
     (if as_script then deeper (d_body dc) ctx
      else if d_expands dc then first_deny deeper (doc_subs (d_body dc)) ctx
      else (Allow, ctx))"

text \<open>What the command word and its arguments decide.\<close>

definition word_verdict ::
  "(string \<Rightarrow> gnote list \<Rightarrow> verdict \<times> gnote list) \<Rightarrow> string \<Rightarrow> string list \<Rightarrow> gnote list \<Rightarrow> verdict \<times> gnote list" where
  "word_verdict deeper name args ctx =
     (if name = ''kill'' then (check_kill args, ctx)
      else if name = ''pkill'' then check_pkill args ctx
      else if name = ''killall'' then check_killall args ctx
      else if is_shell name then
        (case so_command (shell_opts args) of
           Some k \<Rightarrow> if so_noexec (shell_opts args) \<or> k \<ge> length args then (Allow, ctx) else deeper (args ! k) ctx
         | None \<Rightarrow> (Allow, ctx))
      else if name = ''eval'' then deeper (join_words args) ctx
      else (Allow, ctx))"

text \<open>A shell without a command and without a script file takes its input for a script.\<close>

definition reads_script :: "string \<Rightarrow> string list \<Rightarrow> bool" where
  "reads_script name args \<longleftrightarrow> is_shell name \<and> \<not> so_noexec (shell_opts args) \<and> so_command (shell_opts args) = None
     \<and> (so_stdin (shell_opts args) \<or> so_positional (shell_opts args) \<ge> length args)"

definition check_simple ::
  "(string \<Rightarrow> gnote list \<Rightarrow> verdict \<times> gnote list) \<Rightarrow> simple_cmd \<Rightarrow> gnote list \<Rightarrow> verdict \<times> gnote list" where
  "check_simple deeper simple ctx =
     (case unwrap_wrappers (sc_words simple) of
        None \<Rightarrow> (Allow, add_note Too_Many_Env_S ctx)
      | Some [] \<Rightarrow> (Allow, ctx)
      | Some (head # args) \<Rightarrow>
          (case word_verdict deeper (basename head) args ctx of
             (Deny r, ctx') \<Rightarrow> (Deny r, ctx')
           | (Allow, ctx') \<Rightarrow> first_deny (check_doc deeper (reads_script (basename head) args)) (sc_docs simple) ctx'))"

text \<open>\<open>check_depth\<close>, by the number of levels that are left; without any the line is let through.\<close>

primrec check_at :: "nat \<Rightarrow> string \<Rightarrow> gnote list \<Rightarrow> verdict \<times> gnote list" where
  "check_at 0 cmd ctx = (Allow, add_note Too_Deep ctx)"
| "check_at (Suc n) cmd ctx =
     (let script = parse_shell cmd;
          ctx1 = (case s_failed script of None \<Rightarrow> ctx | Some why \<Rightarrow> add_note (Parse_Failed why) ctx)
      in case first_deny (check_at n) (s_subs script) ctx1 of
           (Deny r, ctx2) \<Rightarrow> (Deny r, ctx2)
         | (Allow, ctx2) \<Rightarrow> first_deny (check_simple (check_at n)) (s_cmds script) ctx2)"

definition check_command_logged :: "string \<Rightarrow> verdict \<times> gnote list" where
  "check_command_logged cmd = check_at (MAX_DEPTH + 1) cmd []"

definition check_command :: "string \<Rightarrow> verdict" where
  "check_command cmd = fst (check_command_logged cmd)"

section \<open>The hook\<close>

fun find_map :: "('a \<Rightarrow> 'b option) \<Rightarrow> 'a list \<Rightarrow> 'b option" where
  "find_map f [] = None"
| "find_map f (x # xs) = (case f x of None \<Rightarrow> find_map f xs | Some y \<Rightarrow> Some y)"

definition is_command_key :: "string \<Rightarrow> bool" where
  "is_command_key k \<longleftrightarrow> List.member [''command'', ''commandline'', ''cmd''] (map to_ascii_lowercase k)"

text \<open>The search for the command, by the levels left: first the members of this object, then below.\<close>

primrec find_command :: "nat \<Rightarrow> json \<Rightarrow> string option" where
  "find_command 0 v = None"
| "find_command (Suc n) v =
     (case v of
        JObj ms \<Rightarrow>
          (case find_map (\<lambda>(k, x). if is_command_key k then as_str x else None) ms of
             Some s \<Rightarrow> Some s
           | None \<Rightarrow> find_map (find_command n) (map snd ms))
      | _ \<Rightarrow> None)"

definition command_from_payload :: "json \<Rightarrow> string option" where
  "command_from_payload payload =
     Option.bind (find_map (\<lambda>k. json_get k payload) [''tool_input'', ''toolInput'', ''input'', ''args'', ''toolCall'', ''tool_call''])
       (find_command 5)"

definition norm_event :: "string \<Rightarrow> string" where
  "norm_event s = map to_ascii_lowercase (filter ascii_alnum s)"

definition event_is_pre :: "string \<Rightarrow> bool" where
  "event_is_pre event \<longleftrightarrow> norm_event event = ''pretooluse''"

definition is_pre_tool_use :: "string \<Rightarrow> json \<Rightarrow> bool" where
  "is_pre_tool_use event payload \<longleftrightarrow> event_is_pre event \<or>
     (case find_map (\<lambda>k. Option.bind (json_get k payload) as_str) [''hook_event_name'', ''hookEventName'', ''event''] of
        None \<Rightarrow> False | Some e \<Rightarrow> event_is_pre e)"

datatype guard_answer = Not_Pre_Tool_Use | Pass | Deny_Tool json

definition deny_json :: "(reason \<Rightarrow> string) \<Rightarrow> string \<Rightarrow> reason \<Rightarrow> json" where
  "deny_json sentence provider r =
     (if provider = ''agy'' then JObj [(''decision'', JStr ''deny''), (''reason'', JStr (sentence r))]
      else JObj [(''hookSpecificOutput'', JObj
        [(''hookEventName'', JStr ''PreToolUse''), (''permissionDecision'', JStr ''deny''),
         (''permissionDecisionReason'', JStr (sentence r))])])"

text \<open>
  \<open>parse\<close> is the JSON reader, \<open>sentence\<close> the wording of a reason. What the source writes to its log is
  left out here (the notes are those of \<open>check_command_logged\<close>).
\<close>

definition guard :: "(string \<Rightarrow> json option) \<Rightarrow> (reason \<Rightarrow> string) \<Rightarrow> string \<Rightarrow> string \<Rightarrow> string \<Rightarrow> guard_answer" where
  "guard parse sentence provider event stdin_text =
     (case parse stdin_text of
        None \<Rightarrow> if event_is_pre event then Pass else Not_Pre_Tool_Use
      | Some payload \<Rightarrow>
          if \<not> is_pre_tool_use event payload then Not_Pre_Tool_Use
          else (case command_from_payload payload of
                  None \<Rightarrow> Pass
                | Some command \<Rightarrow>
                    (case check_command command of Allow \<Rightarrow> Pass | Deny r \<Rightarrow> Deny_Tool (deny_json sentence provider r))))"

end
