(* ===== verification/Kill_Regex_Emit.thy ===== *)
theory Kill_Regex_Emit
  imports Kill_Regex
begin

text \<open>
  What a pattern means, as relations between positions of the text, and the proof that the code
  \<open>emit_alts\<close> lays down runs exactly these relations. A \<open>fragment\<close> is a stretch of a program that is
  entered at its first instruction and left past its last one; how fragments compose is proved once
  per shape, and the compiler's lemma is an induction over the emission with these shapes.
\<close>

section \<open>The meaning of a pattern\<close>

text \<open>
  \<open>(i, j)\<close> is in the meaning when the part of the text from \<open>i\<close> to \<open>j\<close> is matched. The parser never
  gives an empty list of alternatives; the code emits nothing for it.
\<close>

fun sem_atom :: "string \<Rightarrow> bool \<Rightarrow> atom \<Rightarrow> (nat \<times> nat) set"
and sem_item :: "string \<Rightarrow> bool \<Rightarrow> item \<Rightarrow> (nat \<times> nat) set"
and sem_seq :: "string \<Rightarrow> bool \<Rightarrow> item list \<Rightarrow> (nat \<times> nat) set"
and sem_alts :: "string \<Rightarrow> bool \<Rightarrow> item list list \<Rightarrow> (nat \<times> nat) set"
where
  "sem_atom t ic (Group alts) = sem_alts t ic alts"
| "sem_atom t ic Bol = {(0, 0)}"
| "sem_atom t ic Eol = {(length t, length t)}"
| "sem_atom t ic a = {(i, Suc i) | i. i < length t \<and> atom_one a (t ! i) ic}"
| "sem_item t ic (Item a mn mx) =
     (if mn = 0 \<and> mx = Some 1 then Id \<union> sem_atom t ic a
      else if mn = 0 \<and> mx = None then (sem_atom t ic a)\<^sup>*
      else if mn = 1 \<and> mx = None then (sem_atom t ic a)\<^sup>+
      else sem_atom t ic a)"
| "sem_seq t ic [] = Id"
| "sem_seq t ic (it # its) = sem_item t ic it O sem_seq t ic its"
| "sem_alts t ic [] = Id"
| "sem_alts t ic (alt # alts) =
     (if alts = [] then sem_seq t ic alt else sem_seq t ic alt \<union> sem_alts t ic alts)"

section \<open>Runs of a program\<close>

inductive nstep :: "prog \<Rightarrow> string \<Rightarrow> bool \<Rightarrow> nat \<times> nat \<Rightarrow> nat \<times> nat \<Rightarrow> bool" for P t ic where
  n_jmp: "pc < length P \<Longrightarrow> P ! pc = Jmp q \<Longrightarrow> nstep P t ic (pc, i) (q, i)"
| n_split1: "pc < length P \<Longrightarrow> P ! pc = Split q r \<Longrightarrow> nstep P t ic (pc, i) (q, i)"
| n_split2: "pc < length P \<Longrightarrow> P ! pc = Split q r \<Longrightarrow> nstep P t ic (pc, i) (r, i)"
| n_bol: "pc < length P \<Longrightarrow> P ! pc = IBol \<Longrightarrow> nstep P t ic (pc, 0) (Suc pc, 0)"
| n_eol: "pc < length P \<Longrightarrow> P ! pc = IEol \<Longrightarrow> nstep P t ic (pc, length t) (Suc pc, length t)"
| n_atom: "pc < length P \<Longrightarrow> P ! pc = IAtom a \<Longrightarrow> i < length t \<Longrightarrow> atom_one a (t ! i) ic \<Longrightarrow>
    nstep P t ic (pc, i) (Suc pc, Suc i)"

inductive_cases nstep_cases: "nstep P t ic (pc, i) (q, j)"

inductive_simps nstep_iff: "nstep P t ic (pc, i) (q, j)"

abbreviation nsteps :: "prog \<Rightarrow> string \<Rightarrow> bool \<Rightarrow> nat \<times> nat \<Rightarrow> nat \<times> nat \<Rightarrow> bool" where
  "nsteps P t ic \<equiv> (nstep P t ic)\<^sup>*\<^sup>*"

text \<open>
  A fragment runs \<open>R\<close>: every pair of \<open>R\<close> has a run, its steps stay inside, and whatever is still to
  be matched behind it (\<open>Q\<close>) can be pulled back through it to \<open>R O Q\<close> at its entry.
\<close>

definition annotated :: "prog \<Rightarrow> string \<Rightarrow> bool \<Rightarrow> nat \<Rightarrow> nat \<Rightarrow> (nat \<Rightarrow> (nat \<times> nat) set) \<Rightarrow> bool" where
  "annotated P t ic s e K \<longleftrightarrow>
     (\<forall>pc i q i' j. s \<le> pc \<longrightarrow> pc < e \<longrightarrow> nstep P t ic (pc, i) (q, i') \<longrightarrow> (i', j) \<in> K q \<longrightarrow> (i, j) \<in> K pc)"

definition fragment :: "prog \<Rightarrow> string \<Rightarrow> bool \<Rightarrow> nat \<Rightarrow> nat \<Rightarrow> (nat \<times> nat) set \<Rightarrow> bool" where
  "fragment P t ic s e R \<longleftrightarrow> s \<le> e \<and> e \<le> length P \<and>
     (\<forall>i j. (i, j) \<in> R \<longrightarrow> nsteps P t ic (s, i) (e, j)) \<and>
     (\<forall>pc i q i'. s \<le> pc \<longrightarrow> pc < e \<longrightarrow> nstep P t ic (pc, i) (q, i') \<longrightarrow> s \<le> q \<and> q \<le> e) \<and>
     (\<forall>Q. \<exists>K. K s = R O Q \<and> K e = Q \<and> annotated P t ic s e K)"

lemma fragmentI:
  assumes "s \<le> e" "e \<le> length P" "\<And>i j. (i, j) \<in> R \<Longrightarrow> nsteps P t ic (s, i) (e, j)"
    "\<And>pc i q i'. s \<le> pc \<Longrightarrow> pc < e \<Longrightarrow> nstep P t ic (pc, i) (q, i') \<Longrightarrow> s \<le> q \<and> q \<le> e"
    "\<And>Q. \<exists>K. K s = R O Q \<and> K e = Q \<and> annotated P t ic s e K"
  shows "fragment P t ic s e R"
  using assms unfolding fragment_def by blast

lemma fragment_run: "fragment P t ic s e R \<Longrightarrow> (i, j) \<in> R \<Longrightarrow> nsteps P t ic (s, i) (e, j)"
  unfolding fragment_def by blast

lemma fragment_in:
  "fragment P t ic s e R \<Longrightarrow> nstep P t ic (pc, i) (q, i') \<Longrightarrow> s \<le> pc \<Longrightarrow> pc < e \<Longrightarrow> s \<le> q \<and> q \<le> e"
  unfolding fragment_def by blast

lemma fragment_bounds: "fragment P t ic s e R \<Longrightarrow> s \<le> e \<and> e \<le> length P"
  unfolding fragment_def by blast

lemma fragment_annotation:
  assumes "fragment P t ic s e R"
  obtains K where "K s = R O Q" "K e = Q" "annotated P t ic s e K"
proof -
  have "\<forall>Q. \<exists>K. K s = R O Q \<and> K e = Q \<and> annotated P t ic s e K"
    using assms unfolding fragment_def by (elim conjE)
  then obtain K where "K s = R O Q \<and> K e = Q \<and> annotated P t ic s e K" by (elim allE exE)
  then show ?thesis using that by (elim conjE)
qed

lemma annotatedD:
  "annotated P t ic s e K \<Longrightarrow> nstep P t ic (pc, i) (q, i') \<Longrightarrow> (i', j) \<in> K q \<Longrightarrow> s \<le> pc \<Longrightarrow> pc < e \<Longrightarrow> (i, j) \<in> K pc"
  unfolding annotated_def by blast

lemma annotatedI:
  assumes "\<And>pc i q i' j. s \<le> pc \<Longrightarrow> pc < e \<Longrightarrow> nstep P t ic (pc, i) (q, i') \<Longrightarrow> (i', j) \<in> K q \<Longrightarrow> (i, j) \<in> K pc"
  shows "annotated P t ic s e K"
  using assms unfolding annotated_def by blast

text \<open>Complete runs: with the accepting instruction behind a fragment, its runs are its relation.\<close>

lemma fragment_exact:
  assumes f: "fragment P t ic s e R" and stop: "P ! e = Match" and e: "e < length P"
  shows "nsteps P t ic (s, i) (e, j) \<longleftrightarrow> (i, j) \<in> R"
proof
  obtain K where K: "K s = R O Id" "K e = Id" "annotated P t ic s e K"
    by (rule fragment_annotation [OF f])
  have "nsteps P t ic c (e, j) \<Longrightarrow> s \<le> fst c \<Longrightarrow> fst c \<le> e \<Longrightarrow> (snd c, j) \<in> K (fst c)" for c
  proof (induction rule: converse_rtranclp_induct)
    case base
    then show ?case by (simp add: K(2))
  next
    case (step y z)
    obtain pc i where y: "y = (pc, i)" by (cases y)
    obtain q i' where z: "z = (q, i')" by (cases z)
    have "pc \<noteq> e" using step.hyps(1) stop by (auto simp: y z elim: nstep_cases)
    then have pc: "s \<le> pc" "pc < e" using step.prems by (auto simp: y)
    have n: "nstep P t ic (pc, i) (q, i')" using step.hyps(1) by (simp add: y z)
    then show ?case
      using step.IH fragment_in [OF f n pc] annotatedD [OF K(3) n _ pc] by (simp add: y z)
  qed
  then have "nsteps P t ic (s, i) (e, j) \<Longrightarrow> (i, j) \<in> K s"
    using fragment_bounds [OF f] by fastforce
  then show "nsteps P t ic (s, i) (e, j) \<Longrightarrow> (i, j) \<in> R" by (simp add: K(1))
qed (rule fragment_run [OF f])

section \<open>How fragments compose\<close>

lemma fragment_empty: "s \<le> length P \<Longrightarrow> fragment P t ic s s Id"
  by (rule fragmentI) (auto simp: annotated_def)

lemma fragment_seq:
  assumes f: "fragment P t ic s m R" and g: "fragment P t ic m e S"
  shows "fragment P t ic s e (R O S)"
proof (rule fragmentI)
  show "s \<le> e" "e \<le> length P" using fragment_bounds [OF f] fragment_bounds [OF g] by auto
  show "nsteps P t ic (s, i) (e, j)" if "(i, j) \<in> R O S" for i j
    using that fragment_run [OF f] fragment_run [OF g] by (blast intro: rtranclp_trans)
  show "s \<le> q \<and> q \<le> e" if "s \<le> pc" "pc < e" "nstep P t ic (pc, i) (q, i')" for pc i q i'
    using that fragment_in [OF f that(3)] fragment_in [OF g that(3)] fragment_bounds [OF f] fragment_bounds [OF g]
    by (cases "pc < m") auto
  fix Q
  obtain L where L: "L m = S O Q" "L e = Q" "annotated P t ic m e L" by (rule fragment_annotation [OF g])
  obtain K where K: "K s = R O (S O Q)" "K m = S O Q" "annotated P t ic s m K" by (rule fragment_annotation [OF f])
  define H where "H pc = (if pc < m then K pc else L pc)" for pc
  have H: "H pc = K pc" if "pc \<le> m" for pc using that K(2) L(1) by (auto simp: H_def)
  have "annotated P t ic s e H"
  proof (rule annotatedI)
    fix pc i q i' j
    assume a: "s \<le> pc" "pc < e" "nstep P t ic (pc, i) (q, i')" "(i', j) \<in> H q"
    show "(i, j) \<in> H pc"
    proof (cases "pc < m")
      case True
      then show ?thesis using a H fragment_in [OF f a(3,1)] annotatedD [OF K(3) a(3) _ a(1)] by simp
    next
      case False
      then have "m \<le> q" "m \<le> pc" using fragment_in [OF g a(3)] a(2) by auto
      then show ?thesis using a annotatedD [OF L(3) a(3)] by (simp add: H_def)
    qed
  qed
  moreover have "H s = (R O S) O Q" using H fragment_bounds [OF f] K(1) by (simp add: O_assoc)
  moreover have "H e = Q" using fragment_bounds [OF g] L(2) by (simp add: H_def)
  ultimately show "\<exists>K. K s = (R O S) O Q \<and> K e = Q \<and> annotated P t ic s e K" by blast
qed

text \<open>One instruction that only goes on to the next one.\<close>

lemma fragment_one:
  assumes s: "s < length P"
    and step: "\<And>i q i'. nstep P t ic (s, i) (q, i') \<longleftrightarrow> q = Suc s \<and> (i, i') \<in> R"
  shows "fragment P t ic s (Suc s) R"
proof (rule fragmentI)
  show "nsteps P t ic (s, i) (Suc s, j)" if "(i, j) \<in> R" for i j using that step by blast
  show "s \<le> q \<and> q \<le> Suc s" if "s \<le> pc" "pc < Suc s" "nstep P t ic (pc, i) (q, i')" for pc i q i'
    using that step by (simp add: le_antisym less_Suc_eq_le)
  fix Q
  have "annotated P t ic s (Suc s) (\<lambda>pc. if pc = s then R O Q else Q)"
    by (rule annotatedI) (auto simp: less_Suc_eq_le step dest!: le_antisym)
  then show "\<exists>K. K s = R O Q \<and> K (Suc s) = Q \<and> annotated P t ic s (Suc s) K"
    by (intro exI [of _ "\<lambda>pc. if pc = s then R O Q else Q"]) simp
qed (use s in simp_all)

lemma fragment_atom:
  "s < length P \<Longrightarrow> P ! s = IAtom a \<Longrightarrow>
   fragment P t ic s (Suc s) {(i, Suc i) | i. i < length t \<and> atom_one a (t ! i) ic}"
  by (rule fragment_one) (auto simp: nstep_iff)

lemma fragment_bol: "s < length P \<Longrightarrow> P ! s = IBol \<Longrightarrow> fragment P t ic s (Suc s) {(0, 0)}"
  by (rule fragment_one) (auto simp: nstep_iff)

lemma fragment_eol: "s < length P \<Longrightarrow> P ! s = IEol \<Longrightarrow> fragment P t ic s (Suc s) {(length t, length t)}"
  by (rule fragment_one) (auto simp: nstep_iff)

text \<open>\<open>a?\<close>: the split jumps over the atom.\<close>

lemma fragment_opt:
  assumes f: "fragment P t ic (Suc s) e R" and sp: "P ! s = Split (Suc s) e"
  shows "fragment P t ic s e (Id \<union> R)"
proof (rule fragmentI)
  have b: "Suc s \<le> e" "e \<le> length P" using fragment_bounds [OF f] by auto
  then show "s \<le> e" "e \<le> length P" by auto
  have head: "nstep P t ic (s, i) (q, i') \<longleftrightarrow> i' = i \<and> (q = Suc s \<or> q = e)" for i q i'
    using b sp by (auto simp: nstep_iff)
  show "nsteps P t ic (s, i) (e, j)" if "(i, j) \<in> Id \<union> R" for i j
    using that fragment_run [OF f, of i j] head [of i "Suc s" i] head [of i e i]
    by (auto intro: converse_rtranclp_into_rtranclp)
  show "s \<le> q \<and> q \<le> e" if "s \<le> pc" "pc < e" "nstep P t ic (pc, i) (q, i')" for pc i q i'
    using that head b fragment_in [OF f that(3)] by (cases "pc = s") auto
  fix Q
  obtain K where K: "K (Suc s) = R O Q" "K e = Q" "annotated P t ic (Suc s) e K"
    by (rule fragment_annotation [OF f])
  have "annotated P t ic s e (K(s := (Id \<union> R) O Q))"
  proof (rule annotatedI)
    fix pc i q i' j
    assume a: "s \<le> pc" "pc < e" "nstep P t ic (pc, i) (q, i')" "(i', j) \<in> (K(s := (Id \<union> R) O Q)) q"
    show "(i, j) \<in> (K(s := (Id \<union> R) O Q)) pc"
    proof (cases "pc = s")
      case True
      then show ?thesis using a head K(1,2) b by auto
    next
      case False
      then show ?thesis using a annotatedD [OF K(3) a(3)] fragment_in [OF f a(3)] by auto
    qed
  qed
  then show "\<exists>K. K s = (Id \<union> R) O Q \<and> K e = Q \<and> annotated P t ic s e K"
    using K(2) b by (intro exI [of _ "K(s := (Id \<union> R) O Q)"]) auto
qed

text \<open>\<open>a*\<close>: the split jumps out of the loop, the jump behind the atom goes back to it.\<close>

lemma fragment_star:
  assumes f: "fragment P t ic (Suc s) m R" and sp: "P ! s = Split (Suc s) (Suc m)"
    and j: "P ! m = Jmp s" and m: "m < length P"
  shows "fragment P t ic s (Suc m) (R\<^sup>*)"
proof (rule fragmentI)
  have b: "Suc s \<le> m" using fragment_bounds [OF f] by auto
  then show "s \<le> Suc m" "Suc m \<le> length P" using m by auto
  have head: "nstep P t ic (s, i) (q, i') \<longleftrightarrow> i' = i \<and> (q = Suc s \<or> q = Suc m)" for i q i'
    using b m sp by (auto simp: nstep_iff)
  have tail: "nstep P t ic (m, i) (q, i') \<longleftrightarrow> i' = i \<and> q = s" for i q i'
    using m j by (auto simp: nstep_iff)
  have once: "nsteps P t ic (s, i) (s, k)" if "(i, k) \<in> R" for i k
    using fragment_run [OF f that] head [of i "Suc s" i] tail [of k s k]
    by (auto intro: converse_rtranclp_into_rtranclp rtranclp.rtrancl_into_rtrancl)
  have "nsteps P t ic (s, i) (s, k)" if "(i, k) \<in> R\<^sup>*" for i k
    using that by (induction rule: rtrancl_induct) (auto intro: rtranclp_trans once)
  then show "nsteps P t ic (s, i) (Suc m, k)" if "(i, k) \<in> R\<^sup>*" for i k
    using that head [of k "Suc m" k] by (auto intro: rtranclp.rtrancl_into_rtrancl)
  show "s \<le> q \<and> q \<le> Suc m" if "s \<le> pc" "pc < Suc m" "nstep P t ic (pc, i) (q, i')" for pc i q i'
    using that head tail b fragment_in [OF f that(3)] by (cases "pc = s \<or> pc = m") auto
  fix Q
  obtain K where K: "K (Suc s) = R O (R\<^sup>* O Q)" "K m = R\<^sup>* O Q" "annotated P t ic (Suc s) m K"
    by (rule fragment_annotation [OF f])
  have unroll: "R O R\<^sup>* O Q \<subseteq> R\<^sup>* O Q" "Q \<subseteq> R\<^sup>* O Q" by (auto intro: converse_rtrancl_into_rtrancl)
  define H where "H = K(s := R\<^sup>* O Q, Suc m := Q)"
  have "annotated P t ic s (Suc m) H"
  proof (rule annotatedI)
    fix pc i q i' j
    assume a: "s \<le> pc" "pc < Suc m" "nstep P t ic (pc, i) (q, i')" "(i', j) \<in> H q"
    consider "pc = s" | "pc = m" | "Suc s \<le> pc" "pc < m" using a by linarith
    then show "(i, j) \<in> H pc"
    proof cases
      case 1
      then show ?thesis using a head K(1) unroll b by (auto simp: H_def)
    next
      case 2
      then show ?thesis using a tail K(2) b by (auto simp: H_def)
    next
      case 3
      then show ?thesis using a annotatedD [OF K(3) a(3)] fragment_in [OF f a(3)] by (auto simp: H_def)
    qed
  qed
  then show "\<exists>K. K s = R\<^sup>* O Q \<and> K (Suc m) = Q \<and> annotated P t ic s (Suc m) K"
    using b by (intro exI [of _ H]) (auto simp: H_def)
qed

text \<open>\<open>a+\<close>: the split behind the atom goes back to it.\<close>

lemma fragment_plus:
  assumes f: "fragment P t ic s m R" and sp: "P ! m = Split s (Suc m)" and m: "m < length P"
  shows "fragment P t ic s (Suc m) (R\<^sup>+)"
proof (rule fragmentI)
  have b: "s \<le> m" using fragment_bounds [OF f] by auto
  then show "s \<le> Suc m" "Suc m \<le> length P" using m by auto
  have tail: "nstep P t ic (m, i) (q, i') \<longleftrightarrow> i' = i \<and> (q = s \<or> q = Suc m)" for i q i'
    using m sp by (auto simp: nstep_iff)
  have "nsteps P t ic (s, i) (m, k)" if "(i, k) \<in> R\<^sup>+" for i k
    using that
  proof (induction rule: trancl_induct)
    case (step y z)
    then have "nsteps P t ic (s, i) (s, y)" using tail [of y s y] by (auto intro: rtranclp.rtrancl_into_rtrancl)
    then show ?case using fragment_run [OF f step.hyps(2)] by (rule rtranclp_trans)
  qed (rule fragment_run [OF f])
  then show "nsteps P t ic (s, i) (Suc m, k)" if "(i, k) \<in> R\<^sup>+" for i k
    using that tail [of k "Suc m" k] by (auto intro: rtranclp.rtrancl_into_rtrancl)
  show "s \<le> q \<and> q \<le> Suc m" if "s \<le> pc" "pc < Suc m" "nstep P t ic (pc, i) (q, i')" for pc i q i'
    using that tail b fragment_in [OF f that(3)] by (cases "pc = m") auto
  fix Q
  obtain K where K: "K s = R O (R\<^sup>* O Q)" "K m = R\<^sup>* O Q" "annotated P t ic s m K"
    by (rule fragment_annotation [OF f])
  have unroll: "R O R\<^sup>* O Q = R\<^sup>+ O Q" by (simp add: trancl_unfold_left O_assoc)
  have weaker: "R O R\<^sup>* O Q \<subseteq> R\<^sup>* O Q" "Q \<subseteq> R\<^sup>* O Q" by (auto intro: converse_rtrancl_into_rtrancl)
  define H where "H = K(Suc m := Q)"
  have "annotated P t ic s (Suc m) H"
  proof (rule annotatedI)
    fix pc i q i' j
    assume a: "s \<le> pc" "pc < Suc m" "nstep P t ic (pc, i) (q, i')" "(i', j) \<in> H q"
    show "(i, j) \<in> H pc"
    proof (cases "pc = m")
      case True
      then show ?thesis using a tail K(1,2) weaker b by (auto simp: H_def)
    next
      case False
      then show ?thesis using a annotatedD [OF K(3) a(3)] fragment_in [OF f a(3)] by (auto simp: H_def)
    qed
  qed
  then show "\<exists>K. K s = R\<^sup>+ O Q \<and> K (Suc m) = Q \<and> annotated P t ic s (Suc m) K"
    using b K(1) unroll by (intro exI [of _ H]) (auto simp: H_def)
qed

text \<open>\<open>a|b\<close>: the split chooses, the jump behind the first branch passes over the second.\<close>

lemma fragment_alt:
  assumes f: "fragment P t ic (Suc s) m R" and g: "fragment P t ic (Suc m) e S"
    and sp: "P ! s = Split (Suc s) (Suc m)" and j: "P ! m = Jmp e"
  shows "fragment P t ic s e (R \<union> S)"
proof (rule fragmentI)
  have b: "Suc s \<le> m" "Suc m \<le> e" "e \<le> length P" using fragment_bounds [OF f] fragment_bounds [OF g] by auto
  then show "s \<le> e" "e \<le> length P" by auto
  have head: "nstep P t ic (s, i) (q, i') \<longleftrightarrow> i' = i \<and> (q = Suc s \<or> q = Suc m)" for i q i'
    using b sp by (auto simp: nstep_iff)
  have tail: "nstep P t ic (m, i) (q, i') \<longleftrightarrow> i' = i \<and> q = e" for i q i'
    using b j by (auto simp: nstep_iff)
  show "nsteps P t ic (s, i) (e, k)" if "(i, k) \<in> R \<union> S" for i k
    using that fragment_run [OF f, of i k] fragment_run [OF g, of i k]
      head [of i "Suc s" i] head [of i "Suc m" i] tail [of k e k]
    by (auto intro: converse_rtranclp_into_rtranclp rtranclp.rtrancl_into_rtrancl)
  show "s \<le> q \<and> q \<le> e" if "s \<le> pc" "pc < e" "nstep P t ic (pc, i) (q, i')" for pc i q i'
    using that head tail b fragment_in [OF f that(3)] fragment_in [OF g that(3)]
    by (cases "pc = s \<or> pc = m"; cases "pc < m") auto
  fix Q
  obtain K where K: "K (Suc s) = R O Q" "K m = Q" "annotated P t ic (Suc s) m K"
    by (rule fragment_annotation [OF f])
  obtain L where L: "L (Suc m) = S O Q" "L e = Q" "annotated P t ic (Suc m) e L"
    by (rule fragment_annotation [OF g])
  define H where "H pc = (if pc = s then (R \<union> S) O Q else if pc \<le> m then K pc else L pc)" for pc
  have "annotated P t ic s e H"
  proof (rule annotatedI)
    fix pc i q i' j
    assume a: "s \<le> pc" "pc < e" "nstep P t ic (pc, i) (q, i')" "(i', j) \<in> H q"
    consider "pc = s" | "pc = m" | "Suc s \<le> pc" "pc < m" | "Suc m \<le> pc" using a by linarith
    then show "(i, j) \<in> H pc"
    proof cases
      case 1
      then show ?thesis using a head K(1) L(1) b by (auto simp: H_def split: if_splits)
    next
      case 2
      then show ?thesis using a tail K(2) L(2) b by (auto simp: H_def)
    next
      case 3
      then show ?thesis using a annotatedD [OF K(3) a(3)] fragment_in [OF f a(3)] by (auto simp: H_def)
    next
      case 4
      then show ?thesis using a b annotatedD [OF L(3) a(3)] fragment_in [OF g a(3)] by (auto simp: H_def)
    qed
  qed
  then show "\<exists>K. K s = (R \<union> S) O Q \<and> K e = Q \<and> annotated P t ic s e K"
    using b L(2) by (intro exI [of _ H]) (auto simp: H_def)
qed

section \<open>What the emission lays down\<close>

definition code_at :: "prog \<Rightarrow> nat \<Rightarrow> prog \<Rightarrow> bool" where
  "code_at P s c \<longleftrightarrow> s + length c \<le> length P \<and> (\<forall>k < length c. P ! (s + k) = c ! k)"

lemma code_at_append: "code_at P s (c @ d) \<longleftrightarrow> code_at P s c \<and> code_at P (s + length c) d"
proof -
  have "(\<forall>k < length c + length d. P ! (s + k) = (c @ d) ! k) \<longleftrightarrow>
      (\<forall>k < length c. P ! (s + k) = c ! k) \<and> (\<forall>k < length d. P ! (s + length c + k) = d ! k)"
    (is "?l \<longleftrightarrow> ?c \<and> ?d")
  proof
    assume l: ?l
    have ?c using l by (auto simp: nth_append)
    moreover have ?d
    proof (intro allI impI)
      fix k assume "k < length d"
      then show "P ! (s + length c + k) = d ! k" using l [rule_format, of "length c + k"] by (simp add: add.assoc)
    qed
    ultimately show "?c \<and> ?d" ..
  next
    assume r: "?c \<and> ?d"
    show ?l
    proof (intro allI impI)
      fix k assume k: "k < length c + length d"
      show "P ! (s + k) = (c @ d) ! k"
      proof (cases "k < length c")
        case False
        define n where "n = k - length c"
        have n: "k = length c + n" "n < length d" using False k by (auto simp: n_def)
        then show ?thesis using r by (simp add: add.assoc)
      qed (use r in \<open>simp add: nth_append\<close>)
    qed
  qed
  then show ?thesis by (auto simp: code_at_def)
qed

lemma code_at_Cons: "code_at P s (x # c) \<longleftrightarrow> s < length P \<and> P ! s = x \<and> code_at P (Suc s) c"
  using code_at_append [of P s "[x]" c] by (auto simp: code_at_def)

lemma code_at_Nil: "code_at P s [] \<longleftrightarrow> s \<le> length P"
  by (simp add: code_at_def)

lemmas code_at_simps = code_at_append code_at_Cons code_at_Nil

text \<open>Emitting onto \<open>prog\<close> gives \<open>prog'\<close>, whose new part runs \<open>R\<close> wherever it stands unchanged.\<close>

definition emits :: "string \<Rightarrow> bool \<Rightarrow> prog \<Rightarrow> prog \<Rightarrow> (nat \<times> nat) set \<Rightarrow> bool" where
  "emits t ic prog prog' R \<longleftrightarrow>
     (\<exists>c. prog' = prog @ c \<and>
        (\<forall>P. code_at P (length prog) c \<longrightarrow> fragment P t ic (length prog) (length prog') R))"

text \<open>The same for the loop over the alternatives, whose jumps at \<open>js\<close> are still to be patched.\<close>

definition loop_at :: "prog \<Rightarrow> nat \<Rightarrow> prog \<Rightarrow> nat list \<Rightarrow> nat \<Rightarrow> bool" where
  "loop_at P s c js e \<longleftrightarrow> s + length c \<le> length P \<and>
     (\<forall>k < length c. P ! (s + k) = (if List.member js (s + k) then Jmp e else c ! k))"

definition emits_loop :: "string \<Rightarrow> bool \<Rightarrow> prog \<Rightarrow> nat list \<Rightarrow> prog \<times> nat list \<Rightarrow> (nat \<times> nat) set \<Rightarrow> bool" where
  "emits_loop t ic prog jmps r R \<longleftrightarrow>
     (\<exists>c js. r = (prog @ c, jmps @ js) \<and> (\<forall>j \<in> set js. length prog \<le> j \<and> j < length prog + length c) \<and>
        (\<forall>P. loop_at P (length prog) c js (length prog + length c) \<longrightarrow>
             fragment P t ic (length prog) (length prog + length c) R))"

lemma emits_one:
  assumes "\<And>P s. s < length P \<Longrightarrow> P ! s = x \<Longrightarrow> fragment P t ic s (Suc s) R"
  shows "emits t ic prog (prog @ [x]) R"
  unfolding emits_def by (rule exI [of _ "[x]"]) (simp add: code_at_simps assms)

lemma emits_nil: "emits t ic prog prog Id"
  unfolding emits_def by (rule exI [of _ "[]"]) (simp add: code_at_simps fragment_empty)

lemma emits_seq:
  assumes "emits t ic prog prog' R" "emits t ic prog' prog'' S"
  shows "emits t ic prog prog'' (R O S)"
proof -
  obtain c where c: "prog' = prog @ c"
      "\<And>P. code_at P (length prog) c \<Longrightarrow> fragment P t ic (length prog) (length prog') R"
    using assms(1) unfolding emits_def by blast
  obtain d where d: "prog'' = prog' @ d"
      "\<And>P. code_at P (length prog') d \<Longrightarrow> fragment P t ic (length prog') (length prog'') S"
    using assms(2) unfolding emits_def by blast
  show ?thesis
    unfolding emits_def using c d
    by (intro exI [of _ "c @ d"]) (auto simp: code_at_simps intro: fragment_seq)
qed

text \<open>An item whose split is patched once its body is there.\<close>

lemma emits_opt:
  assumes "emits t ic (prog @ [Split (Suc (length prog)) 0]) prog' R"
  shows "emits t ic prog (prog'[length prog := Split (Suc (length prog)) (length prog')]) (Id \<union> R)"
proof -
  obtain c where c: "prog' = prog @ Split (Suc (length prog)) 0 # c"
      "\<And>P. code_at P (Suc (length prog)) c \<Longrightarrow> fragment P t ic (Suc (length prog)) (length prog') R"
    using assms unfolding emits_def by auto
  show ?thesis
    unfolding emits_def using c
    by (intro exI [of _ "Split (Suc (length prog)) (length prog') # c"])
       (auto simp: code_at_simps list_update_append intro: fragment_opt)
qed

lemma emits_star:
  assumes "emits t ic (prog @ [Split (Suc (length prog)) 0]) prog' R"
  shows "emits t ic prog ((prog' @ [Jmp (length prog)])[length prog := Split (Suc (length prog)) (Suc (length prog'))]) (R\<^sup>*)"
proof -
  obtain c where c: "prog' = prog @ Split (Suc (length prog)) 0 # c"
      "\<And>P. code_at P (Suc (length prog)) c \<Longrightarrow> fragment P t ic (Suc (length prog)) (length prog') R"
    using assms unfolding emits_def by auto
  show ?thesis
    unfolding emits_def using c
    by (intro exI [of _ "Split (Suc (length prog)) (Suc (length prog')) # c @ [Jmp (length prog)]"])
       (auto simp: code_at_simps list_update_append intro: fragment_star)
qed

lemma emits_plus:
  assumes "emits t ic prog prog' R"
  shows "emits t ic prog (prog' @ [Split (length prog) (Suc (length prog'))]) (R\<^sup>+)"
proof -
  obtain c where c: "prog' = prog @ c"
      "\<And>P. code_at P (length prog) c \<Longrightarrow> fragment P t ic (length prog) (length prog') R"
    using assms unfolding emits_def by blast
  show ?thesis
    unfolding emits_def using c
    by (intro exI [of _ "c @ [Split (length prog) (Suc (length prog'))]"])
       (auto simp: code_at_simps intro: fragment_plus)
qed

text \<open>The last alternative, and one before it.\<close>

lemma emits_loop_last:
  "emits t ic prog prog' R \<Longrightarrow> emits_loop t ic prog jmps (prog', jmps) R"
  unfolding emits_def emits_loop_def by (auto simp: loop_at_def code_at_def)

lemma patched_length [simp]: "length (fold (\<lambda>j p. p[j := x]) js p) = length p"
  by (induction js arbitrary: p) simp_all

lemma patched_nth:
  "k < length p \<Longrightarrow> fold (\<lambda>j p. p[j := x]) js p ! k = (if List.member js k then x else p ! k)"
  by (induction js arbitrary: p) (auto simp: nth_list_update)

lemma emits_patched:
  assumes "emits_loop t ic prog [] (prog', js) R"
  shows "emits t ic prog (fold (\<lambda>j p. p[j := Jmp (length prog')]) js prog') R"
proof -
  let ?p = "fold (\<lambda>j p. p[j := Jmp (length prog')]) js prog'"
  obtain c where c: "prog' = prog @ c" "\<forall>j \<in> set js. length prog \<le> j \<and> j < length prog + length c"
      "\<And>P. loop_at P (length prog) c js (length prog + length c) \<Longrightarrow>
         fragment P t ic (length prog) (length prog + length c) R"
    using assms unfolding emits_loop_def by auto
  define d where "d = drop (length prog) ?p"
  have l: "length d = length c" by (simp add: d_def c(1))
  have "take (length prog) ?p = prog"
    using c(1,2) by (intro nth_equalityI) (auto simp: patched_nth nth_append)
  then have p: "?p = prog @ d" unfolding d_def by (metis append_take_drop_id)
  have dk: "d ! k = (if List.member js (length prog + k) then Jmp (length prog') else c ! k)" if "k < length c" for k
    using that by (simp add: d_def c(1) patched_nth nth_append)
  have "fragment P t ic (length prog) (length ?p) R" if "code_at P (length prog) d" for P
    using that c(3) [of P] dk by (auto simp: code_at_def loop_at_def l c(1))
  then show ?thesis unfolding emits_def using p by blast
qed

lemma emits_loop_branch:
  assumes body: "emits t ic (prog @ [Split (Suc (length prog)) 0]) prog' R"
    and rest: "emits_loop t ic ((prog' @ [Jmp 0])[length prog := Split (Suc (length prog)) (Suc (length prog'))])
                 (jmps @ [length prog']) r S"
  shows "emits_loop t ic prog jmps r (R \<union> S)"
proof -
  obtain c where c: "prog' = prog @ Split (Suc (length prog)) 0 # c"
      "\<And>P. code_at P (Suc (length prog)) c \<Longrightarrow> fragment P t ic (Suc (length prog)) (length prog') R"
    using body unfolding emits_def by auto
  have l: "length prog' = Suc (length prog + length c)" by (simp add: c(1))
  let ?q = "(prog' @ [Jmp 0])[length prog := Split (Suc (length prog)) (Suc (length prog'))]"
  have q: "?q = prog @ Split (Suc (length prog)) (Suc (length prog')) # c @ [Jmp 0]"
    by (simp add: c(1) list_update_append)
  obtain d js where d: "r = (?q @ d, (jmps @ [length prog']) @ js)"
      "\<forall>j \<in> set js. length ?q \<le> j \<and> j < length ?q + length d"
      "\<And>P. loop_at P (length ?q) d js (length ?q + length d) \<Longrightarrow> fragment P t ic (length ?q) (length ?q + length d) S"
    using rest unfolding emits_loop_def by blast
  let ?c = "Split (Suc (length prog)) (Suc (length prog')) # c @ Jmp 0 # d"
  let ?e = "length prog + length ?c"
  have lq: "length ?q = Suc (length prog')" "?e = length ?q + length d" by (simp_all add: l)
  have "fragment P t ic (length prog) ?e (R \<union> S)" if P: "loop_at P (length prog) ?c (length prog' # js) ?e" for P
  proof (rule fragment_alt [of P t ic "length prog" "length prog'"])
    have at: "P ! (length prog + k) = (if List.member (length prog' # js) (length prog + k) then Jmp ?e else ?c ! k)"
      if "k < length ?c" for k using P that unfolding loop_at_def by blast
    have low: "\<not> List.member js k" if "k \<le> length prog'" for k
      using d(2) that lq(1) by auto
    show "P ! length prog = Split (Suc (length prog)) (Suc (length prog'))"
      using at [of 0] low [of "length prog"] l by simp
    show "P ! length prog' = Jmp ?e"
      using at [of "Suc (length c)"] by (simp add: l)
    have "code_at P (Suc (length prog)) c"
      using at [of "Suc _"] low P unfolding code_at_def loop_at_def by (auto simp: l nth_append)
    then show "fragment P t ic (Suc (length prog)) (length prog') R" by (rule c(2))
    have "loop_at P (length ?q) d js (length ?q + length d)"
      unfolding loop_at_def
    proof (intro conjI allI impI)
      show "length ?q + length d \<le> length P" using P lq by (auto simp: loop_at_def)
      fix k assume "k < length d"
      then show "P ! (length ?q + k) = (if List.member js (length ?q + k) then Jmp (length ?q + length d) else d ! k)"
        using at [of "Suc (Suc (length c + k))"] lq by (simp add: l nth_append add.assoc split: if_splits)
    qed
    then have "fragment P t ic (length ?q) (length ?q + length d) S" by (rule d(3))
    then show "fragment P t ic (Suc (length prog')) ?e S" using lq(2) [symmetric] lq(1) by (simp only: lq)
  qed
  moreover have "r = (prog @ ?c, jmps @ (length prog' # js))" by (simp add: d(1) q)
  moreover have "\<forall>j \<in> set (length prog' # js). length prog \<le> j \<and> j < ?e" using d(2) lq l by auto
  ultimately show ?thesis unfolding emits_loop_def by blast
qed

section \<open>The compiler\<close>

theorem emission:
  "emits t ic prog (emit_atom prog a) (sem_atom t ic a)"
  "emits t ic prog (emit_item prog it) (sem_item t ic it)"
  "emits t ic prog (emit_items prog its) (sem_seq t ic its)"
  "emits t ic prog (emit_alts prog alts) (sem_alts t ic alts)"
  "emits_loop t ic prog jmps (emit_loop prog jmps alts) (sem_alts t ic alts)"
proof (induction prog a and prog it and prog its and prog alts and prog jmps alts
    rule: emit_atom_emit_item_emit_items_emit_alts_emit_loop.induct)
  case (5 prog a mn mx)
  then show ?case by (auto simp: Let_def emits_opt emits_star emits_plus)
next
  case (8 prog alts)
  then show ?case by (auto simp: emits_patched split: prod.split)
next
  case (10 prog jmps alt alts)
  then show ?case by (auto simp: Let_def emits_loop_last intro: emits_loop_branch)
next
  case 9
  then show ?case by (simp add: emits_loop_last emits_nil)
qed (simp_all add: emits_one emits_nil emits_seq fragment_bol fragment_eol fragment_atom)

end
