(* ===== verification/Kill_Regex_Match.thy ===== *)
theory Kill_Regex_Match
  imports Kill_Regex_Emit
begin

text \<open>
  The simulation of the automaton computes reachability: the marks of a generation are the states
  reachable at that position, the state set its atoms and accepting instructions. No index leaves
  the program.
\<close>

section \<open>Closure without reading\<close>

definition idle_succ :: "prog \<Rightarrow> nat \<Rightarrow> nat \<Rightarrow> nat \<Rightarrow> nat list" where
  "idle_succ P pos len pc =
     (case P ! pc of
        Jmp a \<Rightarrow> [a]
      | Split a b \<Rightarrow> [a, b]
      | IBol \<Rightarrow> if pos = 0 then [Suc pc] else []
      | IEol \<Rightarrow> if pos = len then [Suc pc] else []
      | _ \<Rightarrow> [])"

definition idle :: "prog \<Rightarrow> nat \<Rightarrow> nat \<Rightarrow> nat \<Rightarrow> nat \<Rightarrow> bool" where
  "idle P pos len pc q \<longleftrightarrow> pc < length P \<and> q \<in> set (idle_succ P pos len pc)"

definition halting :: "prog \<Rightarrow> nat \<Rightarrow> bool" where
  "halting P pc \<longleftrightarrow> (case P ! pc of IAtom _ \<Rightarrow> True | Match \<Rightarrow> True | _ \<Rightarrow> False)"

definition well_placed :: "prog \<Rightarrow> bool" where
  "well_placed P \<longleftrightarrow> (\<forall>pc < length P. case P ! pc of
        Jmp a \<Rightarrow> a < length P
      | Split a b \<Rightarrow> a < length P \<and> b < length P
      | Match \<Rightarrow> True
      | _ \<Rightarrow> Suc pc < length P)"

definition marked :: "nat option list \<Rightarrow> nat \<Rightarrow> nat set" where
  "marked mark gen = {pc. pc < length mark \<and> mark ! pc = Some gen}"

definition closed_upto :: "prog \<Rightarrow> nat \<Rightarrow> nat \<Rightarrow> nat set \<Rightarrow> nat set \<Rightarrow> bool" where
  "closed_upto P pos len M S \<longleftrightarrow> (\<forall>pc \<in> M. \<forall>q. idle P pos len pc q \<longrightarrow> q \<in> M \<union> S)"

abbreviation closure :: "prog \<Rightarrow> nat \<Rightarrow> nat \<Rightarrow> nat set \<Rightarrow> nat set" where
  "closure P pos len S \<equiv> {q. \<exists>p \<in> S. (idle P pos len)\<^sup>*\<^sup>* p q}"

lemma marked_update:
  "pc < length mark \<Longrightarrow> marked (mark[pc := Some gen]) gen = insert pc (marked mark gen)"
  by (auto simp: marked_def nth_list_update)

lemma marked_fresh: "Some gen \<notin> set mark \<Longrightarrow> marked mark gen = {}"
  by (auto simp: marked_def in_set_conv_nth)

lemma closure_closed:
  assumes "closed_upto P pos len M {}"
  shows "closure P pos len M = M"
proof -
  have "q \<in> M" if "(idle P pos len)\<^sup>*\<^sup>* p q" "p \<in> M" for p q
    using that by (induction rule: rtranclp_induct) (use assms in \<open>auto simp: closed_upto_def\<close>)
  then show ?thesis by blast
qed

text \<open>Replacing a state by its successors keeps the closure.\<close>

lemma closure_unfold:
  assumes "pc \<in> S" "\<And>q. q \<in> T \<Longrightarrow> q \<in> S \<or> idle P pos len pc q" "S \<subseteq> T"
  shows "closure P pos len T = closure P pos len S"
proof (intro equalityI subsetI)
  fix x assume "x \<in> closure P pos len T"
  then obtain q where q: "q \<in> T" "(idle P pos len)\<^sup>*\<^sup>* q x" by blast
  then consider "q \<in> S" | "idle P pos len pc q" using assms(2) by blast
  then show "x \<in> closure P pos len S"
    using q(2) assms(1) by cases (auto intro: converse_rtranclp_into_rtranclp)
qed (use assms(3) in blast)

lemma add_states_step:
  assumes "pc < length mark" "pc < length P" "mark ! pc \<noteq> Some gen"
  shows "add_states P gen pos len mark acc (pc # stack) =
    add_states P gen pos len (mark[pc := Some gen]) (if halting P pc then acc @ [pc] else acc)
      (idle_succ P pos len pc @ stack)"
  using assms by (cases "P ! pc") (simp_all add: Let_def halting_def idle_succ_def)

lemma idle_in: "well_placed P \<Longrightarrow> pc < length P \<Longrightarrow> q \<in> set (idle_succ P pos len pc) \<Longrightarrow> q < length P"
  unfolding well_placed_def idle_succ_def by (drule spec [of _ pc]) (auto split: inst.splits if_splits)

definition addable :: "prog \<Rightarrow> nat \<Rightarrow> nat \<Rightarrow> nat \<Rightarrow> nat option list \<Rightarrow> nat list \<Rightarrow> nat list \<Rightarrow> bool" where
  "addable P gen pos len mark acc stack \<longleftrightarrow>
     length mark = length P \<and> set stack \<subseteq> {..< length P} \<and>
     closed_upto P pos len (marked mark gen) (set stack) \<and>
     set acc = {pc \<in> marked mark gen. halting P pc}"

definition added :: "prog \<Rightarrow> nat \<Rightarrow> nat \<Rightarrow> nat \<Rightarrow> nat option list \<Rightarrow> nat set \<Rightarrow> (nat option list \<times> nat list) option \<Rightarrow> bool" where
  "added P gen pos len mark S r \<longleftrightarrow> (\<exists>mark' acc'. r = Some (mark', acc') \<and>
     length mark' = length P \<and> set mark' \<subseteq> insert (Some gen) (set mark) \<and>
     marked mark' gen = closure P pos len S \<and>
     closed_upto P pos len (marked mark' gen) {} \<and>
     set acc' = {pc \<in> marked mark' gen. halting P pc})"

lemma added_mono:
  "added P gen pos len mark' S r \<Longrightarrow> set mark' \<subseteq> insert (Some gen) (set mark) \<Longrightarrow>
   closure P pos len S = closure P pos len S' \<Longrightarrow> added P gen pos len mark S' r"
  unfolding added_def by (elim exE conjE) (intro exI conjI; (assumption | blast))

lemma addable_step:
  assumes P: "well_placed P" and a: "addable P gen pos len mark acc (pc # stack)" and m: "mark ! pc \<noteq> Some gen"
  shows "addable P gen pos len (mark[pc := Some gen]) (if halting P pc then acc @ [pc] else acc)
      (idle_succ P pos len pc @ stack)"
proof -
  have pc: "pc < length mark" "pc < length P" using a by (auto simp: addable_def)
  have "closed_upto P pos len (insert pc (marked mark gen)) (set (idle_succ P pos len pc @ stack))"
    using a by (auto simp: addable_def closed_upto_def idle_def)
  then show ?thesis
    using a idle_in [OF P pc(2)] pc by (auto simp: addable_def marked_update)
qed

lemma add_states_correct:
  "well_placed P \<Longrightarrow> addable P gen pos len mark acc stack \<Longrightarrow>
   added P gen pos len mark (marked mark gen \<union> set stack) (add_states P gen pos len mark acc stack)"
proof (induction "length (filter (\<lambda>m. m \<noteq> Some gen) mark)" arbitrary: mark acc stack rule: less_induct)
  case less
  show ?case
    using less.prems(2)
  proof (induction stack)
    case Nil
    then have c: "closed_upto P pos len (marked mark gen) {}" by (simp add: addable_def)
    show ?case using Nil c closure_closed [OF c] by (auto simp: added_def addable_def)
  next
    case (Cons pc stack)
    have pc: "pc < length mark" "pc < length P" using Cons.prems by (auto simp: addable_def)
    show ?case
    proof (cases "mark ! pc = Some gen")
      case True
      then have "pc \<in> marked mark gen" using pc by (auto simp: marked_def)
      then have e: "marked mark gen \<union> set (pc # stack) = marked mark gen \<union> set stack" by auto
      have "addable P gen pos len mark acc stack"
        using Cons.prems \<open>pc \<in> marked mark gen\<close> by (auto simp: addable_def closed_upto_def)
      then show ?thesis using Cons.IH True pc unfolding e by simp
    next
      case False
      let ?mark = "mark[pc := Some gen]"
      let ?stack = "idle_succ P pos len pc @ stack"
      have "added P gen pos len ?mark (marked ?mark gen \<union> set ?stack)
          (add_states P gen pos len ?mark (if halting P pc then acc @ [pc] else acc) ?stack)"
        by (rule less.hyps [OF unmarked_less [OF pc(1) False] less.prems(1) addable_step [OF less.prems(1) Cons.prems False]])
      moreover have "closure P pos len (marked ?mark gen \<union> set ?stack) = closure P pos len (marked mark gen \<union> set (pc # stack))"
        by (rule closure_unfold [of pc]) (auto simp: marked_update pc idle_def)
      moreover have "set ?mark \<subseteq> insert (Some gen) (set mark)" by (rule set_update_subset_insert)
      ultimately show ?thesis unfolding add_states_step [OF pc False] by (blast intro: added_mono)
    qed
  qed
qed

section \<open>Reachability from the start positions\<close>

definition Reach :: "prog \<Rightarrow> string \<Rightarrow> bool \<Rightarrow> nat set \<Rightarrow> nat \<Rightarrow> nat set" where
  "Reach P t ic I pos = {pc. \<exists>i \<in> I. nsteps P t ic (0, i) (pc, pos)}"

definition reads :: "prog \<Rightarrow> bool \<Rightarrow> char \<Rightarrow> nat \<Rightarrow> bool" where
  "reads P ic ch pc \<longleftrightarrow> pc < length P \<and> (case P ! pc of IAtom a \<Rightarrow> atom_one a ch ic | _ \<Rightarrow> False)"

lemma nstep_idle_or_read:
  "nstep P t ic (pc, i) (q, j) \<longleftrightarrow>
     j = i \<and> idle P i (length t) pc q \<or> i < length t \<and> j = Suc i \<and> q = Suc pc \<and> reads P ic (t ! i) pc"
  by (cases "pc < length P"; cases "P ! pc") (auto simp: nstep_iff idle_def idle_succ_def reads_def)

lemma idles_nsteps: "(idle P i (length t))\<^sup>*\<^sup>* p q \<Longrightarrow> nsteps P t ic (p, i) (q, i)"
  by (induction rule: rtranclp_induct) (auto simp: nstep_idle_or_read intro: rtranclp.rtrancl_into_rtrancl)

lemma nsteps_mono: "nsteps P t ic c d \<Longrightarrow> snd c \<le> snd d"
  by (induction rule: rtranclp_induct) (auto simp: nstep_idle_or_read)

lemma nsteps_still:
  assumes "nsteps P t ic (p, i) d"
  shows "snd d = i \<Longrightarrow> (idle P i (length t))\<^sup>*\<^sup>* p (fst d)"
  using assms
proof (induction rule: rtranclp_induct)
  case (step y z)
  obtain pc j where y: "y = (pc, j)" by (cases y)
  obtain q k where z: "z = (q, k)" by (cases z)
  have "i \<le> j" using nsteps_mono [OF step.hyps(1)] y by simp
  then have "j = i" "idle P i (length t) pc q" using step.hyps(2) step.prems by (auto simp: y z nstep_idle_or_read)
  then show ?case using step.IH by (auto simp: y z)
qed simp

lemma Reach_add:
  "Reach P t ic (insert pos I) pos = closure P pos (length t) (Reach P t ic I pos \<union> {0})"
proof (intro equalityI subsetI)
  fix x assume "x \<in> Reach P t ic (insert pos I) pos"
  then obtain i where "i \<in> insert pos I" "nsteps P t ic (0, i) (x, pos)" by (auto simp: Reach_def)
  then show "x \<in> closure P pos (length t) (Reach P t ic I pos \<union> {0})"
    using nsteps_still [of P t ic 0 pos "(x, pos)"] by (auto simp: Reach_def)
next
  fix x assume "x \<in> closure P pos (length t) (Reach P t ic I pos \<union> {0})"
  then obtain p where p: "p \<in> Reach P t ic I pos \<union> {0}" "(idle P pos (length t))\<^sup>*\<^sup>* p x" by blast
  note run = idles_nsteps [OF p(2), of ic]
  show "x \<in> Reach P t ic (insert pos I) pos"
    using p(1) run by (auto simp: Reach_def intro: rtranclp_trans)
qed

lemma Reach_next:
  assumes "I \<subseteq> {..pos}" "pos < length t"
  shows "Reach P t ic I (Suc pos) = closure P (Suc pos) (length t) {Suc pc | pc. pc \<in> Reach P t ic I pos \<and> reads P ic (t ! pos) pc}"
    (is "_ = closure _ _ _ ?D")
proof (intro equalityI subsetI)
  fix x assume "x \<in> Reach P t ic I (Suc pos)"
  then obtain i where i: "i \<in> I" "nsteps P t ic (0, i) (x, Suc pos)" by (auto simp: Reach_def)
  have "nsteps P t ic (0, i) d \<Longrightarrow> snd d = Suc pos \<Longrightarrow> fst d \<in> closure P (Suc pos) (length t) ?D" for d
  proof (induction rule: rtranclp_induct)
    case base
    then show ?case using i(1) assms(1) by auto
  next
    case (step y z)
    obtain pc j where y: "y = (pc, j)" by (cases y)
    obtain q k where z: "z = (q, k)" by (cases z)
    consider "j = Suc pos" "idle P j (length t) pc q" | "j = pos" "q = Suc pc" "reads P ic (t ! pos) pc"
      using step.hyps(2) step.prems by (auto simp: y z nstep_idle_or_read)
    then show ?case
    proof cases
      case 1
      then show ?thesis using step.IH by (auto simp: y z intro: rtranclp.rtrancl_into_rtrancl)
    next
      case 2
      then have "q \<in> ?D" using step.hyps(1) i(1) by (auto simp: Reach_def y)
      then show ?thesis using z by auto
    qed
  qed
  then show "x \<in> closure P (Suc pos) (length t) ?D" using i(2) by fastforce
next
  fix x assume "x \<in> closure P (Suc pos) (length t) ?D"
  then obtain pc where pc: "pc \<in> Reach P t ic I pos" "reads P ic (t ! pos) pc"
      "(idle P (Suc pos) (length t))\<^sup>*\<^sup>* (Suc pc) x" by blast
  have "nstep P t ic (pc, pos) (Suc pc, Suc pos)" using pc(2) assms(2) by (simp add: nstep_idle_or_read)
  then have "nsteps P t ic (pc, pos) (x, Suc pos)" using idles_nsteps [OF pc(3)] by (rule converse_rtranclp_into_rtranclp)
  then show "x \<in> Reach P t ic I (Suc pos)"
    using pc(1) by (auto simp: Reach_def intro: rtranclp_trans)
qed

section \<open>The loops\<close>

lemma closure_union:
  "closure P pos len (closure P pos len A \<union> B) = closure P pos len (A \<union> B)"
  by (auto intro: rtranclp_trans)

lemma reads_next: "well_placed P \<Longrightarrow> reads P ic ch pc \<Longrightarrow> Suc pc < length P"
  unfolding well_placed_def reads_def by (elim conjE) (drule spec [of _ pc], auto split: inst.splits)

lemma advance_correct:
  assumes P: "well_placed P"
  shows "addable P (Suc pos) (Suc pos) len mark nxt [] \<Longrightarrow> set pcs \<subseteq> {..< length P} \<Longrightarrow>
    added P (Suc pos) (Suc pos) len mark (marked mark (Suc pos) \<union> {Suc pc | pc. pc \<in> set pcs \<and> reads P ic ch pc})
      (advance P ic ch pos len mark nxt pcs)"
proof (induction pcs arbitrary: mark nxt)
  case Nil
  then have c: "closed_upto P (Suc pos) len (marked mark (Suc pos)) {}" by (simp add: addable_def)
  show ?case using Nil c closure_closed [OF c] by (auto simp: added_def addable_def)
next
  case (Cons pc pcs)
  show ?case
  proof (cases "reads P ic ch pc")
    case False
    then have "advance P ic ch pos len mark nxt (pc # pcs) = advance P ic ch pos len mark nxt pcs"
      using Cons.prems by (auto simp: reads_def split: inst.splits)
    moreover have "{Suc q | q. q \<in> set (pc # pcs) \<and> reads P ic ch q} = {Suc q | q. q \<in> set pcs \<and> reads P ic ch q}"
      using False by auto
    ultimately show ?thesis using Cons by simp
  next
    case True
    have "addable P (Suc pos) (Suc pos) len mark nxt [Suc pc]"
      using Cons.prems(1) reads_next [OF P True] by (auto simp: addable_def closed_upto_def)
    from add_states_correct [OF P this] obtain mark' nxt' where a:
      "add_state P mark (Suc pos) nxt (Suc pc) (Suc pos) len = Some (mark', nxt')" "length mark' = length P"
      "set mark' \<subseteq> insert (Some (Suc pos)) (set mark)"
      "marked mark' (Suc pos) = closure P (Suc pos) len (marked mark (Suc pos) \<union> {Suc pc})"
      "closed_upto P (Suc pos) len (marked mark' (Suc pos)) {}"
      "set nxt' = {q \<in> marked mark' (Suc pos). halting P q}"
      unfolding added_def add_state_def by auto
    let ?D = "{Suc q | q. q \<in> set pcs \<and> reads P ic ch q}"
    have adv: "advance P ic ch pos len mark nxt (pc # pcs) = advance P ic ch pos len mark' nxt' pcs"
      using True a(1) by (auto simp: reads_def split: inst.splits)
    have "added P (Suc pos) (Suc pos) len mark' (marked mark' (Suc pos) \<union> ?D) (advance P ic ch pos len mark' nxt' pcs)"
      using Cons.IH [of mark' nxt'] Cons.prems(2) a by (simp add: addable_def)
    then have "added P (Suc pos) (Suc pos) len mark ((marked mark (Suc pos) \<union> {Suc pc}) \<union> ?D)
        (advance P ic ch pos len mark' nxt' pcs)"
      unfolding a(4) by (rule added_mono [OF _ a(3) closure_union])
    moreover have "marked mark (Suc pos) \<union> {Suc q | q. q \<in> set (pc # pcs) \<and> reads P ic ch q} =
        (marked mark (Suc pos) \<union> {Suc pc}) \<union> ?D" using True by auto
    ultimately show ?thesis unfolding adv by (simp only:)
  qed
qed

definition start_points :: "bool \<Rightarrow> nat \<Rightarrow> nat set" where
  "start_points exact pos = (if exact then {0} else {..pos})"

definition accepting :: "prog \<Rightarrow> string \<Rightarrow> bool \<Rightarrow> bool \<Rightarrow> nat \<Rightarrow> bool" where
  "accepting P t ic exact pos \<longleftrightarrow> (\<exists>pc \<in> Reach P t ic (start_points exact pos) pos. pc < length P \<and> P ! pc = Match)"

text \<open>What the loop knows on entry at \<open>pos\<close>: the states of the start_points before this position.\<close>

definition ready :: "prog \<Rightarrow> string \<Rightarrow> bool \<Rightarrow> nat set \<Rightarrow> nat \<Rightarrow> nat option list \<Rightarrow> nat list \<Rightarrow> bool" where
  "ready P t ic I pos mark cur \<longleftrightarrow>
     addable P pos pos (length t) mark cur [] \<and> marked mark pos = Reach P t ic I pos \<and>
     (\<forall>g. Some g \<in> set mark \<longrightarrow> g \<le> pos)"

lemma added_ready:
  assumes "added P pos pos (length t) mark S r" "closure P pos (length t) S = Reach P t ic I pos"
    "\<forall>g. Some g \<in> set mark \<longrightarrow> g \<le> pos"
  shows "\<exists>mark' cur'. r = Some (mark', cur') \<and> ready P t ic I pos mark' cur'"
  using assms unfolding added_def ready_def addable_def by fastforce

lemma add_start:
  assumes P: "well_placed P" "P \<noteq> []" and r: "ready P t ic I pos mark cur"
  shows "\<exists>mark' cur'. add_state P mark pos cur 0 pos (length t) = Some (mark', cur') \<and>
    ready P t ic (insert pos I) pos mark' cur'"
proof (rule added_ready)
  have "addable P pos pos (length t) mark cur [0]"
    using r P(2) by (auto simp: ready_def addable_def closed_upto_def)
  from add_states_correct [OF P(1) this]
  show "added P pos pos (length t) mark (marked mark pos \<union> {0}) (add_state P mark pos cur 0 pos (length t))"
    by (simp add: add_state_def)
  show "closure P pos (length t) (marked mark pos \<union> {0}) = Reach P t ic (insert pos I) pos"
    using r Reach_add [of P t ic pos I] by (simp add: ready_def)
qed (use r in \<open>simp add: ready_def\<close>)

lemma halting_reads: "reads P ic ch pc \<Longrightarrow> halting P pc"
  by (auto simp: reads_def halting_def split: inst.splits)

lemma advance_ready:
  assumes P: "well_placed P" and r: "ready P t ic I pos mark cur" and I: "I \<subseteq> {..pos}" "pos < length t"
  shows "\<exists>mark' cur'. advance P ic (t ! pos) pos (length t) mark [] cur = Some (mark', cur') \<and>
    ready P t ic I (Suc pos) mark' cur'"
proof (rule added_ready)
  have fresh: "marked mark (Suc pos) = {}"
    using r by (intro marked_fresh) (fastforce simp: ready_def)
  then have a: "addable P (Suc pos) (Suc pos) (length t) mark [] []"
    using r by (auto simp: ready_def addable_def closed_upto_def)
  have cur: "set cur = {pc \<in> Reach P t ic I pos. halting P pc}" "set cur \<subseteq> {..< length P}"
    using r by (auto simp: ready_def addable_def marked_def)
  show "added P (Suc pos) (Suc pos) (length t) mark
      ({} \<union> {Suc pc | pc. pc \<in> set cur \<and> reads P ic (t ! pos) pc}) (advance P ic (t ! pos) pos (length t) mark [] cur)"
    using advance_correct [OF P a cur(2)] fresh by simp
  have "{Suc pc | pc. pc \<in> set cur \<and> reads P ic (t ! pos) pc} =
      {Suc pc | pc. pc \<in> Reach P t ic I pos \<and> reads P ic (t ! pos) pc}"
    using cur(1) halting_reads by blast
  then show "closure P (Suc pos) (length t) ({} \<union> {Suc pc | pc. pc \<in> set cur \<and> reads P ic (t ! pos) pc}) =
      Reach P t ic I (Suc pos)"
    using Reach_next [OF I, of P ic] by simp
  show "\<forall>g. Some g \<in> set mark \<longrightarrow> g \<le> Suc pos" using r by (auto simp: ready_def)
qed

lemma ready_match:
  assumes "ready P t ic (start_points exact pos) pos mark cur"
  shows "list_ex (\<lambda>pc. P ! pc = Match) cur \<longleftrightarrow> accepting P t ic exact pos"
  using assms by (auto simp: ready_def addable_def accepting_def list_ex_iff halting_def marked_def)

definition before :: "bool \<Rightarrow> nat \<Rightarrow> nat set" where
  "before exact pos = (if exact \<or> pos = 0 then {0} else {..<pos})"

declare run_from.simps [simp del]

lemma at_position:
  assumes P: "well_placed P" "P \<noteq> []" and r: "ready P t ic (before exact pos) pos mark cur"
  obtains mark' cur' where
    "(if pos > 0 \<and> \<not> exact then add_state P mark pos cur 0 pos (length t) else Some (mark, cur)) = Some (mark', cur')"
    "ready P t ic (start_points exact pos) pos mark' cur'"
proof (cases "pos > 0 \<and> \<not> exact")
  case True
  then have "insert pos (before exact pos) = start_points exact pos" by (auto simp: before_def start_points_def)
  then show ?thesis using that add_start [OF P r] True by auto
next
  case False
  then have "before exact pos = start_points exact pos" by (auto simp: before_def start_points_def)
  then show ?thesis using that r False by simp
qed

lemma ex_from:
  assumes "(k :: nat) < n"
  shows "(\<exists>j \<le> n. k \<le> j \<and> Q j) \<longleftrightarrow> Q k \<or> (\<exists>j \<le> n. Suc k \<le> j \<and> Q j)"
proof
  assume "\<exists>j \<le> n. k \<le> j \<and> Q j"
  then obtain j where "j \<le> n" "k \<le> j" "Q j" by blast
  then show "Q k \<or> (\<exists>j \<le> n. Suc k \<le> j \<and> Q j)" by (cases "j = k") auto
next
  assume "Q k \<or> (\<exists>j \<le> n. Suc k \<le> j \<and> Q j)"
  then show "\<exists>j \<le> n. k \<le> j \<and> Q j" using assms by (auto intro: exI [of _ k])
qed

lemma run_from_correct:
  assumes P: "well_placed P" "P \<noteq> []"
  shows "pos \<le> length t \<Longrightarrow> rest = drop pos t \<Longrightarrow> ready P t ic (before exact pos) pos mark cur \<Longrightarrow>
    run_from P ic exact (length t) pos rest mark cur =
      Some (\<exists>j \<le> length t. pos \<le> j \<and> (exact \<longrightarrow> j = length t) \<and> accepting P t ic exact j)"
proof (induction rest arbitrary: pos mark cur)
  case (Nil pos mark cur)
  then have pos: "pos = length t" by simp
  obtain mark' cur' where s: "(if pos > 0 \<and> \<not> exact then add_state P mark pos cur 0 pos (length t) else Some (mark, cur)) = Some (mark', cur')"
      "ready P t ic (start_points exact pos) pos mark' cur'"
    by (rule at_position [OF P Nil.prems(3)])
  have "run_from P ic exact (length t) pos [] mark cur = Some (accepting P t ic exact pos)"
    using ready_match [OF s(2)] by (simp only: run_from.simps [of P ic exact _ _ "[]"] s(1)) (simp add: pos)
  then show ?case by (auto simp: pos)
next
  case (Cons ch rest pos mark cur)
  have "pos < length t" using Cons.prems(1,2) by (cases "pos = length t") auto
  then have pos: "pos < length t" "ch = t ! pos" "rest = drop (Suc pos) t"
    using Cons.prems(2) by (simp_all add: Cons_nth_drop_Suc [symmetric])
  obtain mark' cur' where s: "(if pos > 0 \<and> \<not> exact then add_state P mark pos cur 0 pos (length t) else Some (mark, cur)) = Some (mark', cur')"
      "ready P t ic (start_points exact pos) pos mark' cur'"
    by (rule at_position [OF P Cons.prems(3)])
  have "start_points exact pos \<subseteq> {..pos}" by (auto simp: start_points_def)
  then obtain mark'' cur'' where adv: "advance P ic ch pos (length t) mark' [] cur' = Some (mark'', cur'')"
      "ready P t ic (start_points exact pos) (Suc pos) mark'' cur''"
    using advance_ready [OF P(1) s(2) _ pos(1)] pos(2) by blast
  have "start_points exact pos = before exact (Suc pos)" by (auto simp: start_points_def before_def)
  then have ih: "run_from P ic exact (length t) (Suc pos) rest mark'' cur'' =
      Some (\<exists>j \<le> length t. Suc pos \<le> j \<and> (exact \<longrightarrow> j = length t) \<and> accepting P t ic exact j)"
    using Cons.IH [of "Suc pos"] adv(2) pos by simp
  have "run_from P ic exact (length t) pos (ch # rest) mark cur =
      (if accepting P t ic exact pos \<and> (\<not> exact \<or> pos = length t) then Some True
       else run_from P ic exact (length t) (Suc pos) rest mark'' cur'')"
    using ready_match [OF s(2)] adv(1) by (simp only: run_from.simps [of P ic exact _ _ "ch # rest"] s(1)) auto
  also have "\<dots> = Some (\<exists>j \<le> length t. pos \<le> j \<and> (exact \<longrightarrow> j = length t) \<and> accepting P t ic exact j)"
    unfolding ih using ex_from [OF pos(1), of "\<lambda>j. (exact \<longrightarrow> j = length t) \<and> accepting P t ic exact j"]
    by (cases "accepting P t ic exact pos \<and> (\<not> exact \<or> pos = length t)") auto
  finally show ?case .
qed

lemma is_match_correct:
  assumes P: "well_placed P" "P \<noteq> []"
  shows "is_match P t ic exact =
    Some (\<exists>j \<le> length t. (exact \<longrightarrow> j = length t) \<and> accepting P t ic exact j)"
proof -
  have "addable P 0 0 (length t) (replicate (length P) None) [] []"
    by (auto simp: addable_def closed_upto_def marked_def)
  then have "ready P t ic {} 0 (replicate (length P) None) []"
    by (auto simp: ready_def marked_def Reach_def)
  from add_start [OF P this] obtain mark cur where s:
    "add_state P (replicate (length P) None) 0 [] 0 0 (length t) = Some (mark, cur)" "ready P t ic (before exact 0) 0 mark cur"
    by (auto simp: before_def)
  show ?thesis unfolding is_match_def using s(1) run_from_correct [OF P _ _ s(2)] by simp
qed

end
