(* ===== verification/Kill_Regex_Judge.thy ===== *)
theory Kill_Regex_Judge
  imports Kill_Regex_Match
begin

text \<open>
  From the pattern to the answer: a pattern inside the syntax that can be judged is always parsed to
  its end, its program stays in place, and the answer of the simulation is the meaning of the
  pattern.
\<close>

section \<open>The parser accepts what the syntax check accepts\<close>

definition quantifier_head :: "string \<Rightarrow> bool" where
  "quantifier_head cs \<longleftrightarrow> (case cs of [] \<Rightarrow> False | q # _ \<Rightarrow> q = CHR ''*'' \<or> q = CHR ''+'' \<or> q = CHR ''?'')"

lemmas skip_class_Cons = skip_class.simps [of _ "x # xs" for x xs]

lemmas subset_from_Cons = subset_from.simps [of _ _ "x # xs" for x xs]

lemmas subset_from_Nil = subset_from.simps [of _ _ "[]"]

lemma class_range_dash: "\<not> class_range (CHR ''-'' # cs)"
  by (cases "CHR ''-'' # cs" rule: class_range.cases) auto

lemma skip_class_ranges: "skip_class n cs = Some (m, rest) \<Longrightarrow> \<exists>rs. class_ranges acc cs = Some (rs, rest)"
proof (induction n cs arbitrary: acc rule: skip_class.induct)
  case (1 n cs)
  note prem = "1.prems" [unfolded skip_class.simps [of n cs]]
  show ?case
  proof (cases cs)
    case Nil
    then show ?thesis using prem by simp
  next
    case (Cons x xs)
    show ?thesis
    proof (cases "x = CHR '']''")
      case True
      then show ?thesis using prem Cons by (simp add: class_ranges.simps)
    next
      case False
      show ?thesis
      proof (cases "class_range cs")
        case True
        then obtain z ys where c: "xs = CHR ''-'' # z # ys" "z \<noteq> CHR '']''"
          unfolding Cons by (cases "x # xs" rule: class_range.cases) auto
        have "skip_class (n + 1) ys = Some (m, rest)" using prem False True c Cons by simp
        then show ?thesis
          using "1.IH"(1) [OF Cons False True, of "acc @ [(x, z)]"] c Cons False
          by (simp add: class_ranges.simps [of acc])
      next
        case nr: False
        have ok: "skip_class (n + 1) xs = Some (m, rest)" using prem False nr Cons by (auto split: if_splits)
        have nd: "hd xs \<noteq> CHR ''-''" if "xs \<noteq> []"
          using ok that by (cases xs) (auto simp: skip_class_Cons class_range_dash ascii_alnum_def ascii_digit_def ascii_upper_def split: if_splits)
        have "\<exists>rs. class_ranges (acc @ [(x, x)]) xs = Some (rs, rest)"
          using "1.IH"(2) [OF Cons False nr] ok prem Cons False nr by (auto split: if_splits)
        then show ?thesis using Cons False nd by (auto simp: class_ranges.simps [of acc] split: list.split)
      qed
    qed
  qed
qed

text \<open>The syntax check, one kind of character at a time.\<close>

lemma subset_escape: "subset_from depth prev (CHR 0x5C # xs) \<Longrightarrow> \<exists>n ys. xs = n # ys \<and> subset_from depth PAtom ys"
  by (subst (asm) subset_from_Cons) (auto split: if_splits list.splits)

lemma subset_class: "subset_from depth prev (CHR ''['' # xs) \<Longrightarrow>
    \<exists>n rest. skip_class 0 (case xs of x # ys \<Rightarrow> if x = CHR ''^'' then ys else xs | [] \<Rightarrow> xs) = Some (n, rest) \<and> subset_from depth PAtom rest"
  by (subst (asm) subset_from_Cons) (auto split: if_splits option.splits)

lemma subset_bol: "subset_from depth prev (CHR ''^'' # xs) \<Longrightarrow> subset_from depth PBol xs"
  by (subst (asm) subset_from_Cons) (auto split: if_splits)

lemma subset_eol: "subset_from depth prev (CHR ''$'' # xs) \<Longrightarrow> subset_from depth PEol xs"
  by (subst (asm) subset_from_Cons) (auto split: if_splits)

lemma subset_bar: "subset_from depth prev (CHR ''|'' # xs) \<Longrightarrow> subset_from depth SeqStart xs"
  by (subst (asm) subset_from_Cons) (auto split: if_splits)

lemma subset_open: "subset_from depth prev (CHR ''('' # xs) \<Longrightarrow> subset_from (depth + 1) SeqStart xs"
  by (subst (asm) subset_from_Cons) (auto split: if_splits)

lemma subset_close: "subset_from depth prev (CHR '')'' # xs) \<Longrightarrow> depth \<noteq> 0 \<and> subset_from (depth - 1) PAtom xs"
  by (subst (asm) subset_from_Cons) (auto split: if_splits)

lemma subset_quantifier:
  "subset_from depth prev (ch # xs) \<Longrightarrow> ch = CHR ''*'' \<or> ch = CHR ''+'' \<or> ch = CHR ''?'' \<Longrightarrow>
   prev = PAtom \<and> subset_from depth PQuant xs"
  by (subst (asm) subset_from_Cons) (auto split: if_splits)

lemma subset_other:
  "subset_from depth prev (ch # xs) \<Longrightarrow> ch \<noteq> CHR 0x5C \<Longrightarrow> ch \<noteq> CHR ''['' \<Longrightarrow> ch \<noteq> CHR ''^'' \<Longrightarrow> ch \<noteq> CHR ''$'' \<Longrightarrow>
   \<not> (ch = CHR ''*'' \<or> ch = CHR ''+'' \<or> ch = CHR ''?'') \<Longrightarrow> ch \<noteq> CHR ''|'' \<Longrightarrow> ch \<noteq> CHR '')'' \<Longrightarrow> ch \<noteq> CHR ''('' \<Longrightarrow>
   subset_from depth PAtom xs"
  by (subst (asm) subset_from_Cons) (simp split: if_splits)

lemma quantifier_step:
  assumes "subset_from depth p r" "p = PAtom \<or> \<not> quantifier_head r"
  shows "\<exists>mn mx r' p'. quantifier r = (mn, mx, r') \<and> subset_from depth p' r' \<and> length r' \<le> length r \<and>
    (p' = PAtom \<longrightarrow> \<not> quantifier_head r')"
proof (cases "quantifier_head r")
  case False
  then have "quantifier r = (1, Some 1, r)" by (cases r) (auto simp: quantifier_head_def)
  then show ?thesis using assms(1) False by blast
next
  case True
  then obtain q qs where r: "r = q # qs" "q = CHR ''*'' \<or> q = CHR ''+'' \<or> q = CHR ''?''"
    by (auto simp: quantifier_head_def split: list.splits)
  then have "subset_from depth PQuant qs"
    using assms(1) subset_quantifier by blast
  then show ?thesis using r by (intro exI [of _ "fst (quantifier r)"] exI [of _ "fst (snd (quantifier r))"] exI [of _ qs] exI [of _ PQuant]) auto
qed

lemma not_PAtom_head: "subset_from depth p r \<Longrightarrow> p \<noteq> PAtom \<Longrightarrow> \<not> quantifier_head r"
  by (cases r) (auto simp: quantifier_head_def dest: subset_quantifier)

text \<open>One atom: what the syntax check has behind it is where the parser goes on.\<close>

lemma parse_plain_step:
  assumes "subset_from depth prev (ch # xs)" "prev = PAtom \<longrightarrow> \<not> quantifier_head (ch # xs)"
    "ch \<noteq> CHR ''|''" "ch \<noteq> CHR '')''" "ch \<noteq> CHR ''(''"
  shows "\<exists>a r p. parse_plain ch xs = Some (a, r) \<and> subset_from depth p r \<and> (p = PAtom \<or> \<not> quantifier_head r)"
proof -
  consider "ch = CHR 0x5C" | "ch = CHR ''[''" | "ch = CHR ''^''" | "ch = CHR ''$''" | "ch = CHR ''*'' \<or> ch = CHR ''+'' \<or> ch = CHR ''?''"
    | "ch \<noteq> CHR 0x5C" "ch \<noteq> CHR ''[''" "ch \<noteq> CHR ''^''" "ch \<noteq> CHR ''$''" "\<not> (ch = CHR ''*'' \<or> ch = CHR ''+'' \<or> ch = CHR ''?'')"
    by blast
  then show ?thesis
  proof cases
    case 1
    then show ?thesis using subset_escape [of depth prev xs] assms(1) by (auto simp: parse_plain_def)
  next
    case 2
    let ?body = "case xs of x # ys \<Rightarrow> if x = CHR ''^'' then ys else xs | [] \<Rightarrow> xs"
    obtain n rest where s: "skip_class 0 ?body = Some (n, rest)" "subset_from depth PAtom rest"
      using subset_class [of depth prev xs] assms(1) 2 by blast
    have e: "?body = (if (case xs of x # _ \<Rightarrow> x = CHR ''^'' | [] \<Rightarrow> False) then tl xs else xs)" by (auto split: list.split)
    then obtain rs where "class_ranges [] (if (case xs of x # _ \<Rightarrow> x = CHR ''^'' | [] \<Rightarrow> False) then tl xs else xs) = Some (rs, rest)"
      using skip_class_ranges [OF s(1), of "[]"] unfolding e by (elim exE)
    then show ?thesis using s(2) 2 by (auto simp: parse_plain_def Let_def)
  next
    case 3
    then have "subset_from depth PBol xs" using assms(1) by (auto dest: subset_bol)
    then show ?thesis using 3 not_PAtom_head [of depth PBol xs] by (auto simp: parse_plain_def)
  next
    case 4
    then have "subset_from depth PEol xs" using assms(1) by (auto dest: subset_eol)
    then show ?thesis using 4 not_PAtom_head [of depth PEol xs] by (auto simp: parse_plain_def)
  next
    case 5
    then show ?thesis using assms not_PAtom_head [OF assms(1)] by (auto simp: quantifier_head_def)
  next
    case 6
    then have "subset_from depth PAtom xs" using subset_other [OF assms(1)] assms(3-5) by blast
    then show ?thesis using 6 by (auto simp: parse_plain_def)
  qed
qed

text \<open>What the parser does from a place the syntax check has reached.\<close>

definition parses :: "nat \<Rightarrow> string \<Rightarrow> bool" where
  "parses depth cs \<longleftrightarrow> (\<forall>alts cur.
     if depth = 0 then \<exists>g. parse_alt depth alts cur cs = Some (g, [])
     else \<exists>g rest. parse_alt depth alts cur cs = Some (g, rest) \<and> subset_from (depth - 1) PAtom rest \<and> length rest < length cs)"

lemma parses_after:
  assumes "parses depth r'" "length r' < length cs"
    "\<And>alts cur. \<exists>alts' cur'. parse_alt depth alts cur cs = parse_alt depth alts' cur' r'"
  shows "parses depth cs"
  unfolding parses_def
proof (intro allI)
  fix alts cur
  obtain alts' cur' where e: "parse_alt depth alts cur cs = parse_alt depth alts' cur' r'" using assms(3) by blast
  show "if depth = 0 then \<exists>g. parse_alt depth alts cur cs = Some (g, [])
     else \<exists>g rest. parse_alt depth alts cur cs = Some (g, rest) \<and> subset_from (depth - 1) PAtom rest \<and> length rest < length cs"
    using assms(1) [unfolded parses_def, rule_format, of alts' cur'] assms(2) unfolding e
    by (auto split: if_splits intro: less_trans)
qed

lemma subset_parses:
  "subset_from depth prev cs \<Longrightarrow> prev = PAtom \<longrightarrow> \<not> quantifier_head cs \<Longrightarrow> parses depth cs"
proof (induction "length cs" arbitrary: depth prev cs rule: less_induct)
  case less
  show ?case
  proof (cases cs)
    case Nil
    then show ?thesis using less.prems(1) by (simp add: parses_def subset_from_Nil)
  next
    case (Cons ch xs)
    consider (bar) "ch = CHR ''|''" | (close) "ch = CHR '')''"
      | (atom) "ch \<noteq> CHR ''|''" "ch \<noteq> CHR '')''" by blast
    then show ?thesis
    proof cases
      case bar
      then have "subset_from depth SeqStart xs" using less.prems(1) Cons by (auto dest: subset_bar)
      then have "parses depth xs" using less.hyps [of xs depth SeqStart] Cons by simp
      then show ?thesis by (rule parses_after) (auto simp: Cons bar)
    next
      case close
      then have "depth \<noteq> 0" "subset_from (depth - 1) PAtom xs"
        using less.prems(1) Cons by (auto dest: subset_close)
      then show ?thesis using close Cons by (simp add: parses_def)
    next
      case atom
      obtain a r p where a: "(if ch = CHR ''('' then map_option (\<lambda>(g, rest). (Group g, rest)) (parse_alt (depth + 1) [] [] xs)
          else parse_plain ch xs) = Some (a, r)" "subset_from depth p r" "p = PAtom \<or> \<not> quantifier_head r" "length r \<le> length xs"
      proof (cases "ch = CHR ''(''")
        case True
        then have "subset_from (depth + 1) SeqStart xs" using less.prems(1) Cons by (auto dest: subset_open)
        then have "parses (depth + 1) xs" using less.hyps [of xs "depth + 1" SeqStart] Cons by simp
        then obtain g rest where "parse_alt (depth + 1) [] [] xs = Some (g, rest)" "subset_from depth PAtom rest" "length rest < length xs"
          unfolding parses_def by fastforce
        then show ?thesis using that [of "Group g" rest PAtom] True by simp
      next
        case False
        then show ?thesis
          using parse_plain_step [OF less.prems [unfolded Cons] atom False] parse_plain_length that by fastforce
      qed
      obtain mn mx r' p' where q: "quantifier r = (mn, mx, r')" "subset_from depth p' r'" "length r' \<le> length r"
          "p' = PAtom \<longrightarrow> \<not> quantifier_head r'"
        using quantifier_step [OF a(2,3)] by blast
      have "parses depth r'" using less.hyps [of r' depth p'] q a(4) Cons by simp
      then show ?thesis
      proof (rule parses_after)
        show "length r' < length cs" using q(3) a(4) Cons by simp
        show "\<exists>alts' cur'. parse_alt depth alts cur cs = parse_alt depth alts' cur' r'" for alts cur
          using a(1) q(1) atom Cons by (intro exI [of _ alts] exI [of _ "cur @ [Item a mn mx]"]) auto
      qed
    qed
  qed
qed

lemma judged_parses: "in_common_subset pat \<Longrightarrow> \<exists>alts. parse_alt 0 [] [] pat = Some (alts, [])"
  using subset_parses [of 0 SeqStart pat] by (auto simp: in_common_subset_def parses_def split: if_splits)

section \<open>The compiled program\<close>

lemma no_match_patched: "Match \<notin> set p \<Longrightarrow> Match \<notin> set (fold (\<lambda>j p. p[j := Jmp e]) js p)"
  by (induction js arbitrary: p) (auto dest!: set_update_subset_insert [THEN subsetD])

lemma no_match_update: "Match \<notin> set p \<Longrightarrow> x \<noteq> Match \<Longrightarrow> Match \<notin> set (p[i := x])"
  by (auto dest!: set_update_subset_insert [THEN subsetD])

lemma emission_no_match:
  "Match \<notin> set prog \<Longrightarrow> Match \<notin> set (emit_atom prog a)"
  "Match \<notin> set prog \<Longrightarrow> Match \<notin> set (emit_item prog it)"
  "Match \<notin> set prog \<Longrightarrow> Match \<notin> set (emit_items prog its)"
  "Match \<notin> set prog \<Longrightarrow> Match \<notin> set (emit_alts prog alts)"
  "Match \<notin> set prog \<Longrightarrow> Match \<notin> set (fst (emit_loop prog jmps alts))"
proof (induction prog a and prog it and prog its and prog alts and prog jmps alts
    rule: emit_atom_emit_item_emit_items_emit_alts_emit_loop.induct)
  case (8 prog alts)
  then show ?case by (cases "emit_loop prog [] alts") (auto simp: no_match_patched)
qed (auto simp: Let_def no_match_update)

lemma fragment_targets:
  assumes f: "fragment P t ic 0 e R" and stop: "P ! e = Match" and e: "Suc e = length P"
  shows "well_placed P"
  unfolding well_placed_def
proof (intro allI impI)
  fix pc assume pc: "pc < length P"
  show "case P ! pc of Jmp a \<Rightarrow> a < length P | Split a b \<Rightarrow> a < length P \<and> b < length P | Match \<Rightarrow> True | _ \<Rightarrow> Suc pc < length P"
  proof (cases "pc = e")
    case False
    then have "pc < e" using pc e by simp
    then have "q < length P" if "nstep P t ic (pc, 0) (q, 0)" for q using fragment_in [OF f that] e by auto
    then show ?thesis using pc \<open>pc < e\<close> e
      by (cases "P ! pc") (auto simp: nstep_iff)
  qed (use stop in simp)
qed

lemma compiled_answer:
  assumes "P = emit_alts [] alts @ [Match]"
  shows "is_match P t ic exact =
    Some (\<exists>i j. i \<le> j \<and> j \<le> length t \<and> (exact \<longrightarrow> i = 0 \<and> j = length t) \<and> (i, j) \<in> sem_alts t ic alts)"
proof -
  let ?e = "length (emit_alts [] alts)"
  have e: "Suc ?e = length P" "P ! ?e = Match" using assms by simp_all
  have "emits t ic [] (emit_alts [] alts) (sem_alts t ic alts)" by (rule emission(4))
  then have f: "fragment P t ic 0 ?e (sem_alts t ic alts)"
    using assms by (auto simp: emits_def code_at_def nth_append)
  have "Match \<notin> set (emit_alts [] alts)" by (rule emission_no_match(4)) simp
  then have "P ! pc \<noteq> Match" if "pc < ?e" for pc
    using that nth_mem [OF that] assms by (auto simp: nth_append)
  moreover have "pc < length P \<longleftrightarrow> pc < ?e \<or> pc = ?e" for pc
    unfolding e(1) [symmetric] by (rule less_Suc_eq)
  ultimately have m: "pc < length P \<and> P ! pc = Match \<longleftrightarrow> pc = ?e" for pc
    using e(2) by metis
  have run: "nsteps P t ic (0, i) (?e, j) \<longleftrightarrow> (i, j) \<in> sem_alts t ic alts" for i j
    by (rule fragment_exact [OF f e(2)]) (simp add: assms)
  have "accepting P t ic exact j \<longleftrightarrow> (\<exists>i \<in> start_points exact j. (i, j) \<in> sem_alts t ic alts)" for j
  proof -
    have "accepting P t ic exact j \<longleftrightarrow> (\<exists>i \<in> start_points exact j. \<exists>pc. (pc < length P \<and> P ! pc = Match) \<and> nsteps P t ic (0, i) (pc, j))"
      unfolding accepting_def Reach_def by blast
    then show ?thesis unfolding m by (simp add: run del: emit_alts.simps)
  qed
  moreover have "is_match P t ic exact = Some (\<exists>j \<le> length t. (exact \<longrightarrow> j = length t) \<and> accepting P t ic exact j)"
    by (rule is_match_correct [OF fragment_targets [OF f e(2,1)]]) (use assms in simp)
  ultimately have a: "is_match P t ic exact =
      Some (\<exists>j \<le> length t. (exact \<longrightarrow> j = length t) \<and> (\<exists>i \<in> start_points exact j. (i, j) \<in> sem_alts t ic alts))" by simp
  have "(\<exists>j \<le> length t. (exact \<longrightarrow> j = length t) \<and> (\<exists>i \<in> start_points exact j. (i, j) \<in> sem_alts t ic alts)) \<longleftrightarrow>
      (\<exists>i j. i \<le> j \<and> j \<le> length t \<and> (exact \<longrightarrow> i = 0 \<and> j = length t) \<and> (i, j) \<in> sem_alts t ic alts)"
    by (cases exact) (auto simp: start_points_def)
  then show ?thesis unfolding a by simp
qed

lemma judged_answer:
  assumes "in_common_subset pat"
  obtains alts where "parse_alt 0 [] [] pat = Some (alts, [])"
    "\<And>t ic exact. regex_match_limited pat t ic exact =
       Inr (Some (\<exists>i j. i \<le> j \<and> j \<le> length t \<and> (exact \<longrightarrow> i = 0 \<and> j = length t) \<and> (i, j) \<in> sem_alts t ic alts))"
proof -
  obtain alts where "parse_alt 0 [] [] pat = Some (alts, [])" using judged_parses [OF assms] by (elim exE)
  then show ?thesis
    using that [of alts] assms compiled_answer [OF refl]
    by (simp add: regex_match_limited_def compile_pattern_def)
qed

end
