(* ===== verification/Kill_Spec.thy ===== *)
theory Kill_Spec
  imports Kill_Guard Kill_Regex_Judge
begin

text \<open>
  What the kill guard forbids, said without its loops, its notes and its automaton: the arguments
  that kill at large, the command lines inside a command line, and an inductive predicate over the
  nesting. The checker of \<open>Kill_Guard\<close> is proved to decide it.
\<close>

section \<open>Arguments that kill at large\<close>

definition reaches_protected :: "string \<Rightarrow> bool \<Rightarrow> bool \<Rightarrow> bool \<Rightarrow> bool" where
  "reaches_protected pat full exact icase \<longleftrightarrow> in_common_subset pat \<and>
     (\<exists>s \<in> set (if full then PROTECTED_CMDLINES else PROTECTED_NAMES). \<exists>alts i j.
        parse_alt 0 [] [] pat = Some (alts, []) \<and> i \<le> j \<and> j \<le> length s \<and> (exact \<longrightarrow> i = 0 \<and> j = length s)
        \<and> (i, j) \<in> sem_alts s icase alts)"

definition too_broad :: "bool \<Rightarrow> bool \<Rightarrow> bool \<Rightarrow> nat \<Rightarrow> string \<Rightarrow> bool" where
  "too_broad full exact icase k pat \<longleftrightarrow>
     \<not> exact \<and> length pat < MIN_PATTERN_CHARS \<or> k < MAX_REGEX_PATTERNS \<and> reaches_protected pat full exact icase"

definition kill_at_large :: "string list \<Rightarrow> bool" where
  "kill_at_large args \<longleftrightarrow> (\<exists>ts. kill_targets False False args = Some ts \<and> (args = [''-1''] \<or> (\<exists>t \<in> set ts. everybody t)))"

definition pkill_at_large :: "string list \<Rightarrow> bool" where
  "pkill_at_large args \<longleftrightarrow>
     (let p = parse_pkill args True;
          full = has_flag p ''f'' \<or> has_flag p ''full''; exact = has_flag p ''x'' \<or> has_flag p ''exact'';
          icase = has_flag p ''i'' \<or> has_flag p ''ignore-case'' in
      misordered_options args \<noteq> []
      \<or> p_patterns p = [] \<and>
          (value_of p [''u'', ''U'', ''G'', ''g'', ''s'', ''t'', ''euid'', ''uid'', ''group'', ''pgroup'', ''session'', ''terminal''] \<noteq> None
           \<or> value_of p [''P'', ''parent''] = Some ''0'' \<or> value_of p [''P'', ''parent''] = Some ''1'')
      \<or> (\<exists>k < length (p_patterns p). too_broad full exact icase k (p_patterns p ! k)))"

definition killall_at_large :: "string list \<Rightarrow> bool" where
  "killall_at_large args \<longleftrightarrow>
     (let p = parse_args (drop_signals args) False (List.member ''uoyZtc'') [''user'', ''older-than'', ''younger-than'', ''context''];
          regex = (has_flag p ''r'' \<or> has_flag p ''m'' \<or> has_flag p ''regexp'');
          icase = (has_flag p ''I'' \<or> has_flag p ''ignore-case'') in
      p_patterns p = [] \<and> value_of p [''u'', ''user'', ''t'', ''c''] \<noteq> None
      \<or> (\<exists>k < length (p_patterns p).
           if regex then too_broad False False icase k (p_patterns p ! k)
           else \<exists>n \<in> set PROTECTED_NAMES. same_name icase n (p_patterns p ! k)))"

definition kills_at_large :: "string \<Rightarrow> string list \<Rightarrow> bool" where
  "kills_at_large name args \<longleftrightarrow> name = ''kill'' \<and> kill_at_large args \<or> name = ''pkill'' \<and> pkill_at_large args
     \<or> name = ''killall'' \<and> killall_at_large args"

section \<open>Command lines inside a command line\<close>

definition runs_script :: "string \<Rightarrow> string list \<Rightarrow> string \<Rightarrow> bool" where
  "runs_script name args line \<longleftrightarrow>
     is_shell name \<and> \<not> so_noexec (shell_opts args)
       \<and> (\<exists>k < length args. so_command (shell_opts args) = Some k \<and> line = args ! k)
     \<or> name = ''eval'' \<and> line = join_words args"

definition runs_inside :: "simple_cmd \<Rightarrow> string \<Rightarrow> string list \<Rightarrow> string \<Rightarrow> bool" where
  "runs_inside c name args line \<longleftrightarrow> runs_script name args line
     \<or> (\<exists>dc \<in> set (sc_docs c). if reads_script name args then line = d_body dc
          else d_expands dc \<and> line \<in> set (doc_subs (d_body dc)))"

inductive forbidden :: "nat \<Rightarrow> string \<Rightarrow> bool" where
  in_substitution: "line \<in> set (s_subs (parse_shell cmd)) \<Longrightarrow> forbidden n line \<Longrightarrow> forbidden (Suc n) cmd"
| at_large: "c \<in> set (s_cmds (parse_shell cmd)) \<Longrightarrow> unwrap_wrappers (sc_words c) = Some (head # args) \<Longrightarrow>
    kills_at_large (basename head) args \<Longrightarrow> forbidden (Suc n) cmd"
| inside: "c \<in> set (s_cmds (parse_shell cmd)) \<Longrightarrow> unwrap_wrappers (sc_words c) = Some (head # args) \<Longrightarrow>
    runs_inside c (basename head) args line \<Longrightarrow> forbidden n line \<Longrightarrow> forbidden (Suc n) cmd"

inductive_cases forbidden_0: "forbidden 0 cmd"

inductive_cases forbidden_Suc: "forbidden (Suc n) cmd"

section \<open>The verdict does not depend on the notes\<close>

abbreviation denies :: "verdict \<Rightarrow> bool" where
  "denies v \<equiv> v \<noteq> Allow"

lemma first_deny_iff:
  assumes "\<And>x ctx. x \<in> set xs \<Longrightarrow> denies (fst (f x ctx)) \<longleftrightarrow> P x"
  shows "denies (fst (first_deny f xs ctx)) \<longleftrightarrow> (\<exists>x \<in> set xs. P x)"
  using assms
proof (induction xs arbitrary: ctx)
  case (Cons x xs)
  have x: "denies (fst (f x ctx)) \<longleftrightarrow> P x" using Cons.prems by simp
  show ?case
  proof (cases "f x ctx")
    case (Pair v ctx')
    then show ?thesis using x Cons by (cases v) auto
  qed
qed simp

lemma find_everybody: "List.find P xs \<noteq> None \<longleftrightarrow> (\<exists>x \<in> set xs. P x)"
  by (auto simp: find_None_iff)

lemma check_kill_iff: "denies (check_kill args) \<longleftrightarrow> kill_at_large args"
  by (auto simp: check_kill_def kill_at_large_def find_None_iff find_Some_iff split: option.splits)

lemma judged_is_match:
  assumes "compile_pattern pat = Inr prog" "parse_alt 0 [] [] pat = Some (alts, [])"
  shows "is_match prog s icase exact = Some True \<longleftrightarrow>
    (\<exists>i j. i \<le> j \<and> j \<le> length s \<and> (exact \<longrightarrow> i = 0 \<and> j = length s) \<and> (i, j) \<in> sem_alts s icase alts)"
proof -
  have "prog = emit_alts [] alts @ [Match]" using assms by (simp add: compile_pattern_def split: if_splits)
  from compiled_answer [OF this] show ?thesis by simp
qed

lemma compiles_iff: "(\<exists>prog. compile_pattern pat = Inr prog) \<longleftrightarrow> in_common_subset pat"
  using judged_parses [of pat] by (auto simp: compile_pattern_def split: if_splits)

lemma broad_pattern_iff:
  "fst (broad_pattern pat full exact icase (k < MAX_REGEX_PATTERNS) ctx) \<noteq> None \<longleftrightarrow> too_broad full exact icase k pat"
proof (cases "in_common_subset pat")
  case False
  then have "compile_pattern pat = Inl Outside_Subset" by (simp add: compile_pattern_def)
  then show ?thesis using False by (simp add: broad_pattern_def too_broad_def reaches_protected_def)
next
  case True
  then obtain alts where a: "parse_alt 0 [] [] pat = Some (alts, [])" using judged_parses by blast
  obtain prog where p: "compile_pattern pat = Inr prog" using True compiles_iff by blast
  define subjects where "subjects = (if full then PROTECTED_CMDLINES else PROTECTED_NAMES)"
  have "fst (broad_pattern pat full exact icase (k < MAX_REGEX_PATTERNS) ctx) \<noteq> None \<longleftrightarrow>
      \<not> exact \<and> length pat < MIN_PATTERN_CHARS \<or> k < MAX_REGEX_PATTERNS \<and>
      (\<exists>s \<in> set subjects. is_match prog s icase exact = Some True)"
    using find_everybody [of "\<lambda>s. is_match prog s icase exact = Some True" subjects]
    unfolding broad_pattern_def p subjects_def [symmetric]
    by (cases "List.find (\<lambda>s. is_match prog s icase exact = Some True) subjects") auto
  also have "\<dots> \<longleftrightarrow> too_broad full exact icase k pat"
    using True a by (simp add: too_broad_def reaches_protected_def judged_is_match [OF p a] subjects_def)
  finally show ?thesis .
qed

lemma ex_enumerate: "(\<exists>x \<in> set (List.enumerate 0 xs). Q x) \<longleftrightarrow> (\<exists>k < length xs. Q (k, xs ! k))"
proof -
  have "(\<exists>x \<in> set (List.enumerate 0 xs). Q x) \<longleftrightarrow> (\<exists>k < length (List.enumerate 0 xs). Q (List.enumerate 0 xs ! k))"
    by (metis in_set_conv_nth)
  then show ?thesis by (simp add: nth_enumerate_eq cong: conj_cong)
qed

lemma check_pkill_iff: "denies (fst (check_pkill args ctx)) \<longleftrightarrow> pkill_at_large args"
proof -
  define p where "p = parse_pkill args True"
  define full where "full = (has_flag p ''f'' \<or> has_flag p ''full'')"
  define exact where "exact = (has_flag p ''x'' \<or> has_flag p ''exact'')"
  define icase where "icase = (has_flag p ''i'' \<or> has_flag p ''ignore-case'')"
  define judge where "judge = (\<lambda>(i, pat) ctx. case broad_pattern pat full exact icase (i < MAX_REGEX_PATTERNS) ctx of
                (Some why, ctx') \<Rightarrow> (Deny (Pkill_Pattern pat why), ctx')
              | (None, ctx') \<Rightarrow> (Allow, ctx'))"
  have one: "denies (fst (judge x ctx)) \<longleftrightarrow> (case x of (k, pat) \<Rightarrow> too_broad full exact icase k pat)" for x ctx
    by (cases x) (auto simp: judge_def broad_pattern_iff [of _ _ _ _ _ ctx, symmetric] split: prod.split option.split)
  have "denies (fst (first_deny judge (List.enumerate 0 (p_patterns p)) ctx)) \<longleftrightarrow>
      (\<exists>k < length (p_patterns p). too_broad full exact icase k (p_patterns p ! k))"
    by (simp add: first_deny_iff [where f = judge, OF one] ex_enumerate)
  then show ?thesis
    unfolding check_pkill_def pkill_at_large_def Let_def p_def [symmetric] full_def [symmetric] exact_def [symmetric]
      icase_def [symmetric] judge_def [symmetric]
    by auto
qed

lemma check_killall_iff: "denies (fst (check_killall args ctx)) \<longleftrightarrow> killall_at_large args"
proof -
  define p where "p = parse_args (drop_signals args) False (List.member ''uoyZtc'') [''user'', ''older-than'', ''younger-than'', ''context'']"
  define regex where "regex = (has_flag p ''r'' \<or> has_flag p ''m'' \<or> has_flag p ''regexp'')"
  define icase where "icase = (has_flag p ''I'' \<or> has_flag p ''ignore-case'')"
  define judge where "judge = (\<lambda>(i, name) ctx.
           case (if regex then broad_pattern name False False icase (i < MAX_REGEX_PATTERNS) ctx
                 else (map_option Is_Protected (List.find (\<lambda>n. same_name icase n name) PROTECTED_NAMES), ctx)) of
             (Some why, ctx') \<Rightarrow> (Deny (Killall_Name name why), ctx')
           | (None, ctx') \<Rightarrow> (Allow, ctx'))"
  have one: "denies (fst (judge x ctx)) \<longleftrightarrow> (case x of (k, name) \<Rightarrow>
      if regex then too_broad False False icase k name else \<exists>n \<in> set PROTECTED_NAMES. same_name icase n name)" for x ctx
    using find_everybody [of "\<lambda>n. same_name icase n (snd x)" PROTECTED_NAMES]
    by (cases x) (auto simp: judge_def broad_pattern_iff [of _ _ _ _ _ ctx, symmetric] split: prod.split option.split)
  have "denies (fst (first_deny judge (List.enumerate 0 (p_patterns p)) ctx)) \<longleftrightarrow>
      (\<exists>k < length (p_patterns p). if regex then too_broad False False icase k (p_patterns p ! k)
         else \<exists>n \<in> set PROTECTED_NAMES. same_name icase n (p_patterns p ! k))"
    by (simp add: first_deny_iff [where f = judge, OF one] ex_enumerate)
  then show ?thesis
    unfolding check_killall_def killall_at_large_def Let_def p_def [symmetric] regex_def [symmetric]
      icase_def [symmetric] judge_def [symmetric]
    by auto
qed

section \<open>The checker decides the specification\<close>

lemma word_verdict_iff:
  assumes d: "\<And>line ctx. denies (fst (deeper line ctx)) \<longleftrightarrow> D line"
  shows "denies (fst (word_verdict deeper name args ctx)) \<longleftrightarrow>
    kills_at_large name args \<or> (\<exists>line. runs_script name args line \<and> D line)"
  by (auto simp: word_verdict_def kills_at_large_def runs_script_def is_shell_def d check_kill_iff check_pkill_iff
      check_killall_iff split: option.split)

lemma check_doc_iff:
  assumes d: "\<And>line ctx. denies (fst (deeper line ctx)) \<longleftrightarrow> D line"
  shows "denies (fst (check_doc deeper rd dc ctx)) \<longleftrightarrow>
    (\<exists>line. (if rd then line = d_body dc else d_expands dc \<and> line \<in> set (doc_subs (d_body dc))) \<and> D line)"
  by (auto simp: check_doc_def d first_deny_iff [where f = deeper, OF d])

lemma check_simple_iff:
  assumes d: "\<And>line ctx. denies (fst (deeper line ctx)) \<longleftrightarrow> D line"
  shows "denies (fst (check_simple deeper c ctx)) \<longleftrightarrow>
    (\<exists>head args. unwrap_wrappers (sc_words c) = Some (head # args) \<and>
       (kills_at_large (basename head) args \<or> (\<exists>line. runs_inside c (basename head) args line \<and> D line)))"
proof (cases "\<exists>head args. unwrap_wrappers (sc_words c) = Some (head # args)")
  case False
  then show ?thesis by (auto simp: check_simple_def split: option.splits list.splits)
next
  case True
  then obtain head args where u: "unwrap_wrappers (sc_words c) = Some (head # args)" by blast
  let ?name = "basename head"
  obtain v ctx' where w: "word_verdict deeper ?name args ctx = (v, ctx')" by (cases "word_verdict deeper ?name args ctx")
  have v: "denies v \<longleftrightarrow> kills_at_large ?name args \<or> (\<exists>line. runs_script ?name args line \<and> D line)"
    using word_verdict_iff [of deeper D ?name args ctx, OF d] by (simp add: w)
  have docs: "denies (fst (first_deny (check_doc deeper (reads_script ?name args)) (sc_docs c) ctx')) \<longleftrightarrow>
      (\<exists>dc \<in> set (sc_docs c). \<exists>line. (if reads_script ?name args then line = d_body dc
          else d_expands dc \<and> line \<in> set (doc_subs (d_body dc))) \<and> D line)"
    by (rule first_deny_iff) (rule check_doc_iff [OF d])
  show ?thesis
    using v docs u w
    by (cases v) (auto simp: check_simple_def runs_inside_def)
qed

lemma check_at_iff: "denies (fst (check_at n cmd ctx)) \<longleftrightarrow> forbidden n cmd"
proof (induction n arbitrary: cmd ctx)
  case 0
  then show ?case by (auto elim: forbidden_0)
next
  case (Suc n)
  define ctx1 where "ctx1 = (case s_failed (parse_shell cmd) of None \<Rightarrow> ctx | Some why \<Rightarrow> add_note (Parse_Failed why) ctx)"
  obtain v ctx2 where s: "first_deny (check_at n) (s_subs (parse_shell cmd)) ctx1 = (v, ctx2)"
    by (cases "first_deny (check_at n) (s_subs (parse_shell cmd)) ctx1")
  have v: "denies v \<longleftrightarrow> (\<exists>line \<in> set (s_subs (parse_shell cmd)). forbidden n line)"
    using first_deny_iff [of "s_subs (parse_shell cmd)" "check_at n" "forbidden n" ctx1] Suc.IH s by simp
  have c: "denies (fst (first_deny (check_simple (check_at n)) (s_cmds (parse_shell cmd)) ctx2)) \<longleftrightarrow>
      (\<exists>c \<in> set (s_cmds (parse_shell cmd)). \<exists>head args. unwrap_wrappers (sc_words c) = Some (head # args) \<and>
       (kills_at_large (basename head) args \<or> (\<exists>line. runs_inside c (basename head) args line \<and> forbidden n line)))"
    by (rule first_deny_iff) (rule check_simple_iff [OF Suc.IH])
  have "denies (fst (check_at (Suc n) cmd ctx)) \<longleftrightarrow> denies v \<or>
      denies (fst (first_deny (check_simple (check_at n)) (s_cmds (parse_shell cmd)) ctx2))"
    by (cases v) (simp_all add: Let_def ctx1_def [symmetric] s)
  also have "\<dots> \<longleftrightarrow> forbidden (Suc n) cmd"
    unfolding v c by (auto intro: forbidden.intros elim!: forbidden_Suc)
  finally show ?case .
qed

text \<open>More levels never let through what fewer refuse.\<close>

lemma forbidden_mono: "forbidden n cmd \<Longrightarrow> n \<le> m \<Longrightarrow> forbidden m cmd"
proof (induction arbitrary: m rule: forbidden.induct)
  case (in_substitution line cmd n)
  then show ?case by (cases m) (auto intro: forbidden.in_substitution)
next
  case (at_large c cmd head args n)
  then show ?case by (cases m) (auto intro: forbidden.at_large)
next
  case (inside c cmd head args line n)
  then show ?case by (cases m) (auto intro: forbidden.inside)
qed

end
