(* ===== verification/Kill_Quoting.thy ===== *)
theory Kill_Quoting
  imports Kill_Spec
begin

text \<open>
  How the shell reader reads words in single quotes, how the prefixes in front of a command are
  taken off, and when the two readings of the arguments of \<open>pkill\<close> agree.
\<close>

section \<open>Words in single quotes\<close>

definition quote :: "string \<Rightarrow> string" where
  "quote w = CHR 0x27 # w @ [CHR 0x27]"

definition quoted_line :: "string list \<Rightarrow> string" where
  "quoted_line ws = join_words (map quote ws)"

text \<open>A word \<open>strip_redirects\<close> takes for a redirection, quoted or not.\<close>

definition redirect_like :: "string \<Rightarrow> bool" where
  "redirect_like w \<longleftrightarrow> w = HERE_STRING \<or> (let op = dropWhile ascii_digit w
     in starts_with ''>'' op \<or> starts_with ''<'' op \<or> starts_with ''&>'' op)"

definition quotable :: "string \<Rightarrow> bool" where
  "quotable w \<longleftrightarrow> \<not> List.member w (CHR 0x27) \<and> \<not> redirect_like w"

lemma quotable_quote: "quotable w \<Longrightarrow> CHR 0x27 \<notin> set w"
  by (simp add: quotable_def)

lemma quoted_line_Cons: "quoted_line (w # v # ws) = quote w @ CHR '' '' # quoted_line (v # ws)"
  by (simp add: quoted_line_def join_words_def)

lemma quoted_line_single: "quoted_line [w] = quote w"
  by (simp add: quoted_line_def join_words_def)

lemma scan_single:
  "CHR 0x27 \<notin> set w \<Longrightarrow> z_single z \<Longrightarrow>
    scan z (w @ CHR 0x27 # rest) = scan (z\<lparr>z_cur := z_cur z @ w, z_single := False\<rparr>) rest"
proof (induction w arbitrary: z)
  case Nil
  then show ?case by (simp add: scan_step_def)
next
  case (Cons c w)
  then have "scan_step z c (w @ CHR 0x27 # rest) = Inr (z\<lparr>z_cur := z_cur z @ [c]\<rparr>, w @ CHR 0x27 # rest)"
    by (auto simp: scan_step_def)
  then show ?case using Cons by simp
qed

lemma scan_quote:
  assumes "CHR 0x27 \<notin> set w" "\<not> z_single z" "\<not> z_double z"
  shows "scan z (quote w @ rest) = scan (z\<lparr>z_cur := z_cur z @ w, z_has := True\<rparr>) rest"
proof -
  have "scan_step z (CHR 0x27) (w @ CHR 0x27 # rest) = Inr (z\<lparr>z_single := True, z_has := True\<rparr>, w @ CHR 0x27 # rest)"
    using assms by (simp add: scan_step_def plain_step_def)
  then have "scan z (quote w @ rest) = scan (z\<lparr>z_single := True, z_has := True\<rparr>) (w @ CHR 0x27 # rest)"
    by (simp add: quote_def)
  also have "\<dots> = scan (z\<lparr>z_single := True, z_has := True, z_cur := z_cur z @ w, z_single := False\<rparr>) rest"
    using scan_single [of w "z\<lparr>z_single := True, z_has := True\<rparr>" rest] assms(1) by simp
  also have "z\<lparr>z_single := True, z_has := True, z_cur := z_cur z @ w, z_single := False\<rparr> = z\<lparr>z_cur := z_cur z @ w, z_has := True\<rparr>"
    using assms(2) by (cases z) simp
  finally show ?thesis .
qed

lemma scan_space:
  assumes "\<not> z_single z" "\<not> z_double z"
  shows "scan z (CHR '' '' # rest) = scan (flush_word z) rest"
  using assms by (simp add: scan_step_def plain_step_def)

lemma scan_quoted_line:
  "list_all (\<lambda>w. CHR 0x27 \<notin> set w) ws \<Longrightarrow> ws \<noteq> [] \<Longrightarrow> \<not> z_single z \<Longrightarrow> \<not> z_double z \<Longrightarrow> z_cur z = [] \<Longrightarrow>
    scan z (quoted_line ws) = (None, z\<lparr>z_words := z_words z @ butlast ws, z_cur := last ws, z_has := True\<rparr>)"
proof (induction ws arbitrary: z rule: induct_list012)
  case (2 w)
  then show ?case using scan_quote [of w z "[]"] by (simp add: quoted_line_single)
next
  case (3 w v ws)
  let ?y = "z\<lparr>z_words := z_words z @ [w], z_cur := [], z_has := False\<rparr>"
  have "scan z (quoted_line (w # v # ws)) = scan ?y (quoted_line (v # ws))"
    using 3 by (simp add: quoted_line_Cons scan_quote scan_space flush_word_def del: scan.simps)
  also have "\<dots> = (None, ?y\<lparr>z_words := z_words ?y @ butlast (v # ws), z_cur := last (v # ws), z_has := True\<rparr>)"
    using 3 by (intro "3.IH"(2)) simp_all
  finally show ?case by simp
qed simp

lemma strip_quotable:
  "list_all quotable ws \<Longrightarrow> strip_redirects ws = (ws, [])"
  by (induction ws) (auto simp: quotable_def redirect_like_def Let_def)

lemma parse_quoted:
  assumes "list_all quotable ws" "ws \<noteq> []"
  shows "parse_shell (quoted_line ws) = \<lparr>s_cmds = [\<lparr>sc_words = ws, sc_docs = []\<rparr>], s_subs = [], s_failed = None\<rparr>"
proof -
  have "list_all (\<lambda>w. CHR 0x27 \<notin> set w) ws" using assms(1) by (auto simp: list_all_iff quotable_quote)
  then have "scan scanner_start (quoted_line ws) =
      (None, scanner_start\<lparr>z_words := butlast ws, z_cur := last ws, z_has := True\<rparr>)"
    using assms(2) scan_quoted_line [of ws scanner_start] by (simp add: scanner_start_def)
  then show ?thesis
    using assms by (simp add: parse_shell_def scanner_start_def flush_word_def push_cmd_def finish_cmd_def strip_quotable)
qed

lemma forbidden_quoted:
  assumes "list_all quotable ws" "ws \<noteq> []"
  shows "forbidden (Suc n) (quoted_line ws) \<longleftrightarrow>
    (\<exists>head args. unwrap_wrappers ws = Some (head # args) \<and>
       (kills_at_large (basename head) args \<or> (\<exists>line. runs_script (basename head) args line \<and> forbidden n line)))"
proof
  assume "forbidden (Suc n) (quoted_line ws)"
  then show "\<exists>head args. unwrap_wrappers ws = Some (head # args) \<and>
       (kills_at_large (basename head) args \<or> (\<exists>line. runs_script (basename head) args line \<and> forbidden n line))"
    by (rule forbidden_Suc) (auto simp: parse_quoted [OF assms] runs_inside_def)
next
  assume "\<exists>head args. unwrap_wrappers ws = Some (head # args) \<and>
       (kills_at_large (basename head) args \<or> (\<exists>line. runs_script (basename head) args line \<and> forbidden n line))"
  then obtain head args where u: "unwrap_wrappers ws = Some (head # args)"
    and k: "kills_at_large (basename head) args \<or> (\<exists>line. runs_script (basename head) args line \<and> forbidden n line)" by blast
  have c: "\<lparr>sc_words = ws, sc_docs = []\<rparr> \<in> set (s_cmds (parse_shell (quoted_line ws)))" by (simp add: parse_quoted [OF assms])
  from k show "forbidden (Suc n) (quoted_line ws)"
  proof
    assume "kills_at_large (basename head) args"
    then show ?thesis using at_large [OF c, of head args n] u by simp
  next
    assume "\<exists>line. runs_script (basename head) args line \<and> forbidden n line"
    then obtain line where l: "runs_script (basename head) args line" "forbidden n line" by blast
    then show ?thesis using inside [OF c, of head args line n] u by (simp add: runs_inside_def)
  qed
qed

section \<open>Prefixes\<close>

text \<open>A prefix without options of its own.\<close>

definition transparent :: "string \<Rightarrow> bool" where
  "transparent w \<longleftrightarrow> \<not> starts_with ''-'' w
     \<and> (is_assignment w \<or> List.member KEYWORDS w \<or> valued_options (basename w) \<noteq> None \<and> basename w \<noteq> ''timeout'')"

lemma valued_are_options: "valued_options name = Some valued \<Longrightarrow> v \<in> set valued \<Longrightarrow> starts_with ''-'' v"
  by (auto simp: valued_options_def starts_with_def split: if_splits)

lemma unwrap_drop_assignments: "unwrap_budgeted k (dropWhile is_assignment ws) = unwrap_budgeted k ws"
  by (induction ws) simp_all

text \<open>The first word that is no assignment is no option either.\<close>

definition plain_front :: "string list \<Rightarrow> bool" where
  "plain_front ws \<longleftrightarrow> (case dropWhile is_assignment ws of [] \<Rightarrow> False | w # _ \<Rightarrow> \<not> starts_with ''-'' w)"

lemma assignment_no_option: "is_assignment w \<Longrightarrow> \<not> starts_with ''-'' w"
  by (cases w) (auto simp: is_assignment_def starts_with_def Let_def ascii_alnum_def ascii_digit_def ascii_upper_def)

lemma plain_front_Cons:
  "plain_front (w # ws) \<longleftrightarrow> (if is_assignment w then plain_front ws else \<not> starts_with ''-'' w)"
  by (simp add: plain_front_def)

lemma plain_front_hd: "plain_front (w # ws) \<Longrightarrow> \<not> starts_with ''-'' w"
  by (auto simp: plain_front_Cons assignment_no_option split: if_splits)

lemma wrapper_options_plain:
  assumes "\<forall>v \<in> set valued. starts_with ''-'' v"
  shows "plain_front ws \<Longrightarrow> wrapper_options name valued ws = Inr (if name = ''env'' then dropWhile is_assignment ws else ws)"
proof (induction ws)
  case (Cons w ws)
  have d: "\<not> starts_with ''-'' w" using Cons.prems by (rule plain_front_hd)
  moreover from this have "\<not> starts_with ''--split-string='' w" by (cases w) (auto simp: starts_with_def)
  ultimately have "w \<noteq> ''--''" "\<not> List.member valued w" "env_split_string (w # ws) = None"
    using assms by (auto simp: env_split_string_def starts_with_def)
  then show ?case using Cons d by (auto simp: plain_front_Cons)
qed (simp add: plain_front_def)

lemma transparent_unwrap:
  assumes "transparent w" "plain_front ws"
  shows "unwrap_budgeted k (w # ws) = unwrap_budgeted k ws"
proof (cases "is_assignment w \<or> List.member KEYWORDS w")
  case False
  then obtain valued where v: "valued_options (basename w) = Some valued" and t: "basename w \<noteq> ''timeout''"
    using assms(1) by (auto simp: transparent_def)
  have "wrapper_options (basename w) valued ws = Inr (if basename w = ''env'' then dropWhile is_assignment ws else ws)"
    using valued_are_options [OF v] assms(2) by (intro wrapper_options_plain) auto
  then show ?thesis using False v t by (simp add: unwrap_drop_assignments)
qed simp

lemma transparent_front: "list_all transparent ps \<Longrightarrow> plain_front ws \<Longrightarrow> plain_front (ps @ ws)"
  by (induction ps) (simp_all add: plain_front_Cons transparent_def)

lemma transparent_prefixes:
  "list_all transparent ps \<Longrightarrow> plain_front ws \<Longrightarrow> unwrap_budgeted k (ps @ ws) = unwrap_budgeted k ws"
  by (induction ps) (simp_all add: transparent_unwrap transparent_front del: unwrap_budgeted.simps(2))

text \<open>A shell given a command line, under any path.\<close>

definition shell_word :: "string \<Rightarrow> bool" where
  "shell_word w \<longleftrightarrow> is_shell (basename w) \<and> \<not> is_assignment w \<and> \<not> starts_with ''-'' w"

lemma shell_no_wrapper: "is_shell (basename w) \<Longrightarrow> valued_options (basename w) = None \<and> \<not> List.member KEYWORDS w"
proof
  assume s: "is_shell (basename w)"
  show "valued_options (basename w) = None" using s by (auto simp: is_shell_def valued_options_def)
  have "list_all (\<lambda>k. \<not> is_shell (basename k)) KEYWORDS" by code_simp
  then show "\<not> List.member KEYWORDS w" using s by (auto simp: list_all_iff)
qed

lemma unwrap_shell:
  assumes "shell_word w"
  shows "unwrap_budgeted k (w # ws) = Some (w # ws)"
proof -
  have "\<not> (is_assignment w \<or> List.member KEYWORDS w)" "valued_options (basename w) = None"
    using assms shell_no_wrapper [of w] by (auto simp: shell_word_def)
  then show ?thesis by simp
qed

lemma shell_front: "shell_word w \<Longrightarrow> plain_front (w # ws)"
  by (simp add: shell_word_def plain_front_Cons)

lemma shell_command_opts:
  assumes "\<not> starts_with ''-'' cmd" "\<not> starts_with ''+'' cmd"
  shows "so_command (shell_opts [''-c'', cmd]) = Some 1" "\<not> so_noexec (shell_opts [''-c'', cmd])"
proof -
  have "shell_options 0 [''-c'', cmd] s = (1, s\<lparr>os_c := True, os_used := 1\<rparr>)" for s
    using assms by (cases cmd) (simp_all add: starts_with_def opt_char_def Let_def)
  then show "so_command (shell_opts [''-c'', cmd]) = Some 1" "\<not> so_noexec (shell_opts [''-c'', cmd])"
    by (simp_all add: shell_opts_def)
qed

lemma runs_shell_command:
  assumes "shell_word w" "\<not> starts_with ''-'' cmd" "\<not> starts_with ''+'' cmd"
  shows "runs_script (basename w) [''-c'', cmd] cmd"
  using assms shell_command_opts [OF assms(2,3)] by (simp add: runs_script_def shell_word_def)

lemma unwrap_eval: "unwrap_budgeted k [''eval'', cmd] = Some [''eval'', cmd]" "plain_front [''eval'', cmd]"
  by (simp_all add: is_assignment_def KEYWORDS_def basename_def valued_options_def plain_front_Cons starts_with_def)

lemma runs_eval: "runs_script (basename ''eval'') [cmd] cmd"
  by (simp add: runs_script_def basename_def join_words_def)

section \<open>The order of the arguments of \<open>pkill\<close>\<close>

lemma parse_cluster_patterns: "parse_cluster valued rest cs p = (p', took) \<Longrightarrow> p_patterns p' = p_patterns p"
  by (induction valued rest cs p rule: parse_cluster.induct) (auto split: if_splits list.splits)

lemma parse_cluster_took: "parse_cluster valued rest cs p = (p', True) \<Longrightarrow> rest \<noteq> []"
  by (induction valued rest cs p rule: parse_cluster.induct) (auto split: if_splits list.splits)

text \<open>An option adds no pattern and is read in the same way in both orders.\<close>

lemma option_step:
  assumes "is_option a" "a \<noteq> ''--''"
  shows "\<exists>p' rest'. p_patterns p' = p_patterns p \<and> length rest' \<le> length rest \<and> set rest' \<subseteq> set rest \<and>
    (\<forall>bsd. parse_from bsd valued long (a # rest) p = parse_from bsd valued long rest' p')"
proof -
  have tl: "set (tl rest) \<subseteq> set rest" by (cases rest) auto
  consider "is_signal_option a" | "\<not> is_signal_option a" "starts_with ''--'' a" | "\<not> is_signal_option a" "\<not> starts_with ''--'' a" by blast
  then show ?thesis
  proof cases
    case 2
    then show ?thesis
      using assms tl
      by (intro exI [of _ "case split_at_eq (drop 2 a) of Some kv \<Rightarrow> p\<lparr>p_values := p_values p @ [kv]\<rparr>
             | None \<Rightarrow> if List.member long (drop 2 a) \<and> rest \<noteq> [] then p\<lparr>p_values := p_values p @ [(drop 2 a, hd rest)]\<rparr>
                 else p\<lparr>p_flags := p_flags p @ [drop 2 a]\<rparr>"]
            exI [of _ "if split_at_eq (drop 2 a) = None \<and> List.member long (drop 2 a) \<and> rest \<noteq> [] then tl rest else rest"])
         (auto simp: Let_def split: option.split)
  next
    case 3
    obtain p' took where c: "parse_cluster valued rest (tl a) p = (p', took)" by (cases "parse_cluster valued rest (tl a) p")
    then show ?thesis
      using assms 3 tl parse_cluster_patterns [OF c] by (intro exI [of _ p'] exI [of _ "if took then tl rest else rest"]) simp
  qed (use assms in auto)
qed

text \<open>There are no more patterns than words, and as many only when no word is an option.\<close>

lemma parse_from_bound: "length (p_patterns (parse_from bsd valued long args p)) \<le> length (p_patterns p) + length args"
proof (induction args arbitrary: p rule: length_induct)
  case (1 args)
  show ?case
  proof (cases args)
    case (Cons a rest)
    show ?thesis
    proof (cases "is_option a \<and> a \<noteq> ''--''")
      case True
      then obtain p' rest' where o: "p_patterns p' = p_patterns p" "length rest' \<le> length rest"
        "parse_from bsd valued long (a # rest) p = parse_from bsd valued long rest' p'"
        using option_step [of a p rest valued long] by blast
      have "length (p_patterns (parse_from bsd valued long rest' p')) \<le> length (p_patterns p') + length rest'"
        using 1 o(2) Cons by simp
      then show ?thesis using o by (simp add: Cons del: parse_from.simps)
    next
      case False
      have "length (p_patterns (parse_from bsd valued long rest q)) \<le> length (p_patterns q) + length rest" for q
        using 1 Cons by simp
      from this [of "p\<lparr>p_patterns := p_patterns p @ [a]\<rparr>"]
      have "length (p_patterns (parse_from bsd valued long rest (p\<lparr>p_patterns := p_patterns p @ [a]\<rparr>))) \<le>
          length (p_patterns p) + length args" by (simp add: Cons)
      then show ?thesis using False by (auto simp: Cons)
    qed
  qed simp
qed

lemma gnu_all_patterns:
  "list_all (\<lambda>a. \<not> is_option a) rest \<Longrightarrow>
    parse_from False valued long rest p = p\<lparr>p_patterns := p_patterns p @ rest\<rparr>"
proof (induction rest arbitrary: p)
  case (Cons a rest)
  then have "a \<noteq> ''--''" by (auto simp: is_option_def starts_with_def)
  then show ?case using Cons by simp
qed simp

lemma gnu_fewer_patterns:
  "''--'' \<notin> set rest \<Longrightarrow> \<not> list_all (\<lambda>a. \<not> is_option a) rest \<Longrightarrow>
    length (p_patterns (parse_from False valued long rest p)) < length (p_patterns p) + length rest"
proof (induction rest arbitrary: p)
  case (Cons a rest)
  show ?case
  proof (cases "is_option a")
    case True
    then obtain p' rest' where o: "p_patterns p' = p_patterns p" "length rest' \<le> length rest"
      "parse_from False valued long (a # rest) p = parse_from False valued long rest' p'"
      using option_step [OF True, of p rest valued long] Cons.prems(1) by fastforce
    then show ?thesis using parse_from_bound [of False valued long rest' p'] by (simp del: parse_from.simps)
  next
    case False
    then show ?thesis using Cons.prems Cons.IH [of "p\<lparr>p_patterns := p_patterns p @ [a]\<rparr>"] by auto
  qed
qed simp

lemma orders_agree:
  assumes "''--'' \<notin> set args"
    and "length (p_patterns (parse_from True valued long args p)) = length (p_patterns (parse_from False valued long args p))
      \<or> list_all (\<lambda>a. \<not> is_option a) (p_patterns (parse_from True valued long args p))"
  shows "parse_from True valued long args p = parse_from False valued long args p"
  using assms
proof (induction args arbitrary: p rule: length_induct)
  case (1 args)
  show ?case
  proof (cases args)
    case (Cons a rest)
    show ?thesis
    proof (cases "is_option a")
      case True
      then obtain p' rest' where o: "length rest' \<le> length rest" "set rest' \<subseteq> set rest"
        "\<forall>bsd. parse_from bsd valued long (a # rest) p = parse_from bsd valued long rest' p'"
        using option_step [OF True, of p rest valued long] 1(2) unfolding Cons by (auto simp del: parse_from.simps)
      have "length rest' < length args" "''--'' \<notin> set rest'" using o 1(2) Cons by auto
      then have "parse_from True valued long rest' p' = parse_from False valued long rest' p'"
        using 1(1,3) o(3) unfolding Cons by (metis (no_types))
      then show ?thesis using o(3) unfolding Cons by simp
    next
      case False
      have n: "''--'' \<notin> set rest" "a \<noteq> ''--''" using 1(2) Cons by auto
      have b: "parse_from True valued long (a # rest) p = p\<lparr>p_patterns := p_patterns p @ a # rest\<rparr>"
        and g: "parse_from False valued long (a # rest) p =
          parse_from False valued long rest (p\<lparr>p_patterns := p_patterns p @ [a]\<rparr>)" using False n by simp_all
      have "list_all (\<lambda>a. \<not> is_option a) rest"
      proof (rule ccontr)
        assume r: "\<not> list_all (\<lambda>a. \<not> is_option a) rest"
        from gnu_fewer_patterns [OF n(1) r, of valued long "p\<lparr>p_patterns := p_patterns p @ [a]\<rparr>"] 1(3) r
        show False unfolding Cons b g by simp
      qed
      from gnu_all_patterns [OF this] show ?thesis unfolding Cons b g by simp
    qed
  qed simp
qed

lemma ordered_pkill:
  assumes "misordered_options args = []" "''--'' \<notin> set args"
  shows "parse_pkill args True = parse_pkill args False"
  unfolding parse_pkill_def parse_args_def
proof (rule orders_agree [OF assms(2)], goal_cases)
  case 1
  have d: "drop 1 (dropWhile (\<lambda>a. a \<noteq> ''--'') args) = []"
    using assms(2) dropWhile_eq_Nil_conv [of "\<lambda>a. a \<noteq> ''--''" args] by (metis drop_Nil)
  show ?case
    using assms(1) unfolding misordered_options_def d by (auto simp: parse_pkill_def parse_args_def Let_def filter_empty_conv list_all_iff
        simp del: parse_from.simps split: if_splits)
qed

end
