(* ===== verification/Kill_Literal.thy ===== *)
theory Kill_Literal
  imports Kill_Quoting "HOL-Library.Sublist"
begin

text \<open>
  What a pattern of plain characters means, and what \<open>pkill\<close> with such a pattern is answered.
\<close>

section \<open>Patterns of plain characters\<close>

definition plain_char :: "char \<Rightarrow> bool" where
  "plain_char c \<longleftrightarrow> CHR '' '' \<le> c \<and> c \<le> CHR ''~'' \<and> \<not> List.member META c"

definition literal_items :: "string \<Rightarrow> item list" where
  "literal_items = map (\<lambda>c. Item (Lit c) 1 (Some 1))"

lemma plain_char_ne:
  assumes "plain_char c"
  shows "c \<noteq> CHR 0x5C" "c \<noteq> CHR ''[''" "c \<noteq> CHR '']''" "c \<noteq> CHR ''(''" "c \<noteq> CHR '')''" "c \<noteq> CHR ''|''" "c \<noteq> CHR ''*''"
    "c \<noteq> CHR ''+''" "c \<noteq> CHR ''?''" "c \<noteq> CHR ''^''" "c \<noteq> CHR ''$''" "c \<noteq> CHR ''{''" "c \<noteq> CHR ''}''" "c \<noteq> CHR ''.''"
  using assms by (auto simp: plain_char_def META_def)

lemma plain_subset:
  "list_all plain_char cs \<Longrightarrow> subset_from 0 PAtom cs"
proof (induction cs)
  case Nil
  then show ?case by (simp add: subset_from_Nil)
next
  case (Cons c cs)
  then have "plain_char c" "subset_from 0 PAtom cs" by simp_all
  then show ?case by (subst subset_from_Cons) (simp add: plain_char_ne plain_char_def)
qed

lemma plain_judged:
  assumes "list_all plain_char pat" "pat \<noteq> []" "length pat \<le> MAX_PATTERN_CHARS"
  shows "in_common_subset pat"
proof (cases pat)
  case (Cons c cs)
  have "plain_char c" "subset_from 0 PAtom cs" using assms(1) Cons plain_subset [of cs] by simp_all
  then have "subset_from 0 SeqStart pat" unfolding Cons
    by (subst subset_from_Cons) (simp add: plain_char_ne plain_char_def)
  then show ?thesis using assms by (simp add: in_common_subset_def)
qed (use assms in simp)

lemma plain_quantifier:
  assumes "list_all plain_char cs"
  shows "quantifier cs = (1, Some 1, cs)"
proof (cases cs)
  case (Cons c ds)
  then have "plain_char c" using assms by simp
  then show ?thesis using Cons by (simp add: plain_char_ne)
qed simp

lemma plain_parse:
  "list_all plain_char cs \<Longrightarrow> parse_alt 0 alts cur cs = Some (alts @ [cur @ literal_items cs], [])"
proof (induction cs arbitrary: cur)
  case (Cons c cs)
  then have c: "plain_char c" and q: "quantifier cs = (1, Some 1, cs)" by (simp_all add: plain_quantifier)
  have "parse_plain c cs = Some (Lit c, cs)" using c by (simp add: parse_plain_def plain_char_ne)
  then show ?case using Cons c q by (simp add: plain_char_ne literal_items_def)
qed (simp add: literal_items_def)

definition folded :: "bool \<Rightarrow> string \<Rightarrow> string" where
  "folded icase s = (if icase then map to_ascii_lowercase s else s)"

lemma literal_sem:
  "(i, j) \<in> sem_seq t icase (literal_items p) \<Longrightarrow> i \<le> length t \<Longrightarrow>
    j = i + length p \<and> j \<le> length t \<and> folded icase (take (length p) (drop i t)) = folded icase p"
proof (induction p arbitrary: i)
  case (Cons c p)
  then have s: "i < length t" "atom_one (Lit c) (t ! i) icase" "(Suc i, j) \<in> sem_seq t icase (literal_items p)"
    by (auto simp: literal_items_def)
  then have "take (length (c # p)) (drop i t) = t ! i # take (length p) (drop (Suc i) t)"
    by (simp add: Cons_nth_drop_Suc [symmetric])
  then show ?case using Cons.IH [OF s(3)] s(1,2) by (auto simp: folded_def atom_one_def)
qed (simp_all add: literal_items_def folded_def)

lemma literal_sem_rev:
  "i + length p \<le> length t \<Longrightarrow> folded icase (take (length p) (drop i t)) = folded icase p \<Longrightarrow>
    (i, i + length p) \<in> sem_seq t icase (literal_items p)"
proof (induction p arbitrary: i)
  case (Cons c p)
  then have d: "take (length (c # p)) (drop i t) = t ! i # take (length p) (drop (Suc i) t)"
    by (simp add: Cons_nth_drop_Suc [symmetric])
  have "atom_one (Lit c) (t ! i) icase" using Cons.prems(2) unfolding d by (auto simp: folded_def atom_one_def split: if_splits)
  moreover have "(Suc i, Suc i + length p) \<in> sem_seq t icase (literal_items p)"
    using Cons.prems unfolding d by (intro Cons.IH) (auto simp: folded_def split: if_splits)
  ultimately show ?case using Cons.prems(1) by (auto simp: literal_items_def)
qed (simp add: literal_items_def)

lemma sublist_take_drop: "sublist xs ys \<longleftrightarrow> (\<exists>i. i + length xs \<le> length ys \<and> take (length xs) (drop i ys) = xs)"
proof
  assume "sublist xs ys"
  then obtain ps ss where "ys = ps @ xs @ ss" by (auto simp: sublist_def)
  then show "\<exists>i. i + length xs \<le> length ys \<and> take (length xs) (drop i ys) = xs" by (intro exI [of _ "length ps"]) simp
next
  assume "\<exists>i. i + length xs \<le> length ys \<and> take (length xs) (drop i ys) = xs"
  then obtain i where i: "take (length xs) (drop i ys) = xs" by blast
  have "ys = take i ys @ take (length xs) (drop i ys) @ drop (length xs) (drop i ys)"
    by (simp only: append_take_drop_id)
  then show "sublist xs ys" unfolding i sublist_def by blast
qed

lemma folded_length [simp]: "length (folded icase s) = length s"
  by (simp add: folded_def)

lemma folded_part: "folded icase (take n (drop i s)) = take n (drop i (folded icase s))"
  by (simp add: folded_def take_map drop_map)

lemma literal_span:
  "(i, j) \<in> sem_alts t icase [literal_items p] \<and> i \<le> j \<and> j \<le> length t \<longleftrightarrow>
    j = i + length p \<and> j \<le> length t \<and> take (length p) (drop i (folded icase t)) = folded icase p"
proof
  assume "(i, j) \<in> sem_alts t icase [literal_items p] \<and> i \<le> j \<and> j \<le> length t"
  then have h: "(i, j) \<in> sem_seq t icase (literal_items p)" "i \<le> length t" by simp_all
  show "j = i + length p \<and> j \<le> length t \<and> take (length p) (drop i (folded icase t)) = folded icase p"
    using literal_sem [OF h] unfolding folded_part .
next
  assume h: "j = i + length p \<and> j \<le> length t \<and> take (length p) (drop i (folded icase t)) = folded icase p"
  then have "i + length p \<le> length t" "folded icase (take (length p) (drop i t)) = folded icase p"
    unfolding folded_part by simp_all
  from literal_sem_rev [OF this] h
  show "(i, j) \<in> sem_alts t icase [literal_items p] \<and> i \<le> j \<and> j \<le> length t" by simp
qed

lemma literal_found:
  "(\<exists>i j. i \<le> j \<and> j \<le> length t \<and> (exact \<longrightarrow> i = 0 \<and> j = length t) \<and> (i, j) \<in> sem_alts t icase [literal_items p]) \<longleftrightarrow>
    (if exact then folded icase p = folded icase t else sublist (folded icase p) (folded icase t))"
    (is "?found \<longleftrightarrow> ?spec")
proof -
  have "?found \<longleftrightarrow> (\<exists>i j. (exact \<longrightarrow> i = 0 \<and> j = length t)
      \<and> ((i, j) \<in> sem_alts t icase [literal_items p] \<and> i \<le> j \<and> j \<le> length t))" by blast
  also have "\<dots> \<longleftrightarrow> (\<exists>i. (exact \<longrightarrow> i = 0 \<and> length p = length t) \<and> i + length p \<le> length t
      \<and> take (length p) (drop i (folded icase t)) = folded icase p)"
    unfolding literal_span by auto
  also have "\<dots> \<longleftrightarrow> ?spec"
  proof (cases exact)
    case True
    have "folded icase p = folded icase t \<longleftrightarrow> length p = length t \<and> take (length p) (folded icase t) = folded icase p"
      by (metis folded_length order_refl take_all)
    then show ?thesis using True by auto
  next
    case False
    then show ?thesis by (simp add: sublist_take_drop)
  qed
  finally show ?thesis .
qed

lemma literal_reaches:
  assumes "list_all plain_char pat" "pat \<noteq> []" "length pat \<le> MAX_PATTERN_CHARS"
  shows "reaches_protected pat full exact icase \<longleftrightarrow>
    (\<exists>s \<in> set (if full then PROTECTED_CMDLINES else PROTECTED_NAMES).
       if exact then folded icase pat = folded icase s else sublist (folded icase pat) (folded icase s))"
proof -
  have p: "parse_alt 0 [] [] pat = Some ([literal_items pat], [])" using plain_parse [OF assms(1), of "[]" "[]"] by simp
  show ?thesis
    unfolding reaches_protected_def literal_found [symmetric]
    using plain_judged [OF assms] by (simp add: p)
qed

section \<open>\<open>pkill\<close> with one pattern\<close>

definition pkill_args :: "bool \<Rightarrow> bool \<Rightarrow> bool \<Rightarrow> string \<Rightarrow> string list" where
  "pkill_args full exact icase pat =
     (if full then [''-f''] else []) @ (if exact then [''-x''] else []) @ (if icase then [''-i''] else []) @ [pat]"

lemma flag_letters:
  "\<not> is_signal_option ''-f''" "\<not> is_signal_option ''-x''" "\<not> is_signal_option ''-i''"
  "\<not> pkill_valued_short (CHR ''f'')" "\<not> pkill_valued_short (CHR ''x'')" "\<not> pkill_valued_short (CHR ''i'')"
  "is_option ''-f''" "is_option ''-x''" "is_option ''-i''"
  by code_simp+

lemma parse_pkill_args:
  assumes "\<not> starts_with ''-'' pat"
  shows "parse_pkill (pkill_args full exact icase pat) bsd =
    \<lparr>p_flags = (if full then [''f''] else []) @ (if exact then [''x''] else []) @ (if icase then [''i''] else []),
     p_values = [], p_patterns = [pat]\<rparr>"
proof -
  have "pat \<noteq> ''--''" "\<not> is_option pat" using assms by (auto simp: is_option_def starts_with_def)
  then show ?thesis
    by (cases full; cases exact; cases icase)
       (simp_all add: parse_pkill_def parse_args_def pkill_args_def no_args_def flag_letters starts_with_def)
qed

lemma pkill_args_at_large:
  assumes "\<not> starts_with ''-'' pat" "MIN_PATTERN_CHARS \<le> length pat"
  shows "pkill_at_large (pkill_args full exact icase pat) \<longleftrightarrow> reaches_protected pat full exact icase"
  using assms(2)
  by (cases full; cases exact; cases icase)
     (simp_all add: pkill_at_large_def misordered_options_def parse_pkill_args [OF assms(1)] has_flag_def too_broad_def
        MAX_REGEX_PATTERNS_def)

lemma forbidden_pkill_args:
  assumes "quotable pat"
  shows "forbidden (Suc n) (quoted_line (''pkill'' # pkill_args full exact icase pat)) \<longleftrightarrow>
    pkill_at_large (pkill_args full exact icase pat)"
proof -
  have "unwrap_wrappers (''pkill'' # args) = Some (''pkill'' # args)" for args
    by (simp add: unwrap_wrappers_def is_assignment_def KEYWORDS_def basename_def valued_options_def)
  moreover have "list_all quotable (''pkill'' # pkill_args full exact icase pat)"
    using assms by (simp add: pkill_args_def) (simp add: quotable_def redirect_like_def HERE_STRING_def starts_with_def)
  ultimately show ?thesis
    by (subst forbidden_quoted) (auto simp: kills_at_large_def basename_def runs_script_def is_shell_def)
qed

end
