(* ===== verification/Kill_Properties.thy ===== *)
theory Kill_Properties
  imports Kill_Literal Kill_Quoting
begin

text \<open>The properties of the kill guard.\<close>

section \<open>Patterns\<close>

text \<open>
  C22. A pattern inside the syntax that can be judged is parsed to its end and the compiled automaton
  answers exactly by the meaning of the pattern: some part of the text (with \<open>exact\<close> the whole text)
  is matched. The simulation never indexes outside the program or the mark table.
\<close>

theorem pattern_judged_exactly:
  assumes "in_common_subset pat"
  shows "\<exists>alts. parse_alt 0 [] [] pat = Some (alts, []) \<and>
    (\<forall>t ic exact. regex_match_limited pat t ic exact =
       Inr (Some (\<exists>i j. i \<le> j \<and> j \<le> length t \<and> (exact \<longrightarrow> i = 0 \<and> j = length t) \<and> (i, j) \<in> sem_alts t ic alts)))"
  by (rule judged_answer [OF assms]) (intro exI conjI allI, assumption+)

theorem pattern_judged_exactly_witness:
  "in_common_subset ''^(agent|cla+ude)-[0-9]*$'' \<and>
   (\<exists>alts. parse_alt 0 [] [] ''^(agent|cla+ude)-[0-9]*$'' = Some (alts, []) \<and>
      (\<forall>t ic exact. regex_match_limited ''^(agent|cla+ude)-[0-9]*$'' t ic exact =
         Inr (Some (\<exists>i j. i \<le> j \<and> j \<le> length t \<and> (exact \<longrightarrow> i = 0 \<and> j = length t) \<and> (i, j) \<in> sem_alts t ic alts))))"
proof -
  have "in_common_subset ''^(agent|cla+ude)-[0-9]*$''" by code_simp
  then show ?thesis using pattern_judged_exactly by blast
qed

section \<open>Command lines\<close>

text \<open>
  C23. The guard refuses a command line exactly when the specification forbids it: at some nesting of
  at most five command lines (substitutions, the line given to a shell or to eval, scripts in
  here-documents) a command, taken out of its prefixes, kills at large. What was noted on the way
  never changes the answer, and text that cannot be read is let through.
\<close>

theorem guard_refuses_iff:
  "check_command cmd \<noteq> Allow \<longleftrightarrow> forbidden (MAX_DEPTH + 1) cmd"
  by (simp only: check_command_def check_command_logged_def check_at_iff)

text \<open>
  C24. Words in single quotes are read back as they are: a line of quoted words is one simple command
  with exactly these words, without substitutions, without here-documents and without a failure. Only
  words that look like a redirection are excepted (they are dropped although they are quoted).
\<close>

theorem quoted_words_round_trip:
  assumes "list_all quotable ws" "ws \<noteq> []"
  shows "parse_shell (quoted_line ws) = \<lparr>s_cmds = [\<lparr>sc_words = ws, sc_docs = []\<rparr>], s_subs = [], s_failed = None\<rparr>"
  by (rule parse_quoted [OF assms])

theorem quoted_words_round_trip_witness:
  "list_all quotable [''pkill'', ''-f'', ''$(a); b | c''] \<and>
   parse_shell (quoted_line [''pkill'', ''-f'', ''$(a); b | c'']) =
     \<lparr>s_cmds = [\<lparr>sc_words = [''pkill'', ''-f'', ''$(a); b | c''], sc_docs = []\<rparr>], s_subs = [], s_failed = None\<rparr>"
proof -
  have "list_all quotable [''pkill'', ''-f'', ''$(a); b | c'']" by code_simp
  then show ?thesis using quoted_words_round_trip by blast
qed



section \<open>\<open>pkill\<close>\<close>

text \<open>
  C26. When pkill is let through, its arguments (without a lone --) mean the same to a pkill that
  stops at the first pattern and to one that reads options everywhere: the same flags, values and
  patterns, so what was judged is what will be killed.
\<close>

theorem allowed_pkill_reads_one_way:
  assumes "fst (check_pkill args ctx) = Allow" "''--'' \<notin> set args"
  shows "parse_pkill args True = parse_pkill args False"
proof (rule ordered_pkill [OF _ assms(2)])
  show "misordered_options args = []" using assms(1) by (auto simp: check_pkill_def Let_def split: if_splits)
qed

theorem allowed_pkill_reads_one_way_witness:
  "fst (check_pkill [''-u'', ''me'', ''-x'', ''my-server''] []) = Allow \<and>
   parse_pkill [''-u'', ''me'', ''-x'', ''my-server''] True = parse_pkill [''-u'', ''me'', ''-x'', ''my-server''] False"
proof -
  have "fst (check_pkill [''-u'', ''me'', ''-x'', ''my-server''] []) = Allow" by code_simp
  moreover have "''--'' \<notin> set [''-u'', ''me'', ''-x'', ''my-server'']" by simp
  ultimately show ?thesis using allowed_pkill_reads_one_way by blast
qed

text \<open>
  C27. pkill with one pattern of plain characters (not starting with a dash, at least three of them)
  is refused exactly when the pattern is a part of a protected name, with -f of a protected command
  line, with -x the whole of it, with -i in any case of letters. Plain patterns that name nothing
  protected are let through.
\<close>

theorem plain_pkill_exact:
  assumes "list_all plain_char pat" "MIN_PATTERN_CHARS \<le> length pat" "length pat \<le> MAX_PATTERN_CHARS"
    and "\<not> starts_with ''-'' pat" "quotable pat"
  shows "check_command (quoted_line (''pkill'' # pkill_args full exact icase pat)) \<noteq> Allow \<longleftrightarrow>
    (\<exists>s \<in> set (if full then PROTECTED_CMDLINES else PROTECTED_NAMES).
       if exact then folded icase pat = folded icase s else sublist (folded icase pat) (folded icase s))"
proof -
  have "pat \<noteq> []" using assms(2) by (auto simp: MIN_PATTERN_CHARS_def)
  then show ?thesis
    using literal_reaches [OF assms(1) _ assms(3)] pkill_args_at_large [OF assms(4,2)] forbidden_pkill_args [OF assms(5)]
    by (simp add: check_command_def check_command_logged_def check_at_iff del: check_at.simps)
qed

theorem plain_pkill_exact_witness:
  "list_all plain_char ''Claude'' \<and>
   (check_command (quoted_line (''pkill'' # pkill_args True False True ''Claude'')) \<noteq> Allow \<longleftrightarrow>
    (\<exists>s \<in> set PROTECTED_CMDLINES. sublist (folded True ''Claude'') (folded True s)))"
proof -
  have "list_all plain_char ''Claude''" "MIN_PATTERN_CHARS \<le> length ''Claude''" "length ''Claude'' \<le> MAX_PATTERN_CHARS"
    "\<not> starts_with ''-'' ''Claude''" "quotable ''Claude''" by code_simp+
  then show ?thesis using plain_pkill_exact [of "''Claude''" True False True] by simp
qed

section \<open>A quoted redirection sign hides a name\<close>

text \<open>
  The words of a command lose what looks like a redirection also when it was quoted: the name behind
  a quoted \<open>>\<close>, and a command line for a shell that starts with a redirection, are not judged.
\<close>

lemma quoted_redirection_hides:
  "check_command (''killall '' @ quote ''>'' @ '' claude'') = Allow"
  by code_simp

lemma leading_redirection_hides:
  "check_command (''bash -c '' @ quote ''>log killall claude'') = Allow"
  "check_command ''>log killall claude'' \<noteq> Allow"
  by code_simp+

end
