(* ===== verification/Window_Schema.thy ===== *)
theory Window_Schema
  imports Assignment_Store "HOL-Library.Word"
begin

text \<open>
  Permissions and leases for rebuild and restart windows: the rows
  (\<open>supervisor_approvals\<close>, \<open>supervisor_leases\<close>, \<open>supervisor_notes\<close> of
  \<open>crates/am-supervisor/src/supervisor/store.rs\<close>) and the decisions over single rows, from there and
  from \<open>maintenance.rs\<close>. Timestamps are milliseconds, as in \<open>Store_Schema\<close>; in JSON they are
  numbers. Reading the clock several times in one function gives one value here.
\<close>

section \<open>Rows\<close>

record approval =
  ap_requester :: string
  ap_unverified :: bool
  ap_purpose :: string
  ap_scope :: string
  ap_commit :: "string option"
  ap_status :: string
  ap_decided_by :: "string option"
  ap_decided_at :: "time option"
  ap_reason :: "string option"
  ap_request_reason :: "string option"
  ap_expires_at :: "time option"
  ap_client_request :: "string option"
  ap_wait_since :: "time option"
  ap_created_at :: time
  ap_updated_at :: time

text \<open>What \<open>detail_json\<close> of a lease holds: the request that opened it and the safety report of that moment.\<close>

record safety_report =
  sr_safe :: bool
  sr_escalated :: bool
  sr_waited :: "int option"
  sr_approval :: "ident option"
  sr_delivering :: "(ident \<times> ident) list"
  sr_leases :: "(string \<times> bool) list"
  sr_working :: "ident list"
  sr_in_flight :: "(ident \<times> ident) list"
  sr_unreadable :: "ident list"
  sr_blocked :: "ident list"
  sr_queued :: nat

record lease_detail =
  ld_request_hash :: "string option"
  ld_excluded_self :: "ident option"
  ld_safety :: safety_report

record lease =
  le_owner :: "string option"
  le_approval :: "ident option"
  le_fence :: int
  le_commit :: "string option"
  le_acquired_at :: "time option"
  le_expires_at :: "time option"
  le_released_at :: "time option"
  le_token :: "string option"
  le_detail :: "lease_detail option"

record audit_note =
  no_kind :: string
  no_body :: json
  no_at :: time

record windows =
  w_db :: db
  w_approvals :: "approval table"
  w_leases :: "lease table" \<comment> \<open>by resource\<close>
  w_notes :: "audit_note table"

definition approvals_ok :: "approval table \<Rightarrow> bool" where
  "approvals_ok t \<longleftrightarrow> distinct (map fst t) \<and> unique_index ap_client_request t"

section \<open>One approval\<close>

definition APPROVAL_MAX_AGE_SECS :: int where
  "APPROVAL_MAX_AGE_SECS = 24 * 60 * 60"

definition effective_expiry :: "approval \<Rightarrow> time option" where
  "effective_expiry a =
     (case ap_expires_at a of
        Some e \<Rightarrow> Some e
      | None \<Rightarrow> map_option (\<lambda>d. d + 1000 * APPROVAL_MAX_AGE_SECS) (ap_decided_at a))"

definition waiting_since :: "approval \<Rightarrow> time option" where
  "waiting_since a =
     (case ap_decided_at a of
        None \<Rightarrow> None
      | Some decided \<Rightarrow> Some (case ap_wait_since a of Some w \<Rightarrow> if w < decided then w else decided | None \<Rightarrow> decided))"

datatype refusal_reason =
    Approval_Not_Decided
  | Approval_Denied
  | Approval_Revoked
  | Approval_Already_Used
  | Approval_Superseded
  | Approval_Not_Usable
  | Approval_Expired
  | Approval_Purpose_Mismatch
  | Approval_Commit_Mismatch
  | Approval_Commit_Required

definition expired_at :: "time option \<Rightarrow> time \<Rightarrow> bool" where
  "expired_at e now \<longleftrightarrow> (case e of None \<Rightarrow> False | Some t \<Rightarrow> t \<le> now)"

definition refusal :: "approval \<Rightarrow> time \<Rightarrow> string \<Rightarrow> string option \<Rightarrow> refusal_reason option" where
  "refusal a now resource commit =
     (if ap_status a \<noteq> ''approved'' then
        Some (if ap_status a = ''pending'' then Approval_Not_Decided
              else if ap_status a = ''denied'' then Approval_Denied
              else if ap_status a = ''revoked'' then Approval_Revoked
              else if ap_status a = ''consumed'' then Approval_Already_Used
              else if ap_status a = ''superseded'' then Approval_Superseded
              else Approval_Not_Usable)
      else if expired_at (effective_expiry a) now then Some Approval_Expired
      else if ap_purpose a \<noteq> resource then Some Approval_Purpose_Mismatch
      else (case (ap_commit a, commit) of
              (Some x, Some y) \<Rightarrow> if x \<noteq> y then Some Approval_Commit_Mismatch else None
            | (Some _, None) \<Rightarrow> Some Approval_Commit_Required
            | (None, _) \<Rightarrow> None))"

section \<open>One lease\<close>

definition held_at :: "lease \<Rightarrow> time \<Rightarrow> bool" where
  "held_at l now \<longleftrightarrow> le_released_at l = None \<and> (case le_expires_at l of None \<Rightarrow> False | Some t \<Rightarrow> t > now)"

definition lease_of :: "windows \<Rightarrow> string \<Rightarrow> lease option" where
  "lease_of w resource = map_of (w_leases w) resource"

definition lease_deadline :: "time \<Rightarrow> time option \<Rightarrow> time" where
  "lease_deadline requested approval_expires_at =
     (case approval_expires_at of Some e \<Rightarrow> if e < requested then e else requested | None \<Rightarrow> requested)"

datatype lease_proof = Token string | Absent | Forced

definition proof_allows :: "lease_proof \<Rightarrow> string option \<Rightarrow> bool" where
  "proof_allows p stored =
     (case p of
        Forced \<Rightarrow> True
      | Absent \<Rightarrow> stored = None
      | Token given \<Rightarrow> (case stored of None \<Rightarrow> True | Some want \<Rightarrow> given = want))"

section \<open>Waiting and commits\<close>

definition RESOURCES :: "string list" where
  "RESOURCES = [''rebuild'', ''restart'']"

definition EXCLUSIVE :: "string list" where
  "EXCLUSIVE = [''restart'']"

definition ESCALATE_AFTER_MINS :: int where
  "ESCALATE_AFTER_MINS = 5"

definition ESCALATE_BEHIND_COMMITS :: nat where
  "ESCALATE_BEHIND_COMMITS = 3"

definition DEFAULT_TTL_SECS :: int where
  "DEFAULT_TTL_SECS = 900"

definition MAX_TTL_SECS :: int where
  "MAX_TTL_SECS = 3600"

definition parse_escalate_mins :: "string option \<Rightarrow> int" where
  "parse_escalate_mins raw =
     (case Option.bind raw (\<lambda>v. parse_i64 (trim v)) of
        Some m \<Rightarrow> if m > 0 then m else ESCALATE_AFTER_MINS
      | None \<Rightarrow> ESCALATE_AFTER_MINS)"

text \<open>\<open>* 60\<close> on \<open>i64\<close>; a release build (\<open>[profile.release]\<close>) does not check for overflow.\<close>

definition escalate_after_secs :: "string option \<Rightarrow> int" where
  "escalate_after_secs raw = sint (word_of_int (parse_escalate_mins raw * 60) :: 64 word)"

definition waited_secs :: "time \<Rightarrow> time \<Rightarrow> int" where
  "waited_secs since now = max 0 ((now - since) div 1000)"

definition behind_escalates :: "nat \<Rightarrow> bool" where
  "behind_escalates code_commits \<longleftrightarrow> code_commits \<ge> ESCALATE_BEHIND_COMMITS"

definition ascii_hexdigit :: "char \<Rightarrow> bool" where
  "ascii_hexdigit c \<longleftrightarrow> ascii_digit c \<or> CHR ''a'' \<le> c \<and> c \<le> CHR ''f'' \<or> CHR ''A'' \<le> c \<and> c \<le> CHR ''F''"

definition valid_commit :: "string \<Rightarrow> bool" where
  "valid_commit c \<longleftrightarrow> 7 \<le> length c \<and> length c \<le> 64 \<and> list_all ascii_hexdigit c"

section \<open>Facts\<close>

lemma refusal_None:
  "refusal a now resource commit = None \<longleftrightarrow>
     ap_status a = ''approved'' \<and> \<not> expired_at (effective_expiry a) now \<and> ap_purpose a = resource
     \<and> (case ap_commit a of None \<Rightarrow> True | Some c \<Rightarrow> commit = Some c)"
  by (auto simp: refusal_def split: option.splits)

lemma lease_deadline_le:
  "lease_deadline requested e \<le> requested" "e = Some t \<Longrightarrow> lease_deadline requested e \<le> t"
  by (auto simp: lease_deadline_def split: option.split)

lemma waiting_since_le: "waiting_since a = Some t \<Longrightarrow> ap_decided_at a = Some d \<Longrightarrow> t \<le> d"
  by (auto simp: waiting_since_def split: option.splits if_splits)

text \<open>
  The threshold is read as minutes and multiplied on 64 bits: a large value wraps round to a negative
  number of seconds, and every wait is then long enough.
\<close>

lemma huge_threshold_relaxes_at_once:
  "escalate_after_secs (Some ''300000000000000000'') < 0"
  by code_simp

end
