(* ===== verification/Window_Approvals.thy ===== *)
theory Window_Approvals
  imports Window_Schema Inbox_Roles Status_Tables
begin

text \<open>
  Asking for a window and deciding about it (\<open>create_approval_inner\<close>, \<open>decide_approval_from\<close>,
  \<open>approval_decisions\<close> of \<open>store.rs\<close>; \<open>post_approval_decision\<close> of
  \<open>daemon/src/runners/supervisor/api.rs\<close>). Ids the code draws and its clock are arguments.
\<close>

section \<open>Notes\<close>

definition opt_json :: "string option \<Rightarrow> json" where
  "opt_json s = (case s of None \<Rightarrow> JNull | Some x \<Rightarrow> JStr x)"

definition time_json :: "time option \<Rightarrow> json" where
  "time_json t = (case t of None \<Rightarrow> JNull | Some x \<Rightarrow> JNum x)"

definition approval_json :: "ident \<Rightarrow> approval \<Rightarrow> json" where
  "approval_json i a = JObj
     [(''id'', JStr i), (''requester'', JStr (ap_requester a)), (''purpose'', JStr (ap_purpose a)),
      (''scope'', JStr (ap_scope a)), (''target_commit'', opt_json (ap_commit a)), (''status'', JStr (ap_status a)),
      (''decided_by'', opt_json (ap_decided_by a)), (''decided_at'', time_json (ap_decided_at a)),
      (''reason'', opt_json (ap_reason a)), (''request_reason'', opt_json (ap_request_reason a)),
      (''expires_at'', time_json (ap_expires_at a)), (''client_request_id'', opt_json (ap_client_request a)),
      (''requester_unverified'', JBool (ap_unverified a)), (''wait_since'', time_json (ap_wait_since a)),
      (''created_at'', JNum (ap_created_at a)), (''updated_at'', JNum (ap_updated_at a))]"

definition decision_body :: "ident \<Rightarrow> string \<Rightarrow> string \<Rightarrow> string \<Rightarrow> string option \<Rightarrow> json" where
  "decision_body i frm to actor reason = JObj
     [(''approval_id'', JStr i), (''from'', JStr frm), (''to'', JStr to), (''actor'', JStr actor), (''reason'', opt_json reason)]"

definition add_audit :: "ident \<Rightarrow> string \<Rightarrow> json \<Rightarrow> time \<Rightarrow> windows \<Rightarrow> db_error + windows" where
  "add_audit nid kind body now w =
     bind_res (insert_row (\<lambda>t. distinct (map fst t)) nid \<lparr>no_kind = kind, no_body = body, no_at = now\<rparr> (w_notes w))
       (\<lambda>t. Inr (w\<lparr>w_notes := t\<rparr>))"

text \<open>The request that woke somebody to decide is handled with the decision.\<close>

definition requested_key :: "ident \<Rightarrow> string" where
  "requested_key i = ''approval:'' @ i @ '':requested''"

definition settle_request :: "ident \<Rightarrow> time \<Rightarrow> windows \<Rightarrow> windows" where
  "settle_request i now w =
     w\<lparr>w_db := (w_db w)\<lparr>inbox := map (\<lambda>(e, r). (e,
          if i_key r = requested_key i \<and> i_state r \<noteq> ''handled''
          then r\<lparr>i_state := ''handled'', i_acked_by := Some ''daemon'', i_updated_at := now\<rparr> else r)) (inbox (w_db w))\<rparr>\<rparr>"

datatype principal = Principal_Bot ident | Principal_User

definition principal_json :: "principal \<Rightarrow> json" where
  "principal_json p =
     (case p of Principal_Bot b \<Rightarrow> JObj [(''kind'', JStr ''bot''), (''bot_id'', JStr b)]
      | Principal_User \<Rightarrow> JObj [(''kind'', JStr ''user'')])"

definition principal_of :: "json \<Rightarrow> principal option" where
  "principal_of v =
     (case Option.bind (json_get ''kind'' v) as_str of
        None \<Rightarrow> None
      | Some k \<Rightarrow>
          if k = ''user'' then Some Principal_User
          else if k = ''bot'' then map_option Principal_Bot (Option.bind (json_get ''bot_id'' v) as_str)
          else None)"

text \<open>\<open>approval_principal\<close>: \<open>Inl\<close> when the note cannot be read.\<close>

definition approval_principal :: "ident \<Rightarrow> windows \<Rightarrow> db_error + principal option" where
  "approval_principal i w =
     (case map_of (w_notes w) (''approval-principal:'' @ i) of
        None \<Rightarrow> Inr None
      | Some n \<Rightarrow>
          if no_kind n \<noteq> ''approval_principal'' then Inr None
          else (case principal_of (no_body n) of None \<Rightarrow> Inl (Bail ''invalid principal'') | Some p \<Rightarrow> Inr (Some p)))"

section \<open>Asking\<close>

record approval_req =
  rq_requester :: string
  rq_purpose :: string
  rq_scope :: string
  rq_commit :: "string option"
  rq_expires_at :: "time option"
  rq_request_id :: "string option"
  rq_supersedes :: "string option"
  rq_reason :: "string option"
  rq_unverified :: bool
  rq_notify :: bool
  rq_principal :: "principal option"

datatype approval_error =
    Request_Mismatch ident string \<comment> \<open>the approval and the field\<close>
  | Supersede_Refused ident string
  | Approval_Db db_error

record approval_outcome =
  ao_approval :: "ident \<times> approval"
  ao_created :: bool
  ao_superseded :: "ident option"

definition approval_by_request :: "string \<Rightarrow> windows \<Rightarrow> (ident \<times> approval) option" where
  "approval_by_request rid w = List.find (\<lambda>(_, a). ap_client_request a = Some rid) (w_approvals w)"

definition same_request :: "ident \<times> approval \<Rightarrow> approval_req \<Rightarrow> approval_error + approval_outcome" where
  "same_request e q =
     (case e of (i, a) \<Rightarrow>
        if ap_requester a \<noteq> rq_requester q then Inl (Request_Mismatch i ''requester'')
        else if ap_purpose a \<noteq> rq_purpose q then Inl (Request_Mismatch i ''purpose'')
        else if ap_scope a \<noteq> rq_scope q then Inl (Request_Mismatch i ''scope'')
        else if (case ap_commit a of None \<Rightarrow> [] | Some c \<Rightarrow> c) \<noteq> (case rq_commit q of None \<Rightarrow> [] | Some c \<Rightarrow> c)
        then Inl (Request_Mismatch i ''target_commit'')
        else Inr \<lparr>ao_approval = (i, a), ao_created = False, ao_superseded = None\<rparr>)"

definition request_known :: "approval_req \<Rightarrow> windows \<Rightarrow> (approval_error + approval_outcome) option" where
  "request_known q w =
     (case trimmed (rq_request_id q) of
        None \<Rightarrow> None
      | Some rid \<Rightarrow> map_option (\<lambda>e. same_request e q) (approval_by_request rid w))"

text \<open>The row to replace: the one named, or the last pending one of the same requester and purpose.\<close>

definition last_pending :: "string \<Rightarrow> string \<Rightarrow> windows \<Rightarrow> ident option" where
  "last_pending requester purpose w =
     (case rev (filter (\<lambda>(_, a). ap_requester a = requester \<and> ap_purpose a = purpose \<and> ap_status a = ''pending'') (w_approvals w)) of
        [] \<Rightarrow> None | (i, _) # _ \<Rightarrow> Some i)"

text \<open>\<open>Inr None\<close>: nothing to replace; an automatic choice that does not fit is no error.\<close>

definition find_old :: "approval_req \<Rightarrow> windows \<Rightarrow> approval_error + (ident \<times> approval) option" where
  "find_old q w =
     (let named = trimmed (rq_supersedes q); auto = (if named = None then last_pending (rq_requester q) (rq_purpose q) w else None) in
      case (case named of Some x \<Rightarrow> Some x | None \<Rightarrow> auto) of
        None \<Rightarrow> Inr None
      | Some old_id \<Rightarrow>
          (let bail = (\<lambda>why. if auto \<noteq> None then Inr None else Inl (Supersede_Refused old_id why)) in
           case map_of (w_approvals w) old_id of
             None \<Rightarrow> bail ''approval_not_found''
           | Some a \<Rightarrow>
               if ap_requester a \<noteq> rq_requester q then bail ''not_the_same_requester''
               else if ap_purpose a \<noteq> rq_purpose q then bail ''purpose_mismatch''
               else Inr (Some (old_id, a))))"

definition supersede :: "approval_req \<Rightarrow> ident \<Rightarrow> ident \<Rightarrow> time \<Rightarrow> windows
    \<Rightarrow> approval_error + (ident option \<times> time option) \<times> windows" where
  "supersede q new_id nid now w =
     bind_res (find_old q w) (\<lambda>old.
       case old of
         None \<Rightarrow> Inr ((None, None), w)
       | Some (i, a) \<Rightarrow>
           (let auto = (trimmed (rq_supersedes q) = None);
                live = (ap_status a = ''pending'' \<or> ap_status a = ''approved'') \<and> \<not> expired_at (ap_expires_at a) now;
                stale_pending = auto \<and> ap_status a = ''pending'' \<and> expired_at (ap_expires_at a) now;
                wait = (if \<not> live then None else if ap_status a = ''approved'' then waiting_since a else ap_wait_since a);
                body = decision_body i (ap_status a) ''superseded'' (rq_requester q) (Some (''superseded by '' @ new_id))
            in if \<not> (live \<or> stale_pending) then Inr ((None, None), w)
               else (case add_audit nid ''approval_decision'' body now
                       (w\<lparr>w_approvals := upd_row i (\<lambda>a. a\<lparr>ap_status := ''superseded'', ap_updated_at := now\<rparr>) (w_approvals w)\<rparr>) of
                       Inl e \<Rightarrow> Inl (Approval_Db e)
                     | Inr w' \<Rightarrow> Inr ((Some i, wait), settle_request i now w'))))"

definition new_approval :: "approval_req \<Rightarrow> time option \<Rightarrow> time \<Rightarrow> approval" where
  "new_approval q wait now =
     \<lparr>ap_requester = rq_requester q, ap_unverified = rq_unverified q, ap_purpose = rq_purpose q, ap_scope = rq_scope q,
      ap_commit = rq_commit q, ap_status = ''pending'', ap_decided_by = None, ap_decided_at = None, ap_reason = None,
      ap_request_reason = trimmed (rq_reason q), ap_expires_at = rq_expires_at q,
      ap_client_request = trimmed (rq_request_id q), ap_wait_since = wait, ap_created_at = now, ap_updated_at = now\<rparr>"

text \<open>
  The transaction of \<open>create_approval_inner\<close>. When the INSERT is refused it is rolled back, and the
  row that was there first is the answer.
\<close>

definition create_approval_tx ::
  "approval_req \<Rightarrow> ident \<Rightarrow> ident \<Rightarrow> ident \<Rightarrow> time \<Rightarrow> windows \<Rightarrow> approval_error + approval_outcome \<times> windows" where
  "create_approval_tx q i nid eid now w =
     bind_res (supersede q i nid now w) (\<lambda>((superseded, wait), w1).
       case insert_row approvals_ok i (new_approval q wait now) (w_approvals w1) of
         Inl e \<Rightarrow>
           (case request_known q w of
              None \<Rightarrow> Inl (Approval_Db e)
            | Some r \<Rightarrow> bind_res r (\<lambda>out. Inr (out, w)))
       | Inr t \<Rightarrow>
           (let w2 = w1\<lparr>w_approvals := t\<rparr>; a = new_approval q wait now in
            case (case rq_principal q of
                    None \<Rightarrow> Inr w2
                  | Some p \<Rightarrow> add_audit (''approval-principal:'' @ i) ''approval_principal'' (principal_json p) now w2) of
              Inl e \<Rightarrow> Inl (Approval_Db e)
            | Inr w3 \<Rightarrow>
                (let w4 = (if rq_notify q
                           then w3\<lparr>w_db := snd (push_inbox_tx eid (requested_key i) ''approval_requested'' None None None
                                  (approval_json i a) now (w_db w3))\<rparr>
                           else w3)
                 in Inr (\<lparr>ao_approval = (i, a), ao_created = True, ao_superseded = superseded\<rparr>, w4))))"

text \<open>The whole: a known request id is answered first; \<open>race\<close> is what others write until the transaction starts.\<close>

definition create_approval ::
  "(windows \<Rightarrow> windows) \<Rightarrow> approval_req \<Rightarrow> ident \<Rightarrow> ident \<Rightarrow> ident \<Rightarrow> time \<Rightarrow> windows \<Rightarrow> approval_error + approval_outcome \<times> windows" where
  "create_approval race q i nid eid now w =
     (case request_known q w of
        Some r \<Rightarrow> bind_res r (\<lambda>out. Inr (out, w))
      | None \<Rightarrow> create_approval_tx q i nid eid now (race w))"

section \<open>Deciding\<close>

definition keeps_decision :: "string \<Rightarrow> bool" where
  "keeps_decision status \<longleftrightarrow> status = ''consumed'' \<or> status = ''superseded''"

definition decided :: "string \<Rightarrow> string \<Rightarrow> string option \<Rightarrow> time option \<Rightarrow> time \<Rightarrow> approval \<Rightarrow> approval" where
  "decided status actor reason expires now a =
     a\<lparr>ap_status := status,
       ap_decided_by := (if keeps_decision status then ap_decided_by a else Some actor),
       ap_decided_at := (if keeps_decision status then ap_decided_at a else Some now),
       ap_reason := (case reason of None \<Rightarrow> ap_reason a | Some r \<Rightarrow> Some r),
       ap_expires_at := (case expires of None \<Rightarrow> ap_expires_at a | Some e \<Rightarrow> Some e),
       ap_updated_at := now\<rparr>"

text \<open>\<open>Inr None\<close>: the status is no longer \<open>frm\<close>, nothing was written.\<close>

definition decide_approval_from ::
  "ident \<Rightarrow> string \<Rightarrow> string \<Rightarrow> string \<Rightarrow> string option \<Rightarrow> time option \<Rightarrow> ident \<Rightarrow> time \<Rightarrow> windows
     \<Rightarrow> db_error + approval option \<times> windows" where
  "decide_approval_from i frm status actor reason expires nid now w =
     (case map_of (w_approvals w) i of
        None \<Rightarrow> Inr (None, w)
      | Some a \<Rightarrow>
          if ap_status a \<noteq> frm then Inr (None, w)
          else
            bind_res (add_audit nid ''approval_decision'' (decision_body i frm status actor reason) now
                (w\<lparr>w_approvals := upd_row i (decided status actor reason expires now) (w_approvals w)\<rparr>)) (\<lambda>w1.
              Inr (Some (decided status actor reason expires now a),
                   if frm = ''pending'' then settle_request i now w1 else w1)))"

text \<open>The history of an approval, oldest first; every record carries the time it was written.\<close>

definition decision_note :: "ident \<Rightarrow> audit_note \<Rightarrow> bool" where
  "decision_note i n \<longleftrightarrow> no_kind n = ''approval_decision'' \<and> Option.bind (json_get ''approval_id'' (no_body n)) as_str = Some i"

definition dated :: "audit_note \<Rightarrow> json" where
  "dated n = (case json_set ''at'' (JNum (no_at n)) (no_body n) of Inr v \<Rightarrow> v | Inl _ \<Rightarrow> no_body n)"

definition decisions_of :: "ident \<Rightarrow> windows \<Rightarrow> json list" where
  "decisions_of i w =
     map dated (filter (decision_note i) (sort_key no_at (map snd (w_notes w))))"

section \<open>The decision of an AGM role\<close>

definition APPROVAL_EXPIRES_MAX_SECS :: int where
  "APPROVAL_EXPIRES_MAX_SECS = 7 * 24 * 60 * 60"

datatype decision_error =
    Bad_Request
  | Role_Required
  | Approval_Not_Found
  | Requester_Lookup_Failed
  | Self_Approval
  | Requester_Unknown
  | Already_Expired
  | Already_Decided
  | Decision_Db db_error

definition approval_expires :: "int option \<Rightarrow> time \<Rightarrow> decision_error + time option" where
  "approval_expires secs now =
     (case secs of
        None \<Rightarrow> Inr None
      | Some s \<Rightarrow> if 1 \<le> s \<and> s \<le> APPROVAL_EXPIRES_MAX_SECS then Inr (Some (now + 1000 * s)) else Inl Bad_Request)"

definition MAX_NOTE_CHARS :: nat where
  "MAX_NOTE_CHARS = 8000"

definition MAX_LABEL_CHARS :: nat where
  "MAX_LABEL_CHARS = 200"

definition bounded :: "string option \<Rightarrow> nat \<Rightarrow> bool" where
  "bounded s max_chars \<longleftrightarrow> char_count (case s of None \<Rightarrow> [] | Some t \<Rightarrow> t) \<le> max_chars"

definition decision_actor :: "role option \<Rightarrow> string option \<Rightarrow> string" where
  "decision_actor verified claimed =
     (case verified of
        Some r \<Rightarrow> ''AGM:'' @ role_str r
      | None \<Rightarrow> (case trimmed claimed of Some c \<Rightarrow> ''user('' @ take_chars 64 c @ '')'' | None \<Rightarrow> ''user''))"

definition decision_target :: "string \<Rightarrow> string option" where
  "decision_target decision =
     (if decision = ''approve'' then Some ''approved'' else if decision = ''deny'' then Some ''denied''
      else if decision = ''revoke'' then Some ''revoked'' else None)"

definition decision_sources :: "string \<Rightarrow> string list" where
  "decision_sources status = (if status = ''approved'' \<or> status = ''denied'' then [''pending''] else [''approved'', ''pending''])"

text \<open>Who may say yes: a verified role (\<open>verified\<close>) that is not the bot that asked (\<open>caller\<close>).\<close>

definition may_approve :: "ident option \<Rightarrow> ident \<Rightarrow> windows \<Rightarrow> decision_error + unit" where
  "may_approve caller i w =
     (case approval_principal i w of
        Inl _ \<Rightarrow> Inl Requester_Lookup_Failed
      | Inr (Some (Principal_Bot b)) \<Rightarrow> if caller = Some b then Inl Self_Approval else Inr ()
      | Inr (Some Principal_User) \<Rightarrow> Inr ()
      | Inr None \<Rightarrow> Inl Requester_Unknown)"

fun decide_first ::
  "string list \<Rightarrow> (string \<Rightarrow> windows \<Rightarrow> db_error + approval option \<times> windows) \<Rightarrow> windows
     \<Rightarrow> db_error + (string \<times> approval) option \<times> windows" where
  "decide_first [] f w = Inr (None, w)"
| "decide_first (frm # rest) f w =
     bind_res (f frm w) (\<lambda>(a, w'). case a of Some x \<Rightarrow> Inr (Some (frm, x), w') | None \<Rightarrow> decide_first rest f w')"

text \<open>\<open>Inr (None, _)\<close>: the same decision was recorded already, the row is answered as it is.\<close>

definition post_decision ::
  "role option \<Rightarrow> ident option \<Rightarrow> ident \<Rightarrow> string \<Rightarrow> string option \<Rightarrow> string option \<Rightarrow> int option \<Rightarrow> ident \<Rightarrow> time \<Rightarrow> windows
     \<Rightarrow> decision_error + (string \<times> approval) option \<times> windows" where
  "post_decision verified caller i decision claimed reason expires_in nid now w =
     (if \<not> (bounded reason MAX_NOTE_CHARS \<and> bounded claimed MAX_LABEL_CHARS) then Inl Bad_Request
      else if decision = ''approve'' \<and> verified = None then Inl Role_Required
      else case decision_target decision of
        None \<Rightarrow> Inl Bad_Request
      | Some status \<Rightarrow>
          (case map_of (w_approvals w) i of
             None \<Rightarrow> Inl Approval_Not_Found
           | Some current \<Rightarrow>
               bind_res (if status = ''approved'' then may_approve caller i w else Inr ()) (\<lambda>_.
                 if ap_status current = status then Inr (None, w)
                 else if status = ''approved'' \<and> expires_in = None \<and> expired_at (ap_expires_at current) now then Inl Already_Expired
                 else bind_res (approval_expires expires_in now) (\<lambda>expires.
                   case decide_first (decision_sources status)
                          (\<lambda>frm. decide_approval_from i frm status (decision_actor verified claimed) reason expires nid now) w of
                     Inl e \<Rightarrow> Inl (Decision_Db e)
                   | Inr (None, _) \<Rightarrow> Inl Already_Decided
                   | Inr (Some x, w') \<Rightarrow> Inr (Some x, w')))))"

end
