(* ===== verification/Window_Leases.thy ===== *)
theory Window_Leases
  imports Window_Approvals
begin

text \<open>
  Leases on a window, the gate in front of new work and the check whether a window is safe
  (\<open>acquire_lease\<close>, \<open>renew_lease\<close>, \<open>release_lease\<close> of \<open>store.rs\<close>; \<open>maintenance.rs\<close>;
  \<open>post_lease_renew\<close> and \<open>lease_proof\<close> of \<open>daemon/src/runners/supervisor/api.rs\<close>).
  Which rows can be read, how many commits the binary is behind, the environment, the user's button
  and the hash of a request id are arguments; a lease whose expiry is NULL stands for one whose
  expiry cannot be read.
\<close>

section \<open>The critical section of a delivery\<close>

definition bot_of_turn :: "db \<Rightarrow> turn \<Rightarrow> ident option" where
  "bot_of_turn d t = map_of (conversations d) (t_conversation t)"

definition api_bot :: "db \<Rightarrow> ident \<Rightarrow> bool" where
  "api_bot d b \<longleftrightarrow> (case map_of (bots d) b of None \<Rightarrow> False | Some x \<Rightarrow> b_kind x = ''claude-api'')"

definition delivery_critical :: "db \<Rightarrow> time \<Rightarrow> ident \<Rightarrow> turn \<Rightarrow> bool" where
  "delivery_critical d now b t \<longleftrightarrow>
     t_status t = ''queued'' \<and> list_ex (\<lambda>(_, r). r_bot r = b \<and> List.member LIVE (r_state r)
         \<and> \<not> List.member [''blocked'', ''working''] (r_agent_status r)) (runs d)
     \<or> t_status t = ''in_flight'' \<and> t_delivery t = ''pending'' \<and> \<not> api_bot d b
     \<or> t_status t = ''in_flight'' \<and> api_bot d b
         \<and> (case Option.bind (t_run t) (map_of (runs d)) of None \<Rightarrow> False | Some r \<Rightarrow> r_state r = ''running'')
         \<and> t_created_at t > now - 15 * 60 * 1000"

definition critical_turn :: "db \<Rightarrow> time \<Rightarrow> (ident \<Rightarrow> bool) \<Rightarrow> turn \<Rightarrow> bool" where
  "critical_turn d now p t \<longleftrightarrow> (case bot_of_turn d t of None \<Rightarrow> False | Some b \<Rightarrow> p b \<and> delivery_critical d now b t)"

definition delivery_critical_anywhere :: "db \<Rightarrow> time \<Rightarrow> bool" where
  "delivery_critical_anywhere d now \<longleftrightarrow> list_ex (\<lambda>(_, t). critical_turn d now (\<lambda>_. True) t) (turns d)"

definition delivery_critical_except :: "db \<Rightarrow> time \<Rightarrow> ident \<Rightarrow> bool" where
  "delivery_critical_except d now me \<longleftrightarrow> list_ex (\<lambda>(_, t). critical_turn d now (\<lambda>b. b \<noteq> me \<or> api_bot d b) t) (turns d)"

definition delivery_critical_for_bot :: "db \<Rightarrow> time \<Rightarrow> ident \<Rightarrow> ident option" where
  "delivery_critical_for_bot d now b = map_option fst (List.find (\<lambda>(_, t). critical_turn d now (\<lambda>x. x = b) t) (turns d))"

section \<open>Taking, extending, giving back\<close>

definition quiet :: "bool \<Rightarrow> ident option \<Rightarrow> time \<Rightarrow> db \<Rightarrow> bool" where
  "quiet wanted exclude now d \<longleftrightarrow>
     (if \<not> wanted then True
      else case exclude of Some me \<Rightarrow> \<not> delivery_critical_except d now me | None \<Rightarrow> \<not> delivery_critical_anywhere d now)"

definition free_at :: "lease \<Rightarrow> time \<Rightarrow> bool" where
  "free_at l now \<longleftrightarrow> le_released_at l \<noteq> None \<or> (case le_expires_at l of None \<Rightarrow> True | Some t \<Rightarrow> t \<le> now)"

definition fresh_lease :: "time \<Rightarrow> lease" where
  "fresh_lease now =
     \<lparr>le_owner = None, le_approval = None, le_fence = 0, le_commit = None, le_acquired_at = None, le_expires_at = None,
      le_released_at = Some now, le_token = None, le_detail = None\<rparr>"

definition ensure_lease :: "string \<Rightarrow> time \<Rightarrow> windows \<Rightarrow> windows" where
  "ensure_lease resource now w =
     (if lease_of w resource = None then w\<lparr>w_leases := w_leases w @ [(resource, fresh_lease now)]\<rparr> else w)"

text \<open>The approval behind a lease that expired without being given back.\<close>

definition stale_approval :: "lease \<Rightarrow> time \<Rightarrow> ident option" where
  "stale_approval l now = (if le_released_at l = None \<and> expired_at (le_expires_at l) now then le_approval l else None)"

definition taken :: "string \<Rightarrow> ident option \<Rightarrow> string option \<Rightarrow> time \<Rightarrow> lease_detail \<Rightarrow> string \<Rightarrow> time \<Rightarrow> lease \<Rightarrow> lease" where
  "taken who approval commit expires detail token now l =
     \<lparr>le_owner = Some who, le_approval = approval, le_fence = le_fence l + 1, le_commit = commit, le_acquired_at = Some now,
      le_expires_at = Some expires, le_released_at = None, le_token = Some token, le_detail = Some detail\<rparr>"

text \<open>
  The consumption after a lease was given back or taken over, whose failure the code ignores; \<open>nid\<close> is the id of its
  note, \<open>None\<close> when the write fails or the daemon stops before it.
\<close>

definition consume_quietly :: "ident \<Rightarrow> string \<Rightarrow> string \<Rightarrow> ident option \<Rightarrow> time \<Rightarrow> windows \<Rightarrow> windows" where
  "consume_quietly i actor why nid now w =
     (case nid of
        None \<Rightarrow> w
      | Some n \<Rightarrow> kept (decide_approval_from i ''approved'' ''consumed'' actor (Some why) None n now w) w)"

definition acquire_lease ::
  "string \<Rightarrow> string \<Rightarrow> ident option \<Rightarrow> string option \<Rightarrow> time \<Rightarrow> bool \<Rightarrow> ident option \<Rightarrow> lease_detail \<Rightarrow> string \<Rightarrow> ident option \<Rightarrow> time
     \<Rightarrow> windows \<Rightarrow> lease option \<times> windows" where
  "acquire_lease resource who approval commit expires quiet_delivery exclude detail token nid now w0 =
     (let w = ensure_lease resource now w0 in
      case lease_of w resource of
        None \<Rightarrow> (None, w)
      | Some l \<Rightarrow>
          if free_at l now \<and> quiet quiet_delivery exclude now (w_db w) then
            (let w1 = w\<lparr>w_leases := upd_row resource (taken who approval commit expires detail token now) (w_leases w)\<rparr>;
                 w2 = (case stale_approval l now of
                         None \<Rightarrow> w1
                       | Some old \<Rightarrow> if Some old = approval then w1 else consume_quietly old ''daemon'' ''lease expired'' nid now w1)
             in (lease_of w2 resource, w2))
          else (None, w))"

definition update_lease :: "string \<Rightarrow> (lease \<Rightarrow> bool) \<Rightarrow> (lease \<Rightarrow> lease) \<Rightarrow> windows \<Rightarrow> bool \<times> windows" where
  "update_lease resource p f w =
     (case lease_of w resource of
        None \<Rightarrow> (False, w)
      | Some l \<Rightarrow> if p l then (True, w\<lparr>w_leases := upd_row resource f (w_leases w)\<rparr>) else (False, w))"

definition renew_lease :: "string \<Rightarrow> string \<Rightarrow> int \<Rightarrow> time \<Rightarrow> time \<Rightarrow> windows \<Rightarrow> bool \<times> windows" where
  "renew_lease resource who fence expires now =
     update_lease resource (\<lambda>l. le_owner l = Some who \<and> le_fence l = fence \<and> held_at l now) (\<lambda>l. l\<lparr>le_expires_at := Some expires\<rparr>)"

definition release_lease :: "string \<Rightarrow> string \<Rightarrow> int \<Rightarrow> time \<Rightarrow> windows \<Rightarrow> bool \<times> windows" where
  "release_lease resource who fence now =
     update_lease resource (\<lambda>l. le_owner l = Some who \<and> le_fence l = fence \<and> le_released_at l = None)
       (\<lambda>l. l\<lparr>le_released_at := Some now\<rparr>)"

definition force_release_lease :: "string \<Rightarrow> int \<Rightarrow> time \<Rightarrow> windows \<Rightarrow> bool \<times> windows" where
  "force_release_lease resource fence now =
     update_lease resource (\<lambda>l. le_fence l = fence \<and> le_released_at l = None) (\<lambda>l. l\<lparr>le_released_at := Some now\<rparr>)"

section \<open>The gate\<close>

datatype window_state = Not_Held | Held string string int time | Unreadable string

text \<open>\<open>window_held\<close>; \<open>readable\<close>: the lease row of a resource can be read. What cannot be read counts as held.\<close>

fun window_held_from :: "(string \<Rightarrow> bool) \<Rightarrow> time \<Rightarrow> windows \<Rightarrow> string list \<Rightarrow> window_state" where
  "window_held_from readable now w [] = Not_Held"
| "window_held_from readable now w (resource # rest) =
     (if \<not> readable resource then Unreadable resource
      else case lease_of w resource of
          None \<Rightarrow> window_held_from readable now w rest
        | Some l \<Rightarrow>
            if le_released_at l = None \<and> le_expires_at l = None then Unreadable resource
            else if held_at l now then
              Held resource (case le_owner l of None \<Rightarrow> [] | Some x \<Rightarrow> x) (le_fence l) (case le_expires_at l of None \<Rightarrow> 0 | Some t \<Rightarrow> t)
            else window_held_from readable now w rest)"

definition window_held :: "(string \<Rightarrow> bool) \<Rightarrow> time \<Rightarrow> windows \<Rightarrow> window_state" where
  "window_held readable now w = window_held_from readable now w EXCLUSIVE"

text \<open>\<open>dispatch_paused\<close>: \<open>Inl\<close> when it cannot be read, else until when.\<close>

definition dispatch_paused :: "(string \<Rightarrow> bool) \<Rightarrow> time \<Rightarrow> windows \<Rightarrow> string + time option" where
  "dispatch_paused readable now w =
     (case window_held readable now w of
        Unreadable r \<Rightarrow> Inl r | Not_Held \<Rightarrow> Inr None | Held _ _ _ until \<Rightarrow> Inr (Some until))"

definition window_closed :: "time \<Rightarrow> windows \<Rightarrow> windows" where
  "window_closed now w = w\<lparr>w_db := kept (clear_restart_holds now (w_db w)) (w_db w)\<rparr>"

definition RELEASED_REASON :: string where
  "RELEASED_REASON = ''lease released''"

definition FORCE_RELEASED_REASON :: string where
  "FORCE_RELEASED_REASON = ''lease force-released''"

datatype lease_error =
    Token_Mismatch
  | Not_The_Caller
  | Force_Forbidden
  | Unknown_Resource
  | Bad_Commit
  | Idle_Check_Required
  | No_Such_Approval
  | Not_Covered refusal_reason
  | Owner_Mismatch
  | Approval_Spent
  | Exclude_Not_Requester ident
  | Not_Idle safety_report
  | Raced
  | Lease_Held
  | Bad_Lease_Request
  | Lease_Lost
  | Lease_Db db_error

text \<open>\<open>release\<close>; \<open>race\<close> is what others write between the check of the proof and the statement.\<close>

definition release ::
  "(string \<Rightarrow> bool) \<Rightarrow> (windows \<Rightarrow> windows) \<Rightarrow> string \<Rightarrow> string \<Rightarrow> int \<Rightarrow> lease_proof \<Rightarrow> ident option \<Rightarrow> time \<Rightarrow> windows
     \<Rightarrow> lease_error + bool \<times> windows" where
  "release readable race resource who fence proof nid now w =
     (case lease_of w resource of
        None \<Rightarrow> Inr (False, w)
      | Some held \<Rightarrow>
          if \<not> proof_allows proof (le_token held) then Inl Token_Mismatch
          else
            (let (released, w1) =
                   (if proof = Forced then force_release_lease resource (le_fence held) now (race w)
                    else release_lease resource who fence now (race w))
             in if \<not> released then Inr (False, w1)
                else
                  (let why = (if proof = Forced then FORCE_RELEASED_REASON else RELEASED_REASON);
                       w2 = (case le_approval held of None \<Rightarrow> w1 | Some a \<Rightarrow> consume_quietly a who why nid now w1);
                       w3 = (if List.member EXCLUSIVE resource \<and> dispatch_paused readable now w2 = Inr None
                             then window_closed now w2 else w2)
                   in Inr (True, w3))))"

fun release_left_over :: "(string \<Rightarrow> bool) \<Rightarrow> (string \<Rightarrow> ident option) \<Rightarrow> time \<Rightarrow> string list \<Rightarrow> windows \<Rightarrow> windows" where
  "release_left_over readable nid now [] w = w"
| "release_left_over readable nid now (resource # rest) w =
     (let w' = (if \<not> readable resource then w
                else case lease_of w resource of
                  None \<Rightarrow> w
                | Some l \<Rightarrow>
                    if le_released_at l \<noteq> None then w
                    else kept (release readable id resource (case le_owner l of None \<Rightarrow> [] | Some x \<Rightarrow> x) (le_fence l) Forced
                           (nid resource) now w) w)
      in release_left_over readable nid now rest w')"

definition release_restart_on_startup :: "(string \<Rightarrow> bool) \<Rightarrow> (string \<Rightarrow> ident option) \<Rightarrow> time \<Rightarrow> windows \<Rightarrow> windows" where
  "release_restart_on_startup readable nid now w = window_closed now (release_left_over readable nid now EXCLUSIVE w)"

end
