(* ===== verification/Window_Maintenance.thy ===== *)
theory Window_Maintenance
  imports Window_Leases
begin

text \<open>
  When a window is safe, and the call that opens it
  (\<open>escalation_for\<close>, \<open>safety_as\<close>, \<open>acquire_with_request\<close> of
  \<open>crates/am-supervisor/src/supervisor/maintenance.rs\<close>; \<open>post_lease_renew\<close>, \<open>lease_proof\<close> of
  \<open>daemon/src/runners/supervisor/api.rs\<close>).
\<close>

section \<open>Waiting too long\<close>

text \<open>What the check asks others: the environment, the user's button, git, and which rows can be read.\<close>

record probes =
  pr_env :: "string option"
  pr_user_escalated :: "ident \<Rightarrow> bool"
  pr_behind :: nat
  pr_delivery :: "ident \<Rightarrow> bool"
  pr_run :: "ident \<Rightarrow> bool"
  pr_in_flight :: "ident \<Rightarrow> bool"

record escalation =
  es_approval :: ident
  es_waited :: int
  es_escalated :: bool

text \<open>\<open>oldest_live_window_approval\<close>: an approval without an expiry lives for a day after the decision.\<close>

definition window_live :: "time \<Rightarrow> approval \<Rightarrow> bool" where
  "window_live now a \<longleftrightarrow> ap_status a = ''approved'' \<and> List.member RESOURCES (ap_purpose a)
     \<and> (case ap_decided_at a of
          None \<Rightarrow> False
        | Some since \<Rightarrow> (case ap_expires_at a of Some e \<Rightarrow> e > now | None \<Rightarrow> since > now - 1000 * APPROVAL_MAX_AGE_SECS))"

definition waits_longer :: "ident \<times> approval \<Rightarrow> ident \<times> approval \<Rightarrow> bool" where
  "waits_longer x y \<longleftrightarrow> (case (waiting_since (snd x), waiting_since (snd y)) of (Some s, Some t) \<Rightarrow> s < t | _ \<Rightarrow> False)"

definition oldest_live_window_approval :: "time \<Rightarrow> windows \<Rightarrow> (ident \<times> approval) option" where
  "oldest_live_window_approval now w = least_by waits_longer (filter (\<lambda>e. window_live now (snd e)) (w_approvals w))"

definition escalation_for :: "probes \<Rightarrow> ident option \<Rightarrow> time \<Rightarrow> windows \<Rightarrow> escalation option" where
  "escalation_for pr approval_id now w =
     (case (case approval_id of
              Some i \<Rightarrow>
                (case map_of (w_approvals w) i of
                   None \<Rightarrow> None
                 | Some a \<Rightarrow>
                     if ap_status a = ''approved'' \<and> List.member RESOURCES (ap_purpose a) \<and> \<not> expired_at (effective_expiry a) now
                     then Some (i, a) else None)
            | None \<Rightarrow> oldest_live_window_approval now w) of
        None \<Rightarrow> None
      | Some (i, a) \<Rightarrow>
          (case waiting_since a of
             None \<Rightarrow> None
           | Some since \<Rightarrow>
               Some \<lparr>es_approval = i, es_waited = waited_secs since now,
                     es_escalated = pr_user_escalated pr i \<or> waited_secs since now \<ge> escalate_after_secs (pr_env pr)
                       \<or> behind_escalates (pr_behind pr)\<rparr>))"

section \<open>The safety check\<close>

definition held_leases :: "string option \<Rightarrow> time \<Rightarrow> windows \<Rightarrow> (string \<times> bool) list" where
  "held_leases who now w =
     List.map_filter (\<lambda>resource. case lease_of w resource of
         None \<Rightarrow> None
       | Some l \<Rightarrow> if held_at l now then Some (resource, who \<noteq> None \<and> le_owner l = who) else None) RESOURCES"

definition live_bots :: "db \<Rightarrow> ident list" where
  "live_bots d = map fst (filter (\<lambda>(_, b). b_deleted_at b = None) (bots d))"

definition probed :: "ident list \<Rightarrow> db \<Rightarrow> ident list" where
  "probed exclude d = filter (\<lambda>b. \<not> List.member exclude b) (live_bots d)"

text \<open>The loop over the bots: one list per finding.\<close>

definition delivering :: "probes \<Rightarrow> time \<Rightarrow> db \<Rightarrow> ident list \<Rightarrow> (ident \<times> ident) list" where
  "delivering pr now d bs =
     List.map_filter (\<lambda>b. if pr_delivery pr b then map_option (Pair b) (delivery_critical_for_bot d now b) else None) bs"

definition run_of :: "probes \<Rightarrow> db \<Rightarrow> ident \<Rightarrow> (ident \<times> run) option" where
  "run_of pr d b = (if pr_run pr b then active_run d b else None)"

definition agent_is :: "string \<Rightarrow> probes \<Rightarrow> db \<Rightarrow> ident \<Rightarrow> bool" where
  "agent_is s pr d b \<longleftrightarrow> (case run_of pr d b of None \<Rightarrow> False | Some (_, r) \<Rightarrow> r_agent_status r = s)"

definition in_flight_of :: "probes \<Rightarrow> db \<Rightarrow> ident list \<Rightarrow> (ident \<times> ident) list" where
  "in_flight_of pr d bs =
     List.map_filter (\<lambda>b. case run_of pr d b of
         None \<Rightarrow> None
       | Some (rid, _) \<Rightarrow> if pr_in_flight pr b then map_option (\<lambda>e. (b, fst e)) (in_flight_turn d rid) else None) bs"

definition unreadable_bots :: "probes \<Rightarrow> db \<Rightarrow> ident list \<Rightarrow> ident list" where
  "unreadable_bots pr d bs =
     concat (map (\<lambda>b. (if pr_delivery pr b then [] else [b])
        @ (if \<not> pr_run pr b \<or> run_of pr d b \<noteq> None \<and> \<not> pr_in_flight pr b then [b] else [])) bs)"

definition safety_as :: "probes \<Rightarrow> ident list \<Rightarrow> ident option \<Rightarrow> string option \<Rightarrow> time \<Rightarrow> windows \<Rightarrow> safety_report" where
  "safety_as pr exclude approval_id who now w =
     (let d = w_db w; bs = probed exclude d;
          deliv = delivering pr now d bs; working = filter (agent_is ''working'' pr d) bs;
          flight = in_flight_of pr d bs; unread = unreadable_bots pr d bs;
          held = held_leases who now w; esc = escalation_for pr approval_id now w;
          escalated = (case esc of None \<Rightarrow> False | Some e \<Rightarrow> es_escalated e);
          strict = (working = [] \<and> flight = [] \<and> unread = []);
          relaxed = (escalated \<and> deliv = [] \<and> unread = [] \<and> filter (\<lambda>l. \<not> snd l) held = [])
      in \<lparr>sr_safe = strict \<or> relaxed, sr_escalated = escalated, sr_waited = map_option es_waited esc,
          sr_approval = map_option es_approval esc, sr_delivering = deliv, sr_leases = held, sr_working = working,
          sr_in_flight = flight, sr_unreadable = unread, sr_blocked = filter (agent_is ''blocked'' pr d) bs,
          sr_queued = length (filter (\<lambda>(_, a). a_status a = ''queued'') (assignments d))\<rparr>)"

section \<open>Opening a window\<close>

definition exclude_from_quiet :: "ident list \<Rightarrow> ident option \<Rightarrow> ident option" where
  "exclude_from_quiet exclude self_bot =
     (case self_bot of None \<Rightarrow> None | Some me \<Rightarrow> if List.member exclude me then Some me else None)"

record acquire_req =
  aq_resource :: string
  aq_owner :: string
  aq_approval :: ident
  aq_commit :: "string option"
  aq_ttl_secs :: int
  aq_require_idle :: bool
  aq_exclude :: "ident list"
  aq_request_id :: "string option"

record opened =
  op_lease :: lease
  op_replayed :: bool
  op_safety :: safety_report

definition self_bot :: "ident \<Rightarrow> windows \<Rightarrow> db_error + ident option" where
  "self_bot i w = bind_res (approval_principal i w) (\<lambda>p. Inr (case p of Some (Principal_Bot b) \<Rightarrow> Some b | _ \<Rightarrow> None))"

text \<open>The checks on the request alone.\<close>

definition well_formed :: "acquire_req \<Rightarrow> lease_error option" where
  "well_formed q =
     (case map_option trim (aq_request_id q) of
        Some r \<Rightarrow> if r = [] \<or> length r > 200 then Some Bad_Lease_Request else None
      | None \<Rightarrow> None)"

definition acquire_shape :: "acquire_req \<Rightarrow> lease_error option" where
  "acquire_shape q =
     (if well_formed q \<noteq> None then well_formed q
      else if \<not> List.member RESOURCES (aq_resource q) then Some Unknown_Resource
      else if (case aq_commit q of None \<Rightarrow> False | Some c \<Rightarrow> \<not> valid_commit c) then Some Bad_Commit
      else if List.member EXCLUSIVE (aq_resource q) \<and> \<not> aq_require_idle q then Some Idle_Check_Required
      else None)"

text \<open>A lease this approval has already opened, that is over.\<close>

definition spent_on :: "ident \<Rightarrow> string \<Rightarrow> time \<Rightarrow> windows \<Rightarrow> bool" where
  "spent_on i resource now w \<longleftrightarrow>
     (case lease_of w resource of
        None \<Rightarrow> False
      | Some l \<Rightarrow> (le_released_at l \<noteq> None \<or> \<not> held_at l now) \<and> le_approval l = Some i)"

text \<open>The same request again: the lease it opened, when it is still held.\<close>

definition replay :: "(string \<Rightarrow> string) \<Rightarrow> acquire_req \<Rightarrow> time \<Rightarrow> windows \<Rightarrow> opened option" where
  "replay hash q now w =
     (case map_option trim (aq_request_id q) of
        None \<Rightarrow> None
      | Some rid \<Rightarrow>
          (case lease_of w (aq_resource q) of
             None \<Rightarrow> None
           | Some l \<Rightarrow>
               (case le_detail l of
                  None \<Rightarrow> None
                | Some det \<Rightarrow>
                    if held_at l now \<and> le_owner l = Some (aq_owner q) \<and> le_approval l = Some (aq_approval q)
                       \<and> le_commit l = aq_commit q \<and> ld_request_hash det = Some (hash rid)
                    then Some \<lparr>op_lease = l, op_replayed = True, op_safety = ld_safety det\<rparr> else None)))"

definition clamp :: "int \<Rightarrow> int \<Rightarrow> int \<Rightarrow> int" where
  "clamp lo hi x = (if x < lo then lo else if hi < x then hi else x)"

text \<open>
  From the safety check to the answer; \<open>race\<close> is what others write between the check and the
  statement that takes the lease.
\<close>

definition acquire_checked ::
  "(string \<Rightarrow> string) \<Rightarrow> probes \<Rightarrow> (windows \<Rightarrow> windows) \<Rightarrow> acquire_req \<Rightarrow> approval \<Rightarrow> ident option \<Rightarrow> string \<Rightarrow> ident option \<Rightarrow> time
     \<Rightarrow> windows \<Rightarrow> (lease_error + opened) \<times> windows" where
  "acquire_checked hash pr race q a me token nid now w =
     (let safety = safety_as pr (aq_exclude q) (Some (aq_approval q)) (Some (aq_owner q)) now w in
      if aq_require_idle q \<and> \<not> sr_safe safety then (Inl (Not_Idle safety), w)
      else
        (let ttl = clamp 30 MAX_TTL_SECS (aq_ttl_secs q);
             expires = lease_deadline (now + 1000 * ttl) (effective_expiry a);
             quiet_delivery = List.member EXCLUSIVE (aq_resource q);
             exclude_self = (if quiet_delivery then exclude_from_quiet (aq_exclude q) me else None);
             detail = \<lparr>ld_request_hash = map_option (\<lambda>r. hash (trim r)) (aq_request_id q), ld_excluded_self = exclude_self,
                       ld_safety = safety\<rparr>
         in case acquire_lease (aq_resource q) (aq_owner q) (Some (aq_approval q)) (aq_commit q) expires quiet_delivery
                   exclude_self detail token nid now (race w) of
              (Some l, w') \<Rightarrow> (Inr \<lparr>op_lease = l, op_replayed = False, op_safety = safety\<rparr>, w')
            | (None, w') \<Rightarrow>
                (Inl (if (case lease_of w' (aq_resource q) of None \<Rightarrow> True | Some l \<Rightarrow> \<not> held_at l now)
                         \<and> delivery_critical_anywhere (w_db w') now then Raced else Lease_Held), w')))"

definition acquire_with_request ::
  "(string \<Rightarrow> string) \<Rightarrow> probes \<Rightarrow> (windows \<Rightarrow> windows) \<Rightarrow> acquire_req \<Rightarrow> string \<Rightarrow> ident option \<Rightarrow> time \<Rightarrow> windows
     \<Rightarrow> (lease_error + opened) \<times> windows" where
  "acquire_with_request hash pr race q token nid now w =
     (case acquire_shape q of
        Some e \<Rightarrow> (Inl e, w)
      | None \<Rightarrow>
      case map_of (w_approvals w) (aq_approval q) of
        None \<Rightarrow> (Inl No_Such_Approval, w)
      | Some a \<Rightarrow>
      case refusal a now (aq_resource q) (aq_commit q) of
        Some r \<Rightarrow> (Inl (Not_Covered r), w)
      | None \<Rightarrow>
      if ap_requester a \<noteq> aq_owner q then (Inl Owner_Mismatch, w)
      else if spent_on (aq_approval q) (aq_resource q) now w then
        (Inl Approval_Spent, consume_quietly (aq_approval q) ''daemon'' ''lease expired'' nid now w)
      else case replay hash q now w of
        Some out \<Rightarrow> (Inr out, w)
      | None \<Rightarrow>
      case self_bot (aq_approval q) w of
        Inl e \<Rightarrow> (Inl (Lease_Db e), w)
      | Inr me \<Rightarrow>
          (case (if List.member EXCLUSIVE (aq_resource q) then List.find (\<lambda>b. Some b \<noteq> me) (aq_exclude q) else None) of
             Some bad \<Rightarrow> (Inl (Exclude_Not_Requester bad), w)
           | None \<Rightarrow> acquire_checked hash pr race q a me token nid now w))"

section \<open>Extending a window\<close>

text \<open>\<open>lease_proof\<close>: taking over needs a role and a reason.\<close>

definition lease_proof_of :: "bool \<Rightarrow> role option \<Rightarrow> string option \<Rightarrow> string option \<Rightarrow> lease_error + lease_proof" where
  "lease_proof_of force actor reason token =
     (if force then
        (if actor = None then Inl Force_Forbidden else if trimmed reason = None then Inl Bad_Lease_Request else Inr Forced)
      else Inr (case trimmed token of Some t \<Rightarrow> Token t | None \<Rightarrow> Absent))"

text \<open>A bot acts under its own id only; somebody who is no bot may name anyone.\<close>

definition requester_claim :: "ident option \<Rightarrow> string \<Rightarrow> bool" where
  "requester_claim caller requester \<longleftrightarrow> caller = None \<or> caller = Some requester"

definition post_lease_renew ::
  "ident option \<Rightarrow> bool \<Rightarrow> string \<Rightarrow> string \<Rightarrow> int \<Rightarrow> int option \<Rightarrow> string option \<Rightarrow> time \<Rightarrow> windows \<Rightarrow> (lease_error + lease) \<times> windows" where
  "post_lease_renew caller force resource who fence ttl_secs token now w =
     (if force then (Inl Bad_Lease_Request, w)
      else if \<not> requester_claim caller who then (Inl Not_The_Caller, w)
      else let ttl = clamp 30 MAX_TTL_SECS (case ttl_secs of None \<Rightarrow> DEFAULT_TTL_SECS | Some t \<Rightarrow> t); held = lease_of w resource in
      case Option.bind held (\<lambda>l. Option.bind (le_approval l) (map_of (w_approvals w))) of
        None \<Rightarrow> (Inl No_Such_Approval, w)
      | Some a \<Rightarrow>
      case refusal a now resource (Option.bind held le_commit) of
        Some r \<Rightarrow> (Inl (Not_Covered r), w)
      | None \<Rightarrow>
      case lease_proof_of False None None token of
        Inl e \<Rightarrow> (Inl e, w)
      | Inr proof \<Rightarrow>
          if \<not> proof_allows proof (Option.bind held le_token) then (Inl Token_Mismatch, w)
          else
            (case renew_lease resource who fence (lease_deadline (now + 1000 * ttl) (effective_expiry a)) now w of
               (False, w') \<Rightarrow> (Inl Lease_Lost, w')
             | (True, w') \<Rightarrow> (case lease_of w' resource of None \<Rightarrow> (Inl Lease_Lost, w') | Some l \<Rightarrow> (Inr l, w'))))"

section \<open>Giving a window back\<close>

definition force_body :: "string \<Rightarrow> string \<Rightarrow> int \<Rightarrow> string option \<Rightarrow> bool \<Rightarrow> role option \<Rightarrow> json" where
  "force_body resource who fence reason released actor = JObj
     [(''resource'', JStr resource), (''owner'', JStr who), (''fence'', JNum fence),
      (''reason'', JStr (case reason of None \<Rightarrow> [] | Some r \<Rightarrow> r)), (''released'', JBool released),
      (''by_role'', JStr (case actor of None \<Rightarrow> ''?'' | Some r \<Rightarrow> role_str r))]"

definition noted_quietly :: "ident \<Rightarrow> string \<Rightarrow> json \<Rightarrow> time \<Rightarrow> windows \<Rightarrow> windows" where
  "noted_quietly nid kind body now w = (case add_audit nid kind body now w of Inl _ \<Rightarrow> w | Inr w' \<Rightarrow> w')"

text \<open>A forced release leaves a note (its failure is ignored); \<open>race\<close> is that of \<open>release\<close>.\<close>

definition post_lease_release ::
  "ident option \<Rightarrow> (string \<Rightarrow> bool) \<Rightarrow> (windows \<Rightarrow> windows) \<Rightarrow> string \<Rightarrow> string \<Rightarrow> int \<Rightarrow> bool \<Rightarrow> role option \<Rightarrow> string option
     \<Rightarrow> string option \<Rightarrow> ident option \<Rightarrow> ident \<Rightarrow> time \<Rightarrow> windows \<Rightarrow> lease_error + bool \<times> windows" where
  "post_lease_release caller readable race resource who fence force actor reason token nid fid now w =
     (if \<not> force \<and> \<not> requester_claim caller who then Inl Not_The_Caller
      else bind_res (lease_proof_of force actor reason token) (\<lambda>proof.
        bind_res (release readable race resource who fence proof nid now w) (\<lambda>(released, w1).
          Inr (released,
               if force then noted_quietly fid ''lease_force_release'' (force_body resource who fence reason released actor) now w1
               else w1))))"

end
