(* ===== verification/Window_Safety.thy ===== *)
theory Window_Safety
  imports Window_Maintenance
begin

text \<open>
  What the operations on windows leave of the approvals and of the leases: an approval keeps its terms
  and moves along the edges of its life, a lease that is not taken over keeps its holder.
\<close>

section \<open>The operations\<close>

datatype window_op =
    Ask approval_req ident ident ident time
  | Decide "role option" "ident option" ident string "string option" "string option" "int option" ident time
  | Open probes "db \<Rightarrow> db" acquire_req string "ident option" time
  | Extend "ident option" bool string string int "int option" "string option" time
  | Give_Back "ident option" "string \<Rightarrow> bool" string string int bool "role option" "string option" "string option" "ident option" ident time
  | Daemon_Starts "string \<Rightarrow> bool" "ident option" time
  | Elsewhere "db \<Rightarrow> db"

text \<open>\<open>Open\<close> carries what others write to their tables while it is checked; \<open>Elsewhere\<close> is any other statement.\<close>

fun window_perform :: "(string \<Rightarrow> string) \<Rightarrow> window_op \<Rightarrow> windows \<Rightarrow> windows" where
  "window_perform hash (Ask q i nid eid now) w = kept (create_approval_tx q i nid eid now w) w"
| "window_perform hash (Decide verified caller i decision claimed reason expires_in nid now) w =
     kept (post_decision verified caller i decision claimed reason expires_in nid now w) w"
| "window_perform hash (Open pr race q token nid now) w =
     snd (acquire_with_request hash pr (\<lambda>v. v\<lparr>w_db := race (w_db v)\<rparr>) q token nid now w)"
| "window_perform hash (Extend caller force resource who fence ttl token now) w = snd (post_lease_renew caller force resource who fence ttl token now w)"
| "window_perform hash (Give_Back caller readable resource who fence force actor reason token nid fid now) w =
     kept (post_lease_release caller readable id resource who fence force actor reason token nid fid now w) w"
| "window_perform hash (Daemon_Starts readable nid now) w = release_restart_on_startup readable (\<lambda>_. nid) now w"
| "window_perform hash (Elsewhere f) w = w\<lparr>w_db := f (w_db w)\<rparr>"

section \<open>Approvals\<close>

definition approval_edge :: "string \<Rightarrow> string \<Rightarrow> bool" where
  "approval_edge a b \<longleftrightarrow> List.member
     [(''pending'', ''approved''), (''pending'', ''denied''), (''pending'', ''revoked''), (''pending'', ''superseded''),
      (''approved'', ''revoked''), (''approved'', ''consumed''), (''approved'', ''superseded'')] (a, b)"

definition same_terms :: "approval \<Rightarrow> approval \<Rightarrow> bool" where
  "same_terms a b \<longleftrightarrow> ap_requester b = ap_requester a \<and> ap_purpose b = ap_purpose a \<and> ap_scope b = ap_scope a
     \<and> ap_commit b = ap_commit a \<and> ap_client_request b = ap_client_request a \<and> ap_created_at b = ap_created_at a"

definition approval_step :: "approval \<Rightarrow> approval \<Rightarrow> bool" where
  "approval_step a b \<longleftrightarrow> b = a \<or> same_terms a b \<and> approval_edge (ap_status a) (ap_status b)"

definition approvals_step :: "windows \<Rightarrow> windows \<Rightarrow> bool" where
  "approvals_step w w' \<longleftrightarrow>
     (\<forall>i a. map_of (w_approvals w) i = Some a \<longrightarrow> (\<exists>b. map_of (w_approvals w') i = Some b \<and> approval_step a b))"

lemma approvals_same: "w_approvals w' = w_approvals w \<Longrightarrow> approvals_step w w'"
  by (auto simp: approvals_step_def approval_step_def)

lemma approvals_step_left: "w_approvals v = w_approvals w \<Longrightarrow> approvals_step v w' \<Longrightarrow> approvals_step w w'"
  by (simp add: approvals_step_def)

lemma approvals_step_right: "approvals_step w v \<Longrightarrow> w_approvals w' = w_approvals v \<Longrightarrow> approvals_step w w'"
  by (simp add: approvals_step_def)

lemma add_audit_fields:
  assumes "add_audit nid kind body now w = Inr w'"
  shows "w_db w' = w_db w" "w_approvals w' = w_approvals w" "w_leases w' = w_leases w"
    "w_notes w' = w_notes w @ [(nid, \<lparr>no_kind = kind, no_body = body, no_at = now\<rparr>)]"
  using assms by (auto simp: add_audit_def insert_row_def bind_res_def Let_def split: if_splits sum.splits)

lemma settle_request_fields [simp]:
  "w_approvals (settle_request i now w) = w_approvals w" "w_leases (settle_request i now w) = w_leases w"
  "w_notes (settle_request i now w) = w_notes w"
  by (simp_all add: settle_request_def)

lemma decided_terms [simp]:
  "ap_status (decided st actor reason e now a) = st" "same_terms a (decided st actor reason e now a)"
  by (simp_all add: decided_def same_terms_def)

text \<open>What a recorded decision is: the row moved and the note was written, or nothing.\<close>

lemma decide_from_cases:
  assumes "decide_approval_from i frm st actor reason e nid now w = Inr (out, w')"
  obtains (lost) "out = None" "w' = w"
  | (moved) a where "map_of (w_approvals w) i = Some a" "ap_status a = frm" "out = Some (decided st actor reason e now a)"
      "w_approvals w' = upd_row i (decided st actor reason e now) (w_approvals w)" "w_leases w' = w_leases w"
      "w_notes w' = w_notes w @ [(nid, \<lparr>no_kind = ''approval_decision'', no_body = decision_body i frm st actor reason, no_at = now\<rparr>)]"
      "frm \<noteq> ''pending'' \<Longrightarrow> w_db w' = w_db w"
proof (cases "\<exists>a. map_of (w_approvals w) i = Some a \<and> ap_status a = frm")
  case False
  then show ?thesis using assms lost by (auto simp: decide_approval_from_def split: option.splits)
next
  case True
  then obtain a where a: "map_of (w_approvals w) i = Some a" "ap_status a = frm" by blast
  then obtain w1 where w1: "add_audit nid ''approval_decision'' (decision_body i frm st actor reason) now
      (w\<lparr>w_approvals := upd_row i (decided st actor reason e now) (w_approvals w)\<rparr>) = Inr w1"
    and out: "out = Some (decided st actor reason e now a)" "w' = (if frm = ''pending'' then settle_request i now w1 else w1)"
    using assms by (auto simp: decide_approval_from_def elim!: bind_res_InrE)
  show ?thesis using moved [OF a out(1)] add_audit_fields [OF w1] out(2) by simp
qed

lemma decide_from_step:
  assumes "decide_approval_from i frm st actor reason e nid now w = Inr (out, w')" "approval_edge frm st"
  shows "approvals_step w w'"
  using assms(1)
proof (cases rule: decide_from_cases)
  case lost
  then show ?thesis by (simp add: approvals_same)
next
  case (moved a)
  then show ?thesis using assms(2) by (auto simp: approvals_step_def approval_step_def)
qed

lemma consume_fields:
  "w_db (consume_quietly i actor why nid now w) = w_db w" "w_leases (consume_quietly i actor why nid now w) = w_leases w"
  "approvals_step w (consume_quietly i actor why nid now w)"
proof -
  have edge: "approval_edge ''approved'' ''consumed''" by (simp add: approval_edge_def)
  consider "consume_quietly i actor why nid now w = w"
    | n out w' where "nid = Some n" "decide_approval_from i ''approved'' ''consumed'' actor (Some why) None n now w = Inr (out, w')"
    by (cases nid; cases "decide_approval_from i ''approved'' ''consumed'' actor (Some why) None (the nid) now w")
      (auto simp: consume_quietly_def)
  then have "w_db (consume_quietly i actor why nid now w) = w_db w \<and> w_leases (consume_quietly i actor why nid now w) = w_leases w
      \<and> approvals_step w (consume_quietly i actor why nid now w)"
  proof cases
    case 1
    then show ?thesis by (simp add: approvals_same)
  next
    case (2 n out w')
    then have w': "consume_quietly i actor why nid now w = w'" by (simp add: consume_quietly_def)
    have "w_db w' = w_db w \<and> w_leases w' = w_leases w" using 2(2) by (cases rule: decide_from_cases) simp_all
    then show ?thesis using decide_from_step [OF 2(2) edge] w' by simp
  qed
  then show "w_db (consume_quietly i actor why nid now w) = w_db w" "w_leases (consume_quietly i actor why nid now w) = w_leases w"
    "approvals_step w (consume_quietly i actor why nid now w)" by simp_all
qed

text \<open>With a new note id the consumption of an approved one is never lost.\<close>

lemma consume_approved:
  assumes "nid \<notin> set (map fst (w_notes w))" "distinct (map fst (w_notes w))" "map_of (w_approvals w) i = Some a"
  shows "map_of (w_approvals (consume_quietly i actor why (Some nid) now w)) j =
    (if j = i \<and> ap_status a = ''approved'' then Some (decided ''consumed'' actor (Some why) None now a) else map_of (w_approvals w) j)"
proof -
  have "map_of (w_notes w) nid = None" using assms(1) by (simp add: map_of_eq_None_iff)
  then show ?thesis
    using assms
    by (auto simp: consume_quietly_def decide_approval_from_def add_audit_def insert_row_def bind_res_def Let_def)
qed

section \<open>Asking\<close>

definition superseded_row :: "time \<Rightarrow> approval \<Rightarrow> approval" where
  "superseded_row now a = a\<lparr>ap_status := ''superseded'', ap_updated_at := now\<rparr>"

lemma superseded_terms [simp]: "same_terms a (superseded_row now a)" "ap_status (superseded_row now a) = ''superseded''"
  by (simp_all add: superseded_row_def same_terms_def)

lemma find_old_fits:
  assumes "find_old q w = Inr (Some (i, a))"
  shows "map_of (w_approvals w) i = Some a" "ap_requester a = rq_requester q" "ap_purpose a = rq_purpose q"
  using assms by (auto simp: find_old_def Let_def split: option.splits if_splits)

lemma supersede_cases:
  assumes "supersede q new_id nid now w = Inr ((s, wait), w')"
  obtains (none) "s = None" "w' = w"
  | (row) i a where "s = Some i" "map_of (w_approvals w) i = Some a" "ap_requester a = rq_requester q" "ap_purpose a = rq_purpose q"
      "ap_status a = ''pending'' \<or> ap_status a = ''approved''"
      "w_approvals w' = upd_row i (superseded_row now) (w_approvals w)" "w_leases w' = w_leases w"
      "w_notes w' = w_notes w @ [(nid, \<lparr>no_kind = ''approval_decision'',
         no_body = decision_body i (ap_status a) ''superseded'' (rq_requester q) (Some (''superseded by '' @ new_id)), no_at = now\<rparr>)]"
proof -
  obtain old where old: "find_old q w = Inr old" using assms by (auto simp: supersede_def elim: bind_res_InrE)
  show ?thesis
  proof (cases old)
    case None
    then show ?thesis using assms old none by (simp add: supersede_def)
  next
    case (Some e)
    obtain i a where e: "e = (i, a)" by (cases e)
    let ?live = "(ap_status a = ''pending'' \<or> ap_status a = ''approved'') \<and> \<not> expired_at (ap_expires_at a) now"
    let ?stale = "trimmed (rq_supersedes q) = None \<and> ap_status a = ''pending'' \<and> expired_at (ap_expires_at a) now"
    show ?thesis
    proof (cases "?live \<or> ?stale")
      case False
      then show ?thesis using assms old Some e none by (auto simp: supersede_def Let_def split: if_splits)
    next
      case True
      let ?w1 = "w\<lparr>w_approvals := upd_row i (superseded_row now) (w_approvals w)\<rparr>"
      let ?body = "decision_body i (ap_status a) ''superseded'' (rq_requester q) (Some (''superseded by '' @ new_id))"
      obtain w1 where w1: "add_audit nid ''approval_decision'' ?body now ?w1 = Inr w1"
        and r: "s = Some i" "w' = settle_request i now w1"
        using True assms old Some e
        by (auto simp: supersede_def Let_def superseded_row_def [abs_def] split: if_splits sum.splits)
      show ?thesis
        using row [of i a] find_old_fits [of q w i a] True old Some e r add_audit_fields [OF w1] by auto
    qed
  qed
qed

lemma request_known_old: "request_known q w = Some (Inr out) \<Longrightarrow> \<not> ao_created out"
  by (auto simp: request_known_def same_request_def split: option.splits if_splits prod.splits)

lemma create_cases:
  assumes "create_approval_tx q i nid eid now w = Inr (out, w')"
  obtains (known) "w' = w" "\<not> ao_created out" "request_known q w = Some (Inr out)"
  | (created) s wait w1 where "supersede q i nid now w = Inr ((s, wait), w1)" "ao_created out" "ao_superseded out = s"
      "ao_approval out = (i, new_approval q wait now)"
      "w_approvals w' = w_approvals w1 @ [(i, new_approval q wait now)]" "map_of (w_approvals w1) i = None"
      "approvals_ok (w_approvals w')" "w_leases w' = w_leases w1"
      "\<exists>extra. w_notes w' = w_notes w1 @ extra \<and> (\<forall>n \<in> set extra. no_kind (snd n) = ''approval_principal'' \<and> no_at (snd n) = now)"
proof -
  obtain s wait w1 where sup: "supersede q i nid now w = Inr ((s, wait), w1)"
    using assms by (auto simp: create_approval_tx_def elim!: bind_res_InrE)
  let ?a = "new_approval q wait now"
  show ?thesis
  proof (cases "insert_row approvals_ok i ?a (w_approvals w1)")
    case (Inl e)
    then have "request_known q w = Some (Inr out)" "w' = w"
      using assms sup by (auto simp: create_approval_tx_def split: option.splits elim!: bind_res_InrE)
    then show ?thesis using known request_known_old by blast
  next
    case (Inr t)
    then have t: "map_of (w_approvals w1) i = None" "t = w_approvals w1 @ [(i, ?a)]" "approvals_ok t"
      by (auto simp: insert_row_def Let_def split: if_splits)
    let ?w2 = "w1\<lparr>w_approvals := t\<rparr>"
    obtain w3 where w3: "(case rq_principal q of None \<Rightarrow> Inr ?w2
          | Some p \<Rightarrow> add_audit (''approval-principal:'' @ i) ''approval_principal'' (principal_json p) now ?w2) = Inr w3"
      and out: "out = \<lparr>ao_approval = (i, ?a), ao_created = True, ao_superseded = s\<rparr>"
      and w': "w_approvals w' = w_approvals w3" "w_leases w' = w_leases w3" "w_notes w' = w_notes w3"
      using assms sup Inr by (auto simp: create_approval_tx_def Let_def split: sum.splits if_splits)
    have f: "w_approvals w3 = t" "w_leases w3 = w_leases w1"
      "\<exists>extra. w_notes w3 = w_notes w1 @ extra \<and> (\<forall>n \<in> set extra. no_kind (snd n) = ''approval_principal'' \<and> no_at (snd n) = now)"
      using w3 add_audit_fields [of "''approval-principal:'' @ i" "''approval_principal''" _ now ?w2 w3]
      by (auto split: option.splits)
    show ?thesis using created [OF sup] out w' f t by simp
  qed
qed

lemma edge_superseded: "s = ''pending'' \<or> s = ''approved'' \<Longrightarrow> approval_edge s ''superseded''"
  by (auto simp: approval_edge_def)

lemma supersede_step:
  assumes "supersede q new_id nid now w = Inr ((s, wait), w')"
  shows "approvals_step w w'" "w_leases w' = w_leases w"
proof -
  have "approvals_step w w' \<and> w_leases w' = w_leases w"
    using assms
  proof (cases rule: supersede_cases)
    case none
    then show ?thesis by (simp add: approvals_same)
  next
    case (row i a)
    then show ?thesis using edge_superseded [OF row(5)] by (auto simp: approvals_step_def approval_step_def)
  qed
  then show "approvals_step w w'" "w_leases w' = w_leases w" by simp_all
qed

lemma approvals_step_append:
  "approvals_step w w1 \<Longrightarrow> w_approvals w' = w_approvals w1 @ t \<Longrightarrow> approvals_step w w'"
  unfolding approvals_step_def by (fastforce simp: map_add_def split: option.splits)

lemma create_step:
  assumes "create_approval_tx q i nid eid now w = Inr (out, w')"
  shows "approvals_step w w'" "w_leases w' = w_leases w"
proof -
  have "approvals_step w w' \<and> w_leases w' = w_leases w"
    using assms
  proof (cases rule: create_cases)
    case known
    then show ?thesis by (simp add: approvals_same)
  next
    case (created s wait w1)
    then show ?thesis using supersede_step [OF created(1)] approvals_step_append by metis
  qed
  then show "approvals_step w w'" "w_leases w' = w_leases w" by simp_all
qed

section \<open>Deciding\<close>

lemma decide_first_cases:
  assumes "decide_first froms f w = Inr (out, w')"
    and "\<And>frm out w'. frm \<in> set froms \<Longrightarrow> f frm w = Inr (None, w') \<Longrightarrow> w' = w"
  obtains (lost) "out = None" "w' = w" | (moved) frm a where "frm \<in> set froms" "out = Some (frm, a)" "f frm w = Inr (Some a, w')"
  using assms
proof (induction froms arbitrary: thesis)
  case (Cons frm froms)
  obtain a w1 where f: "f frm w = Inr (a, w1)"
    and rest: "(case a of Some x \<Rightarrow> Inr (Some (frm, x), w1) | None \<Rightarrow> decide_first froms f w1) = Inr (out, w')"
    using Cons.prems(3) by (auto elim!: bind_res_InrE)
  show ?case
  proof (cases a)
    case None
    then have "w1 = w" using Cons.prems(4) [of frm w1] f by simp
    then show ?thesis using Cons.IH [of thesis] Cons.prems(1,2,4) rest None by auto
  next
    case (Some x)
    then show ?thesis using Cons.prems(2) [of frm x] f rest by auto
  qed
qed simp

lemma decision_edges:
  "decision_target decision = Some st \<Longrightarrow> frm \<in> set (decision_sources st) \<Longrightarrow> approval_edge frm st"
  by (auto simp: decision_target_def decision_sources_def approval_edge_def split: if_splits)

lemma decide_lost:
  assumes "decide_approval_from i frm st actor reason e nid now w = Inr (None, w')"
  shows "w' = w"
  using assms by (cases rule: decide_from_cases) simp_all

text \<open>A decision that was taken: by whom, from what, to what.\<close>

lemma post_decision_cases:
  assumes "post_decision verified caller i decision claimed reason expires_in nid now w = Inr (out, w')"
  obtains (again) "out = None" "w' = w"
  | (decided) st frm a e where "decision_target decision = Some st" "frm \<in> set (decision_sources st)" "out = Some (frm, a)"
      "decide_approval_from i frm st (decision_actor verified claimed) reason e nid now w = Inr (Some a, w')"
      "st = ''approved'' \<Longrightarrow> verified \<noteq> None \<and> may_approve caller i w = Inr ()"
proof -
  obtain st where st: "decision_target decision = Some st"
    and ver: "decision = ''approve'' \<longrightarrow> verified \<noteq> None"
    using assms by (auto simp: post_decision_def split: if_splits option.splits)
  obtain current where cur: "map_of (w_approvals w) i = Some current"
    using assms st by (auto simp: post_decision_def split: if_splits option.splits)
  have may: "st = ''approved'' \<Longrightarrow> may_approve caller i w = Inr ()"
    using assms st cur by (auto simp: post_decision_def split: if_splits elim!: bind_res_InrE)
  have app: "st = ''approved'' \<Longrightarrow> decision = ''approve''" using st by (auto simp: decision_target_def split: if_splits)
  show ?thesis
  proof (cases "ap_status current = st")
    case True
    then show ?thesis using assms st cur again by (auto simp: post_decision_def split: if_splits elim!: bind_res_InrE)
  next
    case False
    then obtain e where r: "(case decide_first (decision_sources st)
           (\<lambda>frm. decide_approval_from i frm st (decision_actor verified claimed) reason e nid now) w of
        Inl e \<Rightarrow> Inl (Decision_Db e) | Inr (None, _) \<Rightarrow> Inl Already_Decided | Inr (Some x, w') \<Rightarrow> Inr (Some x, w')) = Inr (out, w')"
      using assms st cur by (auto simp: post_decision_def split: if_splits elim!: bind_res_InrE)
    then obtain x where x: "decide_first (decision_sources st)
           (\<lambda>frm. decide_approval_from i frm st (decision_actor verified claimed) reason e nid now) w = Inr (Some x, w')" "out = Some x"
      by (auto split: sum.splits option.splits)
    have lost: "v = w" if "decide_approval_from i frm st (decision_actor verified claimed) reason e nid now w = Inr (None, v)" for frm v
      using decide_lost [OF that] .
    show ?thesis
    proof (rule decide_first_cases [OF x(1)])
      fix frm a
      assume m: "frm \<in> set (decision_sources st)" "Some x = Some (frm, a)"
        "decide_approval_from i frm st (decision_actor verified claimed) reason e nid now w = Inr (Some a, w')"
      show ?thesis using decided [OF st m(1) _ m(3)] m(2) x(2) may app ver by simp
    qed (use lost in auto)
  qed
qed

lemma post_decision_step:
  assumes "post_decision verified caller i decision claimed reason expires_in nid now w = Inr (out, w')"
  shows "approvals_step w w'" "w_leases w' = w_leases w"
proof -
  have "approvals_step w w' \<and> w_leases w' = w_leases w"
    using assms
  proof (cases rule: post_decision_cases)
    case again
    then show ?thesis by (simp add: approvals_same)
  next
    case (decided st frm a e)
    have "w_leases w' = w_leases w" using decided(4) by (cases rule: decide_from_cases) simp_all
    then show ?thesis using decide_from_step [OF decided(4) decision_edges [OF decided(1,2)]] by simp
  qed
  then show "approvals_step w w'" "w_leases w' = w_leases w" by simp_all
qed

end
