(* ===== verification/Window_Holders.thy ===== *)
theory Window_Holders
  imports Window_Safety
begin

text \<open>
  Who holds a lease: what every operation leaves of the lease rows, and what the taking of a lease
  proves about the moment it is taken.
\<close>

section \<open>Taking a lease\<close>

lemma lease_of_upd [simp]:
  "lease_of (w\<lparr>w_leases := upd_row r f (w_leases w)\<rparr>) s = (if r = s then map_option f (lease_of w r) else lease_of w s)"
  by (simp add: lease_of_def)

lemma lease_of_cong: "w_leases w' = w_leases w \<Longrightarrow> lease_of w' r = lease_of w r"
  by (simp add: lease_of_def)

lemma ensure_lease_of:
  "lease_of (ensure_lease r now w) s = (if s = r \<and> lease_of w r = None then Some (fresh_lease now) else lease_of w s)"
  by (auto simp: ensure_lease_def lease_of_def map_add_def split: option.splits)

lemma ensure_lease_fields [simp]:
  "w_db (ensure_lease r now w) = w_db w" "w_approvals (ensure_lease r now w) = w_approvals w" "w_notes (ensure_lease r now w) = w_notes w"
  by (simp_all add: ensure_lease_def)

lemma fresh_lease_free: "free_at (fresh_lease now) t"
  by (simp add: free_at_def fresh_lease_def)

text \<open>The row the statement finds.\<close>

definition found_lease :: "string \<Rightarrow> time \<Rightarrow> windows \<Rightarrow> lease" where
  "found_lease r now w = (case lease_of w r of None \<Rightarrow> fresh_lease now | Some l \<Rightarrow> l)"

lemma acquire_lease_cases:
  assumes "acquire_lease r who approval commit expires qd ex detail token nid now w = (out, w')"
  obtains (lost) "out = None" "w' = ensure_lease r now w"
  | (got) "free_at (found_lease r now w) now" "quiet qd ex now (w_db w)"
      "out = Some (taken who approval commit expires detail token now (found_lease r now w))"
      "\<forall>s. lease_of w' s = (if s = r then out else lease_of w s)" "w_db w' = w_db w"
      "w' = (case stale_approval (found_lease r now w) now of
               None \<Rightarrow> (ensure_lease r now w)\<lparr>w_leases := upd_row r (taken who approval commit expires detail token now) (w_leases (ensure_lease r now w))\<rparr>
             | Some old \<Rightarrow>
                 if Some old = approval
                 then (ensure_lease r now w)\<lparr>w_leases := upd_row r (taken who approval commit expires detail token now) (w_leases (ensure_lease r now w))\<rparr>
                 else consume_quietly old ''daemon'' ''lease expired'' nid now
                   ((ensure_lease r now w)\<lparr>w_leases := upd_row r (taken who approval commit expires detail token now) (w_leases (ensure_lease r now w))\<rparr>))"
proof -
  have l: "lease_of (ensure_lease r now w) r = Some (found_lease r now w)"
    by (auto simp: ensure_lease_of found_lease_def split: option.split)
  show ?thesis
  proof (cases "free_at (found_lease r now w) now \<and> quiet qd ex now (w_db w)")
    case False
    then show ?thesis using assms lost l by (auto simp: acquire_lease_def Let_def)
  next
    case True
    let ?w1 = "(ensure_lease r now w)\<lparr>w_leases := upd_row r (taken who approval commit expires detail token now) (w_leases (ensure_lease r now w))\<rparr>"
    let ?w2 = "case stale_approval (found_lease r now w) now of None \<Rightarrow> ?w1
             | Some old \<Rightarrow> if Some old = approval then ?w1 else consume_quietly old ''daemon'' ''lease expired'' nid now ?w1"
    have w2: "w' = ?w2" "out = lease_of ?w2 r" using assms True l by (auto simp: acquire_lease_def Let_def)
    have leases: "w_leases ?w2 = w_leases ?w1" "w_db ?w2 = w_db w" by (auto simp: consume_fields split: option.split)
    have row: "lease_of ?w2 s = (if s = r then Some (taken who approval commit expires detail token now (found_lease r now w)) else lease_of w s)" for s
      unfolding lease_of_cong [OF leases(1)] using l by (auto simp: ensure_lease_of)
    show ?thesis using got True w2 row leases by simp
  qed
qed

lemma acquire_lease_step:
  assumes "acquire_lease r who approval commit expires qd ex detail token nid now w = (out, w')"
  shows "approvals_step w w'"
  using assms
proof (cases rule: acquire_lease_cases)
  case lost
  then show ?thesis by (simp add: approvals_same)
next
  case got
  let ?w1 = "(ensure_lease r now w)\<lparr>w_leases := upd_row r (taken who approval commit expires detail token now) (w_leases (ensure_lease r now w))\<rparr>"
  have same: "w_approvals ?w1 = w_approvals w" by simp
  have "approvals_step w ?w1" by (rule approvals_same [OF same])
  moreover have "approvals_step w (consume_quietly old ''daemon'' ''lease expired'' nid now ?w1)" for old
    using approvals_step_left [OF same consume_fields(3)] .
  ultimately show ?thesis unfolding got(6) by (auto split: option.split)
qed

section \<open>Opening a window\<close>

lemma replay_held:
  assumes "replay hash q now w = Some out"
  shows "op_replayed out" "lease_of w (aq_resource q) = Some (op_lease out)" "held_at (op_lease out) now"
    "le_approval (op_lease out) = Some (aq_approval q)" "le_owner (op_lease out) = Some (aq_owner q)"
  using assms by (auto simp: replay_def split: option.splits if_splits)

text \<open>What has been checked when an acquisition reaches the statement.\<close>

definition covered :: "acquire_req \<Rightarrow> time \<Rightarrow> windows \<Rightarrow> approval \<Rightarrow> bool" where
  "covered q now w a \<longleftrightarrow> List.member RESOURCES (aq_resource q)
     \<and> (List.member EXCLUSIVE (aq_resource q) \<longrightarrow> aq_require_idle q)
     \<and> map_of (w_approvals w) (aq_approval q) = Some a \<and> ap_status a = ''approved''
     \<and> \<not> expired_at (effective_expiry a) now \<and> ap_purpose a = aq_resource q
     \<and> (case ap_commit a of None \<Rightarrow> True | Some c \<Rightarrow> aq_commit q = Some c)
     \<and> ap_requester a = aq_owner q \<and> \<not> spent_on (aq_approval q) (aq_resource q) now w"

definition lease_until :: "acquire_req \<Rightarrow> approval \<Rightarrow> time \<Rightarrow> time" where
  "lease_until q a now = lease_deadline (now + 1000 * clamp 30 MAX_TTL_SECS (aq_ttl_secs q)) (effective_expiry a)"

definition own_turn :: "acquire_req \<Rightarrow> windows \<Rightarrow> ident option" where
  "own_turn q w =
     (if List.member EXCLUSIVE (aq_resource q)
      then exclude_from_quiet (aq_exclude q) (case self_bot (aq_approval q) w of Inr me \<Rightarrow> me | Inl _ \<Rightarrow> None) else None)"

definition opening_safety :: "probes \<Rightarrow> acquire_req \<Rightarrow> time \<Rightarrow> windows \<Rightarrow> safety_report" where
  "opening_safety pr q now w = safety_as pr (aq_exclude q) (Some (aq_approval q)) (Some (aq_owner q)) now w"

definition opening_detail :: "(string \<Rightarrow> string) \<Rightarrow> probes \<Rightarrow> acquire_req \<Rightarrow> time \<Rightarrow> windows \<Rightarrow> lease_detail" where
  "opening_detail hash pr q now w =
     \<lparr>ld_request_hash = map_option (\<lambda>r. hash (trim r)) (aq_request_id q), ld_excluded_self = own_turn q w,
      ld_safety = opening_safety pr q now w\<rparr>"

definition take_window ::
  "(string \<Rightarrow> string) \<Rightarrow> probes \<Rightarrow> (windows \<Rightarrow> windows) \<Rightarrow> acquire_req \<Rightarrow> approval \<Rightarrow> string \<Rightarrow> ident option \<Rightarrow> time \<Rightarrow> windows
     \<Rightarrow> lease option \<times> windows" where
  "take_window hash pr race q a token nid now w =
     acquire_lease (aq_resource q) (aq_owner q) (Some (aq_approval q)) (aq_commit q) (lease_until q a now)
       (List.member EXCLUSIVE (aq_resource q)) (own_turn q w) (opening_detail hash pr q now w) token nid now (race w)"

lemma acquire_checked_take:
  assumes "own_turn q w = (if List.member EXCLUSIVE (aq_resource q) then exclude_from_quiet (aq_exclude q) me else None)"
    and "\<not> (aq_require_idle q \<and> \<not> sr_safe (opening_safety pr q now w))"
  shows "acquire_checked hash pr race q a me token nid now w =
    (case take_window hash pr race q a token nid now w of
       (Some l, w') \<Rightarrow> (Inr \<lparr>op_lease = l, op_replayed = False, op_safety = opening_safety pr q now w\<rparr>, w')
     | (None, w') \<Rightarrow>
         (Inl (if (case lease_of w' (aq_resource q) of None \<Rightarrow> True | Some l \<Rightarrow> \<not> held_at l now)
                  \<and> delivery_critical_anywhere (w_db w') now then Raced else Lease_Held), w'))"
  using assms(2)
  unfolding acquire_checked_def take_window_def opening_detail_def assms(1) lease_until_def opening_safety_def Let_def
  by (rule if_not_P)

lemma acquire_checked_unsafe:
  assumes "aq_require_idle q \<and> \<not> sr_safe (opening_safety pr q now w)"
  shows "acquire_checked hash pr race q a me token nid now w = (Inl (Not_Idle (opening_safety pr q now w)), w)"
  using assms unfolding acquire_checked_def opening_safety_def Let_def by (rule if_P)

lemma acquire_cases:
  assumes "acquire_with_request hash pr race q token nid now w = (res, w')"
  obtains (refused) e where "res = Inl e" "w' = w"
  | (spent) a e where "res = Inl e" "map_of (w_approvals w) (aq_approval q) = Some a" "ap_purpose a = aq_resource q"
      "spent_on (aq_approval q) (aq_resource q) now w"
      "w' = consume_quietly (aq_approval q) ''daemon'' ''lease expired'' nid now w"
  | (replayed) a out where "res = Inr out" "w' = w" "replay hash q now w = Some out" "covered q now w a"
  | (tried) a out where "covered q now w a" "replay hash q now w = None" "aq_require_idle q \<Longrightarrow> sr_safe (opening_safety pr q now w)"
      "\<forall>b \<in> set (aq_exclude q). List.member EXCLUSIVE (aq_resource q) \<longrightarrow> self_bot (aq_approval q) w = Inr (Some b)"
      "take_window hash pr race q a token nid now w = (out, w')"
      "case out of None \<Rightarrow> \<exists>e. res = Inl e
         | Some l \<Rightarrow> res = Inr \<lparr>op_lease = l, op_replayed = False, op_safety = opening_safety pr q now w\<rparr>"
proof -
  consider e where "acquire_shape q = Some e" | "acquire_shape q = None" "map_of (w_approvals w) (aq_approval q) = None"
    | a where "acquire_shape q = None" "map_of (w_approvals w) (aq_approval q) = Some a"
    by (cases "acquire_shape q"; cases "map_of (w_approvals w) (aq_approval q)") auto
  then show ?thesis
  proof cases
    case (3 a)
    consider r where "refusal a now (aq_resource q) (aq_commit q) = Some r"
      | "refusal a now (aq_resource q) (aq_commit q) = None" "ap_requester a \<noteq> aq_owner q"
      | "refusal a now (aq_resource q) (aq_commit q) = None" "ap_requester a = aq_owner q"
      by (cases "refusal a now (aq_resource q) (aq_commit q)") auto
    then show ?thesis
    proof cases
      case 4: 3
      show ?thesis
      proof (cases "spent_on (aq_approval q) (aq_resource q) now w")
        case True
        then have "res = Inl Approval_Spent" "w' = consume_quietly (aq_approval q) ''daemon'' ''lease expired'' nid now w"
          using assms 3 4 by (simp_all add: acquire_with_request_def)
        then show ?thesis using spent [of Approval_Spent a] 3(2) 4(1) True by (simp add: refusal_None)
      next
        case False
        have cov: "covered q now w a"
          using 3 4 False by (auto simp: covered_def refusal_None acquire_shape_def split: if_splits)
        show ?thesis
        proof (cases "replay hash q now w")
          case (Some out)
          then show ?thesis using assms 3 4 False replayed [OF _ _ Some cov] by (simp add: acquire_with_request_def)
        next
          case None
          note base = 3 4 False None
          show ?thesis
          proof (cases "self_bot (aq_approval q) w")
            case (Inl e)
            then show ?thesis using assms base refused [of "Lease_Db e"] by (simp add: acquire_with_request_def)
          next
            case (Inr me)
            show ?thesis
            proof (cases "if List.member EXCLUSIVE (aq_resource q) then List.find (\<lambda>b. Some b \<noteq> me) (aq_exclude q) else None")
              case (Some bad)
              then show ?thesis using assms base Inr refused [of "Exclude_Not_Requester bad"] by (simp add: acquire_with_request_def)
            next
              case n: None
              have ex: "\<forall>b \<in> set (aq_exclude q). List.member EXCLUSIVE (aq_resource q) \<longrightarrow> self_bot (aq_approval q) w = Inr (Some b)"
                using n Inr by (auto simp: find_None_iff split: if_splits)
              have chk: "acquire_checked hash pr race q a me token nid now w = (res, w')"
                using assms base Inr n by (simp add: acquire_with_request_def)
              have own: "own_turn q w = (if List.member EXCLUSIVE (aq_resource q) then exclude_from_quiet (aq_exclude q) me else None)"
                using Inr by (simp add: own_turn_def)
              show ?thesis
              proof (cases "aq_require_idle q \<and> \<not> sr_safe (opening_safety pr q now w)")
                case True
                have "res = Inl (Not_Idle (opening_safety pr q now w))" "w' = w"
                  using chk unfolding acquire_checked_unsafe [OF True] by auto
                then show ?thesis by (rule refused)
              next
                case idle: False
                obtain out v where t: "take_window hash pr race q a token nid now w = (out, v)" by fastforce
                have v: "v = w'" "case out of None \<Rightarrow> \<exists>e. res = Inl e
                    | Some l \<Rightarrow> res = Inr \<lparr>op_lease = l, op_replayed = False, op_safety = opening_safety pr q now w\<rparr>"
                  using chk unfolding acquire_checked_take [OF own idle] t by (auto split: option.splits)
                have t': "take_window hash pr race q a token nid now w = (out, w')" using t unfolding v(1) .
                have idle': "aq_require_idle q \<Longrightarrow> sr_safe (opening_safety pr q now w)" using idle by blast
                show ?thesis by (rule tried [OF cov None idle' ex t' v(2)])
              qed
            qed
          qed
        qed
      qed
    qed (use assms 3 in \<open>auto simp: acquire_with_request_def intro: refused\<close>)
  qed (use assms in \<open>auto simp: acquire_with_request_def intro: refused\<close>)
qed

end
