(* ===== verification/Window_Runs.thy ===== *)
theory Window_Runs
  imports Window_Holders
begin

text \<open>
  Sequences of operations on windows: every one moves approvals along their edges and leaves a lease
  with its holder unless the lease was free, and an approval opens one window.
\<close>

section \<open>Giving back and extending\<close>

lemma update_lease_cases:
  assumes "update_lease r p f w = (b, w')"
  obtains (no) "\<not> b" "w' = w"
  | (yes) l where "b" "lease_of w r = Some l" "p l" "w' = w\<lparr>w_leases := upd_row r f (w_leases w)\<rparr>"
  using assms by (auto simp: update_lease_def split: option.splits if_splits)

definition given_back :: "time \<Rightarrow> lease \<Rightarrow> lease" where
  "given_back now l = l\<lparr>le_released_at := Some now\<rparr>"

lemma window_closed_fields [simp]:
  "w_approvals (window_closed now w) = w_approvals w" "w_leases (window_closed now w) = w_leases w"
  "w_notes (window_closed now w) = w_notes w"
  by (simp_all add: window_closed_def)

definition spend :: "ident option \<Rightarrow> string \<Rightarrow> string \<Rightarrow> ident option \<Rightarrow> time \<Rightarrow> windows \<Rightarrow> windows" where
  "spend approval who why nid now w = (case approval of None \<Rightarrow> w | Some a \<Rightarrow> consume_quietly a who why nid now w)"

lemma spend_fields [simp]: "w_leases (spend approval who why nid now w) = w_leases w" "w_db (spend approval who why nid now w) = w_db w"
  by (auto simp: spend_def consume_fields split: option.split)

lemma spend_step: "approvals_step w (spend approval who why nid now w)"
  by (auto simp: spend_def consume_fields approvals_same split: option.split)

lemma release_cases:
  assumes "release readable id r who fence proof nid now w = Inr (b, w')"
  obtains (no) "\<not> b" "w' = w"
  | (yes) l why where "b" "lease_of w r = Some l" "le_released_at l = None" "proof_allows proof (le_token l)"
      "proof = Forced \<or> le_owner l = Some who \<and> le_fence l = fence"
      "w_leases w' = upd_row r (given_back now) (w_leases w)"
      "w_approvals w' = w_approvals (spend (le_approval l) who why nid now (w\<lparr>w_leases := upd_row r (given_back now) (w_leases w)\<rparr>))"
      "w_notes w' = w_notes (spend (le_approval l) who why nid now (w\<lparr>w_leases := upd_row r (given_back now) (w_leases w)\<rparr>))"
proof (cases "lease_of w r")
  case None
  then show ?thesis using assms no by (simp add: release_def)
next
  case (Some l)
  have p: "proof_allows proof (le_token l)" using assms Some by (auto simp: release_def split: if_splits)
  let ?free = "if proof = Forced then force_release_lease r (le_fence l) now w else release_lease r who fence now w"
  obtain rel w1 where r: "?free = (rel, w1)" by fastforce
  let ?why = "if proof = Forced then FORCE_RELEASED_REASON else RELEASED_REASON"
  have out: "(Inr (b, w') :: lease_error + bool \<times> windows) = (if \<not> rel then Inr (False, w1)
      else Inr (True, if List.member EXCLUSIVE r \<and> dispatch_paused readable now (spend (le_approval l) who ?why nid now w1) = Inr None
        then window_closed now (spend (le_approval l) who ?why nid now w1) else spend (le_approval l) who ?why nid now w1))"
  proof -
    have "release readable id r who fence proof nid now w = (if \<not> rel then Inr (False, w1)
      else Inr (True, if List.member EXCLUSIVE r \<and> dispatch_paused readable now (spend (le_approval l) who ?why nid now w1) = Inr None
        then window_closed now (spend (le_approval l) who ?why nid now w1) else spend (le_approval l) who ?why nid now w1))"
      unfolding release_def spend_def Let_def id_apply r Some option.case using p by simp
    then show ?thesis unfolding assms .
  qed
  show ?thesis
  proof (cases rel)
    case False
    then have "w1 = w"
      using r by (auto simp: force_release_lease_def release_lease_def update_lease_def Some split: if_splits)
    then show ?thesis using out False no by simp
  next
    case True
    then have l: "le_released_at l = None" "proof = Forced \<or> le_owner l = Some who \<and> le_fence l = fence"
      "w1 = w\<lparr>w_leases := upd_row r (given_back now) (w_leases w)\<rparr>"
      using r by (auto simp: force_release_lease_def release_lease_def update_lease_def Some given_back_def [abs_def] split: if_splits)
    have b: "b" using out True by simp
    have w': "w_leases w' = w_leases w1" "w_approvals w' = w_approvals (spend (le_approval l) who ?why nid now w1)"
      "w_notes w' = w_notes (spend (le_approval l) who ?why nid now w1)"
      using out True by (auto split: if_splits)
    show ?thesis using yes [OF b Some l(1) p l(2), of ?why] w' l(3) by simp
  qed
qed

lemma noted_fields [simp]:
  "w_db (noted_quietly nid kind body now w) = w_db w" "w_approvals (noted_quietly nid kind body now w) = w_approvals w"
  "w_leases (noted_quietly nid kind body now w) = w_leases w"
  by (auto simp: noted_quietly_def add_audit_fields split: sum.split)

lemma noted_notes:
  "\<exists>extra. w_notes (noted_quietly nid kind body now w) = w_notes w @ extra \<and> (\<forall>n \<in> set extra. no_at (snd n) = now \<and> no_kind (snd n) = kind)"
  by (auto simp: noted_quietly_def add_audit_fields split: sum.split)

lemma post_release_cases:
  assumes "post_lease_release caller readable race r who fence force actor reason token nid fid now w = Inr (b, w')"
  obtains p w1 where "lease_proof_of force actor reason token = Inr p" "release readable race r who fence p nid now w = Inr (b, w1)"
    "w_db w' = w_db w1" "w_approvals w' = w_approvals w1" "w_leases w' = w_leases w1"
    "\<exists>extra. w_notes w' = w_notes w1 @ extra \<and> (\<forall>n \<in> set extra. no_at (snd n) = now \<and> no_kind (snd n) \<noteq> ''approval_decision'')"
proof -
  obtain p w1 where p: "lease_proof_of force actor reason token = Inr p" "release readable race r who fence p nid now w = Inr (b, w1)"
    and w': "w' = (if force then noted_quietly fid ''lease_force_release'' (force_body r who fence reason b actor) now w1 else w1)"
    using assms by (auto simp: post_lease_release_def split: if_splits elim!: bind_res_InrE)
  have "\<exists>extra. w_notes w' = w_notes w1 @ extra \<and> (\<forall>n \<in> set extra. no_at (snd n) = now \<and> no_kind (snd n) \<noteq> ''approval_decision'')"
    using noted_notes [of fid "''lease_force_release''" "force_body r who fence reason b actor" now w1] unfolding w' by fastforce
  then show ?thesis using that [OF p] w' by simp
qed

lemma renew_cases:
  assumes "post_lease_renew caller force r who fence ttl token now w = (res, w')"
  obtains (no) e where "res = Inl e" "w' = w"
  | (yes) l until where "lease_of w r = Some l" "le_owner l = Some who" "le_fence l = fence" "held_at l now"
      "proof_allows (case trimmed token of Some t \<Rightarrow> Token t | None \<Rightarrow> Absent) (le_token l)"
      "w' = w\<lparr>w_leases := upd_row r (\<lambda>l. l\<lparr>le_expires_at := Some until\<rparr>) (w_leases w)\<rparr>"
proof -
  consider "\<exists>e. res = Inl e \<and> w' = w"
    | a where "\<not> force" "requester_claim caller who" "Option.bind (lease_of w r) (\<lambda>l. Option.bind (le_approval l) (map_of (w_approvals w))) = Some a"
      "refusal a now r (Option.bind (lease_of w r) le_commit) = None"
      "proof_allows (case trimmed token of Some t \<Rightarrow> Token t | None \<Rightarrow> Absent) (Option.bind (lease_of w r) le_token)"
    using assms by (auto simp: post_lease_renew_def lease_proof_of_def Let_def split: if_splits option.splits)
  then show ?thesis
  proof cases
    case (2 a)
    then obtain l where l: "lease_of w r = Some l" by (cases "lease_of w r") auto
    define until where "until = lease_deadline (now + 1000 * clamp 30 MAX_TTL_SECS (case ttl of None \<Rightarrow> DEFAULT_TTL_SECS | Some t \<Rightarrow> t)) (effective_expiry a)"
    have res: "(res, w') = (case renew_lease r who fence until now w of
        (False, w') \<Rightarrow> (Inl Lease_Lost, w')
      | (True, w') \<Rightarrow> (case lease_of w' r of None \<Rightarrow> (Inl Lease_Lost, w') | Some l \<Rightarrow> (Inr l, w')))"
      using assms 2 by (simp add: post_lease_renew_def lease_proof_of_def Let_def until_def)
    show ?thesis
    proof (cases "le_owner l = Some who \<and> le_fence l = fence \<and> held_at l now")
      case True
      then have "renew_lease r who fence until now w = (True, w\<lparr>w_leases := upd_row r (\<lambda>l. l\<lparr>le_expires_at := Some until\<rparr>) (w_leases w)\<rparr>)"
        using l by (simp add: renew_lease_def update_lease_def)
      then have "w' = w\<lparr>w_leases := upd_row r (\<lambda>l. l\<lparr>le_expires_at := Some until\<rparr>) (w_leases w)\<rparr>"
        using res by (auto split: option.splits)
      then show ?thesis using yes [OF l] True 2(5) l by simp
    next
      case False
      then have "renew_lease r who fence until now w = (False, w)" using l by (auto simp: renew_lease_def update_lease_def)
      then show ?thesis using res no by simp
    qed
  qed (use no in blast)
qed

section \<open>Steps\<close>

definition same_holder :: "lease \<Rightarrow> lease \<Rightarrow> bool" where
  "same_holder l m \<longleftrightarrow> le_owner m = le_owner l \<and> le_approval m = le_approval l \<and> le_fence m = le_fence l
     \<and> le_commit m = le_commit l \<and> le_acquired_at m = le_acquired_at l \<and> le_token m = le_token l \<and> le_detail m = le_detail l
     \<and> (if le_released_at l = None then le_expires_at l = None \<longleftrightarrow> le_expires_at m = None else m = l)"

definition lease_succ :: "time \<Rightarrow> lease \<Rightarrow> lease \<Rightarrow> bool" where
  "lease_succ now l m \<longleftrightarrow> same_holder l m
     \<or> free_at l now \<and> le_fence m = le_fence l + 1 \<and> le_released_at m = None \<and> le_expires_at m \<noteq> None"

definition leases_step :: "time \<Rightarrow> windows \<Rightarrow> windows \<Rightarrow> bool" where
  "leases_step now w w' \<longleftrightarrow> (\<forall>r l. lease_of w r = Some l \<longrightarrow> (\<exists>m. lease_of w' r = Some m \<and> lease_succ now l m))"

lemma same_holder_refl [simp]: "same_holder l l"
  by (simp add: same_holder_def)

lemma leases_same: "w_leases w' = w_leases w \<Longrightarrow> leases_step now w w'"
  by (simp add: leases_step_def lease_of_def lease_succ_def)

lemma leases_upd:
  assumes "w_leases w' = upd_row r f (w_leases w)" "\<And>l. lease_of w r = Some l \<Longrightarrow> lease_succ now l (f l)"
  shows "leases_step now w w'"
  using assms by (auto simp: leases_step_def lease_of_def lease_succ_def)

lemma given_back_holder: "le_released_at l = None \<Longrightarrow> same_holder l (given_back now l)"
  by (simp add: same_holder_def given_back_def)

lemma release_step:
  assumes "release readable id r who fence proof nid now w = Inr (b, w')"
  shows "approvals_step w w' \<and> leases_step now w w'"
  using assms
proof (cases rule: release_cases)
  case no
  then show ?thesis by (simp add: approvals_same leases_same)
next
  case (yes l why)
  let ?w1 = "w\<lparr>w_leases := upd_row r (given_back now) (w_leases w)\<rparr>"
  have "approvals_step w (spend (le_approval l) who why nid now ?w1)"
    by (rule approvals_step_left [OF _ spend_step]) simp
  then have "approvals_step w w'" using yes(7) by (rule approvals_step_right)
  moreover have "leases_step now w w'"
    using yes(2,3) by (intro leases_upd [OF yes(6)]) (simp add: lease_succ_def given_back_holder)
  ultimately show ?thesis by simp
qed

lemma kept_release_step: "approvals_step w (kept (release readable id r who fence proof nid now w) w)
    \<and> leases_step now w (kept (release readable id r who fence proof nid now w) w)"
proof (cases "release readable id r who fence proof nid now w")
  case (Inr x)
  then show ?thesis using release_step [of readable r who fence "proof" nid now w "fst x" "snd x"] by (cases x) simp
qed (simp add: approvals_same leases_same)

lemma start_step: "approvals_step w (release_restart_on_startup readable n now w)
    \<and> leases_step now w (release_restart_on_startup readable n now w)"
proof -
  define v where "v = release_left_over readable n now EXCLUSIVE w"
  have "approvals_step w v \<and> leases_step now w v"
    using kept_release_step [of w readable "''restart''"]
    by (auto simp: v_def EXCLUSIVE_def Let_def approvals_same leases_same split: option.split)
  then show ?thesis
    unfolding release_restart_on_startup_def v_def [symmetric]
    by (auto simp: leases_step_def lease_of_def intro: approvals_step_right)
qed

lemma give_back_step:
  assumes "post_lease_release caller readable id r who fence force actor reason token nid fid now w = Inr (b, w')"
  shows "approvals_step w w' \<and> leases_step now w w'"
  using assms
proof (cases rule: post_release_cases)
  case (1 p w1)
  then show ?thesis using release_step [OF 1(2)] 
    by (auto simp: leases_step_def lease_of_def intro: approvals_step_right)
qed

lemma renew_step:
  assumes "post_lease_renew caller force r who fence ttl token now w = (res, w')"
  shows "approvals_step w w' \<and> leases_step now w w'"
  using assms
proof (cases rule: renew_cases)
  case (no e)
  then show ?thesis by (simp add: approvals_same leases_same)
next
  case (yes l until)
  have "lease_succ now l (l\<lparr>le_expires_at := Some until\<rparr>)"
    using yes(4) by (auto simp: lease_succ_def same_holder_def held_at_def split: option.splits)
  then have "leases_step now w w'" using yes(1,6) by (intro leases_upd [of w' r]) auto
  then show ?thesis using yes(6) by (simp add: approvals_same)
qed

lemma ensure_step: "leases_step now w (ensure_lease r t w)"
  by (auto simp: leases_step_def ensure_lease_of lease_succ_def)

lemma acquire_step:
  assumes "acquire_with_request hash pr (\<lambda>v. v\<lparr>w_db := race (w_db v)\<rparr>) q token nid now w = (res, w')"
  shows "approvals_step w w' \<and> leases_step now w w'"
  using assms
proof (cases rule: acquire_cases)
  case (tried a out)
  let ?w = "w\<lparr>w_db := race (w_db w)\<rparr>"
  have "approvals_step ?w w'" using tried(5) acquire_lease_step unfolding take_window_def by blast
  then have "approvals_step w w'" by (simp add: approvals_step_def)
  moreover have "leases_step now ?w w'"
    using tried(5) unfolding take_window_def
  proof (cases rule: acquire_lease_cases)
    case lost
    then show ?thesis using ensure_step by simp
  next
    case got
    then show ?thesis
      by (auto simp: leases_step_def found_lease_def lease_succ_def taken_def)
  qed
  ultimately show ?thesis by (simp add: leases_step_def lease_of_def)
qed (simp_all add: approvals_same leases_same consume_fields)

fun op_time :: "window_op \<Rightarrow> time option" where
  "op_time (Ask q i nid eid now) = Some now"
| "op_time (Decide verified caller i decision claimed reason expires_in nid now) = Some now"
| "op_time (Open pr race q token nid now) = Some now"
| "op_time (Extend caller force resource who fence ttl token now) = Some now"
| "op_time (Give_Back caller readable resource who fence force actor reason token nid fid now) = Some now"
| "op_time (Daemon_Starts readable nid now) = Some now"
| "op_time (Elsewhere f) = None"

lemma perform_step:
  "approvals_step w (window_perform hash op w) \<and> leases_step (case op_time op of None \<Rightarrow> 0 | Some t \<Rightarrow> t) w (window_perform hash op w)"
proof (cases op)
  case (Ask q i nid eid now)
  then show ?thesis
    using create_step [of q i nid eid now w]
    by (cases "create_approval_tx q i nid eid now w") (auto simp: approvals_same leases_same)
next
  case (Decide verified caller i decision claimed reason expires_in nid now)
  then show ?thesis
    using post_decision_step [of verified caller i decision claimed reason expires_in nid now w]
    by (cases "post_decision verified caller i decision claimed reason expires_in nid now w") (auto simp: approvals_same leases_same)
next
  case (Open pr race q token nid now)
  then show ?thesis
    using acquire_step [of hash pr race q token nid now w]
    by (cases "acquire_with_request hash pr (\<lambda>v. v\<lparr>w_db := race (w_db v)\<rparr>) q token nid now w") simp
next
  case (Extend caller force resource who fence ttl token now)
  then show ?thesis
    using renew_step [of caller force resource who fence ttl token now w]
    by (cases "post_lease_renew caller force resource who fence ttl token now w") simp
next
  case (Give_Back caller readable resource who fence force actor reason token nid fid now)
  then show ?thesis
    using give_back_step [of caller readable resource who fence force actor reason token nid fid now w]
    by (cases "post_lease_release caller readable id resource who fence force actor reason token nid fid now w")
       (auto simp: approvals_same leases_same)
next
  case (Daemon_Starts readable nid now)
  then show ?thesis using start_step by simp
next
  case (Elsewhere f)
  then show ?thesis by (simp add: approvals_same leases_same)
qed

section \<open>Sequences\<close>

text \<open>The terms of an approval and the fence of a lease over any sequence of operations.\<close>

definition approval_status :: "windows \<Rightarrow> ident \<Rightarrow> string option" where
  "approval_status w i = map_option ap_status (map_of (w_approvals w) i)"

interpretation permissions: guarded_status approval_status approval_edge "window_perform hash" for hash
proof
  fix w :: windows and i a and op :: window_op
  assume "approval_status w i = Some a"
  then obtain x where x: "map_of (w_approvals w) i = Some x" "a = ap_status x" by (auto simp: approval_status_def)
  then obtain y where "map_of (w_approvals (window_perform hash op w)) i = Some y" "approval_step x y"
    using perform_step [of w hash op] by (auto simp: approvals_step_def)
  then show "\<exists>b. approval_status (window_perform hash op w) i = Some b \<and> (a = b \<or> approval_edge a b)"
    using x(2) by (auto simp: approval_status_def approval_step_def)
qed

definition holder_later :: "lease \<Rightarrow> lease \<Rightarrow> bool" where
  "holder_later l m \<longleftrightarrow> le_fence l < le_fence m \<or> same_holder l m"

lemma same_holder_trans: "same_holder l m \<Longrightarrow> same_holder m n \<Longrightarrow> same_holder l n"
  by (auto simp: same_holder_def split: if_splits)

lemma holder_later_trans: "holder_later l m \<Longrightarrow> holder_later m n \<Longrightarrow> holder_later l n"
  using same_holder_trans by (auto simp: holder_later_def) (auto simp: same_holder_def)

interpretation holders: forward_rows lease_of holder_later "window_perform hash" for hash
proof
  fix w :: windows and r l and op :: window_op
  assume "lease_of w r = Some l"
  then show "\<exists>m. lease_of (window_perform hash op w) r = Some m \<and> holder_later l m"
    using perform_step [of w hash op] by (fastforce simp: leases_step_def lease_succ_def holder_later_def)
next
  fix l m n
  show "holder_later l l" by (simp add: holder_later_def)
  show "holder_later l m \<Longrightarrow> holder_later m n \<Longrightarrow> holder_later l n" by (rule holder_later_trans)
qed

end
