(* ===== verification/Window_Lifetime.thy ===== *)
theory Window_Lifetime
  imports Window_Runs
begin

text \<open>
  The life of a window over a sequence of operations: which approvals opened one and are in use, and
  which operations may move a lease that is held.
\<close>

section \<open>The box at the statement\<close>

text \<open>What the critical section says at the moment of the statement, the requester's own bot apart.\<close>

definition box_quiet :: "ident option \<Rightarrow> time \<Rightarrow> db \<Rightarrow> bool" where
  "box_quiet own now d \<longleftrightarrow>
     \<not> (\<exists>(i, t) \<in> set (turns d). \<exists>b. map_of (conversations d) (t_conversation t) = Some b
          \<and> (own = Some b \<longrightarrow> api_bot d b) \<and> delivery_critical d now b t)"

lemma quiet_box: "quiet True own now d \<longleftrightarrow> box_quiet own now d"
  by (cases own)
     (auto simp: quiet_def box_quiet_def delivery_critical_except_def delivery_critical_anywhere_def critical_turn_def bot_of_turn_def
        list_ex_iff split: option.splits)

definition recorded_bot :: "ident \<Rightarrow> windows \<Rightarrow> ident option" where
  "recorded_bot i w = (case approval_principal i w of Inr (Some (Principal_Bot b)) \<Rightarrow> Some b | _ \<Rightarrow> None)"

lemma own_turn_recorded:
  assumes "own_turn q w = Some b"
  shows "recorded_bot (aq_approval q) w = Some b"
  using assms
  by (auto simp: own_turn_def exclude_from_quiet_def self_bot_def recorded_bot_def bind_res_def
      split: if_splits option.splits sum.splits principal.splits)

section \<open>Approvals in use\<close>

text \<open>The approvals that opened a new window, in order.\<close>

definition opens :: "(string \<Rightarrow> string) \<Rightarrow> window_op \<Rightarrow> windows \<Rightarrow> ident list" where
  "opens hash op w =
     (case op of
        Open pr race q token nid now \<Rightarrow>
          (case acquire_with_request hash pr (\<lambda>v. v\<lparr>w_db := race (w_db v)\<rparr>) q token nid now w of
             (Inr out, _) \<Rightarrow> if op_replayed out then [] else [aq_approval q]
           | (Inl _, _) \<Rightarrow> [])
      | _ \<Rightarrow> [])"

fun opened_windows :: "(string \<Rightarrow> string) \<Rightarrow> window_op list \<Rightarrow> windows \<Rightarrow> ident list" where
  "opened_windows hash [] w = []"
| "opened_windows hash (op # ops) w = opens hash op w @ opened_windows hash ops (window_perform hash op w)"

text \<open>Every consumption is written: its note has an id, and the id is new.\<close>

definition new_note :: "windows \<Rightarrow> ident option \<Rightarrow> bool" where
  "new_note w nid \<longleftrightarrow> (case nid of None \<Rightarrow> False | Some n \<Rightarrow> \<not> List.member (map fst (w_notes w)) n)"

fun may_consume :: "window_op \<Rightarrow> windows \<Rightarrow> bool" where
  "may_consume (Open pr race q token nid now) w = new_note w nid"
| "may_consume (Give_Back caller readable resource who fence force actor reason token nid fid now) w = new_note w nid"
| "may_consume (Daemon_Starts readable nid now) w = new_note w nid"
| "may_consume op w = True"

fun consumptions_written :: "(string \<Rightarrow> string) \<Rightarrow> window_op list \<Rightarrow> windows \<Rightarrow> bool" where
  "consumptions_written hash [] w \<longleftrightarrow> True"
| "consumptions_written hash (op # ops) w \<longleftrightarrow> distinct (map fst (w_notes w)) \<and> may_consume op w
     \<and> consumptions_written hash ops (window_perform hash op w)"

lemma new_noteD: "new_note w nid \<Longrightarrow> \<exists>n. nid = Some n \<and> n \<notin> set (map fst (w_notes w))"
  by (auto simp: new_note_def split: option.splits)

text \<open>
  Of an approval that opened a window: it is not pending any more, and as long as it is approved the
  lease of its resource is the one it opened and has not been given back.
\<close>

definition in_use :: "windows \<Rightarrow> ident \<Rightarrow> bool" where
  "in_use w i \<longleftrightarrow> (\<exists>a. map_of (w_approvals w) i = Some a \<and> ap_status a \<noteq> ''pending''
     \<and> (ap_status a = ''approved'' \<longrightarrow>
          (\<exists>l. lease_of w (ap_purpose a) = Some l \<and> le_approval l = Some i \<and> le_released_at l = None \<and> le_expires_at l \<noteq> None)))"

lemma approval_step_closed:
  "approval_step a b \<Longrightarrow> ap_status a \<noteq> ''pending'' \<Longrightarrow> ap_status b \<noteq> ''pending'' \<and> (ap_status b = ''approved'' \<longrightarrow> ap_status a = ''approved'')"
  "approval_step a b \<Longrightarrow> ap_purpose b = ap_purpose a"
  by (auto simp: approval_step_def approval_edge_def same_terms_def)

text \<open>An operation that leaves the lease of the purpose alone, or with the same holder and not given back.\<close>

lemma in_use_kept:
  assumes "in_use w i" "approvals_step w w'"
    and "\<And>a b l. map_of (w_approvals w) i = Some a \<Longrightarrow> map_of (w_approvals w') i = Some b \<Longrightarrow> ap_status a = ''approved'' \<Longrightarrow>
        ap_status b = ''approved'' \<Longrightarrow> lease_of w (ap_purpose a) = Some l \<Longrightarrow> le_approval l = Some i \<Longrightarrow> le_released_at l = None \<Longrightarrow>
        le_expires_at l \<noteq> None \<Longrightarrow>
        \<exists>m. lease_of w' (ap_purpose a) = Some m \<and> le_approval m = Some i \<and> le_released_at m = None \<and> le_expires_at m \<noteq> None"
  shows "in_use w' i"
proof -
  obtain a where a: "map_of (w_approvals w) i = Some a" "ap_status a \<noteq> ''pending''"
    "ap_status a = ''approved'' \<longrightarrow> (\<exists>l. lease_of w (ap_purpose a) = Some l \<and> le_approval l = Some i
       \<and> le_released_at l = None \<and> le_expires_at l \<noteq> None)"
    using assms(1) by (auto simp: in_use_def)
  obtain b where b: "map_of (w_approvals w') i = Some b" "approval_step a b"
    using assms(2) a(1) by (auto simp: approvals_step_def)
  have b2: "ap_status b \<noteq> ''pending''" "ap_status b = ''approved'' \<Longrightarrow> ap_status a = ''approved''" "ap_purpose b = ap_purpose a"
    using approval_step_closed [OF b(2)] a(2) by simp_all
  have "\<exists>m. lease_of w' (ap_purpose b) = Some m \<and> le_approval m = Some i \<and> le_released_at m = None \<and> le_expires_at m \<noteq> None"
    if st: "ap_status b = ''approved''"
  proof -
    have ap: "ap_status a = ''approved''" using b2(2) [OF st] .
    then obtain l where l: "lease_of w (ap_purpose a) = Some l" "le_approval l = Some i" "le_released_at l = None" "le_expires_at l \<noteq> None"
      using a(3) by blast
    show ?thesis unfolding b2(3) by (rule assms(3) [OF a(1) b(1) ap st l])
  qed
  then show ?thesis using b(1) b2(1) unfolding in_use_def by blast
qed

lemma in_use_same_leases: "in_use w i \<Longrightarrow> approvals_step w w' \<Longrightarrow> w_leases w' = w_leases w \<Longrightarrow> in_use w' i"
  by (rule in_use_kept) (auto simp: lease_of_def)

lemma free_in_use: "free_at l now \<Longrightarrow> le_released_at l = None \<Longrightarrow> le_expires_at l \<noteq> None \<Longrightarrow>
    \<not> held_at l now \<and> expired_at (le_expires_at l) now"
  by (auto simp: free_at_def held_at_def expired_at_def split: option.splits)

lemma in_use_release:
  assumes "in_use w i" "release readable id r who fence proof nid now w = Inr (b, w')"
    and "distinct (map fst (w_notes w))" "new_note w nid"
  shows "in_use w' i"
  using assms(2)
proof (cases rule: release_cases)
  case (yes l why)
  let ?w1 = "w\<lparr>w_leases := upd_row r (given_back now) (w_leases w)\<rparr>"
  show ?thesis
  proof (rule in_use_kept [OF assms(1)])
    show "approvals_step w w'" using release_step [OF assms(2)] by simp
    fix a c m
    assume a: "map_of (w_approvals w) i = Some a" and c: "map_of (w_approvals w') i = Some c" "ap_status c = ''approved''"
      and m: "lease_of w (ap_purpose a) = Some m" "le_approval m = Some i" "le_released_at m = None" "le_expires_at m \<noteq> None"
      and ap: "ap_status a = ''approved''"
    have "r \<noteq> ap_purpose a"
    proof
      assume r: "r = ap_purpose a"
      then have "le_approval l = Some i" using yes(2) m(1,2) by simp
      then have "map_of (w_approvals w') i = map_of (w_approvals (consume_quietly i who why nid now ?w1)) i"
        using yes(7) by (simp add: spend_def)
      also have "\<dots> = Some (decided ''consumed'' who (Some why) None now a)"
        using consume_approved [of _ ?w1 i a who why now i] new_noteD [OF assms(4)] assms(3) a ap by auto
      finally show False using c by simp
    qed
    then show "\<exists>m. lease_of w' (ap_purpose a) = Some m \<and> le_approval m = Some i \<and> le_released_at m = None \<and> le_expires_at m \<noteq> None"
      using m yes(6) by (auto simp: lease_of_def)
  qed
qed (use assms(1) in simp)

lemma in_use_open:
  assumes "in_use w i" "acquire_with_request hash pr (\<lambda>v. v\<lparr>w_db := race (w_db v)\<rparr>) q token nid now w = (res, w')"
    and "distinct (map fst (w_notes w))" "new_note w nid"
  shows "in_use w' i"
  using assms(2)
proof (cases rule: acquire_cases)
  case (spent a e)
  show ?thesis unfolding spent(5) by (rule in_use_same_leases [OF assms(1) consume_fields(3,2)])
next
  case (tried a out)
  let ?w = "w\<lparr>w_db := race (w_db w)\<rparr>"
  have step: "approvals_step w w'" using acquire_step [OF assms(2)] by simp
  from tried(5) show ?thesis
    unfolding take_window_def
  proof (cases rule: acquire_lease_cases)
    case lost
    show ?thesis
    proof (rule in_use_kept [OF assms(1) step])
      fix b m
      assume "lease_of w (ap_purpose b) = Some m" "le_approval m = Some i" "le_released_at m = None" "le_expires_at m \<noteq> None"
      then show "\<exists>m. lease_of w' (ap_purpose b) = Some m \<and> le_approval m = Some i \<and> le_released_at m = None \<and> le_expires_at m \<noteq> None"
        using lost(2) by (auto simp: ensure_lease_of lease_of_cong [of ?w w])
    qed
  next
    case got
    let ?l = "found_lease (aq_resource q) now ?w"
    let ?t = "taken (aq_owner q) (Some (aq_approval q)) (aq_commit q) (lease_until q a now) (opening_detail hash pr q now w) token now"
    let ?w1 = "(ensure_lease (aq_resource q) now ?w)\<lparr>w_leases := upd_row (aq_resource q) ?t (w_leases (ensure_lease (aq_resource q) now ?w))\<rparr>"
    show ?thesis
    proof (rule in_use_kept [OF assms(1) step])
      fix b c m
      assume b: "map_of (w_approvals w) i = Some b" "ap_status b = ''approved''"
        and c: "map_of (w_approvals w') i = Some c" "ap_status c = ''approved''"
        and m: "lease_of w (ap_purpose b) = Some m" "le_approval m = Some i" "le_released_at m = None" "le_expires_at m \<noteq> None"
      have "aq_resource q \<noteq> ap_purpose b"
      proof
        assume r: "aq_resource q = ap_purpose b"
        have l: "?l = m" using m(1) r by (simp add: found_lease_def lease_of_def)
        have over: "\<not> held_at m now" "expired_at (le_expires_at m) now" using free_in_use [of m now] got(1) l m(3,4) by auto
        have "i \<noteq> aq_approval q"
        proof
          assume "i = aq_approval q"
          then have "spent_on (aq_approval q) (aq_resource q) now w" using m(1,2) r over(1) by (simp add: spent_on_def)
          then show False using tried(1) by (simp add: covered_def)
        qed
        moreover have "stale_approval ?l now = Some i" unfolding l using m(2,3) over(2) by (simp add: stale_approval_def)
        ultimately have "w' = consume_quietly i ''daemon'' ''lease expired'' nid now ?w1" using got(6) by simp
        then have "map_of (w_approvals w') i = Some (decided ''consumed'' ''daemon'' (Some ''lease expired'') None now b)"
          using consume_approved [of _ ?w1 i b "''daemon''" "''lease expired''" now i] new_noteD [OF assms(4)] assms(3) b by auto
        then show False using c by simp
      qed
      then show "\<exists>m. lease_of w' (ap_purpose b) = Some m \<and> le_approval m = Some i \<and> le_released_at m = None \<and> le_expires_at m \<noteq> None"
        using got(4) m by (auto simp: lease_of_def)
    qed
  qed
qed (use assms(1) in simp_all)

lemma in_use_perform:
  assumes "in_use w i" "consumptions_written hash [op] w"
  shows "in_use (window_perform hash op w) i"
proof (cases op)
  case (Open pr race q token nid now)
  then show ?thesis
    using in_use_open [of w i hash pr race q token nid now] assms
    by (cases "acquire_with_request hash pr (\<lambda>v. v\<lparr>w_db := race (w_db v)\<rparr>) q token nid now w") simp
next
  case (Give_Back caller readable resource who fence force actor reason token nid fid now)
  show ?thesis
  proof (cases "post_lease_release caller readable id resource who fence force actor reason token nid fid now w")
    case (Inr x)
    obtain b w' where x: "x = (b, w')" by (cases x)
    from Inr [unfolded x] have "in_use w' i"
    proof (cases rule: post_release_cases)
      case (1 p w1)
      then have "in_use w1 i" using in_use_release [OF assms(1) 1(2)] assms(2) Give_Back by simp
      then show ?thesis using 1(4,5) by (simp add: in_use_def lease_of_def)
    qed
    then show ?thesis using Give_Back Inr x by simp
  qed (use Give_Back assms in simp)
next
  case (Daemon_Starts readable nid now)
  let ?v = "release_left_over readable (\<lambda>_. nid) now EXCLUSIVE w"
  have "in_use ?v i"
  proof (cases "readable ''restart'' \<and> (\<exists>l. lease_of w ''restart'' = Some l \<and> le_released_at l = None)")
    case True
    then obtain l where l: "lease_of w ''restart'' = Some l" "le_released_at l = None" "readable ''restart''" by blast
    let ?o = "case le_owner l of None \<Rightarrow> [] | Some x \<Rightarrow> x"
    have "?v = kept (release readable id ''restart'' ?o (le_fence l) Forced nid now w) w"
      using l by (simp add: EXCLUSIVE_def Let_def)
    then show ?thesis
      using in_use_release [of w i readable "''restart''" ?o "le_fence l" Forced nid now] assms Daemon_Starts
      by (cases "release readable id ''restart'' ?o (le_fence l) Forced nid now w") auto
  qed (use assms(1) in \<open>auto simp: EXCLUSIVE_def Let_def split: option.splits\<close>)
  then show ?thesis
    unfolding Daemon_Starts window_perform.simps release_restart_on_startup_def
    by (rule in_use_same_leases) (simp_all add: approvals_same)
next
  case (Extend caller force resource who fence ttl token now)
  obtain res w' where p: "post_lease_renew caller force resource who fence ttl token now w = (res, w')" by fastforce
  have "in_use w' i"
    using p
  proof (cases rule: renew_cases)
    case (yes l until)
    show ?thesis
      by (rule in_use_kept [OF assms(1)]) (use renew_step [OF p] yes(6) in \<open>auto simp: lease_of_def\<close>)
  qed (use assms(1) in simp)
  then show ?thesis using p Extend by simp
next
  case (Ask q j nid eid now)
  show ?thesis
  proof (cases "create_approval_tx q j nid eid now w")
    case (Inr x)
    obtain out w' where x: "x = (out, w')" by (cases x)
    then have "window_perform hash op w = w'" using Ask Inr by simp
    then show ?thesis using in_use_same_leases [OF assms(1) create_step [OF Inr [unfolded x]]] by simp
  qed (use Ask assms(1) in simp)
next
  case (Decide verified caller j decision claimed reason expires_in nid now)
  show ?thesis
  proof (cases "post_decision verified caller j decision claimed reason expires_in nid now w")
    case (Inr x)
    obtain out w' where x: "x = (out, w')" by (cases x)
    then have "window_perform hash op w = w'" using Decide Inr by simp
    then show ?thesis using in_use_same_leases [OF assms(1) post_decision_step [OF Inr [unfolded x]]] by simp
  qed (use Decide assms(1) in simp)
next
  case (Elsewhere f)
  have "in_use (w\<lparr>w_db := f (w_db w)\<rparr>) i"
    by (rule in_use_same_leases [OF assms(1)]) (simp_all add: approvals_same)
  then show ?thesis using Elsewhere by simp
qed

text \<open>The approval that opens a window is approved, was not in use before, and is in use afterwards.\<close>

lemma opens_fresh:
  assumes "i \<in> set (opens hash op w)"
  shows "\<not> in_use w i" "in_use (window_perform hash op w) i" "opens hash op w = [i]"
proof -
  obtain pr race q token nid now out w' where op: "op = Open pr race q token nid now" and i: "i = aq_approval q"
    and a: "acquire_with_request hash pr (\<lambda>v. v\<lparr>w_db := race (w_db v)\<rparr>) q token nid now w = (Inr out, w')" "\<not> op_replayed out"
  proof (cases op)
    case (Open pr race q token nid now)
    show ?thesis
      using that [OF Open] assms Open
      by (cases "acquire_with_request hash pr (\<lambda>v. v\<lparr>w_db := race (w_db v)\<rparr>) q token nid now w")
         (auto simp: opens_def split: sum.splits if_splits)
  qed (use assms in \<open>simp_all add: opens_def\<close>)
  let ?w = "w\<lparr>w_db := race (w_db w)\<rparr>"
  from a(1) have "\<not> in_use w i \<and> in_use w' i"
  proof (cases rule: acquire_cases)
    case (replayed b o')
    then show ?thesis using a(2) replay_held(1) by auto
  next
    case (tried b got)
    have cov: "map_of (w_approvals w) i = Some b" "ap_status b = ''approved''" "ap_purpose b = aq_resource q"
      "\<not> spent_on i (aq_resource q) now w" using tried(1) i by (auto simp: covered_def)
    from tried(5) show ?thesis
      unfolding take_window_def
    proof (cases rule: acquire_lease_cases)
      case lost
      then show ?thesis using tried(6) by simp
    next
      case got
      let ?l = "found_lease (aq_resource q) now ?w"
      have "\<not> in_use w i"
      proof
        assume "in_use w i"
        then obtain l where l: "lease_of w (aq_resource q) = Some l" "le_approval l = Some i" "le_released_at l = None" "le_expires_at l \<noteq> None"
          using cov by (auto simp: in_use_def)
        then have "?l = l" by (simp add: found_lease_def lease_of_def)
        then have "\<not> held_at l now" using free_in_use [of l now] got(1) l(3,4) by simp
        then show False using cov(4) l(1,2) by (simp add: spent_on_def)
      qed
      moreover have "in_use w' i"
      proof -
        obtain c where c: "map_of (w_approvals w') i = Some c" "approval_step b c"
          using acquire_step [OF a(1)] cov(1) by (auto simp: approvals_step_def)
        obtain l where "lease_of w' (aq_resource q) = Some l" "le_approval l = Some i" "le_released_at l = None" "le_expires_at l \<noteq> None"
          using got(3,4) i by (auto simp: taken_def)
        then show ?thesis using c approval_step_closed [OF c(2)] cov by (auto simp: in_use_def)
      qed
      ultimately show ?thesis ..
    qed
  qed simp_all
  then show "\<not> in_use w i" "in_use (window_perform hash op w) i" using op a(1) by simp_all
  show "opens hash op w = [i]" using op a i by (simp add: opens_def)
qed

lemma opened_not_in_use:
  "consumptions_written hash ops w \<Longrightarrow> in_use w i \<Longrightarrow> i \<notin> set (opened_windows hash ops w)"
proof (induction ops arbitrary: w)
  case (Cons op ops)
  then have "consumptions_written hash [op] w" "consumptions_written hash ops (window_perform hash op w)" by auto
  then show ?case using Cons.IH Cons.prems(2) in_use_perform opens_fresh(1) by fastforce
qed simp

section \<open>Held leases\<close>

lemma dispatch_open_iff:
  "dispatch_paused readable now w = Inr None \<longleftrightarrow> readable ''restart''
     \<and> (case lease_of w ''restart'' of
          None \<Rightarrow> True
        | Some l \<Rightarrow> le_released_at l \<noteq> None \<or> (\<exists>t \<le> now. le_expires_at l = Some t))"
  by (auto simp: dispatch_paused_def window_held_def EXCLUSIVE_def held_at_def split: option.splits if_splits window_state.splits)

text \<open>The operations that may move a lease with token \<open>t\<close> that ends at \<open>e\<close>.\<close>

fun may_move :: "string \<Rightarrow> string \<Rightarrow> time \<Rightarrow> window_op \<Rightarrow> bool" where
  "may_move r t e (Open pr race q token nid now) \<longleftrightarrow> e \<le> now"
| "may_move r t e (Extend caller force resource who fence ttl token now) \<longleftrightarrow> resource = r \<and> trimmed token = Some t"
| "may_move r t e (Give_Back caller readable resource who fence force actor reason token nid fid now) \<longleftrightarrow>
     resource = r \<and> (if force then actor \<noteq> None \<and> trimmed reason \<noteq> None else trimmed token = Some t)"
| "may_move r t e (Daemon_Starts readable nid now) \<longleftrightarrow> List.member EXCLUSIVE r"
| "may_move r t e _ \<longleftrightarrow> False"

lemma held_release:
  assumes "lease_of w r = Some l" "le_token l = Some t" "\<not> (resource = r \<and> (proof = Forced \<or> proof = Token t))"
    and "release readable id resource who fence proof nid now w = Inr (b, w')"
  shows "lease_of w' r = Some l"
  using assms(4)
proof (cases rule: release_cases)
  case (yes m why)
  have "resource \<noteq> r"
  proof
    assume "resource = r"
    then show False using yes(2,4) assms(1-3) by (auto simp: proof_allows_def split: lease_proof.splits)
  qed
  then show ?thesis using yes(6) assms(1) by (simp add: lease_of_def)
qed (use assms(1) in simp)

lemma held_open:
  assumes "lease_of w r = Some l" "le_released_at l = None" "le_expires_at l = Some e" "now < e"
    and "acquire_with_request hash pr (\<lambda>v. v\<lparr>w_db := race (w_db v)\<rparr>) q token nid now w = (res, w')"
  shows "lease_of w' r = Some l"
  using assms(5)
proof (cases rule: acquire_cases)
  case (spent a x)
  then show ?thesis using assms(1) lease_of_cong [OF consume_fields(2)] by simp
next
  case (tried a out)
  let ?w = "w\<lparr>w_db := race (w_db w)\<rparr>"
  have w: "lease_of ?w r = Some l" using assms(1) by (simp add: lease_of_def)
  from tried(5) show ?thesis
    unfolding take_window_def
  proof (cases rule: acquire_lease_cases)
    case lost
    then show ?thesis using w by (auto simp: ensure_lease_of)
  next
    case got
    have "aq_resource q \<noteq> r"
    proof
      assume "aq_resource q = r"
      then have "free_at l now" using got(1) w by (simp add: found_lease_def)
      then show False using assms(2-4) by (simp add: free_at_def)
    qed
    then show ?thesis using got(4) w by simp
  qed
qed (use assms(1) in simp_all)

lemma held_perform:
  assumes "lease_of w r = Some l" "le_token l = Some t" "le_released_at l = None" "le_expires_at l = Some e" "\<not> may_move r t e op"
  shows "lease_of (window_perform hash op w) r = Some l"
proof (cases op)
  case (Ask q i nid eid now)
  then show ?thesis
    using create_step(2) [of q i nid eid now w] assms(1) lease_of_cong
    by (cases "create_approval_tx q i nid eid now w") (auto simp: lease_of_def)
next
  case (Decide verified caller i decision claimed reason expires_in nid now)
  then show ?thesis
    using post_decision_step(2) [of verified caller i decision claimed reason expires_in nid now w] assms(1)
    by (cases "post_decision verified caller i decision claimed reason expires_in nid now w") (auto simp: lease_of_def)
next
  case (Open pr race q token nid now)
  obtain res w' where a: "acquire_with_request hash pr (\<lambda>v. v\<lparr>w_db := race (w_db v)\<rparr>) q token nid now w = (res, w')" by fastforce
  have "now < e" using assms(5) Open by simp
  then show ?thesis using held_open [OF assms(1,3,4) _ a] a Open by simp
next
  case (Extend caller force resource who fence ttl token now)
  obtain res w' where p: "post_lease_renew caller force resource who fence ttl token now w = (res, w')" by fastforce
  have "lease_of w' r = Some l"
    using p
  proof (cases rule: renew_cases)
    case (yes m until)
    have "resource \<noteq> r"
      using yes(1,5) assms(1,2,5) Extend by (auto simp: proof_allows_def split: option.splits)
    then show ?thesis using yes(6) assms(1) by simp
  qed (use assms(1) in simp)
  then show ?thesis using p Extend by simp
next
  case (Give_Back caller readable resource who fence force actor reason token nid fid now)
  show ?thesis
  proof (cases "post_lease_release caller readable id resource who fence force actor reason token nid fid now w")
    case (Inr x)
    obtain b w' where x: "x = (b, w')" by (cases x)
    from Inr [unfolded x] have "lease_of w' r = Some l"
    proof (cases rule: post_release_cases)
      case (1 p w1)
      have "\<not> (resource = r \<and> (p = Forced \<or> p = Token t))"
        using assms(5) 1(1) Give_Back by (auto simp: lease_proof_of_def split: if_splits option.splits)
      then show ?thesis using held_release [OF assms(1,2) _ 1(2)] 1(5) by (simp add: lease_of_def)
    qed
    then show ?thesis using Give_Back Inr x by simp
  qed (use Give_Back assms(1) in simp)
next
  case (Daemon_Starts readable nid now)
  have r: "r \<noteq> ''restart''" using assms(5) Daemon_Starts by (simp add: EXCLUSIVE_def)
  have k: "lease_of (kept (release readable id ''restart'' o' f Forced nid now w) w) r = Some l" for o' f
    using held_release [OF assms(1,2), of "''restart''" Forced readable o' f nid now] r assms(1)
    by (cases "release readable id ''restart'' o' f Forced nid now w") (auto simp: kept_def)
  have "lease_of (release_left_over readable (\<lambda>_. nid) now EXCLUSIVE w) r = Some l"
    using k assms(1) by (auto simp: EXCLUSIVE_def Let_def split: option.split)
  then show ?thesis using Daemon_Starts by (simp add: release_restart_on_startup_def lease_of_def)
next
  case (Elsewhere f)
  then show ?thesis using assms(1) by (simp add: lease_of_def)
qed

end
