(* ===== verification/Window_History.thy ===== *)
theory Window_History
  imports Window_Runs
begin

text \<open>
  The record of decisions: every operation that moves an approval writes, in the same transaction, the
  note of the move, so the notes of an approval form a chain from \<open>pending\<close> to what it is now.
\<close>

section \<open>Chains of moves\<close>

fun chain :: "string \<Rightarrow> (string \<times> string) list \<Rightarrow> string \<Rightarrow> bool" where
  "chain s [] t \<longleftrightarrow> s = t"
| "chain s ((a, b) # r) t \<longleftrightarrow> a = s \<and> chain b r t"

lemma chain_append: "chain s (xs @ ys) t \<longleftrightarrow> (\<exists>m. chain s xs m \<and> chain m ys t)"
  by (induction xs arbitrary: s) auto

definition body_str :: "string \<Rightarrow> json \<Rightarrow> string" where
  "body_str k v = (case Option.bind (json_get k v) as_str of None \<Rightarrow> [] | Some s \<Rightarrow> s)"

definition move_of :: "json \<Rightarrow> string \<times> string" where
  "move_of v = (body_str ''from'' v, body_str ''to'' v)"

definition moves :: "ident \<Rightarrow> audit_note table \<Rightarrow> (string \<times> string) list" where
  "moves i ns = map (\<lambda>n. move_of (no_body n)) (filter (decision_note i) (map snd ns))"

lemma moves_append [simp]: "moves i (ns @ ms) = moves i ns @ moves i ms"
  by (simp add: moves_def)

lemma moves_Nil [simp]: "moves i [] = []"
  by (simp add: moves_def)

lemma move_dated: "decision_note i n \<Longrightarrow> move_of (dated n) = move_of (no_body n)"
  by (cases "no_body n") (auto simp: move_of_def body_str_def dated_def decision_note_def)

lemma moves_decision [simp]:
  "moves i [(nid, \<lparr>no_kind = ''approval_decision'', no_body = decision_body j frm to actor reason, no_at = now\<rparr>)]
     = (if i = j then [(frm, to)] else [])"
  by (auto simp: moves_def decision_note_def decision_body_def move_of_def body_str_def)

lemma moves_other: "\<forall>n \<in> set ns. no_kind (snd n) \<noteq> ''approval_decision'' \<Longrightarrow> moves i ns = []"
  by (auto simp: moves_def decision_note_def filter_empty_conv)

definition approval_moves :: "ident \<Rightarrow> windows \<Rightarrow> (string \<times> string) list" where
  "approval_moves i w = map move_of (decisions_of i w)"

lemma approval_moves_sorted:
  assumes "sorted (map (\<lambda>n. no_at (snd n)) (w_notes w))"
  shows "approval_moves i w = moves i (w_notes w)"
proof -
  have "sort_key no_at (map snd (w_notes w)) = map snd (w_notes w)"
    using assms by (intro sorted_sort_id [THEN trans] sort_key_id_if_sorted) (simp_all add: comp_def)
  then show ?thesis by (auto simp: approval_moves_def decisions_of_def moves_def move_dated)
qed

section \<open>What one operation records\<close>

definition recorded_row :: "windows \<Rightarrow> windows \<Rightarrow> (string \<times> string) list \<Rightarrow> ident \<Rightarrow> bool" where
  "recorded_row w w' es i \<longleftrightarrow> (\<forall>e \<in> set es. approval_edge (fst e) (snd e)) \<and>
     (case approval_status w' i of
        None \<Rightarrow> approval_status w i = None \<and> es = []
      | Some b \<Rightarrow> chain (case approval_status w i of None \<Rightarrow> ''pending'' | Some a \<Rightarrow> a) es b
          \<and> (approval_status w i = None \<longrightarrow> es = []))"

definition recorded :: "time \<Rightarrow> windows \<Rightarrow> windows \<Rightarrow> bool" where
  "recorded t w w' \<longleftrightarrow>
     (\<exists>new. w_notes w' = w_notes w @ new \<and> (\<forall>n \<in> set new. no_at (snd n) = t) \<and> (\<forall>i. recorded_row w w' (moves i new) i))"

lemma status_cong: "w_approvals v = w_approvals w \<Longrightarrow> approval_status v = approval_status w"
  by (simp add: approval_status_def fun_eq_iff)

lemma recorded_row_cong:
  "w_approvals v = w_approvals w \<Longrightarrow> w_approvals v' = w_approvals w' \<Longrightarrow> recorded_row v v' es i = recorded_row w w' es i"
  by (simp only: recorded_row_def status_cong [of v w] status_cong [of v' w'])

lemma recorded_same:
  "w_approvals w' = w_approvals w \<Longrightarrow> w_notes w' = w_notes w \<Longrightarrow> recorded t w w'"
  using status_cong [of w' w] by (auto simp: recorded_def recorded_row_def split: option.split)

text \<open>A note that is no decision changes nothing.\<close>

lemma recorded_noted:
  assumes "recorded t w v" "w_approvals w' = w_approvals v" "w_notes w' = w_notes v @ extra"
    and "\<forall>n \<in> set extra. no_at (snd n) = t \<and> no_kind (snd n) \<noteq> ''approval_decision''"
  shows "recorded t w w'"
proof -
  obtain new where new: "w_notes v = w_notes w @ new" "\<forall>n \<in> set new. no_at (snd n) = t" "\<forall>i. recorded_row w v (moves i new) i"
    using assms(1) by (auto simp: recorded_def)
  have "moves i (new @ extra) = moves i new" for i using assms(4) moves_other by simp
  then have "\<forall>i. recorded_row w w' (moves i (new @ extra)) i"
    using new(3) recorded_row_cong [OF refl assms(2)] by simp
  then show ?thesis using new(1,2) assms(3,4) unfolding recorded_def by (intro exI [of _ "new @ extra"]) auto
qed

lemma recorded_right:
  "recorded t w v \<Longrightarrow> w_approvals w' = w_approvals v \<Longrightarrow> w_notes w' = w_notes v \<Longrightarrow> recorded t w w'"
  by (rule recorded_noted [where extra = "[]"]) simp_all

lemma recorded_left:
  assumes "w_approvals v = w_approvals w" "w_notes v = w_notes w" "recorded t v w'"
  shows "recorded t w w'"
  using assms(3) unfolding recorded_def assms(2) recorded_row_cong [OF assms(1) refl] .

lemma recorded_decide:
  assumes "decide_approval_from i frm st actor reason e nid now w = Inr (out, w')" "approval_edge frm st"
  shows "recorded now w w'"
  using assms(1)
proof (cases rule: decide_from_cases)
  case lost
  then show ?thesis by (simp add: recorded_same)
next
  case (moved a)
  then show ?thesis
    using assms(2) unfolding recorded_def
    by (intro exI [of _ "[(nid, \<lparr>no_kind = ''approval_decision'', no_body = decision_body i frm st actor reason, no_at = now\<rparr>)]"])
       (auto simp: recorded_row_def approval_status_def split: option.split)
qed

lemma recorded_consume: "recorded now w (consume_quietly i actor why nid now w)"
proof (cases nid)
  case (Some n)
  show ?thesis
  proof (cases "decide_approval_from i ''approved'' ''consumed'' actor (Some why) None n now w")
    case (Inl e)
    then show ?thesis by (simp add: consume_quietly_def recorded_same Some)
  next
    case (Inr x)
    then show ?thesis using recorded_decide [of i _ _ actor _ _ n now w "fst x" "snd x"]
      by (cases x) (simp add: consume_quietly_def approval_edge_def Some)
  qed
qed (simp add: consume_quietly_def recorded_same)

lemma recorded_spend: "recorded now w (spend approval who why nid now w)"
  by (auto simp: spend_def recorded_same recorded_consume split: option.split)

lemma recorded_supersede:
  assumes "supersede q new_id nid now w = Inr ((s, wait), w')"
  shows "recorded now w w'"
  using assms
proof (cases rule: supersede_cases)
  case none
  then show ?thesis by (simp add: recorded_same)
next
  case (row i a)
  then show ?thesis
    using edge_superseded [OF row(5)] unfolding recorded_def
    by (intro exI [of _ "[(nid, \<lparr>no_kind = ''approval_decision'',
          no_body = decision_body i (ap_status a) ''superseded'' (rq_requester q) (Some (''superseded by '' @ new_id)), no_at = now\<rparr>)]"])
       (auto simp: recorded_row_def approval_status_def split: option.split)
qed

lemma recorded_new_row:
  assumes "recorded t w v" "map_of (w_approvals v) i = None" "w_approvals w' = w_approvals v @ [(i, a)]"
    and "ap_status a = ''pending''" "w_notes w' = w_notes v"
  shows "recorded t w w'"
proof -
  obtain new where new: "w_notes v = w_notes w @ new" "\<forall>n \<in> set new. no_at (snd n) = t"
    "\<forall>j. recorded_row w v (moves j new) j" using assms(1) by (auto simp: recorded_def)
  have st: "approval_status w' j = (if j = i then Some ''pending'' else approval_status v j)" for j
    using assms(2-4) by (auto simp: approval_status_def map_add_def split: option.split)
  have "approval_status v i = None" using assms(2) by (simp add: approval_status_def)
  then have i: "approval_status w i = None" "moves i new = []"
    using new(3) [rule_format, of i] by (simp_all add: recorded_row_def)
  have "recorded_row w w' (moves j new) j" for j
    using new(3) [rule_format, of j] i by (cases "j = i") (simp_all add: recorded_row_def st)
  then show ?thesis using new assms(5) by (auto simp: recorded_def)
qed

lemma new_approval_pending: "ap_status (new_approval q wait now) = ''pending''"
  unfolding new_approval_def by (rule approval.select_convs)

lemma recorded_create:
  assumes "create_approval_tx q i nid eid now w = Inr (out, w')"
  shows "recorded now w w'"
  using assms
proof (cases rule: create_cases)
  case known
  then show ?thesis by (simp add: recorded_same)
next
  case (created s wait w1)
  obtain extra where ex: "w_notes w' = w_notes w1 @ extra" "\<forall>n \<in> set extra. no_kind (snd n) = ''approval_principal'' \<and> no_at (snd n) = now"
    using created(9) by blast
  let ?v = "w1\<lparr>w_approvals := w_approvals w1 @ [(i, new_approval q wait now)]\<rparr>"
  have "recorded now w ?v"
    by (rule recorded_new_row [OF recorded_supersede [OF created(1)] created(6), of _ "new_approval q wait now"]) (simp_all add: new_approval_pending)
  then show ?thesis by (rule recorded_noted) (use created(5) ex in auto)
qed

lemma recorded_post_decision:
  assumes "post_decision verified caller i decision claimed reason expires_in nid now w = Inr (out, w')"
  shows "recorded now w w'"
  using assms
proof (cases rule: post_decision_cases)
  case again
  then show ?thesis by (simp add: recorded_same)
next
  case (decided st frm a e)
  then show ?thesis using recorded_decide [OF decided(4) decision_edges [OF decided(1,2)]] by simp
qed

lemma recorded_acquire:
  assumes "acquire_with_request hash pr (\<lambda>v. v\<lparr>w_db := race (w_db v)\<rparr>) q token nid now w = (res, w')"
  shows "recorded now w w'"
  using assms
proof (cases rule: acquire_cases)
  case (tried a out)
  let ?w = "w\<lparr>w_db := race (w_db w)\<rparr>"
  have "recorded now ?w w'"
    using tried(5) unfolding take_window_def
  proof (cases rule: acquire_lease_cases)
    case lost
    then show ?thesis by (simp add: recorded_same)
  next
    case got
    let ?t = "taken (aq_owner q) (Some (aq_approval q)) (aq_commit q) (lease_until q a now) (opening_detail hash pr q now w) token now"
    let ?w1 = "(ensure_lease (aq_resource q) now ?w)\<lparr>w_leases := upd_row (aq_resource q) ?t (w_leases (ensure_lease (aq_resource q) now ?w))\<rparr>"
    have "recorded now ?w (consume_quietly old ''daemon'' ''lease expired'' nid now ?w1)" for old
      by (rule recorded_left [OF _ _ recorded_consume [of now ?w1]]) simp_all
    moreover have "recorded now ?w ?w1" by (simp add: recorded_same)
    ultimately show ?thesis unfolding got(6) by (auto split: option.split)
  qed
  then show ?thesis by (rule recorded_left [rotated 2]) simp_all
qed (simp_all add: recorded_same recorded_consume)

lemma recorded_release:
  assumes "release readable id r who fence proof nid now w = Inr (b, w')"
  shows "recorded now w w'"
  using assms
proof (cases rule: release_cases)
  case no
  then show ?thesis by (simp add: recorded_same)
next
  case (yes l why)
  let ?w1 = "w\<lparr>w_leases := upd_row r (given_back now) (w_leases w)\<rparr>"
  have "recorded now w (spend (le_approval l) who why nid now ?w1)"
    by (rule recorded_left [OF _ _ recorded_spend [of now ?w1]]) simp_all
  then show ?thesis using yes(7,8) by (rule recorded_right)
qed

lemma recorded_give_back:
  assumes "post_lease_release caller readable id r who fence force actor reason token nid fid now w = Inr (b, w')"
  shows "recorded now w w'"
  using assms
proof (cases rule: post_release_cases)
  case (1 p w1)
  have "\<exists>extra. w_notes w' = w_notes w1 @ extra \<and> (\<forall>n \<in> set extra. no_at (snd n) = now \<and> no_kind (snd n) \<noteq> ''approval_decision'')"
    using 1(6) by blast
  then show ?thesis using recorded_noted [OF recorded_release [OF 1(2)] 1(4)] by blast
qed

lemma recorded_perform:
  "recorded (case op_time op of None \<Rightarrow> t | Some now \<Rightarrow> now) w (window_perform hash op w)"
proof (cases op)
  case (Ask q i nid eid now)
  then show ?thesis using recorded_create [of q i nid eid now w]
    by (cases "create_approval_tx q i nid eid now w") (auto simp: recorded_same)
next
  case (Decide verified caller i decision claimed reason expires_in nid now)
  then show ?thesis
    using recorded_post_decision [of verified caller i decision claimed reason expires_in nid now w]
    by (cases "post_decision verified caller i decision claimed reason expires_in nid now w") (auto simp: recorded_same)
next
  case (Open pr race q token nid now)
  then show ?thesis
    using recorded_acquire [of hash pr race q token nid now w]
    by (cases "acquire_with_request hash pr (\<lambda>v. v\<lparr>w_db := race (w_db v)\<rparr>) q token nid now w") simp
next
  case (Extend caller force resource who fence ttl token now)
  obtain res w' where p: "post_lease_renew caller force resource who fence ttl token now w = (res, w')" by fastforce
  then have "w_approvals w' = w_approvals w \<and> w_notes w' = w_notes w" by (cases rule: renew_cases) simp_all
  then show ?thesis using p Extend by (simp add: recorded_same)
next
  case (Give_Back caller readable resource who fence force actor reason token nid fid now)
  then show ?thesis
    using recorded_give_back [of caller readable resource who fence force actor reason token nid fid now w]
    by (cases "post_lease_release caller readable id resource who fence force actor reason token nid fid now w") (auto simp: recorded_same)
next
  case (Daemon_Starts readable nid now)
  have k: "recorded now w (kept (release readable id ''restart'' o' f Forced nid now w) w)" for o' f
    using recorded_release [of readable "''restart''" o' f Forced nid now w]
    by (cases "release readable id ''restart'' o' f Forced nid now w") (auto simp: recorded_same)
  have "recorded now w (release_left_over readable (\<lambda>_. nid) now EXCLUSIVE w)"
    using k by (auto simp: EXCLUSIVE_def Let_def recorded_same split: option.split)
  then have "recorded now w (release_restart_on_startup readable (\<lambda>_. nid) now w)"
    by (rule recorded_right) (simp_all add: release_restart_on_startup_def)
  then show ?thesis using Daemon_Starts by simp
next
  case (Elsewhere f)
  then show ?thesis by (simp add: recorded_same)
qed

section \<open>Sequences of operations\<close>

text \<open>The clock the operations read does not go back.\<close>

fun clock_forward :: "time \<Rightarrow> window_op list \<Rightarrow> bool" where
  "clock_forward t [] \<longleftrightarrow> True"
| "clock_forward t (op # ops) \<longleftrightarrow>
     (case op_time op of None \<Rightarrow> clock_forward t ops | Some now \<Rightarrow> t \<le> now \<and> clock_forward now ops)"

definition all_recorded :: "time \<Rightarrow> windows \<Rightarrow> bool" where
  "all_recorded t w \<longleftrightarrow> sorted (map (\<lambda>n. no_at (snd n)) (w_notes w)) \<and> (\<forall>n \<in> set (w_notes w). no_at (snd n) \<le> t)
     \<and> (\<forall>i. (\<forall>e \<in> set (moves i (w_notes w)). approval_edge (fst e) (snd e))
          \<and> (case approval_status w i of None \<Rightarrow> moves i (w_notes w) = [] | Some b \<Rightarrow> chain ''pending'' (moves i (w_notes w)) b))"

lemma all_recorded_step:
  assumes "all_recorded t w" "recorded u w w'" "t \<le> u"
  shows "all_recorded u w'"
proof -
  obtain new where new: "w_notes w' = w_notes w @ new" "\<forall>n \<in> set new. no_at (snd n) = u" "\<forall>i. recorded_row w w' (moves i new) i"
    using assms(2) by (auto simp: recorded_def)
  have "sorted (map (\<lambda>n. no_at (snd n)) new)" using new(2) by (induction new) auto
  then have "sorted (map (\<lambda>n. no_at (snd n)) (w_notes w'))" "\<forall>n \<in> set (w_notes w'). no_at (snd n) \<le> u"
    using assms(1,3) new(1,2) by (force simp: all_recorded_def sorted_append)+
  moreover have "(\<forall>e \<in> set (moves i (w_notes w')). approval_edge (fst e) (snd e))
      \<and> (case approval_status w' i of None \<Rightarrow> moves i (w_notes w') = [] | Some b \<Rightarrow> chain ''pending'' (moves i (w_notes w')) b)" for i
  proof -
    have "(\<forall>e \<in> set (moves i (w_notes w)). approval_edge (fst e) (snd e))
      \<and> (case approval_status w i of None \<Rightarrow> moves i (w_notes w) = [] | Some b \<Rightarrow> chain ''pending'' (moves i (w_notes w)) b)"
      using assms(1) by (simp add: all_recorded_def)
    then show ?thesis
      using new(3) [rule_format, of i] unfolding new(1)
      by (auto simp: recorded_row_def chain_append split: option.splits)
  qed
  ultimately show ?thesis by (simp add: all_recorded_def)
qed

lemma all_recorded_fold:
  "all_recorded t w \<Longrightarrow> clock_forward t ops \<Longrightarrow> \<exists>u. all_recorded u (fold (window_perform hash) ops w)"
proof (induction ops arbitrary: t w)
  case Nil
  then show ?case by auto
next
  case (Cons op ops)
  let ?u = "case op_time op of None \<Rightarrow> t | Some now \<Rightarrow> now"
  have u: "t \<le> ?u" "clock_forward ?u ops" using Cons.prems(2) by (auto split: option.splits)
  show ?case using Cons.IH [OF all_recorded_step [OF Cons.prems(1) recorded_perform u(1)] u(2)] by simp
qed

end
