(* ===== verification/Window_Properties.thy ===== *)
theory Window_Properties
  imports Window_Lifetime Window_History Sample_Data
begin

text \<open>The properties of rebuild and restart windows.\<close>

section \<open>Opening\<close>

text \<open>
  C28. However others write between the safety check and the statement, a window is opened only under
  an approval that is approved, not expired, for this resource and commit, asked for by the caller, and
  has not opened a window that is over; a restart window only when the check found the box safe and, at
  the statement itself, no delivery is in its critical section except the recorded requester's own; and
  only when the lease is free then. The new lease has the next fence and ends no later than the
  approval and than an hour.
\<close>

theorem window_opened_when:
  assumes "acquire_with_request hash pr race q token nid now w = (Inr out, w')" "\<not> op_replayed out"
  shows "\<exists>a l own. map_of (w_approvals w) (aq_approval q) = Some a
    \<and> ap_status a = ''approved'' \<and> ap_purpose a = aq_resource q \<and> ap_requester a = aq_owner q
    \<and> (case ap_commit a of None \<Rightarrow> True | Some c \<Rightarrow> aq_commit q = Some c)
    \<and> (case effective_expiry a of None \<Rightarrow> True | Some t \<Rightarrow> now < t \<and> (\<exists>e \<le> t. le_expires_at (op_lease out) = Some e))
    \<and> \<not> spent_on (aq_approval q) (aq_resource q) now w
    \<and> (aq_resource q = ''restart'' \<longrightarrow> sr_safe (safety_as pr (aq_exclude q) (Some (aq_approval q)) (Some (aq_owner q)) now w)
         \<and> box_quiet own now (w_db (race w)) \<and> (own \<noteq> None \<longrightarrow> recorded_bot (aq_approval q) w = own))
    \<and> l = found_lease (aq_resource q) now (race w) \<and> free_at l now
    \<and> lease_of w' (aq_resource q) = Some (op_lease out) \<and> le_fence (op_lease out) = le_fence l + 1
    \<and> le_owner (op_lease out) = Some (aq_owner q) \<and> le_approval (op_lease out) = Some (aq_approval q)
    \<and> le_token (op_lease out) = Some token \<and> (\<exists>e \<le> now + 1000 * MAX_TTL_SECS. le_expires_at (op_lease out) = Some e)"
  using assms(1)
proof (cases rule: acquire_cases)
  case (replayed a o')
  then show ?thesis using assms(2) replay_held(1) by auto
next
  case (tried a got)
  then obtain l where l: "got = Some l" "op_lease out = l" by (auto split: option.splits)
  from tried(5) show ?thesis
    unfolding take_window_def
  proof (cases rule: acquire_lease_cases)
    case got
    let ?l = "found_lease (aq_resource q) now (race w)"
    have op: "op_lease out = taken (aq_owner q) (Some (aq_approval q)) (aq_commit q) (lease_until q a now) (opening_detail hash pr q now w) token now ?l"
      using l got(3) by simp
    have e: "lease_until q a now \<le> now + 1000 * MAX_TTL_SECS"
      using lease_deadline_le(1) [of "now + 1000 * clamp 30 MAX_TTL_SECS (aq_ttl_secs q)" "effective_expiry a"]
      by (auto simp: lease_until_def clamp_def MAX_TTL_SECS_def split: if_splits)
    have f: "effective_expiry a = Some t \<Longrightarrow> lease_until q a now \<le> t" for t
      unfolding lease_until_def by (rule lease_deadline_le)
    have r: "aq_resource q = ''restart'' \<Longrightarrow> sr_safe (opening_safety pr q now w) \<and> box_quiet (own_turn q w) now (w_db (race w))"
      using tried(1,3) got(2) by (auto simp: covered_def EXCLUSIVE_def quiet_box)
    have o: "own_turn q w \<noteq> None \<Longrightarrow> recorded_bot (aq_approval q) w = own_turn q w" using own_turn_recorded by fastforce
    show ?thesis
      using tried(1) got(1,4) r o e f l(1) op got(3)
      by (intro exI [of _ a] exI [of _ ?l] exI [of _ "own_turn q w"])
         (auto simp: covered_def expired_at_def taken_def opening_safety_def split: option.splits)
  qed (use l in simp)
qed simp_all

definition sample_approval :: approval where
  "sample_approval = \<lparr>ap_requester = ''B'', ap_unverified = False, ap_purpose = ''restart'', ap_scope = ''daemon'',
     ap_commit = None, ap_status = ''approved'', ap_decided_by = Some ''AGM:coordinator'', ap_decided_at = Some 100,
     ap_reason = None, ap_request_reason = None, ap_expires_at = Some 1000000, ap_client_request = Some ''kick-1'',
     ap_wait_since = None, ap_created_at = 50, ap_updated_at = 100\<rparr>"

definition sample_windows :: windows where
  "sample_windows = \<lparr>w_db = sample, w_approvals = [(''A1'', sample_approval)], w_leases = [],
     w_notes = [(''approval-principal:A1'', \<lparr>no_kind = ''approval_principal'', no_body = principal_json (Principal_Bot ''B''), no_at = 50\<rparr>)]\<rparr>"

definition sample_probes :: probes where
  "sample_probes = \<lparr>pr_env = None, pr_user_escalated = (\<lambda>_. False), pr_behind = 0, pr_delivery = (\<lambda>_. True),
     pr_run = (\<lambda>_. True), pr_in_flight = (\<lambda>_. True)\<rparr>"

definition sample_acquire :: acquire_req where
  "sample_acquire = \<lparr>aq_resource = ''restart'', aq_owner = ''B'', aq_approval = ''A1'', aq_commit = None, aq_ttl_secs = 900,
     aq_require_idle = True, aq_exclude = [''B''], aq_request_id = None\<rparr>"

lemma sample_opens:
  "case acquire_with_request id sample_probes id sample_acquire ''token'' (Some ''N1'') 1000 sample_windows of
     (Inr out, _) \<Rightarrow> \<not> op_replayed out | (Inl _, _) \<Rightarrow> False"
  by code_simp

theorem window_opened_when_witness:
  "\<exists>out w' own. acquire_with_request id sample_probes id sample_acquire ''token'' (Some ''N1'') 1000 sample_windows = (Inr out, w')
     \<and> le_fence (op_lease out) = 1 \<and> box_quiet own 1000 sample"
proof -
  obtain out w' where o: "acquire_with_request id sample_probes id sample_acquire ''token'' (Some ''N1'') 1000 sample_windows = (Inr out, w')"
    "\<not> op_replayed out" using sample_opens by (auto split: prod.splits sum.splits)
  show ?thesis
    using window_opened_when [OF o] o(1)
    by (auto simp: sample_acquire_def sample_windows_def found_lease_def lease_of_def fresh_lease_def)
qed

section \<open>One approval, one window\<close>



text \<open>
  The first window expires, another approval takes the lease over, and the consumption of the first is lost; the second
  window is given back, and the first approval opens a window again.
\<close>

lemma lost_consumption_opens_again:
  "opened_windows id
     [Open sample_probes id sample_acquire ''t1'' (Some ''N1'') 1000,
      Open sample_probes id (sample_acquire\<lparr>aq_approval := ''A2''\<rparr>) ''t2'' None 950000,
      Give_Back None (\<lambda>_. True) ''restart'' ''B'' 2 False None None (Some ''t2'') (Some ''N2'') ''N3'' 960000,
      Open sample_probes id sample_acquire ''t4'' (Some ''N4'') 970000]
     (sample_windows\<lparr>w_approvals := [(''A1'', sample_approval), (''A2'', sample_approval\<lparr>ap_client_request := Some ''kick-2''\<rparr>)],
        w_notes := w_notes sample_windows
          @ [(''approval-principal:A2'', \<lparr>no_kind = ''approval_principal'', no_body = principal_json (Principal_Bot ''B''), no_at = 50\<rparr>)]\<rparr>)
   = [''A1'', ''A2'', ''A1'']"
  by code_simp

section \<open>Holding\<close>

text \<open>
  C30. The gate in front of new work opens only on proof: work goes out exactly when the lease of the
  restart window can be read and is absent, given back, or over. What cannot be read, and a lease
  without a readable end, keep it closed; an expired lease never does.
\<close>

theorem gate_opens_on_proof:
  "dispatch_paused readable now w = Inr None \<longleftrightarrow>
     (\<forall>r \<in> set EXCLUSIVE. readable r \<and>
        (lease_of w r = None \<or> (\<exists>l. lease_of w r = Some l \<and> (le_released_at l \<noteq> None \<or> (\<exists>t \<le> now. le_expires_at l = Some t)))))"
  unfolding dispatch_open_iff by (auto simp: EXCLUSIVE_def split: option.splits)

theorem gate_opens_on_proof_witness:
  "dispatch_paused (\<lambda>_. True) 900999 (window_perform id (Open sample_probes id sample_acquire ''token'' (Some ''N1'') 1000) sample_windows) \<noteq> Inr None
   \<and> dispatch_paused (\<lambda>_. True) 901000 (window_perform id (Open sample_probes id sample_acquire ''token'' (Some ''N1'') 1000) sample_windows) = Inr None"
proof -
  let ?w = "window_perform id (Open sample_probes id sample_acquire ''token'' (Some ''N1'') 1000) sample_windows"
  have l: "map_option (\<lambda>l. (le_released_at l, le_expires_at l)) (lease_of ?w ''restart'') = Some (None, Some 901000)" by code_simp
  then show ?thesis using gate_opens_on_proof [of "\<lambda>_. True" 900999 ?w] gate_opens_on_proof [of "\<lambda>_. True" 901000 ?w]
    by (auto simp: EXCLUSIVE_def)
qed

text \<open>
  C31. A window cannot be taken away: whatever operations run, as long as none of them presents the
  token, is forced by an AGM role with a reason, restarts the daemon (for the restart window) or comes
  after its end, the lease stays as it is, owner, fence and end included; held on restart, it keeps
  the gate closed until it ends.
\<close>

theorem held_window_stays:
  assumes "lease_of w r = Some l" "le_token l = Some t" "le_released_at l = None" "le_expires_at l = Some e"
    and "list_all (\<lambda>op. \<not> may_move r t e op) ops" "now < e"
  shows "lease_of (fold (window_perform hash) ops w) r = Some l
    \<and> (r = ''restart'' \<longrightarrow> dispatch_paused readable now (fold (window_perform hash) ops w) \<noteq> Inr None)"
proof -
  have l: "lease_of (fold (window_perform hash) ops w) r = Some l"
    using assms(1,5)
  proof (induction ops arbitrary: w)
    case (Cons op ops)
    then show ?case using held_perform [OF Cons.prems(1) assms(2-4)] by simp
  qed simp
  then show ?thesis using assms(3,4,6) by (auto simp: dispatch_open_iff)
qed

theorem held_window_stays_witness:
  "le_owner (the (lease_of (fold (window_perform id)
       [Give_Back None (\<lambda>_. True) ''restart'' ''B'' 1 False None None (Some ''guess'') (Some ''N2'') ''N9'' 5000,
        Extend None False ''restart'' ''B'' 1 None None 6000, Open sample_probes id sample_acquire ''t2'' (Some ''N3'') 7000]
       (window_perform id (Open sample_probes id sample_acquire ''token'' (Some ''N1'') 1000) sample_windows)) ''restart'')) = Some ''B''"
proof -
  let ?w = "window_perform id (Open sample_probes id sample_acquire ''token'' (Some ''N1'') 1000) sample_windows"
  let ?ops = "[Give_Back None (\<lambda>_. True) ''restart'' ''B'' 1 False None None (Some ''guess'') (Some ''N2'') ''N9'' 5000,
        Extend None False ''restart'' ''B'' 1 None None 6000, Open sample_probes id sample_acquire ''t2'' (Some ''N3'') 7000]"
  have l: "map_option (\<lambda>l. (le_token l, le_released_at l, le_expires_at l, le_owner l)) (lease_of ?w ''restart'')
      = Some (Some ''token'', None, Some 901000, Some ''B'')" by code_simp
  then obtain l where l': "lease_of ?w ''restart'' = Some l" "le_token l = Some ''token''" "le_released_at l = None"
    "le_expires_at l = Some 901000" "le_owner l = Some ''B''" by auto
  have "list_all (\<lambda>op. \<not> may_move ''restart'' ''token'' 901000 op) ?ops" by code_simp
  from held_window_stays [OF l'(1-4) this, of 8000 id] l'(5) show ?thesis by simp
qed

section \<open>The record\<close>

text \<open>
  C32. Nothing is decided without a record: after any operations from empty tables under a clock that
  does not go back, the decisions listed for an approval form an unbroken chain of legal moves from
  pending to what the approval is now - whoever decided, superseded or consumed it, and also where
  the daemon did so by itself.
\<close>

theorem decisions_complete:
  assumes "w_approvals w = []" "w_notes w = []" "clock_forward t ops"
    and "map_of (w_approvals (fold (window_perform hash) ops w)) i = Some a"
  shows "chain ''pending'' (approval_moves i (fold (window_perform hash) ops w)) (ap_status a)
    \<and> list_all (\<lambda>(x, y). approval_edge x y) (approval_moves i (fold (window_perform hash) ops w))"
proof -
  have "all_recorded t w" using assms(1,2) by (simp add: all_recorded_def approval_status_def)
  then obtain u where u: "all_recorded u (fold (window_perform hash) ops w)" using all_recorded_fold assms(3) by blast
  then have "approval_moves i (fold (window_perform hash) ops w) = moves i (w_notes (fold (window_perform hash) ops w))"
    by (intro approval_moves_sorted) (simp add: all_recorded_def)
  moreover have "(\<forall>e \<in> set (moves i (w_notes (fold (window_perform hash) ops w))). approval_edge (fst e) (snd e))
      \<and> chain ''pending'' (moves i (w_notes (fold (window_perform hash) ops w))) (ap_status a)"
  proof -
    have "approval_status (fold (window_perform hash) ops w) i = Some (ap_status a)" using assms(4) by (simp add: approval_status_def)
    then show ?thesis using u unfolding all_recorded_def by (auto split: option.splits dest!: spec [of _ i])
  qed
  ultimately show ?thesis by (auto simp: list_all_iff)
qed

definition sample_request :: approval_req where
  "sample_request = \<lparr>rq_requester = ''B'', rq_purpose = ''restart'', rq_scope = ''daemon'', rq_commit = None,
     rq_expires_at = None, rq_request_id = Some ''kick-1'', rq_supersedes = None, rq_reason = None, rq_unverified = False,
     rq_notify = True, rq_principal = Some (Principal_Bot ''B'')\<rparr>"

definition sample_ops :: "window_op list" where
  "sample_ops =
     [Ask sample_request ''A1'' ''N1'' ''E1'' 1000,
      Decide (Some Patrol) (Some ''C'') ''A1'' ''approve'' None None None ''N2'' 2000,
      Open sample_probes id sample_acquire ''token'' (Some ''N3'') 3000,
      Give_Back None (\<lambda>_. True) ''restart'' ''B'' 1 False None None (Some ''token'') (Some ''N4'') ''N5'' 4000]"

theorem decisions_complete_witness:
  "approval_moves ''A1'' (fold (window_perform id) sample_ops (sample_windows\<lparr>w_approvals := [], w_notes := []\<rparr>))
     = [(''pending'', ''approved''), (''approved'', ''consumed'')]
   \<and> chain ''pending'' [(''pending'', ''approved''), (''approved'', ''consumed'')] ''consumed''"
proof -
  let ?w = "sample_windows\<lparr>w_approvals := [], w_notes := []\<rparr>"
  have m: "approval_moves ''A1'' (fold (window_perform id) sample_ops ?w) = [(''pending'', ''approved''), (''approved'', ''consumed'')]"
    by code_simp
  have "map_option ap_status (map_of (w_approvals (fold (window_perform id) sample_ops ?w)) ''A1'') = Some ''consumed''" by code_simp
  then obtain a where a: "map_of (w_approvals (fold (window_perform id) sample_ops ?w)) ''A1'' = Some a" "ap_status a = ''consumed''"
    by auto
  have "clock_forward 0 sample_ops" by code_simp
  from decisions_complete [OF _ _ this a(1)] show ?thesis using m a(2) by simp
qed

end
