(* ===== verification/Quota_Windows.thy ===== *)
theory Quota_Windows
  imports Complex_Main Store_Schema "HOL-Library.AList"
begin

text \<open>
  The quota of an account: its windows, when a reading of one still says something, and when the
  account counts as used up (\<open>crates/am-base/src/quota.rs\<close>). Percentages are exact rationals with
  the values of \<open>f64\<close> that are no numbers; the subtraction from 100 is exact in \<open>f64\<close> for every
  value near a threshold. A timestamp is an instant, or a text that reads as none.
\<close>

section \<open>Instants and percentages\<close>

datatype stamp = At time | Text string

definition parse_utc :: "stamp \<Rightarrow> time option" where
  "parse_utc s = (case s of At t \<Rightarrow> Some t | Text _ \<Rightarrow> None)"

lemma parse_utc_simps [simp]: "parse_utc (At t) = Some t" "parse_utc (Text x) = None"
  by (simp_all add: parse_utc_def)

lemma parse_utc_eq_Some [simp]: "parse_utc s = Some t \<longleftrightarrow> s = At t"
  by (cases s) auto

definition blank_stamp :: "stamp \<Rightarrow> bool" where
  "blank_stamp s \<longleftrightarrow> (case s of At _ \<Rightarrow> False | Text x \<Rightarrow> trim x = [])"

datatype pct = Fin rat | NaN | Inf | Neg_Inf

definition remaining_pct :: "pct \<Rightarrow> pct" where
  "remaining_pct p = (case p of Fin u \<Rightarrow> Fin (max (100 - u) 0) | Neg_Inf \<Rightarrow> Inf | _ \<Rightarrow> Fin 0)"

definition pct_below :: "pct \<Rightarrow> rat \<Rightarrow> bool" where
  "pct_below p r \<longleftrightarrow> (case p of Fin u \<Rightarrow> u < r | Neg_Inf \<Rightarrow> True | _ \<Rightarrow> False)"

datatype cmp = LT | EQ | GT

definition pct_cmp :: "pct \<Rightarrow> pct \<Rightarrow> cmp option" where
  "pct_cmp a b =
     (case (a, b) of
        (NaN, _) \<Rightarrow> None
      | (_, NaN) \<Rightarrow> None
      | (Fin x, Fin y) \<Rightarrow> Some (if x < y then LT else if x = y then EQ else GT)
      | (Inf, Inf) \<Rightarrow> Some EQ
      | (Neg_Inf, Neg_Inf) \<Rightarrow> Some EQ
      | (Inf, _) \<Rightarrow> Some GT
      | (_, Neg_Inf) \<Rightarrow> Some GT
      | _ \<Rightarrow> Some LT)"

definition pct_max :: "pct \<Rightarrow> pct \<Rightarrow> pct" where
  "pct_max a b = (case pct_cmp a b of None \<Rightarrow> if a = NaN then b else a | Some LT \<Rightarrow> b | _ \<Rightarrow> a)"

section \<open>Windows\<close>

record window =
  wi_used :: pct
  wi_resets :: "stamp option"
  wi_observed :: "stamp option"

datatype bucket = Five_Hour | Seven_Day | Fable

definition HOUR :: time where
  "HOUR = 60 * 60 * 1000"

definition FIVE_HOUR_LEN :: time where
  "FIVE_HOUR_LEN = 5 * HOUR"

definition SEVEN_DAY_LEN :: time where
  "SEVEN_DAY_LEN = 7 * 24 * HOUR"

definition bucket_len :: "bucket \<Rightarrow> time" where
  "bucket_len b = (case b of Five_Hour \<Rightarrow> FIVE_HOUR_LEN | Seven_Day \<Rightarrow> SEVEN_DAY_LEN | Fable \<Rightarrow> SEVEN_DAY_LEN)"

definition LOW_REMAINING_PCT :: rat where
  "LOW_REMAINING_PCT = 30"

definition CRITICAL_REMAINING_PCT :: rat where
  "CRITICAL_REMAINING_PCT = 5"

definition low :: "window \<Rightarrow> bool" where
  "low w \<longleftrightarrow> pct_below (remaining_pct (wi_used w)) LOW_REMAINING_PCT"

definition critical :: "window \<Rightarrow> bool" where
  "critical w \<longleftrightarrow> pct_below (remaining_pct (wi_used w)) CRITICAL_REMAINING_PCT"

definition reset_passed :: "window \<Rightarrow> time \<Rightarrow> bool" where
  "reset_passed w now \<longleftrightarrow>
     (case wi_resets w of
        None \<Rightarrow> False
      | Some raw \<Rightarrow>
          (case parse_utc raw of
             None \<Rightarrow> True
           | Some resets \<Rightarrow>
               if resets > now then False
               else (case Option.bind (wi_observed w) parse_utc of Some observed \<Rightarrow> observed \<le> resets | None \<Rightarrow> True)))"

definition exhausted_at :: "window \<Rightarrow> time \<Rightarrow> bool" where
  "exhausted_at w now \<longleftrightarrow> \<not> reset_passed w now \<and> critical w"

record limit_hit =
  lh_message :: string
  lh_until :: "stamp option"
  lh_at :: stamp
  lh_bucket :: "string option"

text \<open>The coupons that restore a quota (\<open>reset_credits\<close>) are passed through, as JSON.\<close>

record quota =
  qu_five_hour :: "window option"
  qu_seven_day :: "window option"
  qu_fable :: "window option"
  qu_credits :: "json option"
  qu_hit :: "limit_hit option"
  qu_plan :: "string option"
  qu_updated_at :: stamp
  qu_source :: string
  qu_account :: "string option"
  qu_host :: string

definition window_of :: "quota \<Rightarrow> bucket \<Rightarrow> window option" where
  "window_of q b = (case b of Five_Hour \<Rightarrow> qu_five_hour q | Seven_Day \<Rightarrow> qu_seven_day q | Fable \<Rightarrow> qu_fable q)"

definition reading_older_than_window :: "quota \<Rightarrow> bucket \<Rightarrow> time \<Rightarrow> bool" where
  "reading_older_than_window q b now \<longleftrightarrow>
     (let observed = Option.bind (Option.bind (window_of q b) wi_observed) parse_utc in
      case (case observed of Some t \<Rightarrow> Some t | None \<Rightarrow> parse_utc (qu_updated_at q)) of
        Some t \<Rightarrow> now - t \<ge> bucket_len b
      | None \<Rightarrow> True)"

definition usable_window :: "quota \<Rightarrow> bucket \<Rightarrow> time \<Rightarrow> window option" where
  "usable_window q b now =
     (case window_of q b of
        None \<Rightarrow> None
      | Some w \<Rightarrow> if wi_resets w = None \<and> reading_older_than_window q b now then None else Some w)"

definition exhausted :: "quota \<Rightarrow> bucket \<Rightarrow> time \<Rightarrow> bool" where
  "exhausted q b now \<longleftrightarrow> (case usable_window q b now of None \<Rightarrow> False | Some w \<Rightarrow> exhausted_at w now)"

section \<open>Whose bucket\<close>

fun contains_str :: "string \<Rightarrow> string \<Rightarrow> bool" where
  "contains_str p [] \<longleftrightarrow> p = []"
| "contains_str p (c # s) \<longleftrightarrow> take (length p) (c # s) = p \<or> contains_str p s"

definition model_family :: "string \<Rightarrow> string option" where
  "model_family model = List.find (\<lambda>f. contains_str f (map to_ascii_lowercase model)) [''fable'', ''opus'', ''sonnet'', ''haiku'']"

definition model_of_bucket :: "string \<Rightarrow> string option" where
  "model_of_bucket b = (if List.member [''fable'', ''opus'', ''sonnet''] b then Some b else None)"

definition bucket_blocks_model :: "string option \<Rightarrow> string option \<Rightarrow> bool" where
  "bucket_blocks_model b model \<longleftrightarrow>
     (case Option.bind b model_of_bucket of
        None \<Rightarrow> True
      | Some only \<Rightarrow> (case Option.bind model model_family of Some family \<Rightarrow> family = only | None \<Rightarrow> True))"

definition limit_hit_blocks_model :: "limit_hit \<Rightarrow> string option \<Rightarrow> bool" where
  "limit_hit_blocks_model hit model \<longleftrightarrow> bucket_blocks_model (lh_bucket hit) model"

section \<open>Keys\<close>

definition LOCAL_HOST :: string where
  "LOCAL_HOST = ''local''"

definition quota_key :: "string \<Rightarrow> string \<Rightarrow> string" where
  "quota_key host base = (if host = LOCAL_HOST then base else host @ ''/'' @ base)"

definition quota_base :: "string \<Rightarrow> string option \<Rightarrow> string" where
  "quota_base kind identity = (case trimmed identity of Some i \<Rightarrow> kind @ '':'' @ i | None \<Rightarrow> kind)"

definition quota_base_default_aware :: "string \<Rightarrow> string option \<Rightarrow> bool \<Rightarrow> string" where
  "quota_base_default_aware kind identity shares_default =
     (case trimmed identity of
        Some i \<Rightarrow> if shares_default then kind else quota_base kind (Some i)
      | None \<Rightarrow> quota_base kind None)"

record identity =
  id_kind :: string
  id_env :: "string list" \<comment> \<open>the names set\<close>

definition config_dir_var :: "string \<Rightarrow> string option" where
  "config_dir_var kind = map_of [(''claude'', ''CLAUDE_CONFIG_DIR''), (''codex'', ''CODEX_HOME''), (''grok'', ''GROK_HOME'')] kind"

definition identity_shares_default :: "string \<Rightarrow> string list \<Rightarrow> bool" where
  "identity_shares_default kind env \<longleftrightarrow>
     (case config_dir_var kind of Some var \<Rightarrow> \<not> List.member env var | None \<Rightarrow> env = [])"

text \<open>\<open>identities\<close>: the identities known on that host.\<close>

definition quota_base_for_host :: "(string \<Rightarrow> identity option) \<Rightarrow> string \<Rightarrow> string option \<Rightarrow> string" where
  "quota_base_for_host identities kind identity =
     (case trimmed identity of
        None \<Rightarrow> kind
      | Some i \<Rightarrow>
          quota_base_default_aware kind (Some i)
            (case identities i of
               None \<Rightarrow> False
             | Some x \<Rightarrow> id_kind x \<noteq> kind \<or> identity_shares_default kind (id_env x)))"

section \<open>Reading a reading\<close>

definition already_past :: "stamp option \<Rightarrow> time \<Rightarrow> bool" where
  "already_past resets_at now \<longleftrightarrow>
     (case resets_at of None \<Rightarrow> False | Some raw \<Rightarrow> (case parse_utc raw of Some t \<Rightarrow> t \<le> now | None \<Rightarrow> True))"

definition sane_window :: "window \<Rightarrow> window option" where
  "sane_window w =
     (case wi_used w of
        Fin u \<Rightarrow> Some (if 0 \<le> u \<and> u \<le> 100 then w else w\<lparr>wi_used := Fin (if u < 0 then 0 else 100)\<rparr>)
      | _ \<Rightarrow> None)"

definition sanitize_percentages :: "quota \<Rightarrow> quota" where
  "sanitize_percentages q =
     q\<lparr>qu_five_hour := Option.bind (qu_five_hour q) sane_window, qu_seven_day := Option.bind (qu_seven_day q) sane_window,
       qu_fable := Option.bind (qu_fable q) sane_window\<rparr>"

definition readable_stamp :: "stamp option \<Rightarrow> stamp option" where
  "readable_stamp s = (case s of None \<Rightarrow> None | Some x \<Rightarrow> if parse_utc x = None then None else Some x)"

definition readable_window :: "window \<Rightarrow> window" where
  "readable_window w = w\<lparr>wi_resets := readable_stamp (wi_resets w), wi_observed := readable_stamp (wi_observed w)\<rparr>"

definition drop_unparseable_resets :: "quota \<Rightarrow> quota" where
  "drop_unparseable_resets q =
     q\<lparr>qu_five_hour := map_option readable_window (qu_five_hour q), qu_seven_day := map_option readable_window (qu_seven_day q),
       qu_fable := map_option readable_window (qu_fable q)\<rparr>"

definition STALE_AFTER :: time where
  "STALE_AFTER = 30 * 60 * 1000"

definition reading_is_stale :: "quota \<Rightarrow> bool \<Rightarrow> time \<Rightarrow> bool" where
  "reading_is_stale q flagged now \<longleftrightarrow>
     flagged \<or> (case parse_utc (qu_updated_at q) of None \<Rightarrow> True | Some t \<Rightarrow> now - t > STALE_AFTER)"

end
