(* ===== verification/Quota_Limits.thy ===== *)
theory Quota_Limits
  imports Quota_Windows
begin

text \<open>
  A limit the CLI reported: when a reading may shorten it or lift it, and the marks that keep a
  percentage from lifting the same limit over and over (\<open>crates/am-base/src/quota.rs\<close>).
\<close>

section \<open>Which reading is newer\<close>

definition SAME_WINDOW_SLACK :: time where
  "SAME_WINDOW_SLACK = 5 * 60 * 1000"

definition same_window :: "time \<Rightarrow> time \<Rightarrow> bool" where
  "same_window a b \<longleftrightarrow> \<bar>a - b\<bar> \<le> SAME_WINDOW_SLACK"

definition resets_of :: "window option \<Rightarrow> time option" where
  "resets_of w = Option.bind (Option.bind w wi_resets) parse_utc"

definition statusline_freshness :: "quota \<Rightarrow> quota \<Rightarrow> time \<Rightarrow> cmp option" where
  "statusline_freshness existing incoming now =
     (let old = (case qu_five_hour existing of None \<Rightarrow> None
                 | Some w \<Rightarrow> map_option (Pair (wi_used w)) (Option.bind (wi_resets w) parse_utc));
          old_current = (case old of None \<Rightarrow> False | Some (_, t) \<Rightarrow> t > now)
      in case qu_five_hour incoming of
           None \<Rightarrow> if old_current then Some LT else None
         | Some new \<Rightarrow>
             (case Option.bind (wi_resets new) parse_utc of
                None \<Rightarrow> None
              | Some new_at \<Rightarrow>
                  (case old of
                     Some (old_used, old_at) \<Rightarrow>
                       if same_window old_at new_at then pct_cmp (wi_used new) old_used
                       else if new_at > old_at then Some GT
                       else if old_current then Some LT else None
                   | None \<Rightarrow> if new_at > now then Some GT else None)))"

text \<open>One bucket of \<open>guard_statusline_windows\<close>: \<open>None\<close> when the incoming reading is stale.\<close>

definition guard_window :: "cmp option \<Rightarrow> time \<Rightarrow> window option \<Rightarrow> window option \<Rightarrow> window option option" where
  "guard_window freshness now old new =
     (case (old, new, resets_of old, resets_of new) of
        (Some o', Some n, Some old_at, Some new_at) \<Rightarrow>
          if same_window old_at new_at then
            Some (Some (if freshness = Some GT then n else n\<lparr>wi_used := pct_max (wi_used n) (wi_used o')\<rparr>))
          else if old_at > now \<and> new_at < old_at then None else Some new
      | _ \<Rightarrow> Some new)"

text \<open>\<open>None\<close>: the reading is discarded; otherwise the reading with its windows as they are written.\<close>

definition guard_statusline_windows :: "quota \<Rightarrow> quota \<Rightarrow> time \<Rightarrow> quota option" where
  "guard_statusline_windows existing incoming now =
     (let fresh = statusline_freshness existing incoming now in
      if fresh = Some LT then None
      else case guard_window fresh now (qu_five_hour existing) (qu_five_hour incoming) of
        None \<Rightarrow> None
      | Some five \<Rightarrow>
      case guard_window fresh now (qu_seven_day existing) (qu_seven_day incoming) of
        None \<Rightarrow> None
      | Some seven \<Rightarrow>
      case guard_window fresh now (qu_fable existing) (qu_fable incoming) of
        None \<Rightarrow> None
      | Some fable \<Rightarrow> Some (incoming\<lparr>qu_five_hour := five, qu_seven_day := seven, qu_fable := fable\<rparr>))"

section \<open>Lifting a limit\<close>

definition codex_reading_after_hit :: "limit_hit \<Rightarrow> quota \<Rightarrow> bool" where
  "codex_reading_after_hit hit fresh \<longleftrightarrow>
     qu_source fresh = ''codex-app-server''
     \<and> (case (parse_utc (qu_updated_at fresh), parse_utc (lh_at hit)) of (Some reading, Some a) \<Rightarrow> reading \<ge> a | _ \<Rightarrow> False)"

definition bucket_window :: "string option \<Rightarrow> quota \<Rightarrow> window option" where
  "bucket_window b q =
     (if b = Some ''five_hour'' then qu_five_hour q else if b = Some ''seven_day'' then qu_seven_day q else None)"

definition grok_reading_clears_hit :: "limit_hit \<Rightarrow> quota \<Rightarrow> time \<Rightarrow> bool" where
  "grok_reading_clears_hit hit fresh now \<longleftrightarrow>
     qu_source fresh = ''grok-usage'' \<and> \<not> reading_is_stale fresh False now
     \<and> (case (parse_utc (qu_updated_at fresh), parse_utc (lh_at hit)) of
          (Some reading, Some a) \<Rightarrow>
            reading > a \<and> (case bucket_window (lh_bucket hit) fresh of None \<Rightarrow> False | Some w \<Rightarrow> \<not> critical w)
        | _ \<Rightarrow> False)"

definition opened_after :: "window option \<Rightarrow> time \<Rightarrow> time \<Rightarrow> bool" where
  "opened_after w len a \<longleftrightarrow> (case resets_of w of None \<Rightarrow> False | Some r \<Rightarrow> r - len \<ge> a)"

definition both_windows_opened_after :: "limit_hit \<Rightarrow> quota \<Rightarrow> bool" where
  "both_windows_opened_after hit fresh \<longleftrightarrow>
     (case parse_utc (lh_at hit) of
        None \<Rightarrow> False
      | Some a \<Rightarrow> opened_after (qu_five_hour fresh) FIVE_HOUR_LEN a \<and> opened_after (qu_seven_day fresh) SEVEN_DAY_LEN a)"

definition still_full :: "limit_hit \<Rightarrow> quota \<Rightarrow> bool" where
  "still_full hit fresh \<longleftrightarrow>
     (let crit = (\<lambda>w. case w of None \<Rightarrow> False | Some x \<Rightarrow> critical x) in
      case lh_bucket hit of
        None \<Rightarrow> crit (qu_five_hour fresh) \<or> crit (qu_seven_day fresh)
      | Some b \<Rightarrow>
          if b = ''five_hour'' then crit (qu_five_hour fresh)
          else if b = ''seven_day'' then crit (qu_seven_day fresh) else True)"

text \<open>The window that times a named bucket; \<open>None\<close> for a name nobody knows.\<close>

definition timing_window :: "string \<Rightarrow> quota \<Rightarrow> (window option \<times> time) option" where
  "timing_window b fresh =
     (if b = ''five_hour'' then Some (qu_five_hour fresh, FIVE_HOUR_LEN)
      else if b = ''seven_day'' then Some (qu_seven_day fresh, SEVEN_DAY_LEN)
      else if b = ''fable'' then Some (qu_fable fresh, SEVEN_DAY_LEN)
      else if b = ''opus'' \<or> b = ''sonnet'' then Some (qu_seven_day fresh, SEVEN_DAY_LEN)
      else None)"

text \<open>The hit is moved to the reset of its window, lifted, or left.\<close>

definition timed_by_window :: "limit_hit \<Rightarrow> time \<Rightarrow> time \<Rightarrow> limit_hit option" where
  "timed_by_window hit resets len =
     (case parse_utc (lh_at hit) of
        None \<Rightarrow> Some hit
      | Some a \<Rightarrow>
          if resets \<le> a then Some hit
          else if resets - len \<ge> a then None
          else if (case Option.bind (lh_until hit) parse_utc of None \<Rightarrow> True | Some u \<Rightarrow> resets < u)
          then Some (hit\<lparr>lh_until := Some (At resets)\<rparr>) else Some hit)"

definition recalibrate_limit_hit_at :: "limit_hit \<Rightarrow> quota \<Rightarrow> time \<Rightarrow> bool \<Rightarrow> limit_hit option" where
  "recalibrate_limit_hit_at hit fresh now grok_pct =
     (if lh_bucket hit = None \<and> lh_until hit = None \<and> codex_reading_after_hit hit fresh then Some hit
      else if codex_reading_after_hit hit fresh \<and> \<not> still_full hit fresh then None
      else if grok_pct \<and> grok_reading_clears_hit hit fresh now then None
      else case lh_bucket hit of
        None \<Rightarrow> if both_windows_opened_after hit fresh then None else Some hit
      | Some b \<Rightarrow>
          (case timing_window b fresh of
             None \<Rightarrow> Some hit
           | Some (w, len) \<Rightarrow> (case resets_of w of None \<Rightarrow> Some hit | Some r \<Rightarrow> timed_by_window hit r len)))"

definition limit_hit_expired :: "limit_hit option \<Rightarrow> time \<Rightarrow> bool" where
  "limit_hit_expired hit now \<longleftrightarrow>
     (case Option.bind hit lh_until of None \<Rightarrow> False | Some u \<Rightarrow> (case parse_utc u of Some t \<Rightarrow> now \<ge> t | None \<Rightarrow> False))"

section \<open>Marks of percentages that lifted a limit\<close>

record grok_mark =
  gm_cleared_at :: time
  gm_bucket :: string
  gm_until :: "time option"
  gm_rehits :: nat
  gm_counted_at :: "stamp option"

type_synonym grok_marks = "grok_mark table"

definition GROK_PCT_CLEARS_MAX :: nat where
  "GROK_PCT_CLEARS_MAX = 256"

definition grok_bucket_len :: "string \<Rightarrow> time option" where
  "grok_bucket_len b =
     (if b = ''five_hour'' then Some FIVE_HOUR_LEN else if b = ''seven_day'' then Some SEVEN_DAY_LEN else None)"

definition grok_pct_clear_expired :: "grok_mark \<Rightarrow> time \<Rightarrow> bool" where
  "grok_pct_clear_expired m now \<longleftrightarrow>
     (case grok_bucket_len (gm_bucket m) of None \<Rightarrow> True | Some len \<Rightarrow> now - gm_cleared_at m \<ge> len)
     \<or> (case gm_until m of None \<Rightarrow> False | Some u \<Rightarrow> now \<ge> u)"

definition grok_pct_clears_room :: "grok_marks \<Rightarrow> time \<Rightarrow> bool \<times> grok_marks" where
  "grok_pct_clears_room marks now =
     (let marks' = (if length marks \<ge> GROK_PCT_CLEARS_MAX then filter (\<lambda>(_, m). \<not> grok_pct_clear_expired m now) marks else marks)
      in (length marks' < GROK_PCT_CLEARS_MAX, marks'))"

definition grok_pct_clear_allowed :: "grok_marks \<Rightarrow> string \<Rightarrow> limit_hit \<Rightarrow> time \<Rightarrow> bool \<times> grok_marks" where
  "grok_pct_clear_allowed marks0 k hit now =
     (let marks = (case map_of marks0 k of None \<Rightarrow> marks0 | Some m \<Rightarrow> if grok_pct_clear_expired m now then AList.delete k marks0 else marks0)
      in case parse_utc (lh_at hit) of
        None \<Rightarrow> (False, marks)
      | Some a \<Rightarrow>
          (case map_of marks k of
             Some m \<Rightarrow>
               if a \<ge> gm_cleared_at m then
                 (False, if gm_counted_at m = Some (lh_at hit) then marks
                         else AList.update k (m\<lparr>gm_rehits := gm_rehits m + 1, gm_counted_at := Some (lh_at hit)\<rparr>) marks)
               else (True, marks)
           | None \<Rightarrow> grok_pct_clears_room marks now))"

definition note_grok_pct_clear :: "grok_marks \<Rightarrow> string \<Rightarrow> limit_hit \<Rightarrow> time \<Rightarrow> grok_marks" where
  "note_grok_pct_clear marks k hit now =
     (case lh_bucket hit of
        None \<Rightarrow> marks
      | Some b \<Rightarrow>
          (let until = Option.bind (lh_until hit) parse_utc in
           case map_of marks k of
             Some m \<Rightarrow> AList.update k (m\<lparr>gm_cleared_at := now, gm_bucket := b, gm_until := until\<rparr>) marks
           | None \<Rightarrow>
               (case grok_pct_clears_room marks now of
                  (True, marks') \<Rightarrow>
                    AList.update k \<lparr>gm_cleared_at = now, gm_bucket = b, gm_until = until, gm_rehits = 0, gm_counted_at = None\<rparr> marks'
                | (False, marks') \<Rightarrow> marks')))"

definition forget_grok_pct_clear :: "string \<Rightarrow> grok_marks \<Rightarrow> grok_marks" where
  "forget_grok_pct_clear k marks = AList.delete k marks"

definition recalibrate_for_key :: "grok_marks \<Rightarrow> string \<Rightarrow> limit_hit \<Rightarrow> quota \<Rightarrow> bool \<Rightarrow> time \<Rightarrow> limit_hit option \<times> grok_marks" where
  "recalibrate_for_key marks k hit fresh grok_pct now =
     (if grok_pct \<and> grok_reading_clears_hit hit fresh now then
        (case grok_pct_clear_allowed marks k hit now of
           (True, marks') \<Rightarrow> (None, note_grok_pct_clear marks' k hit now)
         | (False, marks') \<Rightarrow> (recalibrate_limit_hit_at hit fresh now False, marks'))
      else (recalibrate_limit_hit_at hit fresh now False, marks))"

end
