(* ===== verification/Quota_Store.thy ===== *)
theory Quota_Store
  imports Quota_Limits
begin

text \<open>
  The table of readings, its cache on disk and the limits on it (\<open>set\<close>, \<open>clear_limit_hit\<close>,
  \<open>seed_limit_hit\<close>, \<open>restore_limit_hit\<close>, \<open>load_cache\<close> of \<open>crates/am-base/src/quota.rs\<close>).
  What the cache holds is the reading itself or a text that is none; \<open>shown\<close> prints an instant; a
  write to the cache that fails is only logged and is left out.
\<close>

record cache_row =
  cr_quota :: "quota option"
  cr_updated_at :: stamp

record quotas =
  qs_table :: "quota table"
  qs_stale :: "string list"
  qs_cache :: "cache_row table"
  qs_marks :: grok_marks
  qs_cleared :: "time table"

definition is_retired_agy_quota_key :: "string \<Rightarrow> bool" where
  "is_retired_agy_quota_key k \<longleftrightarrow>
     k = ''agy:claude-gpt'' \<or> take 15 (rev k) = rev ''/agy:claude-gpt''"

definition stamp_text :: "(time \<Rightarrow> string) \<Rightarrow> stamp \<Rightarrow> string" where
  "stamp_text shown s = (case s of At t \<Rightarrow> shown t | Text x \<Rightarrow> x)"

definition stamp_not_before :: "(time \<Rightarrow> string) \<Rightarrow> stamp \<Rightarrow> stamp \<Rightarrow> bool" where
  "stamp_not_before shown a b \<longleftrightarrow>
     (case (a, b) of (At s, At t) \<Rightarrow> s \<ge> t | _ \<Rightarrow> stamp_text shown a \<ge> stamp_text shown b)"

definition persist_cache :: "(time \<Rightarrow> string) \<Rightarrow> string \<Rightarrow> quota \<Rightarrow> cache_row table \<Rightarrow> cache_row table" where
  "persist_cache shown k q cache =
     (let row = \<lparr>cr_quota = Some q, cr_updated_at = qu_updated_at q\<rparr> in
      case map_of cache k of
        None \<Rightarrow> cache @ [(k, row)]
      | Some r \<Rightarrow> if stamp_not_before shown (qu_updated_at q) (cr_updated_at r) then AList.update k row cache else cache)"

definition delete_cache :: "string \<Rightarrow> cache_row table \<Rightarrow> cache_row table" where
  "delete_cache k cache = AList.delete k cache"

definition forget :: "string \<Rightarrow> quotas \<Rightarrow> quotas" where
  "forget k s = s\<lparr>qs_table := AList.delete k (qs_table s), qs_stale := removeAll k (qs_stale s), qs_cache := delete_cache k (qs_cache s)\<rparr>"

definition stale_split_keys :: "(string \<Rightarrow> identity option) \<Rightarrow> string \<Rightarrow> string \<Rightarrow> quota table \<Rightarrow> string list" where
  "stale_split_keys identities host kind t =
     (let prefix = quota_key host (kind @ '':'') in
      filter (\<lambda>k. take (length prefix) k = prefix \<and> quota_base_for_host identities kind (Some (drop (length prefix) k)) = kind) (map fst t))"

section \<open>Writing a reading\<close>

definition observed_by :: "time \<Rightarrow> stamp \<Rightarrow> window \<Rightarrow> window" where
  "observed_by now updated w =
     (if wi_observed w = None then w\<lparr>wi_observed := Some (if blank_stamp updated then At now else updated)\<rparr> else w)"

definition stamped_windows :: "time \<Rightarrow> quota \<Rightarrow> quota" where
  "stamped_windows now q =
     (let f = map_option (observed_by now (qu_updated_at q)) in
      q\<lparr>qu_five_hour := f (qu_five_hour q), qu_seven_day := f (qu_seven_day q), qu_fable := f (qu_fable q)\<rparr>)"

definition or_else :: "'a option \<Rightarrow> 'a option \<Rightarrow> 'a option" where
  "or_else x y = (case x of None \<Rightarrow> y | Some _ \<Rightarrow> x)"

text \<open>What the reading lacks is taken from the one before.\<close>

definition carried_windows :: "quota option \<Rightarrow> quota \<Rightarrow> quota" where
  "carried_windows prev q =
     (case prev of
        None \<Rightarrow> q
      | Some p \<Rightarrow>
          (let q1 = q\<lparr>qu_fable := or_else (qu_fable q) (qu_fable p)\<rparr> in
           if qu_source q \<noteq> ''codex-app-server''
           then q1\<lparr>qu_five_hour := or_else (qu_five_hour q) (qu_five_hour p), qu_seven_day := or_else (qu_seven_day q) (qu_seven_day p)\<rparr>
           else q1))"

definition plan_changed :: "quota \<Rightarrow> quota \<Rightarrow> bool" where
  "plan_changed prev q \<longleftrightarrow>
     qu_source q = ''codex-app-server'' \<and> qu_plan q \<noteq> None \<and> qu_plan prev \<noteq> None \<and> qu_plan q \<noteq> qu_plan prev"

definition carried_credits :: "quota option \<Rightarrow> quota \<Rightarrow> quota" where
  "carried_credits prev q =
     (case prev of
        None \<Rightarrow> q
      | Some p \<Rightarrow> if qu_credits q = None \<and> \<not> plan_changed p q then q\<lparr>qu_credits := qu_credits p\<rparr> else q)"

definition carried_hit :: "quota option \<Rightarrow> quota \<Rightarrow> quota \<Rightarrow> quota" where
  "carried_hit prev fresh q =
     (case prev of
        None \<Rightarrow> q
      | Some p \<Rightarrow>
          if qu_hit q \<noteq> None then q
          else q\<lparr>qu_hit := (case qu_hit p of
                   None \<Rightarrow> None
                 | Some hit \<Rightarrow> if plan_changed p q \<and> codex_reading_after_hit hit fresh then None else Some hit)\<rparr>)"

definition carried_reset :: "time \<Rightarrow> window option \<Rightarrow> window option \<Rightarrow> window option" where
  "carried_reset now old w =
     (case (w, old) of
        (Some x, Some p) \<Rightarrow>
          Some (if wi_resets x = None \<and> \<not> already_past (wi_resets p) now then x\<lparr>wi_resets := wi_resets p\<rparr> else x)
      | _ \<Rightarrow> w)"

definition carried_resets :: "time \<Rightarrow> quota option \<Rightarrow> quota \<Rightarrow> quota" where
  "carried_resets now prev q =
     (case prev of
        None \<Rightarrow> q
      | Some p \<Rightarrow> q\<lparr>qu_five_hour := carried_reset now (qu_five_hour p) (qu_five_hour q),
                    qu_seven_day := carried_reset now (qu_seven_day p) (qu_seven_day q),
                    qu_fable := carried_reset now (qu_fable p) (qu_fable q)\<rparr>)"

text \<open>The limit after this reading, with the marks.\<close>

definition settled_hit :: "string \<Rightarrow> bool \<Rightarrow> quota \<Rightarrow> time \<Rightarrow> quota \<Rightarrow> grok_marks \<Rightarrow> quota \<times> grok_marks" where
  "settled_hit k brings fresh now q marks =
     (let (hit, m1) = (if brings then (qu_hit q, marks)
                       else case qu_hit q of None \<Rightarrow> (None, marks) | Some h \<Rightarrow> recalibrate_for_key marks k h fresh True now)
      in if limit_hit_expired hit now then (q\<lparr>qu_hit := None\<rparr>, forget_grok_pct_clear k m1)
         else (q\<lparr>qu_hit := hit\<rparr>, m1))"

definition written :: "string \<Rightarrow> quota option \<Rightarrow> quota \<Rightarrow> quota \<Rightarrow> time \<Rightarrow> grok_marks \<Rightarrow> quota \<times> grok_marks" where
  "written k prev fresh q now marks =
     (let q1 = carried_hit prev fresh (carried_credits prev (carried_windows prev (stamped_windows now q)));
          (q2, m) = settled_hit k (qu_hit fresh \<noteq> None) fresh now q1 marks
      in (carried_resets now prev q2, m))"

definition split_keys :: "(string \<Rightarrow> identity option) \<Rightarrow> string \<Rightarrow> string \<Rightarrow> quota table \<Rightarrow> string list" where
  "split_keys identities host base seen = (if List.member base (CHR '':'') then [] else stale_split_keys identities host base seen)"

definition guarded :: "quota option \<Rightarrow> quota \<Rightarrow> time \<Rightarrow> quota option" where
  "guarded prev fresh now =
     (if qu_source fresh = ''statusline''
      then (case prev of None \<Rightarrow> Some fresh | Some p \<Rightarrow> guard_statusline_windows p fresh now) else Some fresh)"

definition put_reading :: "(time \<Rightarrow> string) \<Rightarrow> string \<Rightarrow> string list \<Rightarrow> quota \<Rightarrow> grok_marks \<Rightarrow> quotas \<Rightarrow> quotas" where
  "put_reading shown k stale q marks s =
     s\<lparr>qs_table := AList.update k q (fold AList.delete stale (qs_table s)), qs_marks := marks,
       qs_stale := filter (\<lambda>x. x \<noteq> k \<and> \<not> List.member stale x) (qs_stale s),
       qs_cache := persist_cache shown k q (fold delete_cache stale (qs_cache s))\<rparr>"

text \<open>The cache row is made what the table says now.\<close>

definition recached :: "(time \<Rightarrow> string) \<Rightarrow> string \<Rightarrow> quotas \<Rightarrow> quotas" where
  "recached shown k s =
     s\<lparr>qs_cache := (case map_of (qs_table s) k of Some cur \<Rightarrow> persist_cache shown k cur (qs_cache s) | None \<Rightarrow> delete_cache k (qs_cache s))\<rparr>"

text \<open>
  \<open>set_inner\<close>: \<open>current\<close> and \<open>still\<close> say whether the caller is still the authority for the host, at the
  lock and after the write; \<open>seen\<close> is the table when the split keys were looked up; \<open>race\<close> is what
  others write before the last check.
\<close>

definition set_inner ::
  "(time \<Rightarrow> string) \<Rightarrow> (string \<Rightarrow> identity option) \<Rightarrow> bool \<Rightarrow> bool \<Rightarrow> quota table \<Rightarrow> (quotas \<Rightarrow> quotas) \<Rightarrow> string \<Rightarrow> string \<Rightarrow> quota
     \<Rightarrow> time \<Rightarrow> quotas \<Rightarrow> bool \<times> quotas" where
  "set_inner shown identities current still seen race host base q0 now s =
     (let k = quota_key host base in
      if is_retired_agy_quota_key k then (if current then (True, forget k s) else (False, s))
      else if \<not> current then (False, s)
      else
        (let fresh = sanitize_percentages (q0\<lparr>qu_host := host\<rparr>); prev = map_of (qs_table s) k in
         case guarded prev fresh now of
           None \<Rightarrow> (True, s)
         | Some q \<Rightarrow>
             (case written k prev fresh q now (qs_marks s) of
                (q', marks) \<Rightarrow>
                  (let s1 = put_reading shown k (split_keys identities host base seen) q' marks s
                   in (True, if still then s1 else recached shown k (race s1))))))"

section \<open>Limits\<close>

definition written_back :: "(time \<Rightarrow> string) \<Rightarrow> string \<Rightarrow> quota \<Rightarrow> quotas \<Rightarrow> quotas" where
  "written_back shown k q s = s\<lparr>qs_table := AList.update k q (qs_table s), qs_cache := persist_cache shown k q (qs_cache s)\<rparr>"

definition clear_limit_hit :: "(time \<Rightarrow> string) \<Rightarrow> string \<Rightarrow> string \<Rightarrow> time \<Rightarrow> quotas \<Rightarrow> quotas" where
  "clear_limit_hit shown host base now s =
     (let k = quota_key host base;
          s1 = s\<lparr>qs_cleared := AList.update k now (qs_cleared s), qs_marks := forget_grok_pct_clear k (qs_marks s)\<rparr>
      in case map_of (qs_table s1) k of
           None \<Rightarrow> s1
         | Some q \<Rightarrow> if qu_hit q = None then s1 else written_back shown k (q\<lparr>qu_hit := None\<rparr>) s1)"

definition clear_limit_hit_if_older_than :: "(time \<Rightarrow> string) \<Rightarrow> string \<Rightarrow> string \<Rightarrow> time \<Rightarrow> quotas \<Rightarrow> bool \<times> quotas" where
  "clear_limit_hit_if_older_than shown host base success_at s =
     (let k = quota_key host base in
      case map_of (qs_table s) k of
        None \<Rightarrow> (False, s)
      | Some q \<Rightarrow>
          (case Option.bind (qu_hit q) (\<lambda>h. parse_utc (lh_at h)) of
             None \<Rightarrow> (False, s)
           | Some hit_at \<Rightarrow>
               if hit_at \<ge> success_at then (False, s)
               else (True, written_back shown k (q\<lparr>qu_hit := None\<rparr>)
                       (s\<lparr>qs_marks := forget_grok_pct_clear k (qs_marks s),
                          qs_cleared := AList.update k (case map_of (qs_cleared s) k of
                             Some t \<Rightarrow> if t < success_at then success_at else t | None \<Rightarrow> success_at) (qs_cleared s)\<rparr>))))"

definition PARKED_SOURCE :: string where
  "PARKED_SOURCE = ''parked-assignment''"

definition HELD_SOURCE :: string where
  "HELD_SOURCE = ''queued-prompt-hold''"

definition empty_quota :: "string \<Rightarrow> string \<Rightarrow> time \<Rightarrow> quota" where
  "empty_quota host source now =
     \<lparr>qu_five_hour = None, qu_seven_day = None, qu_fable = None, qu_credits = None, qu_hit = None, qu_plan = None,
      qu_updated_at = At now, qu_source = source, qu_account = None, qu_host = host\<rparr>"

definition with_hit :: "(time \<Rightarrow> string) \<Rightarrow> string \<Rightarrow> string \<Rightarrow> string \<Rightarrow> limit_hit \<Rightarrow> time \<Rightarrow> quotas \<Rightarrow> quotas" where
  "with_hit shown k host source hit now s =
     (let q = (case map_of (qs_table s) k of Some q \<Rightarrow> q | None \<Rightarrow> empty_quota host source now)
      in written_back shown k (q\<lparr>qu_hit := Some hit, qu_updated_at := At now\<rparr>) s)"

definition live_hit :: "string \<Rightarrow> time \<Rightarrow> quotas \<Rightarrow> limit_hit option" where
  "live_hit k now s =
     (case Option.bind (map_of (qs_table s) k) qu_hit of
        None \<Rightarrow> None | Some h \<Rightarrow> if limit_hit_expired (Some h) now then None else Some h)"

definition seed_limit_hit :: "(time \<Rightarrow> string) \<Rightarrow> string \<Rightarrow> string \<Rightarrow> stamp \<Rightarrow> string \<Rightarrow> string option \<Rightarrow> time \<Rightarrow> quotas \<Rightarrow> bool \<times> quotas" where
  "seed_limit_hit shown host base until message b now s =
     (case parse_utc until of
        None \<Rightarrow> (False, s)
      | Some t \<Rightarrow>
          if t \<le> now then (False, s)
          else
            (let k = quota_key host base in
             if (case live_hit k now s of
                   None \<Rightarrow> False
                 | Some h \<Rightarrow> (case Option.bind (lh_until h) parse_utc of None \<Rightarrow> True | Some p \<Rightarrow> p \<ge> t)) then (False, s)
             else (True, with_hit shown k host PARKED_SOURCE
                     \<lparr>lh_message = message, lh_until = Some until, lh_at = At now, lh_bucket = b\<rparr> now s)))"

definition restore_limit_hit :: "(time \<Rightarrow> string) \<Rightarrow> string \<Rightarrow> string \<Rightarrow> limit_hit \<Rightarrow> time \<Rightarrow> quotas \<Rightarrow> bool \<times> quotas" where
  "restore_limit_hit shown host base hit0 now s =
     (if limit_hit_expired (Some hit0) now then (False, s)
      else
        (let k = quota_key host base; entry = map_of (qs_table s) k in
         if (case entry of None \<Rightarrow> False
             | Some q \<Rightarrow> qu_hit q = None \<and> lh_bucket hit0 = None \<and> lh_until hit0 = None \<and> codex_reading_after_hit hit0 q)
         then (False, s)
         else
           (case (case entry of None \<Rightarrow> (Some hit0, qs_marks s)
                  | Some q \<Rightarrow> recalibrate_for_key (qs_marks s) k hit0 q (\<not> List.member (qs_stale s) k) now) of
              (None, marks) \<Rightarrow> (False, s\<lparr>qs_marks := marks\<rparr>)
            | (Some hit, marks) \<Rightarrow>
                (let s1 = s\<lparr>qs_marks := marks\<rparr> in
                 if (case live_hit k now s of
                       None \<Rightarrow> False
                     | Some p \<Rightarrow>
                         (case (Option.bind (lh_until p) parse_utc, Option.bind (lh_until hit) parse_utc) of
                            (None, _) \<Rightarrow> True | (Some _, None) \<Rightarrow> False | (Some x, Some y) \<Rightarrow> x \<ge> y)) then (False, s1)
                 else (True, with_hit shown k host HELD_SOURCE hit now s1)))))"

section \<open>Starting from the cache\<close>

definition host_of_cache_key :: "string \<Rightarrow> string" where
  "host_of_cache_key k = (if List.member k (CHR ''/'') then takeWhile (\<lambda>c. c \<noteq> CHR ''/'') k else LOCAL_HOST)"

definition restored_row :: "time \<Rightarrow> string \<Rightarrow> cache_row \<Rightarrow> quota option" where
  "restored_row now k r =
     map_option (\<lambda>q. drop_unparseable_resets (q\<lparr>qu_hit := (if limit_hit_expired (qu_hit q) now then None else qu_hit q),
        qu_updated_at := (if blank_stamp (cr_updated_at r) then qu_updated_at q else cr_updated_at r)\<rparr>)\<lparr>qu_host := host_of_cache_key k\<rparr>)
       (cr_quota r)"

definition load_cache :: "time \<Rightarrow> quotas \<Rightarrow> nat \<times> quotas" where
  "load_cache now s =
     (let retired = filter is_retired_agy_quota_key (map fst (qs_cache s));
          restored = List.map_filter (\<lambda>(k, r). if is_retired_agy_quota_key k then None else map_option (Pair k) (restored_row now k r)) (qs_cache s)
      in (length restored,
          s\<lparr>qs_table := fold (\<lambda>(k, q). AList.update k q) restored (fold AList.delete retired (qs_table s)),
            qs_stale := fold List.insert (map fst restored) (filter (\<lambda>k. \<not> List.member retired k) (qs_stale s)),
            qs_cache := fold delete_cache retired (qs_cache s)\<rparr>))"

end
