(* ===== verification/Quota_Safety.thy ===== *)
theory Quota_Safety
  imports Quota_Store
begin

text \<open>
  What the operations on the table of readings leave of its windows: where a stored window comes from,
  and until when it can count as used up.
\<close>

section \<open>When a window is over\<close>

definition window_over :: "bucket \<Rightarrow> window \<Rightarrow> time" where
  "window_over b w =
     (case Option.bind (wi_resets w) parse_utc of
        Some r \<Rightarrow> r
      | None \<Rightarrow> (case Option.bind (wi_observed w) parse_utc of Some t \<Rightarrow> t + bucket_len b | None \<Rightarrow> 0))"

text \<open>A window that was observed at an instant and, when it is used up, before its reset.\<close>

definition sound_window :: "window \<Rightarrow> bool" where
  "sound_window w \<longleftrightarrow>
     (case Option.bind (wi_observed w) parse_utc of
        None \<Rightarrow> False
      | Some t \<Rightarrow> critical w \<longrightarrow> (case Option.bind (wi_resets w) parse_utc of None \<Rightarrow> True | Some r \<Rightarrow> t \<le> r))"

definition sound_quota :: "quota \<Rightarrow> bool" where
  "sound_quota q \<longleftrightarrow> list_all (\<lambda>b. case window_of q b of None \<Rightarrow> True | Some w \<Rightarrow> sound_window w) [Five_Hour, Seven_Day, Fable]"

lemma sound_quotaD: "sound_quota q \<Longrightarrow> window_of q b = Some w \<Longrightarrow> sound_window w"
  by (cases b) (auto simp: sound_quota_def)

lemma sound_quotaI: "(\<And>b w. window_of q b = Some w \<Longrightarrow> sound_window w) \<Longrightarrow> sound_quota q"
  by (auto simp: sound_quota_def split: option.split)

lemma over_not_exhausted:
  assumes "window_of q b = Some w" "sound_window w" "window_over b w \<le> now"
  shows "\<not> exhausted q b now"
  using assms
  by (auto simp: exhausted_def usable_window_def exhausted_at_def reset_passed_def window_over_def sound_window_def
      reading_older_than_window_def Let_def bind_eq_Some_conv split: option.splits if_splits stamp.splits)

lemma no_window_not_exhausted: "window_of q b = None \<Longrightarrow> \<not> exhausted q b now"
  by (simp add: exhausted_def usable_window_def)

section \<open>Windows of a written reading\<close>

definition same_windows :: "quota \<Rightarrow> quota \<Rightarrow> bool" where
  "same_windows q p \<longleftrightarrow> (\<forall>b. window_of q b = window_of p b)"

lemma window_of_update [simp]:
  "window_of (q\<lparr>qu_hit := h\<rparr>) b = window_of q b" "window_of (q\<lparr>qu_credits := c\<rparr>) b = window_of q b"
  "window_of (q\<lparr>qu_updated_at := u\<rparr>) b = window_of q b" "window_of (q\<lparr>qu_host := s\<rparr>) b = window_of q b"
  by (cases b; simp add: window_of_def)+

lemma window_of_empty [simp]: "window_of (empty_quota host source now) b = None"
  by (cases b) (simp_all add: window_of_def empty_quota_def)

lemma window_of_sanitize [simp]: "window_of (sanitize_percentages q) b = Option.bind (window_of q b) sane_window"
  by (cases b) (simp_all add: window_of_def sanitize_percentages_def)

lemma window_of_stamped [simp]:
  "window_of (stamped_windows now q) b = map_option (observed_by now (qu_updated_at q)) (window_of q b)"
  by (cases b) (simp_all add: window_of_def stamped_windows_def Let_def)

lemma window_of_credits [simp]: "window_of (carried_credits prev q) b = window_of q b"
  by (simp add: carried_credits_def split: option.split)

lemma window_of_hit [simp]: "window_of (carried_hit prev fresh q) b = window_of q b"
  by (simp add: carried_hit_def split: option.split)

lemma window_of_settled [simp]: "settled_hit k brings fresh now q marks = (q', m) \<Longrightarrow> window_of q' b = window_of q b"
  by (auto simp: settled_hit_def Let_def split: prod.splits if_splits)

lemma window_of_resets:
  "window_of (carried_resets now prev q) b =
     (case prev of None \<Rightarrow> window_of q b | Some p \<Rightarrow> carried_reset now (window_of p b) (window_of q b))"
  by (cases b) (simp_all add: carried_resets_def window_of_def split: option.split)

lemma window_of_carried:
  "window_of (carried_windows prev q) b =
     (case prev of
        None \<Rightarrow> window_of q b
      | Some p \<Rightarrow> if b = Fable \<or> qu_source q \<noteq> ''codex-app-server'' then or_else (window_of q b) (window_of p b) else window_of q b)"
  by (cases b) (simp_all add: carried_windows_def window_of_def Let_def split: option.split)

lemma carried_reset_self: "carried_reset now w w = w"
  by (auto simp: carried_reset_def split: option.split)

text \<open>The reading as it is merged: the windows it brings, or else the ones before.\<close>

lemma written_windows:
  assumes "written k prev fresh q now marks = (q', m)"
  shows "window_of q' b =
    (case window_of q b of
       None \<Rightarrow> (case prev of None \<Rightarrow> None
                | Some p \<Rightarrow> if b = Fable \<or> qu_source q \<noteq> ''codex-app-server'' then window_of p b else None)
     | Some w \<Rightarrow> (case prev of None \<Rightarrow> Some (observed_by now (qu_updated_at q) w)
                 | Some p \<Rightarrow> carried_reset now (window_of p b) (Some (observed_by now (qu_updated_at q) w))))"
proof -
  let ?q1 = "carried_hit prev fresh (carried_credits prev (carried_windows prev (stamped_windows now q)))"
  obtain q2 where q2: "settled_hit k (qu_hit fresh \<noteq> None) fresh now ?q1 marks = (q2, m)" "q' = carried_resets now prev q2"
    using assms by (auto simp: written_def Let_def split: prod.splits)
  have src: "qu_source (stamped_windows now q) = qu_source q" by (simp add: stamped_windows_def Let_def)
  have "window_of q2 b = window_of (carried_windows prev (stamped_windows now q)) b"
    using window_of_settled [OF q2(1)] by simp
  then show ?thesis
    unfolding q2(2) window_of_resets window_of_carried src
    by (auto simp: or_else_def carried_reset_self carried_reset_def split: option.split)
qed

section \<open>What is stored\<close>

definition stored :: "quotas \<Rightarrow> string \<Rightarrow> quota \<Rightarrow> bool" where
  "stored s k q \<longleftrightarrow> map_of (qs_table s) k = Some q \<or> (\<exists>r. (k, r) \<in> set (qs_cache s) \<and> cr_quota r = Some q)"

definition stored_window :: "quotas \<Rightarrow> string \<Rightarrow> bucket \<Rightarrow> window \<Rightarrow> bool" where
  "stored_window s k b w \<longleftrightarrow> (\<exists>q. stored s k q \<and> window_of q b = Some w)"

text \<open>An operation that brings no window of its own.\<close>

definition keeps_windows :: "quotas \<Rightarrow> quotas \<Rightarrow> bool" where
  "keeps_windows s s' \<longleftrightarrow> (\<forall>k b w. stored_window s' k b w \<longrightarrow> stored_window s k b w)"

lemma keeps_windows_refl [simp]: "keeps_windows s s"
  by (simp add: keeps_windows_def)

lemma keeps_windows_trans: "keeps_windows s u \<Longrightarrow> keeps_windows u v \<Longrightarrow> keeps_windows s v"
  by (auto simp: keeps_windows_def)

lemma keeps_windowsI:
  assumes "\<And>k q b w. stored s' k q \<Longrightarrow> window_of q b = Some w \<Longrightarrow> stored_window s k b w"
  shows "keeps_windows s s'"
  using assms by (auto simp: keeps_windows_def stored_window_def)

lemma map_of_deletes: "map_of (fold AList.delete ks t) k = (if k \<in> set ks then None else map_of t k)"
  by (induction ks arbitrary: t) (auto simp: delete_conv')

lemma delete_cache_subset: "set (delete_cache k t) \<subseteq> set t"
  by (auto simp: delete_cache_def AList.delete_eq)

lemma delete_caches_subset: "set (fold delete_cache ks t) \<subseteq> set t"
proof (induction ks arbitrary: t)
  case (Cons k ks)
  then show ?case using delete_cache_subset [of k t] by fastforce
qed simp

lemma update_subset: "set (AList.update k v t) \<subseteq> insert (k, v) (set t)"
  by (induction t) auto

lemma persist_rows: "(j, r) \<in> set (persist_cache shown k q cache) \<Longrightarrow> j = k \<and> cr_quota r = Some q \<or> (j, r) \<in> set cache"
  using update_subset [of k "\<lparr>cr_quota = Some q, cr_updated_at = qu_updated_at q\<rparr>" cache]
  by (auto simp: persist_cache_def Let_def split: option.splits if_splits)

lemma same_fields_keep: "qs_table s' = qs_table s \<Longrightarrow> qs_cache s' = qs_cache s \<Longrightarrow> keeps_windows s s'"
  by (simp add: keeps_windows_def stored_window_def stored_def)

lemma written_back_stored:
  assumes "stored (written_back shown k q s) j p"
  shows "j = k \<and> p = q \<or> stored s j p"
  using assms persist_rows [of j _ shown k q "qs_cache s"]
  by (fastforce simp: stored_def written_back_def update_conv' split: if_splits)

lemma written_back_keeps:
  assumes "map_of (qs_table s) k = Some p" "\<And>b. window_of q b = window_of p b"
  shows "keeps_windows s (written_back shown k q s)"
proof (rule keeps_windowsI)
  fix j r b w
  assume "stored (written_back shown k q s) j r" "window_of r b = Some w"
  then show "stored_window s j b w"
    using written_back_stored [of shown k q s j r] assms by (fastforce simp: stored_window_def stored_def)
qed

lemma forget_keeps: "keeps_windows s (forget k s)"
  by (rule keeps_windowsI)
     (use delete_cache_subset in \<open>fastforce simp: stored_window_def stored_def forget_def delete_conv' split: if_splits\<close>)

lemma with_hit_keeps: "keeps_windows s (with_hit shown k host source hit now s)"
proof (cases "map_of (qs_table s) k")
  case None
  show ?thesis
  proof (rule keeps_windowsI)
    fix j r b w
    assume "stored (with_hit shown k host source hit now s) j r" "window_of r b = Some w"
    then show "stored_window s j b w"
      using written_back_stored [of shown k _ s j r] None by (fastforce simp: with_hit_def stored_window_def)
  qed
next
  case (Some q)
  then show ?thesis using written_back_keeps [OF Some] by (simp add: with_hit_def)
qed

lemma clear_keeps: "keeps_windows s (clear_limit_hit shown host base now s)"
proof -
  let ?k = "quota_key host base"
  let ?s = "s\<lparr>qs_cleared := AList.update ?k now (qs_cleared s), qs_marks := forget_grok_pct_clear ?k (qs_marks s)\<rparr>"
  have same: "keeps_windows s ?s" by (rule same_fields_keep) simp_all
  show ?thesis
  proof (cases "map_of (qs_table s) ?k")
    case None
    then show ?thesis using same by (simp add: clear_limit_hit_def Let_def)
  next
    case (Some q)
    have "keeps_windows ?s (written_back shown ?k (q\<lparr>qu_hit := None\<rparr>) ?s)"
      by (rule written_back_keeps [of _ _ q]) (use Some in simp_all)
    then show ?thesis using same Some keeps_windows_trans by (auto simp: clear_limit_hit_def Let_def)
  qed
qed

lemma clear_older_keeps:
  assumes "clear_limit_hit_if_older_than shown host base success_at s = (r, s')"
  shows "keeps_windows s s'"
proof -
  let ?k = "quota_key host base"
  consider "s' = s" | q m c where "map_of (qs_table s) ?k = Some q" "s' = written_back shown ?k (q\<lparr>qu_hit := None\<rparr>) (s\<lparr>qs_marks := m, qs_cleared := c\<rparr>)"
    using assms by (auto simp: clear_limit_hit_if_older_than_def Let_def split: option.splits if_splits)
  then show ?thesis
  proof cases
    case (2 q m c)
    have "keeps_windows (s\<lparr>qs_marks := m, qs_cleared := c\<rparr>) s'"
      unfolding 2(2) by (rule written_back_keeps [of _ _ q]) (use 2(1) in simp_all)
    then show ?thesis using keeps_windows_trans [OF same_fields_keep, of "s\<lparr>qs_marks := m, qs_cleared := c\<rparr>" s s'] by simp
  qed simp
qed

lemma seed_keeps:
  assumes "seed_limit_hit shown host base until message b now s = (r, s')"
  shows "keeps_windows s s'"
  using assms by (auto simp: seed_limit_hit_def Let_def with_hit_keeps split: option.splits if_splits)

lemma restore_keeps:
  assumes "restore_limit_hit shown host base hit now s = (r, s')"
  shows "keeps_windows s s'"
proof -
  have marks: "keeps_windows s (s\<lparr>qs_marks := m\<rparr>)" for m by (rule same_fields_keep) simp_all
  then have "keeps_windows s (with_hit shown k h src x now (s\<lparr>qs_marks := m\<rparr>))" for k h src x m
    using with_hit_keeps keeps_windows_trans by blast
  with marks show ?thesis
    using assms by (auto simp: restore_limit_hit_def Let_def with_hit_keeps split: option.splits if_splits prod.splits)
qed

section \<open>Writing a reading\<close>

text \<open>
  A reading as the daemon takes it: stamped with a time that is not ahead, and a window that it says is
  used up, or any window of a status line, is still open.
\<close>

definition honest_window :: "time \<Rightarrow> string \<Rightarrow> window \<Rightarrow> bool" where
  "honest_window now source w \<longleftrightarrow> wi_observed w = None
     \<and> (case Option.bind (wi_resets w) parse_utc of
          None \<Rightarrow> True | Some r \<Rightarrow> now \<le> r \<or> source \<noteq> ''statusline'' \<and> \<not> critical w)"

definition honest :: "time \<Rightarrow> quota \<Rightarrow> bool" where
  "honest now q \<longleftrightarrow> (case qu_updated_at q of At u \<Rightarrow> u \<le> now | Text x \<Rightarrow> trim x = [])
     \<and> list_all (\<lambda>b. case window_of q b of None \<Rightarrow> True | Some w \<Rightarrow> honest_window now (qu_source q) w) [Five_Hour, Seven_Day, Fable]"

lemma honestD: "honest now q \<Longrightarrow> window_of q b = Some w \<Longrightarrow> honest_window now (qu_source q) w"
  by (cases b) (auto simp: honest_def)

lemma sane_fields: "sane_window w = Some v \<Longrightarrow> wi_observed v = wi_observed w \<and> wi_resets v = wi_resets w \<and> critical v = critical w"
  by (auto simp: sane_window_def critical_def remaining_pct_def pct_below_def CRITICAL_REMAINING_PCT_def
      split: pct.splits if_splits)

lemma honest_sane: "honest_window now src w \<Longrightarrow> sane_window w = Some v \<Longrightarrow> honest_window now src v"
  using sane_fields [of w v] by (auto simp: honest_window_def split: option.splits)

lemma guard_window_cases:
  assumes "guard_window fresh now old (Some n) = Some out"
  shows "\<exists>u. out = Some (n\<lparr>wi_used := u\<rparr>)"
proof -
  consider "out = Some n" | u where "out = Some (n\<lparr>wi_used := u\<rparr>)"
    using assms by (auto simp: guard_window_def split: option.splits if_splits)
  then show ?thesis
  proof cases
    case 1
    then show ?thesis by (intro exI [of _ "wi_used n"]) simp
  qed blast
qed

lemma guard_window_None: "guard_window fresh now old None = Some out \<Longrightarrow> out = None"
  by (auto simp: guard_window_def split: option.splits)

lemma guard_windows:
  assumes "guard_statusline_windows existing incoming now = Some q"
  shows "window_of q b = None \<longleftrightarrow> window_of incoming b = None"
    "window_of incoming b = Some n \<Longrightarrow> \<exists>u. window_of q b = Some (n\<lparr>wi_used := u\<rparr>)"
    "qu_updated_at q = qu_updated_at incoming" "qu_source q = qu_source incoming"
proof -
  obtain five seven fable where g:
      "guard_window (statusline_freshness existing incoming now) now (qu_five_hour existing) (qu_five_hour incoming) = Some five"
      "guard_window (statusline_freshness existing incoming now) now (qu_seven_day existing) (qu_seven_day incoming) = Some seven"
      "guard_window (statusline_freshness existing incoming now) now (qu_fable existing) (qu_fable incoming) = Some fable"
    and q: "q = incoming\<lparr>qu_five_hour := five, qu_seven_day := seven, qu_fable := fable\<rparr>"
    using assms by (auto simp: guard_statusline_windows_def Let_def split: if_splits option.splits)
  have w: "guard_window (statusline_freshness existing incoming now) now (window_of existing b) (window_of incoming b) = Some (window_of q b)"
    using g by (cases b) (simp_all add: window_of_def q)
  show "window_of incoming b = Some n \<Longrightarrow> \<exists>u. window_of q b = Some (n\<lparr>wi_used := u\<rparr>)"
    using w guard_window_cases by fastforce
  show "window_of q b = None \<longleftrightarrow> window_of incoming b = None"
    using w guard_window_None guard_window_cases by (cases "window_of incoming b") fastforce+
  show "qu_updated_at q = qu_updated_at incoming" "qu_source q = qu_source incoming" by (simp_all add: q)
qed

text \<open>A window that comes with the reading is sound once it is written.\<close>

lemma brought_sound:
  assumes "wi_observed n = None" "case u of At t \<Rightarrow> t \<le> now | Text x \<Rightarrow> trim x = []"
    and "case Option.bind (wi_resets n) parse_utc of None \<Rightarrow> True | Some r \<Rightarrow> now \<le> r \<or> \<not> critical n"
    and "w = observed_by now u n \<or> carried_reset now old (Some (observed_by now u n)) = Some w"
  shows "sound_window w"
proof -
  obtain t where t: "wi_observed (observed_by now u n) = Some (At t)" "t \<le> now" "wi_resets (observed_by now u n) = wi_resets n"
      "critical (observed_by now u n) = critical n"
    using assms(1,2) by (cases u) (auto simp: observed_by_def blank_stamp_def critical_def)
  have c: "critical (x\<lparr>wi_resets := y\<rparr>) = critical x" for x y by (simp add: critical_def)
  show ?thesis
    using assms(3,4) t
    by (auto simp: sound_window_def carried_reset_def already_past_def c split: option.splits if_splits)
qed

lemma guarded_cases:
  assumes "guarded prev fresh now = Some p"
  shows "p = fresh \<or> qu_source fresh = ''statusline'' \<and> (\<exists>e. guard_statusline_windows e fresh now = Some p)"
  using assms by (auto simp: guarded_def split: if_splits option.splits)

lemma put_reading_stored:
  assumes "stored (put_reading shown k stale q m s) j x"
  shows "j = k \<and> x = q \<or> stored s j x"
  using assms persist_rows [of j _ shown k q "fold delete_cache stale (qs_cache s)"] delete_caches_subset [of stale "qs_cache s"]
  by (fastforce simp: stored_def put_reading_def update_conv' map_of_deletes split: if_splits)

lemma recached_stored:
  assumes "stored (recached shown k s) j x"
  shows "stored s j x"
  using assms persist_rows [of j _ shown k _ "qs_cache s"] delete_cache_subset [of k "qs_cache s"]
  by (fastforce simp: stored_def recached_def split: option.splits)

lemma set_inner_stored:
  assumes "set_inner shown ids current still seen id host base q now s = (r, s')"
  obtains (kept) "keeps_windows s s'"
  | (wrote) p q' m where
      "p = sanitize_percentages (q\<lparr>qu_host := host\<rparr>)
        \<or> qu_source q = ''statusline'' \<and> (\<exists>e. guard_statusline_windows e (sanitize_percentages (q\<lparr>qu_host := host\<rparr>)) now = Some p)"
      "written (quota_key host base) (map_of (qs_table s) (quota_key host base)) (sanitize_percentages (q\<lparr>qu_host := host\<rparr>)) p now (qs_marks s)
        = (q', m)"
      "\<And>k x. stored s' k x \<Longrightarrow> k = quota_key host base \<and> x = q' \<or> stored s k x"
proof -
  let ?k = "quota_key host base"
  let ?fresh = "sanitize_percentages (q\<lparr>qu_host := host\<rparr>)"
  let ?in = "guarded (map_of (qs_table s) ?k) ?fresh now"
  consider "is_retired_agy_quota_key ?k \<or> \<not> current" | "\<not> is_retired_agy_quota_key ?k" "current" "?in = None"
    | p where "\<not> is_retired_agy_quota_key ?k" "current" "?in = Some p" by (cases ?in) auto
  then show ?thesis
  proof cases
    case 1
    then have "s' = s \<or> s' = forget ?k s" using assms by (auto simp: set_inner_def Let_def split: if_splits)
    then show ?thesis using forget_keeps kept by auto
  next
    case 2
    then have "s' = s" using assms by (simp add: set_inner_def Let_def)
    then show ?thesis using kept by simp
  next
    case (3 p)
    obtain q' m where w: "written ?k (map_of (qs_table s) ?k) ?fresh p now (qs_marks s) = (q', m)" by fastforce
    let ?s1 = "put_reading shown ?k (split_keys ids host base seen) q' m s"
    have s': "s' = (if still then ?s1 else recached shown ?k ?s1)"
      using assms 3 w by (auto simp: set_inner_def Let_def)
    have src: "qu_source ?fresh = qu_source q" by (simp add: sanitize_percentages_def)
    have "k = ?k \<and> x = q' \<or> stored s k x" if "stored s' k x" for k x
      using that recached_stored [of shown ?k ?s1 k x] put_reading_stored [of shown ?k _ q' m s k x] unfolding s' by (auto split: if_splits)
    then show ?thesis using wrote [OF _ w] guarded_cases [OF 3(3)] src by auto
  qed
qed

lemma set_origin:
  assumes "set_inner shown ids current still seen id host base q now s = (r, s')" "honest now q" "stored_window s' k b w"
  shows "stored_window s k b w \<or> k = quota_key host base \<and> window_of q b \<noteq> None \<and> sound_window w"
  using assms(1)
proof (cases rule: set_inner_stored)
  case kept
  then show ?thesis using assms(3) by (auto simp: keeps_windows_def)
next
  case (wrote p q' m)
  let ?k = "quota_key host base"
  let ?fresh = "sanitize_percentages (q\<lparr>qu_host := host\<rparr>)"
  obtain x where x: "stored s' k x" "window_of x b = Some w" using assms(3) by (auto simp: stored_window_def)
  show ?thesis
  proof (cases "stored s k x")
    case True
    then show ?thesis using x(2) by (auto simp: stored_window_def)
  next
    case False
    then have k: "k = ?k" "window_of q' b = Some w" using wrote(3) [OF x(1)] x(2) by auto
    have u: "qu_updated_at p = qu_updated_at q"
      using wrote(1) guard_windows(3) by (auto simp: sanitize_percentages_def)
    show ?thesis
    proof (cases "window_of p b")
      case None
      then show ?thesis using written_windows [OF wrote(2), of b] k
        by (auto simp: stored_window_def stored_def split: option.splits if_splits)
    next
      case (Some n)
      obtain f where f: "window_of ?fresh b = Some f" "wi_observed n = wi_observed f" "wi_resets n = wi_resets f"
        "n = f \<or> qu_source q = ''statusline''"
      proof -
        show ?thesis
        proof (cases "p = ?fresh")
          case True
          then show ?thesis using that Some by simp
        next
          case False
          then obtain e where e: "guard_statusline_windows e ?fresh now = Some p" "qu_source q = ''statusline''" using wrote(1) by blast
          then obtain f where "window_of ?fresh b = Some f" using guard_windows(1) [OF e(1), of b] Some by (cases "window_of ?fresh b") auto
          moreover obtain v where "window_of p b = Some (f\<lparr>wi_used := v\<rparr>)" using guard_windows(2) [OF e(1)] calculation by blast
          ultimately show ?thesis using that [of f] Some e(2) by auto
        qed
      qed
      obtain g where g: "window_of q b = Some g" "sane_window g = Some f" using f(1) by (auto simp: bind_eq_Some_conv)
      have h: "honest_window now (qu_source q) f" using honest_sane [OF honestD [OF assms(2) g(1)] g(2)] .
      have "sound_window w"
      proof (rule brought_sound)
        show "wi_observed n = None" using h f(2) by (simp add: honest_window_def)
        show "case qu_updated_at q of At t \<Rightarrow> t \<le> now | Text x \<Rightarrow> trim x = []" using assms(2) by (simp add: honest_def)
        show "case Option.bind (wi_resets n) parse_utc of None \<Rightarrow> True | Some r \<Rightarrow> now \<le> r \<or> \<not> critical n"
          using h f(3,4) by (auto simp: honest_window_def split: option.splits)
        show "w = observed_by now (qu_updated_at q) n
            \<or> carried_reset now (case map_of (qs_table s) ?k of None \<Rightarrow> None | Some p \<Rightarrow> window_of p b) (Some (observed_by now (qu_updated_at q) n)) = Some w"
          using written_windows [OF wrote(2), of b] k(2) Some u by (auto split: option.splits)
      qed
      then show ?thesis using k(1) g(1) by simp
    qed
  qed
qed

text \<open>Without any condition on the reading: what is stored was stored before, or the reading brings that bucket.\<close>

lemma set_origin_any:
  assumes "set_inner shown ids current still seen id host base q now s = (r, s')" "stored_window s' k b w"
  shows "stored_window s k b w \<or> k = quota_key host base \<and> window_of q b \<noteq> None"
  using assms(1)
proof (cases rule: set_inner_stored)
  case kept
  then show ?thesis using assms(2) by (auto simp: keeps_windows_def)
next
  case (wrote p q' m)
  obtain x where x: "stored s' k x" "window_of x b = Some w" using assms(2) by (auto simp: stored_window_def)
  have "window_of p b = None" if none: "window_of q b = None"
  proof -
    have "window_of (sanitize_percentages (q\<lparr>qu_host := host\<rparr>)) b = None" using none by simp
    then show ?thesis using wrote(1) guard_windows(1) by blast
  qed
  then show ?thesis
    using x wrote(3) [OF x(1)] written_windows [OF wrote(2), of b]
    by (auto simp: stored_window_def stored_def split: option.splits if_splits)
qed

end
