(* ===== verification/Quota_Steps.thy ===== *)
theory Quota_Steps
  imports Quota_Safety
begin

text \<open>
  Sequences of operations on the table of readings, restarts of the daemon included, and what every
  sequence keeps: each stored window was brought by a reading, and was still open when it came.
\<close>

section \<open>Restart\<close>

definition restarted :: "time \<Rightarrow> quotas \<Rightarrow> quotas" where
  "restarted now s =
     snd (load_cache now \<lparr>qs_table = [], qs_stale = [], qs_cache = qs_cache s, qs_marks = [], qs_cleared = []\<rparr>)"

lemma bind_readable [simp]: "Option.bind (readable_stamp s) parse_utc = Option.bind s parse_utc"
  by (auto simp: readable_stamp_def split: option.split)

lemma readable_fields [simp]:
  "Option.bind (wi_resets (readable_window w)) parse_utc = Option.bind (wi_resets w) parse_utc"
  "Option.bind (wi_observed (readable_window w)) parse_utc = Option.bind (wi_observed w) parse_utc"
  "critical (readable_window w) = critical w"
  by (simp_all add: readable_window_def critical_def)

lemma readable_over [simp]: "window_over b (readable_window w) = window_over b w"
  unfolding window_over_def readable_fields by (rule refl)

lemma readable_sound [simp]: "sound_window (readable_window w) = sound_window w"
  unfolding sound_window_def readable_fields by (rule refl)

lemma window_of_readable [simp]: "window_of (drop_unparseable_resets q) b = map_option readable_window (window_of q b)"
  by (cases b) (simp_all add: window_of_def drop_unparseable_resets_def)

lemma map_of_updates:
  "map_of (fold (\<lambda>(k, q). AList.update k q) xs t) j = Some v \<Longrightarrow> (j, v) \<in> set xs \<or> map_of t j = Some v"
proof (induction xs arbitrary: t)
  case (Cons x xs)
  then show ?case by (cases x) (fastforce simp: update_conv' split: if_splits)
qed simp

lemma restored_window:
  assumes "restored_row now k r = Some q" "window_of q b = Some w"
  shows "\<exists>p v. cr_quota r = Some p \<and> window_of p b = Some v \<and> w = readable_window v"
  using assms by (auto simp: restored_row_def)

lemma restarted_stored:
  assumes "stored_window (restarted now s) k b w"
  shows "\<exists>v. stored_window s k b v \<and> (w = v \<or> w = readable_window v)"
proof -
  obtain q where q: "stored (restarted now s) k q" "window_of q b = Some w" using assms by (auto simp: stored_window_def)
  consider "map_of (qs_table (restarted now s)) k = Some q"
    | r where "(k, r) \<in> set (qs_cache s)" "cr_quota r = Some q"
    using q(1) delete_caches_subset [of _ "qs_cache s"]
    by (fastforce simp: stored_def restarted_def load_cache_def Let_def)
  then show ?thesis
  proof cases
    case 1
    then have "\<exists>r. (k, r) \<in> set (qs_cache s) \<and> restored_row now k r = Some q"
      by (auto simp: restarted_def load_cache_def Let_def map_of_deletes List.map_filter_def
          dest!: map_of_updates split: if_splits) blast
    then show ?thesis using restored_window [OF _ q(2)] by (fastforce simp: stored_window_def stored_def)
  next
    case 2
    then show ?thesis using q(2) by (auto simp: stored_window_def stored_def)
  qed
qed

section \<open>Operations\<close>

text \<open>
  \<open>Reading\<close> carries, beside the reading, the answers of the authority checks, the table when the split
  keys were looked up, and the operations of others before the last check.
\<close>

datatype quota_op =
  Reading time bool bool "quota table" "quota_op list" string string quota
| Clear time string string
| Clear_Older time string string
| Seed time string string stamp string "string option"
| Restore time string string limit_hit
| Forget_Key string
| Restart time

fun perform and performs where
  "perform shown ids (Reading now current still seen race host base q) s =
     snd (set_inner shown ids current still seen (\<lambda>u. performs shown ids race u) host base q now s)"
| "perform shown ids (Clear now host base) s = clear_limit_hit shown host base now s"
| "perform shown ids (Clear_Older success_at host base) s = snd (clear_limit_hit_if_older_than shown host base success_at s)"
| "perform shown ids (Seed now host base until message b) s = snd (seed_limit_hit shown host base until message b now s)"
| "perform shown ids (Restore now host base hit) s = snd (restore_limit_hit shown host base hit now s)"
| "perform shown ids (Forget_Key k) s = forget k s"
| "perform shown ids (Restart now) s = restarted now s"
| "performs shown ids [] s = s"
| "performs shown ids (x # xs) s = performs shown ids xs (perform shown ids x s)"

text \<open>The windows an operation brings, and operations whose readings are taken as the daemon takes them.\<close>

fun brings :: "quota_op \<Rightarrow> string \<Rightarrow> bucket \<Rightarrow> bool" where
  "brings (Reading now current still seen race host base q) k b \<longleftrightarrow>
     k = quota_key host base \<and> window_of q b \<noteq> None \<or> list_ex (\<lambda>x. brings x k b) race"
| "brings _ k b \<longleftrightarrow> False"

fun all_taken :: "(time \<Rightarrow> quota \<Rightarrow> bool) \<Rightarrow> quota_op \<Rightarrow> bool" where
  "all_taken fair (Reading now current still seen race host base q) \<longleftrightarrow> fair now q \<and> list_all (all_taken fair) race"
| "all_taken fair _ \<longleftrightarrow> True"

abbreviation honest_op :: "quota_op \<Rightarrow> bool" where
  "honest_op \<equiv> all_taken honest"

lemma all_taken_any [simp]: "all_taken (\<lambda>_ _. True) x"
  by (induction x) (auto simp: list_all_iff)

text \<open>A window as it was stored, or as it was read back from the cache.\<close>

definition read_of :: "window \<Rightarrow> window \<Rightarrow> bool" where
  "read_of v w \<longleftrightarrow> w = v \<or> w = readable_window v"

lemma readable_twice [simp]: "readable_window (readable_window w) = readable_window w"
  by (auto simp: readable_window_def readable_stamp_def split: option.splits)

lemma read_of_refl [simp]: "read_of v v"
  by (simp add: read_of_def)

lemma read_of_trans: "read_of u v \<Longrightarrow> read_of v w \<Longrightarrow> read_of u w"
  by (auto simp: read_of_def)

lemma read_of_over: "read_of v w \<Longrightarrow> window_over b w = window_over b v"
  by (auto simp: read_of_def)

text \<open>Windows stored later are those of before, up to reading them from the cache, or brought and fit.\<close>

definition extends :: "(window \<Rightarrow> bool) \<Rightarrow> (string \<Rightarrow> bucket \<Rightarrow> bool) \<Rightarrow> quotas \<Rightarrow> quotas \<Rightarrow> bool" where
  "extends fit br s s' \<longleftrightarrow>
     (\<forall>k b w. stored_window s' k b w \<longrightarrow> (\<exists>v. stored_window s k b v \<and> read_of v w) \<or> br k b \<and> fit w)"

lemma set_inner_race:
  "snd (set_inner shown ids current still seen race host base q now s) = snd (set_inner shown ids current True seen id host base q now s)
   \<or> snd (set_inner shown ids current still seen race host base q now s)
       = recached shown (quota_key host base) (race (snd (set_inner shown ids current True seen id host base q now s)))"
  by (auto simp: set_inner_def Let_def split: option.split prod.split)

text \<open>
  What a history keeps depends only on what one reading brings: \<open>fit\<close> is a property of every window that a
  \<open>fair\<close> reading brings, and survives the cache.
\<close>

locale brought_windows =
  fixes fit :: "window \<Rightarrow> bool" and fair :: "time \<Rightarrow> quota \<Rightarrow> bool"
  assumes read_again: "fit w \<Longrightarrow> fit (readable_window w)"
    and brought: "set_inner shown ids current still seen id host base q now s = (r, s') \<Longrightarrow> fair now q
      \<Longrightarrow> stored_window s' k b w
      \<Longrightarrow> stored_window s k b w \<or> k = quota_key host base \<and> window_of q b \<noteq> None \<and> fit w"
begin

lemma extends_refl [simp]: "extends fit br s s"
  by (auto simp: extends_def)

lemma extends_trans:
  assumes "extends fit f s u" "extends fit g u v" "\<And>k b. f k b \<or> g k b \<Longrightarrow> h k b"
  shows "extends fit h s v"
  unfolding extends_def
proof (intro allI impI)
  fix k b w
  assume "stored_window v k b w"
  then consider (old) x where "stored_window u k b x" "read_of x w" | (new) "g k b" "fit w"
    using assms(2) unfolding extends_def by blast
  then show "(\<exists>x. stored_window s k b x \<and> read_of x w) \<or> h k b \<and> fit w"
  proof cases
    case old
    have "fit w" if "fit x" using that old(2) read_again by (auto simp: read_of_def)
    then show ?thesis using assms(1,3) old read_of_trans unfolding extends_def by blast
  next
    case new
    then show ?thesis using assms(3) by blast
  qed
qed

lemma extends_mono: "extends fit f s u \<Longrightarrow> (\<And>k b. f k b \<Longrightarrow> h k b) \<Longrightarrow> extends fit h s u"
  unfolding extends_def by blast

lemma keeps_extends: "keeps_windows s s' \<Longrightarrow> extends fit br s s'"
  unfolding keeps_windows_def extends_def using read_of_refl by blast

lemma recached_extends: "extends fit br s (recached shown k s)"
  by (rule keeps_extends) (auto simp: keeps_windows_def stored_window_def dest: recached_stored)

lemma restarted_extends: "extends fit br s (restarted now s)"
  unfolding extends_def read_of_def using restarted_stored by blast

lemma set_inner_extends:
  assumes "fair now q" "\<And>u. extends fit g u (race u)"
  shows "extends fit (\<lambda>k b. k = quota_key host base \<and> window_of q b \<noteq> None \<or> g k b) s
    (snd (set_inner shown ids current still seen race host base q now s))"
    (is "extends fit ?h s ?s'")
proof -
  let ?one = "set_inner shown ids current True seen id host base q now s"
  have one: "extends fit (\<lambda>k b. k = quota_key host base \<and> window_of q b \<noteq> None) s (snd ?one)"
    unfolding extends_def
    using brought [OF _ assms(1), of shown ids current True seen host base s "fst ?one" "snd ?one"] by fastforce
  have then_race: "extends fit g (snd ?one) (recached shown (quota_key host base) (race (snd ?one)))"
    by (rule extends_trans [OF assms(2) recached_extends [of g]]) blast
  have "extends fit ?h s (snd ?one)" by (rule extends_mono [OF one]) blast
  moreover have "extends fit ?h s (recached shown (quota_key host base) (race (snd ?one)))"
    by (rule extends_trans [OF one then_race]) blast
  ultimately show ?thesis using set_inner_race [of shown ids current still seen race host base q now s] by auto
qed

lemma perform_extends:
  "all_taken fair x \<Longrightarrow> extends fit (brings x) s (perform shown ids x s)"
  "list_all (all_taken fair) xs \<Longrightarrow> extends fit (\<lambda>k b. list_ex (\<lambda>x. brings x k b) xs) s (performs shown ids xs s)"
proof (induction shown ids x s and shown ids xs s rule: perform_performs.induct)
  case (1 shown ids now current still seen race host base q s)
  then show ?case using set_inner_extends [of now q "\<lambda>k b. list_ex (\<lambda>x. brings x k b) race"] by simp
next
  case (3 shown ids success_at host base s)
  then show ?case by (auto intro: keeps_extends clear_older_keeps prod.collapse [symmetric])
next
  case (4 shown ids now host base until message b s)
  then show ?case by (auto intro: keeps_extends seed_keeps prod.collapse [symmetric])
next
  case (5 shown ids now host base hit s)
  then show ?case by (auto intro: keeps_extends restore_keeps prod.collapse [symmetric])
next
  case (9 shown ids x xs s)
  then show ?case using extends_trans [of "brings x" s _ "\<lambda>k b. list_ex (\<lambda>x. brings x k b) xs"] by simp
qed (simp_all add: keeps_extends clear_keeps forget_keeps restarted_extends)

end

interpretation honest_readings: brought_windows sound_window honest
proof
  show "sound_window w \<Longrightarrow> sound_window (readable_window w)" for w by simp
qed (rule set_origin)

interpretation any_readings: brought_windows "\<lambda>_. True" "\<lambda>_ _. True"
  by unfold_locales (use set_origin_any in auto)

section \<open>Every history\<close>

definition no_readings :: quotas where
  "no_readings = \<lparr>qs_table = [], qs_stale = [], qs_cache = [], qs_marks = [], qs_cleared = []\<rparr>"

lemma history_sound:
  assumes "list_all honest_op xs" "stored_window (performs shown ids xs no_readings) k b w"
  shows "sound_window w"
proof -
  have "\<not> stored_window no_readings k b v" for v by (simp add: stored_window_def stored_def no_readings_def)
  then show ?thesis using honest_readings.perform_extends(2) [OF assms(1), of no_readings shown ids] assms(2) unfolding extends_def by blast
qed

lemma performs_append: "performs shown ids (xs @ ys) s = performs shown ids ys (performs shown ids xs s)"
  by (induction xs arbitrary: s) simp_all

lemma no_new_reading:
  assumes "\<not> list_ex (\<lambda>x. brings x k b) xs" "stored_window (performs shown ids xs s) k b w"
  obtains v where "stored_window s k b v" "read_of v w"
proof -
  have "list_all (all_taken (\<lambda>_ _. True)) xs" by (simp add: list_all_iff)
  then show ?thesis
    using any_readings.perform_extends(2) [of xs s shown ids] assms that unfolding extends_def by blast
qed

end
