(* ===== verification/Quota_Marks.thy ===== *)
theory Quota_Marks
  imports Quota_Limits
begin

text \<open>
  Sequences of recalibrations and the marks they leave: how many there are, and how long the mark of a
  limit that a percentage lifted stands.
\<close>

datatype mark_op =
  Recalibrate string limit_hit quota bool time
| Forget_Mark string

fun mark_step :: "mark_op \<Rightarrow> grok_marks \<Rightarrow> grok_marks" where
  "mark_step (Recalibrate k hit fresh grok_pct now) marks = snd (recalibrate_for_key marks k hit fresh grok_pct now)"
| "mark_step (Forget_Mark k) marks = forget_grok_pct_clear k marks"

definition mark_steps :: "mark_op list \<Rightarrow> grok_marks \<Rightarrow> grok_marks" where
  "mark_steps xs marks = fold mark_step xs marks"

section \<open>The table of marks\<close>

definition marks_ok :: "grok_marks \<Rightarrow> bool" where
  "marks_ok marks \<longleftrightarrow> distinct (map fst marks) \<and> length marks \<le> GROK_PCT_CLEARS_MAX"

lemma update_known: "map_of t k \<noteq> None \<Longrightarrow> length (AList.update k v t) = length t"
  by (induction t) (auto split: if_splits)

lemma update_length: "length (AList.update k v t) \<le> Suc (length t)"
  by (induction t) auto

lemma delete_length: "length (AList.delete k t) \<le> length t"
  by (simp add: AList.delete_eq)

lemma marks_ok_delete [intro]: "marks_ok marks \<Longrightarrow> marks_ok (AList.delete k marks)"
  using delete_length [of k marks] by (auto simp: marks_ok_def intro: distinct_delete)

lemma marks_ok_known: "marks_ok marks \<Longrightarrow> map_of marks k \<noteq> None \<Longrightarrow> marks_ok (AList.update k m marks)"
  by (simp add: marks_ok_def update_known distinct_update)

lemma marks_ok_room:
  assumes "marks_ok marks" "grok_pct_clears_room marks now = (room, marks')"
  shows "marks_ok marks'" "room \<Longrightarrow> marks_ok (AList.update k m marks')"
proof -
  have f: "length (filter P marks) \<le> length marks" "distinct (map fst (filter P marks))" for P
    using assms(1) by (auto simp: marks_ok_def intro: distinct_map_filter)
  consider "marks' = marks" | "marks' = filter (\<lambda>(_, m). \<not> grok_pct_clear_expired m now) marks"
    using assms(2) by (auto simp: grok_pct_clears_room_def Let_def split: if_splits)
  then show "marks_ok marks'"
  proof cases
    case 2
    then show ?thesis using f assms(1) order.trans [OF f(1)] by (auto simp: marks_ok_def)
  qed (use assms(1) in simp)
  then show "marks_ok (AList.update k m marks')" if room
    using assms(2) that update_length [of k m marks']
    by (auto simp: grok_pct_clears_room_def Let_def marks_ok_def intro: distinct_update)
qed

lemma marks_ok_allowed:
  assumes "marks_ok marks" "grok_pct_clear_allowed marks k hit now = (yes, marks')"
  shows "marks_ok marks'"
proof -
  define m0 where "m0 = (case map_of marks k of None \<Rightarrow> marks | Some m \<Rightarrow> if grok_pct_clear_expired m now then AList.delete k marks else marks)"
  have ok: "marks_ok m0" using assms(1) by (auto simp: m0_def split: option.split)
  have "marks' = m0 \<or> (\<exists>m. map_of m0 k \<noteq> None \<and> marks' = AList.update k m m0) \<or> (\<exists>yes. grok_pct_clears_room m0 now = (yes, marks'))"
    using assms(2) unfolding grok_pct_clear_allowed_def m0_def [symmetric] Let_def by (auto split: option.splits if_splits)
  then show ?thesis using ok marks_ok_known marks_ok_room(1) by blast
qed

lemma marks_ok_note: "marks_ok marks \<Longrightarrow> marks_ok (note_grok_pct_clear marks k hit now)"
  by (auto simp: note_grok_pct_clear_def Let_def marks_ok_known dest: marks_ok_room split: option.split prod.split bool.split)

lemma marks_ok_step: "marks_ok marks \<Longrightarrow> marks_ok (mark_step x marks)"
proof (cases x)
  case (Recalibrate k hit fresh grok_pct now)
  assume ok: "marks_ok marks"
  obtain yes m where a: "grok_pct_clear_allowed marks k hit now = (yes, m)" by fastforce
  then show ?thesis
    using marks_ok_allowed [OF ok a] ok
    by (auto simp: Recalibrate recalibrate_for_key_def marks_ok_note split: bool.split)
qed (auto simp: forget_grok_pct_clear_def)

lemma marks_ok_steps: "marks_ok marks \<Longrightarrow> marks_ok (mark_steps xs marks)"
  by (induction xs arbitrary: marks) (simp_all add: mark_steps_def marks_ok_step)

lemma marks_ok_empty [simp]: "marks_ok []"
  by (simp add: marks_ok_def)

section \<open>A mark that stands\<close>

text \<open>The mark of \<open>k\<close> says: lifted at \<open>t\<close>, for that bucket, until then.\<close>

definition marked :: "string \<Rightarrow> time \<Rightarrow> string \<Rightarrow> time option \<Rightarrow> grok_marks \<Rightarrow> bool" where
  "marked k t b until marks \<longleftrightarrow>
     (case map_of marks k of None \<Rightarrow> False | Some m \<Rightarrow> gm_cleared_at m = t \<and> gm_bucket m = b \<and> gm_until m = until)"

lemma marked_iff:
  "marked k t b until marks \<longleftrightarrow> (\<exists>m. map_of marks k = Some m \<and> gm_cleared_at m = t \<and> gm_bucket m = b \<and> gm_until m = until)"
  by (simp add: marked_def split: option.split)

definition in_reach :: "time \<Rightarrow> string \<Rightarrow> time option \<Rightarrow> time \<Rightarrow> bool" where
  "in_reach t b until now \<longleftrightarrow>
     (case grok_bucket_len b of None \<Rightarrow> False | Some len \<Rightarrow> now - t < len) \<and> (case until of None \<Rightarrow> True | Some u \<Rightarrow> now < u)"

text \<open>A limit hit again: not before the lift, or at an instant nobody can read.\<close>

definition hit_again :: "time \<Rightarrow> limit_hit \<Rightarrow> bool" where
  "hit_again t hit \<longleftrightarrow> (case parse_utc (lh_at hit) of None \<Rightarrow> True | Some a \<Rightarrow> t \<le> a)"

fun rehit_op :: "string \<Rightarrow> time \<Rightarrow> string \<Rightarrow> time option \<Rightarrow> mark_op \<Rightarrow> bool" where
  "rehit_op k t b until (Recalibrate j hit fresh grok_pct now) \<longleftrightarrow> in_reach t b until now \<and> (if j = k then hit_again t hit else True)"
| "rehit_op k t b until (Forget_Mark j) \<longleftrightarrow> j \<noteq> k"

lemma marked_stands:
  assumes "marked k t b until marks" "in_reach t b until now"
  obtains m where "map_of marks k = Some m" "\<not> grok_pct_clear_expired m now" "gm_cleared_at m = t" "gm_bucket m = b" "gm_until m = until"
  using assms by (auto simp: marked_iff in_reach_def grok_pct_clear_expired_def split: option.splits)

lemma map_of_filter_key:
  "distinct (map fst t) \<Longrightarrow> map_of t k = Some m \<Longrightarrow> P m \<Longrightarrow> map_of (filter (\<lambda>(_, m). P m) t) k = Some m"
  by (induction t) (auto split: if_splits)

lemma room_marked:
  assumes "marks_ok marks" "marked k t b until marks" "in_reach t b until now" "grok_pct_clears_room marks now = (room, marks')"
  shows "marked k t b until marks'"
proof -
  obtain m where m: "map_of marks k = Some m" "\<not> grok_pct_clear_expired m now" "gm_cleared_at m = t" "gm_bucket m = b" "gm_until m = until"
    using marked_stands [OF assms(2,3)] .
  then have "map_of marks' k = Some m"
    using assms(1,4) map_of_filter_key [of marks k m "\<lambda>m. \<not> grok_pct_clear_expired m now"]
    by (auto simp: grok_pct_clears_room_def Let_def marks_ok_def)
  then show ?thesis using m by (simp add: marked_iff)
qed

lemma allowed_marked:
  assumes "marks_ok marks" "marked k t b until marks" "in_reach t b until now" "grok_pct_clear_allowed marks j hit now = (yes, marks')"
    and "j = k \<Longrightarrow> hit_again t hit"
  shows "marked k t b until marks'" "j = k \<Longrightarrow> \<not> yes"
proof -
  obtain m where m: "map_of marks k = Some m" "\<not> grok_pct_clear_expired m now" "gm_cleared_at m = t" "gm_bucket m = b" "gm_until m = until"
    using marked_stands [OF assms(2,3)] .
  define m0 where "m0 = (case map_of marks j of None \<Rightarrow> marks | Some m \<Rightarrow> if grok_pct_clear_expired m now then AList.delete j marks else marks)"
  have k0: "map_of m0 k = Some m" using m by (auto simp: m0_def delete_conv' split: option.split)
  have ok0: "marks_ok m0" using assms(1) by (auto simp: m0_def split: option.split)
  have marked0: "marked k t b until m0" using k0 m by (simp add: marked_iff)
  have eq: "grok_pct_clear_allowed marks j hit now =
      (case parse_utc (lh_at hit) of
        None \<Rightarrow> (False, m0)
      | Some a \<Rightarrow>
          (case map_of m0 j of
             Some m \<Rightarrow>
               if a \<ge> gm_cleared_at m then
                 (False, if gm_counted_at m = Some (lh_at hit) then m0
                         else AList.update j (m\<lparr>gm_rehits := gm_rehits m + 1, gm_counted_at := Some (lh_at hit)\<rparr>) m0)
               else (True, m0)
           | None \<Rightarrow> grok_pct_clears_room m0 now))"
    unfolding grok_pct_clear_allowed_def m0_def Let_def by (rule refl)
  show "\<not> yes" if "j = k"
    using assms(4) [unfolded eq] assms(5) [OF that] k0 m(3) that by (auto simp: hit_again_def split: option.splits if_splits)
  show "marked k t b until marks'"
  proof (cases "j = k")
    case True
    then show ?thesis using assms(4) [unfolded eq] assms(5) [OF True] k0 m marked0
      by (auto simp: hit_again_def marked_iff update_conv' split: option.splits if_splits)
  next
    case False
    then show ?thesis using assms(4) [unfolded eq] marked0 room_marked [OF ok0 marked0 assms(3)]
      by (auto simp: marked_iff update_conv' split: option.splits if_splits)
  qed
qed

lemma note_marked:
  assumes "marks_ok marks" "marked k t b until marks" "in_reach t b until now" "j \<noteq> k"
  shows "marked k t b until (note_grok_pct_clear marks j hit now)"
  using assms(2,4) room_marked [OF assms(1-3)]
  by (auto simp: note_grok_pct_clear_def Let_def marked_iff update_conv' split: option.splits prod.split bool.split)

lemma step_marked:
  assumes "marks_ok marks" "marked k t b until marks" "rehit_op k t b until x"
  shows "marked k t b until (mark_step x marks)"
proof (cases x)
  case (Recalibrate j hit fresh grok_pct now)
  obtain yes m where a: "grok_pct_clear_allowed marks j hit now = (yes, m)" by fastforce
  have r: "in_reach t b until now" "j = k \<Longrightarrow> hit_again t hit" using assms(3) by (auto simp: Recalibrate split: if_splits)
  have m: "marked k t b until m" "j = k \<Longrightarrow> \<not> yes" using allowed_marked [OF assms(1,2) r(1) a r(2)] by blast+
  have n: "j \<noteq> k \<Longrightarrow> marked k t b until (note_grok_pct_clear m j hit now)"
    using note_marked [OF marks_ok_allowed [OF assms(1) a] m(1) r(1)] .
  show ?thesis using a m n assms(2) by (auto simp: Recalibrate recalibrate_for_key_def split: bool.split)
next
  case (Forget_Mark j)
  then show ?thesis using assms(2,3) by (auto simp: forget_grok_pct_clear_def marked_iff delete_conv' split: option.splits)
qed

lemma steps_marked:
  "marks_ok marks \<Longrightarrow> marked k t b until marks \<Longrightarrow> list_all (rehit_op k t b until) xs \<Longrightarrow> marked k t b until (mark_steps xs marks)"
  by (induction xs arbitrary: marks) (simp_all add: mark_steps_def marks_ok_step step_marked)

text \<open>A percentage that lifts a limit leaves its mark.\<close>

lemma lift_marks:
  assumes "grok_pct_clear_allowed marks k hit t = (True, m1)" "lh_bucket hit = Some b"
  shows "marked k t b (Option.bind (lh_until hit) parse_utc) (note_grok_pct_clear m1 k hit t)"
proof -
  have "map_of m1 k \<noteq> None \<or> fst (grok_pct_clears_room m1 t)"
    using assms(1)
    by (auto simp: grok_pct_clear_allowed_def grok_pct_clears_room_def Let_def delete_conv' split: option.splits if_splits)
  then show ?thesis
    using assms(2) by (auto simp: note_grok_pct_clear_def Let_def marked_iff update_conv' split: option.split prod.split bool.split)
qed

lemma grok_clears_bucket: "grok_reading_clears_hit hit fresh now \<Longrightarrow> \<exists>b. lh_bucket hit = Some b"
  by (cases "lh_bucket hit") (auto simp: grok_reading_clears_hit_def bucket_window_def split: option.splits)

end
