(* ===== verification/Quota_Properties.thy ===== *)
theory Quota_Properties
  imports Quota_Steps Quota_Marks
begin

text \<open>
  The properties of the readings and limits, with witnesses on a small history of two accounts.
\<close>

section \<open>Readings to evaluate on\<close>

definition mk_window :: "rat \<Rightarrow> time option \<Rightarrow> window" where
  "mk_window used resets = \<lparr>wi_used = Fin used, wi_resets = map_option At resets, wi_observed = None\<rparr>"

definition mk_reading :: "string \<Rightarrow> time \<Rightarrow> window option \<Rightarrow> window option \<Rightarrow> quota" where
  "mk_reading source now five seven =
     \<lparr>qu_five_hour = five, qu_seven_day = seven, qu_fable = None, qu_credits = None, qu_hit = None, qu_plan = None,
      qu_updated_at = At now, qu_source = source, qu_account = None, qu_host = LOCAL_HOST\<rparr>"

definition took :: "time \<Rightarrow> quota \<Rightarrow> quota_op" where
  "took now q = Reading now True True [] [] LOCAL_HOST ''claude'' q"

section \<open>When an account is used up\<close>














lemmas eval_quota = took_def mk_reading_def mk_window_def set_inner_def quota_key_def LOCAL_HOST_def is_retired_agy_quota_key_def
  sanitize_percentages_def sane_window_def guarded_def written_def stamped_windows_def observed_by_def blank_stamp_def
  carried_windows_def carried_credits_def carried_hit_def carried_resets_def carried_reset_def already_past_def or_else_def settled_hit_def
  limit_hit_expired_def put_reading_def split_keys_def stale_split_keys_def persist_cache_def stamp_not_before_def restarted_def load_cache_def
  restored_row_def drop_unparseable_resets_def readable_window_def readable_stamp_def host_of_cache_key_def delete_cache_def
  no_readings_def List.map_filter_def window_of_def



section \<open>Lifting a limit by a percentage\<close>

text \<open>
  C34. A limit that a percentage lifted is not lifted by a percentage again for the length of its bucket (or
  until the end the limit named), when the CLI reports it again: whatever recalibrations happen in
  between, for this key and all others, the next one decides as if percentages were not allowed.
  There are never more than 256 marks, and making room for one never drops a mark that still counts.
\<close>

theorem lifted_once:
  assumes "grok_reading_clears_hit hit fresh t" "lh_bucket hit = Some b"
    and "fst (grok_pct_clear_allowed (mark_steps before []) k hit t)"
    and "list_all (rehit_op k t b (Option.bind (lh_until hit) parse_utc)) after"
    and "rehit_op k t b (Option.bind (lh_until hit) parse_utc) (Recalibrate k hit' fresh' grok_pct now)"
  shows "recalibrate_for_key (mark_steps before []) k hit fresh True t
      = (None, note_grok_pct_clear (snd (grok_pct_clear_allowed (mark_steps before []) k hit t)) k hit t)
    \<and> (let marks = mark_steps (before @ Recalibrate k hit fresh True t # after) []
       in fst (recalibrate_for_key marks k hit' fresh' grok_pct now) = recalibrate_limit_hit_at hit' fresh' now False
          \<and> length marks \<le> GROK_PCT_CLEARS_MAX)"
proof -
  let ?u = "Option.bind (lh_until hit) parse_utc"
  let ?m0 = "mark_steps before []"
  obtain m1 where a: "grok_pct_clear_allowed ?m0 k hit t = (True, m1)" using assms(3) by (metis prod.collapse)
  have first: "recalibrate_for_key ?m0 k hit fresh True t = (None, note_grok_pct_clear m1 k hit t)"
    using assms(1) a by (simp add: recalibrate_for_key_def)
  let ?m2 = "note_grok_pct_clear m1 k hit t"
  have ok2: "marks_ok ?m2" using marks_ok_note marks_ok_allowed [OF _ a] marks_ok_steps by simp
  let ?m = "mark_steps after ?m2"
  have eq: "mark_steps (before @ Recalibrate k hit fresh True t # after) [] = ?m" using first by (simp add: mark_steps_def)
  have ok: "marks_ok ?m" and marked: "marked k t b ?u ?m"
    using marks_ok_steps [OF ok2] steps_marked [OF ok2 lift_marks [OF a assms(2)] assms(4)] by simp_all
  obtain yes m' where a': "grok_pct_clear_allowed ?m k hit' now = (yes, m')" by fastforce
  have r: "in_reach t b ?u now" "hit_again t hit'" using assms(5) by simp_all
  have "\<not> yes" using allowed_marked(2) [OF ok marked r(1) a'] r(2) by blast
  then have "fst (recalibrate_for_key ?m k hit' fresh' grok_pct now) = recalibrate_limit_hit_at hit' fresh' now False"
    using a' by (simp add: recalibrate_for_key_def)
  then show ?thesis using first a ok by (simp add: eq marks_ok_def)
qed

definition grok_hit :: "time \<Rightarrow> limit_hit" where
  "grok_hit t = \<lparr>lh_message = ''limit'', lh_until = None, lh_at = At t, lh_bucket = Some ''five_hour''\<rparr>"

definition grok_reading :: "time \<Rightarrow> quota" where
  "grok_reading t = mk_reading ''grok-usage'' t (Some (mk_window 40 None)) None"

theorem lifted_once_witness:
  "fst (recalibrate_for_key (mark_steps [Recalibrate ''grok'' (grok_hit 10) (grok_reading 20) True 20] []) ''grok'' (grok_hit 30) (grok_reading 40) True 40)
     = Some (grok_hit 30)"
proof -
  have c: "grok_reading_clears_hit (grok_hit 10) (grok_reading 20) 20"
    by (simp add: grok_reading_clears_hit_def grok_hit_def grok_reading_def mk_reading_def mk_window_def reading_is_stale_def STALE_AFTER_def
        bucket_window_def critical_def remaining_pct_def pct_below_def CRITICAL_REMAINING_PCT_def)
  have a: "fst (grok_pct_clear_allowed (mark_steps [] []) ''grok'' (grok_hit 10) 20)"
    by (simp add: grok_pct_clear_allowed_def mark_steps_def grok_hit_def grok_pct_clears_room_def GROK_PCT_CLEARS_MAX_def)
  have r: "rehit_op ''grok'' 20 ''five_hour'' (Option.bind (lh_until (grok_hit 10)) parse_utc)
      (Recalibrate ''grok'' (grok_hit 30) (grok_reading 40) True 40)"
    by (simp add: in_reach_def hit_again_def grok_hit_def grok_bucket_len_def FIVE_HOUR_LEN_def HOUR_def)
  have "recalibrate_limit_hit_at (grok_hit 30) (grok_reading 40) 40 False = Some (grok_hit 30)"
    by (simp add: recalibrate_limit_hit_at_def grok_hit_def grok_reading_def mk_reading_def mk_window_def codex_reading_after_hit_def
        timing_window_def resets_of_def)
  then show ?thesis
    using lifted_once [OF c _ a, of "''five_hour''" "[]" "grok_hit 30" "grok_reading 40" True 40] r
    by (simp add: grok_hit_def Let_def)
qed

section \<open>Status lines\<close>

lemma statusline_window:
  assumes "guard_statusline_windows p (sanitize_percentages (q\<lparr>qu_host := host\<rparr>)) now = Some x"
    and "qu_five_hour p = Some old" "wi_resets old = Some (At r)" "now < r" "wi_used old = Fin u"
    and "case qu_five_hour q of None \<Rightarrow> True | Some n \<Rightarrow> resets_of (Some n) \<noteq> None"
  shows "\<exists>n r' u'. qu_five_hour x = Some n \<and> wi_resets n = Some (At r') \<and> wi_used n = Fin u'
    \<and> (r + SAME_WINDOW_SLACK < r' \<or> same_window r r' \<and> u \<le> u')"
proof -
  let ?fresh = "sanitize_percentages (q\<lparr>qu_host := host\<rparr>)"
  let ?c = "statusline_freshness p ?fresh now"
  have c: "?c \<noteq> Some LT" and five: "guard_window ?c now (qu_five_hour p) (qu_five_hour ?fresh) = Some (qu_five_hour x)"
    using assms(1) by (auto simp: guard_statusline_windows_def Let_def split: if_splits option.splits)
  have "qu_five_hour ?fresh \<noteq> None" using c assms(2-4) by (auto simp: statusline_freshness_def Let_def split: option.splits if_splits)
  then obtain f where f: "qu_five_hour ?fresh = Some f" by blast
  then obtain g where g: "qu_five_hour q = Some g" "sane_window g = Some f" by (auto simp: sanitize_percentages_def bind_eq_Some_conv)
  obtain r' where r': "wi_resets f = Some (At r')" using g assms(6) sane_fields [OF g(2)] by (auto simp: resets_of_def bind_eq_Some_conv)
  obtain v where v: "wi_used f = Fin v" using g(2) by (auto simp: sane_window_def split: pct.splits if_splits)
  obtain y where y: "qu_five_hour x = y" by simp
  show ?thesis
    unfolding y using c [unfolded statusline_freshness_def f] five [unfolded statusline_freshness_def y f] assms(2-5) r' v
    by (auto simp: guard_window_def Let_def resets_of_def pct_cmp_def pct_max_def same_window_def SAME_WINDOW_SLACK_def
        split: if_splits)
qed

text \<open>
  C35. Several sessions of one account print a status line, and an idle one repeats old numbers. A status line
  never takes a running five-hour window back: as long as the reset of the stored window lies ahead and the
  reset of the incoming one can be read, the window stored afterwards is one with a later reset, or the
  same window (resets at most five minutes apart) with at least as much used.
\<close>

theorem statusline_never_back:
  assumes "qu_source q = ''statusline''" "\<not> is_retired_agy_quota_key (quota_key host base)"
    and "map_of (qs_table s) (quota_key host base) = Some p"
    and "qu_five_hour p = Some old" "wi_resets old = Some (At r)" "now < r" "wi_used old = Fin u"
    and "case qu_five_hour q of None \<Rightarrow> True | Some n \<Rightarrow> resets_of (Some n) \<noteq> None"
  shows "\<exists>q' n r' u'. map_of (qs_table (snd (set_inner shown ids current still seen id host base q now s))) (quota_key host base) = Some q'
    \<and> qu_five_hour q' = Some n \<and> wi_resets n = Some (At r') \<and> wi_used n = Fin u'
    \<and> (r + SAME_WINDOW_SLACK < r' \<or> same_window r r' \<and> u \<le> u')"
proof -
  let ?k = "quota_key host base"
  let ?fresh = "sanitize_percentages (q\<lparr>qu_host := host\<rparr>)"
  let ?s' = "snd (set_inner shown ids current still seen id host base q now s)"
  have same: "same_window r r" by (simp add: same_window_def SAME_WINDOW_SLACK_def)
  consider "?s' = s" | x where "current" "guarded (Some p) ?fresh now = Some x"
    using assms(2,3) by (cases current; cases "guarded (Some p) ?fresh now") (auto simp: set_inner_def Let_def)
  then show ?thesis
  proof cases
    case 1
    then show ?thesis using assms(3-5,7) same by auto
  next
    case (2 x)
    have g: "guard_statusline_windows p ?fresh now = Some x" using 2 assms(1) by (simp add: guarded_def sanitize_percentages_def)
    obtain n r' u' where n: "qu_five_hour x = Some n" "wi_resets n = Some (At r')" "wi_used n = Fin u'"
        "r + SAME_WINDOW_SLACK < r' \<or> same_window r r' \<and> u \<le> u'"
      using statusline_window [OF g] assms(4-8) by metis
    obtain q' m where w: "written ?k (Some p) ?fresh x now (qs_marks s) = (q', m)" by fastforce
    have tab: "map_of (qs_table ?s') ?k = Some q'"
      using 2 assms(2,3) w by (simp add: set_inner_def Let_def put_reading_def recached_def update_conv')
    obtain n' where "qu_five_hour q' = Some n'" "wi_resets n' = wi_resets n" "wi_used n' = wi_used n"
      using written_windows [OF w, of Five_Hour] n(1,2)
      by (auto simp: window_of_def carried_reset_def observed_by_def assms(4) split: if_splits)
    then show ?thesis using tab n by auto
  qed
qed

definition busy_row :: quotas where
  "busy_row = no_readings\<lparr>qs_table := [(''claude'', mk_reading ''statusline'' 100 (Some (mk_window 40 (Some 9000000))) None)]\<rparr>"

definition idle_line :: quota where
  "idle_line = mk_reading ''statusline'' 200 (Some (mk_window 20 (Some 9000000))) None"

theorem statusline_never_back_witness:
  "\<exists>q' n r' u'. map_of (qs_table (snd (set_inner (\<lambda>_. []) (\<lambda>_. None) True True [] id LOCAL_HOST ''claude'' idle_line 200 busy_row))) ''claude'' = Some q'
    \<and> qu_five_hour q' = Some n \<and> wi_resets n = Some (At r') \<and> wi_used n = Fin u'
    \<and> (9000000 + SAME_WINDOW_SLACK < r' \<or> same_window 9000000 r' \<and> 40 \<le> u')"
proof -
  have k: "quota_key LOCAL_HOST ''claude'' = ''claude''" by (simp add: quota_key_def)
  show ?thesis
    using statusline_never_back [of idle_line LOCAL_HOST "''claude''" busy_row "mk_reading ''statusline'' 100 (Some (mk_window 40 (Some 9000000))) None"
        "mk_window 40 (Some 9000000)" 9000000 200 40 "\<lambda>_. []" "\<lambda>_. None" True True "[]"]
    unfolding k
    by (simp add: busy_row_def idle_line_def mk_reading_def mk_window_def is_retired_agy_quota_key_def resets_of_def)
qed

section \<open>Limits put back after a restart\<close>

definition limit_end :: "limit_hit \<Rightarrow> time option" where
  "limit_end h = Option.bind (lh_until h) parse_utc"

definition lasts :: "limit_hit \<Rightarrow> limit_hit \<Rightarrow> bool" where
  "lasts h h' \<longleftrightarrow> (case (limit_end h, limit_end h') of (_, None) \<Rightarrow> True | (None, Some _) \<Rightarrow> False | (Some x, Some y) \<Rightarrow> x \<le> y)"

definition running_at :: "limit_hit \<Rightarrow> time \<Rightarrow> bool" where
  "running_at h now \<longleftrightarrow> (case limit_end h of None \<Rightarrow> True | Some x \<Rightarrow> now < x)"

fun backfill_op :: "limit_hit \<Rightarrow> quota_op \<Rightarrow> bool" where
  "backfill_op h (Seed now host base until message b) \<longleftrightarrow> running_at h now"
| "backfill_op h (Restore now host base hit) \<longleftrightarrow> running_at h now"
| "backfill_op h _ \<longleftrightarrow> False"

definition limit_of :: "quotas \<Rightarrow> string \<Rightarrow> limit_hit option" where
  "limit_of s k = Option.bind (map_of (qs_table s) k) qu_hit"

lemma lasts_refl [simp]: "lasts h h"
  by (simp add: lasts_def split: option.split)

lemma lasts_trans: "lasts h i \<Longrightarrow> lasts i j \<Longrightarrow> lasts h j"
  by (auto simp: lasts_def split: option.splits)

lemma lasts_running: "lasts h h' \<Longrightarrow> running_at h now \<Longrightarrow> running_at h' now"
  by (auto simp: lasts_def running_at_def split: option.splits)

lemma running_not_expired: "running_at h now \<longleftrightarrow> \<not> limit_hit_expired (Some h) now"
  by (auto simp: running_at_def limit_hit_expired_def limit_end_def split: option.splits stamp.splits)

lemma limit_of_with_hit: "limit_of (with_hit shown k host source hit now s) j = (if j = k then Some hit else limit_of s j)"
  by (simp add: limit_of_def with_hit_def written_back_def Let_def update_conv')

lemma limit_of_marks [simp]: "limit_of (s\<lparr>qs_marks := m\<rparr>) k = limit_of s k"
  by (simp add: limit_of_def)

lemma live_of: "limit_of s k = Some h \<Longrightarrow> running_at h now \<Longrightarrow> live_hit k now s = Some h"
  by (simp add: live_hit_def limit_of_def running_not_expired)

lemma seed_lasts:
  assumes "limit_of s k = Some h" "running_at h now"
  shows "\<exists>h'. limit_of (snd (seed_limit_hit shown host base until message b now s)) k = Some h' \<and> lasts h h'"
  using assms live_of [OF assms]
  by (cases "quota_key host base = k")
     (auto simp: seed_limit_hit_def Let_def limit_of_with_hit lasts_def limit_end_def split: option.splits)

lemma restore_lasts:
  assumes "limit_of s k = Some h" "running_at h now"
  shows "\<exists>h'. limit_of (snd (restore_limit_hit shown host base hit now s)) k = Some h' \<and> lasts h h'"
proof (cases "quota_key host base = k")
  case False
  then show ?thesis using assms
    by (auto simp: restore_limit_hit_def Let_def limit_of_with_hit split: option.splits prod.splits)
next
  case True
  then show ?thesis using assms live_of [OF assms]
    by (auto simp: restore_limit_hit_def Let_def limit_of_with_hit lasts_def limit_end_def split: option.splits prod.splits)
qed

text \<open>
  After a restart the limits are put back from what survived it: from parked assignments (seeded) and from
  held prompts (restored), in any order and any number of times, for any accounts. As long as a limit of an
  account has not ended, no such call takes it away or makes it end earlier; a limit without an end stays.
\<close>

theorem backfill_only_lengthens:
  assumes "limit_of s k = Some h" "list_all (backfill_op h) xs"
  shows "\<exists>h'. limit_of (performs shown ids xs s) k = Some h' \<and> lasts h h'"
  using assms
proof (induction xs arbitrary: s h)
  case (Cons x xs)
  have "\<exists>i. limit_of (perform shown ids x s) k = Some i \<and> lasts h i"
    using Cons.prems seed_lasts restore_lasts by (cases x) simp_all
  then obtain i where i: "limit_of (perform shown ids x s) k = Some i" "lasts h i" by blast
  have "list_all (backfill_op i) xs"
    using Cons.prems(2) lasts_running [OF i(2)] by (auto simp: list_all_iff elim!: backfill_op.elims)
  then obtain h' where "limit_of (performs shown ids xs (perform shown ids x s)) k = Some h'" "lasts i h'" using Cons.IH [OF i(1)] by blast
  then show ?case using lasts_trans [OF i(2)] by auto
qed simp

definition codex_row :: quotas where
  "codex_row = no_readings\<lparr>qs_table := [(''codex'', mk_reading ''codex-app-server'' 100 (Some (mk_window 50 (Some 20000000))) None)]\<rparr>"

definition long_hit :: limit_hit where
  "long_hit = \<lparr>lh_message = ''limit'', lh_until = Some (At 10000), lh_at = At 500, lh_bucket = None\<rparr>"

theorem backfill_only_lengthens_witness:
  "\<exists>h'. limit_of (performs (\<lambda>_. []) (\<lambda>_. None)
        [Restore 1000 LOCAL_HOST ''codex'' long_hit, Seed 1001 LOCAL_HOST ''codex'' (At 2000) ''parked'' None] codex_row) ''codex'' = Some h'
      \<and> limit_end h' = Some 10000"
proof -
  let ?one = "perform (\<lambda>_. []) (\<lambda>_. None) (Restore 1000 LOCAL_HOST ''codex'' long_hit) codex_row"
  have "limit_of ?one ''codex'' = Some long_hit" by code_simp
  moreover have "list_all (backfill_op long_hit) [Seed 1001 LOCAL_HOST ''codex'' (At 2000) ''parked'' None]" by code_simp
  ultimately have "\<exists>h'. limit_of (performs (\<lambda>_. []) (\<lambda>_. None) [Seed 1001 LOCAL_HOST ''codex'' (At 2000) ''parked'' None] ?one) ''codex'' = Some h'
      \<and> lasts long_hit h'"
    by (rule backfill_only_lengthens)
  moreover have "limit_of (performs (\<lambda>_. []) (\<lambda>_. None) [Seed 1001 LOCAL_HOST ''codex'' (At 2000) ''parked'' None] ?one) ''codex'' = Some long_hit"
    by code_simp
  ultimately show ?thesis by (simp add: long_hit_def limit_end_def)
qed

section \<open>Two corners\<close>

text \<open>
  Seeding stamps the whole reading with the present, so a later restore takes the old percentages of the row
  for newer than the limit it brings and drops it: in the other order the longer limit stays.
\<close>

lemma seeding_hides_longer_limit:
  "map_option limit_end (limit_of (performs (\<lambda>_. []) (\<lambda>_. None)
      [Seed 1000 LOCAL_HOST ''codex'' (At 2000) ''parked'' None, Restore 1001 LOCAL_HOST ''codex'' long_hit] codex_row) ''codex'') = Some (Some 2000)"
  by code_simp

text \<open>
  A cached window without an observation time ages by the stamp of the whole reading, and a reading of another
  bucket renews that stamp: six hours later the full five-hour window of the old row still counts.
\<close>

definition legacy_row :: quotas where
  "legacy_row = no_readings\<lparr>qs_table := [(''claude'', mk_reading ''claude-usage'' 0 (Some (mk_window 99 None)) None)]\<rparr>"

lemma legacy_window_renewed:
  "map_option (\<lambda>q. exhausted q Five_Hour (6 * HOUR)) (map_of (qs_table (performs (\<lambda>_. []) (\<lambda>_. None)
      [took (6 * HOUR) (mk_reading ''claude-usage'' (6 * HOUR) None (Some (mk_window 10 None)))] legacy_row)) ''claude'') = Some True"
  by code_simp

end
