(* ===== verification/Manager.thy ===== *)
theory Manager
  imports Quota_Windows Assignment_Store
begin

text \<open>
  The row of the supervisor and what moves it: the choice between its two models by quota
  (\<open>policy.rs\<close>, \<open>apply_quota_policy\<close> of \<open>controller.rs\<close>, \<open>switch_candidate\<close> of
  \<open>runners/supervisor/runtime.rs\<close>), starting and stopping (\<open>supervisor/mod.rs\<close>) and the statements of
  \<open>store.rs\<close>. Texts for people (\<open>status_detail\<close>, reasons) are left out; what the terminal,
  config.toml and the reads answer are arguments.
\<close>

section \<open>The row\<close>

record supervisor =
  su_bot :: "ident option"
  su_effort :: string
  su_active_model :: string
  su_generation :: int
  su_status :: string
  su_tries :: int
  su_cooldown :: "stamp option"
  su_quota_reset :: "stamp option"
  su_desired :: int
  su_attempts :: int
  su_next_at :: "stamp option"
  su_gave_up_at :: "time option"
  su_last_error :: "string option"

text \<open>\<open>mg_config\<close>: model and effort of the supervisor's bot in config.toml, once a switch wrote them.\<close>

record manager =
  mg_row :: "supervisor option"
  mg_config :: "(string \<times> string) option"
  mg_cache :: "(string \<times> (stamp \<times> time)) list"
  mg_inbox :: db

definition wants_running :: "supervisor \<Rightarrow> bool" where
  "wants_running s \<longleftrightarrow> su_desired s \<noteq> 0"

definition default_row :: supervisor where
  "default_row =
     \<lparr>su_bot = None, su_effort = ''low'', su_active_model = ''fable'', su_generation = 0, su_status = '''', su_tries = 0,
      su_cooldown = None, su_quota_reset = None, su_desired = 0, su_attempts = 0, su_next_at = None, su_gave_up_at = None,
      su_last_error = None\<rparr>"

definition get_or_init :: "manager \<Rightarrow> supervisor \<times> manager" where
  "get_or_init m = (case mg_row m of Some s \<Rightarrow> (s, m) | None \<Rightarrow> (default_row, m\<lparr>mg_row := Some default_row\<rparr>))"

definition upd_sup :: "(supervisor \<Rightarrow> supervisor) \<Rightarrow> manager \<Rightarrow> manager" where
  "upd_sup f m = m\<lparr>mg_row := map_option f (mg_row m)\<rparr>"

definition set_env :: "ident \<Rightarrow> manager \<Rightarrow> manager" where
  "set_env b = upd_sup (\<lambda>s. s\<lparr>su_bot := Some b\<rparr>)"

definition set_status :: "string \<Rightarrow> manager \<Rightarrow> manager" where
  "set_status st = upd_sup (\<lambda>s. s\<lparr>su_status := st\<rparr>)"

text \<open>\<open>False\<close>: no row was there.\<close>

definition set_desired_running :: "bool \<Rightarrow> manager \<Rightarrow> bool \<times> manager" where
  "set_desired_running wanted m =
     (mg_row m \<noteq> None,
      upd_sup (\<lambda>s. s\<lparr>su_desired := (if wanted then 1 else 0), su_attempts := 0, su_next_at := None, su_gave_up_at := None,
        su_last_error := None\<rparr>) m)"

definition set_watchdog :: "int \<Rightarrow> stamp option \<Rightarrow> manager \<Rightarrow> manager" where
  "set_watchdog attempts next_at =
     upd_sup (\<lambda>s. s\<lparr>su_attempts := attempts, su_next_at := next_at,
       su_gave_up_at := (if attempts = 0 then None else su_gave_up_at s),
       su_last_error := (if attempts = 0 then None else su_last_error s)\<rparr>)"

definition mark_watchdog_gave_up :: "string \<Rightarrow> time \<Rightarrow> manager \<Rightarrow> manager" where
  "mark_watchdog_gave_up why now =
     upd_sup (\<lambda>s. if su_gave_up_at s = None then s\<lparr>su_gave_up_at := Some now, su_last_error := Some why\<rparr> else s)"

definition set_active_model :: "string \<Rightarrow> stamp option \<Rightarrow> manager \<Rightarrow> manager" where
  "set_active_model model cooldown_until =
     upd_sup (\<lambda>s. s\<lparr>su_active_model := model, su_generation := su_generation s + 1, su_tries := su_tries s + 1,
       su_cooldown := cooldown_until\<rparr>)"

definition bump_generation :: "manager \<Rightarrow> manager" where
  "bump_generation = upd_sup (\<lambda>s. s\<lparr>su_generation := su_generation s + 1\<rparr>)"

definition clear_fallback_budget :: "manager \<Rightarrow> manager" where
  "clear_fallback_budget = upd_sup (\<lambda>s. s\<lparr>su_tries := 0, su_cooldown := None\<rparr>)"

definition set_quota_reset :: "stamp option \<Rightarrow> manager \<Rightarrow> manager" where
  "set_quota_reset r = upd_sup (\<lambda>s. s\<lparr>su_quota_reset := r\<rparr>)"

section \<open>Liveness and instants\<close>

definition manager_liveness :: "ident \<Rightarrow> db \<Rightarrow> string" where
  "manager_liveness b d =
     (case active_run d b of
        None \<Rightarrow> ''stopped''
      | Some (rid, r) \<Rightarrow>
          if r_state r = ''starting'' then ''starting''
          else if r_state r \<noteq> ''running'' then ''stopped''
          else if r_agent_status r = ''working'' \<or> r_agent_status r = ''blocked'' then ''busy''
          else if in_flight_turn d rid \<noteq> None then ''busy'' else ''idle'')"

definition past :: "stamp \<Rightarrow> time \<Rightarrow> bool" where
  "past s now \<longleftrightarrow> (case parse_utc s of Some t \<Rightarrow> t \<le> now | None \<Rightarrow> True)"

definition text_of :: "(time \<Rightarrow> string) \<Rightarrow> stamp \<Rightarrow> string" where
  "text_of shown s = (case s of At t \<Rightarrow> shown t | Text x \<Rightarrow> x)"

definition cmp_ts :: "(time \<Rightarrow> string) \<Rightarrow> stamp \<Rightarrow> stamp \<Rightarrow> cmp" where
  "cmp_ts shown a b =
     (case (a, b) of
        (At x, At y) \<Rightarrow> if x < y then LT else if x = y then EQ else GT
      | _ \<Rightarrow> if text_of shown a < text_of shown b then LT else if text_of shown a = text_of shown b then EQ else GT)"

definition same_instant :: "(time \<Rightarrow> string) \<Rightarrow> stamp option \<Rightarrow> stamp option \<Rightarrow> bool" where
  "same_instant shown a b \<longleftrightarrow>
     (case (a, b) of (None, None) \<Rightarrow> True | (Some x, Some y) \<Rightarrow> cmp_ts shown x y = EQ | _ \<Rightarrow> False)"

text \<open>\<open>min_by\<close>: of equal elements the first.\<close>

definition earliest :: "(time \<Rightarrow> string) \<Rightarrow> stamp list \<Rightarrow> stamp option" where
  "earliest shown xs = (case xs of [] \<Rightarrow> None | x # ys \<Rightarrow> Some (foldl (\<lambda>a b. if cmp_ts shown a b = GT then b else a) x ys))"

section \<open>The policy\<close>

definition FABLE_MIN_REMAINING_PCT :: rat where
  "FABLE_MIN_REMAINING_PCT = 5"

definition FABLE_RETURN_REMAINING_PCT :: rat where
  "FABLE_RETURN_REMAINING_PCT = 20"

datatype decision =
  Keep
| Wait_Quota "stamp option"
| Resume
| Switch_To string "stamp option"
| Defer string

definition usable_fable :: "quota \<Rightarrow> time \<Rightarrow> window option" where
  "usable_fable q now = usable_window q Fable now"

definition effective_remaining :: "window \<Rightarrow> time \<Rightarrow> pct" where
  "effective_remaining w now = (if reset_passed w now then Fin 100 else remaining_pct (wi_used w))"

definition cooldown_over :: "supervisor \<Rightarrow> time \<Rightarrow> bool" where
  "cooldown_over s now \<longleftrightarrow> (case su_cooldown s of None \<Rightarrow> True | Some t \<Rightarrow> past t now)"

definition critical_shared :: "quota \<Rightarrow> time \<Rightarrow> window list" where
  "critical_shared q now =
     List.map_filter (\<lambda>b. usable_window q b now) (filter (\<lambda>b. exhausted q b now) [Five_Hour, Seven_Day])"

text \<open>The last part of \<open>decide\<close>: no shared window is used up, and the supervisor is not parked.\<close>

definition candidate_decision :: "supervisor \<Rightarrow> quota \<Rightarrow> string \<Rightarrow> time \<Rightarrow> decision" where
  "candidate_decision s q liveness now =
     (if su_active_model s \<noteq> ''fable'' \<and> su_active_model s \<noteq> ''opus'' then Keep
      else
        (let idle = (liveness = ''idle'' \<or> liveness = ''stopped'') in
         case usable_fable q now of
           None \<Rightarrow> Keep
         | Some w \<Rightarrow>
             if su_active_model s = ''fable'' then
               (if \<not> pct_below (effective_remaining w now) FABLE_MIN_REMAINING_PCT then Keep
                else if \<not> idle then Defer ''opus'' else Switch_To ''opus'' (wi_resets w))
             else
               (if pct_below (effective_remaining w now) FABLE_RETURN_REMAINING_PCT \<or> \<not> cooldown_over s now then Keep
                else if \<not> idle then Defer ''fable'' else Switch_To ''fable'' None)))"

definition policy_decide :: "(time \<Rightarrow> string) \<Rightarrow> supervisor \<Rightarrow> quota option \<Rightarrow> string \<Rightarrow> time \<Rightarrow> decision" where
  "policy_decide shown s q liveness now =
     (if su_bot s = None then Keep
      else case q of
        None \<Rightarrow>
          if su_status s = ''waiting_quota'' \<and> (case su_quota_reset s of None \<Rightarrow> False | Some t \<Rightarrow> past t now) then Resume else Keep
      | Some q \<Rightarrow>
          (let crit = critical_shared q now in
           if crit \<noteq> [] then
             (let reset_at = earliest shown (List.map_filter wi_resets crit) in
              if su_status s = ''waiting_quota'' \<and> same_instant shown (su_quota_reset s) reset_at then Keep else Wait_Quota reset_at)
           else if su_status s = ''waiting_quota'' then
             (let budget_spent = (su_tries s \<ge> 1 \<and> \<not> cooldown_over s now);
                  passed = (case su_quota_reset s of None \<Rightarrow> True | Some t \<Rightarrow> past t now)
              in if budget_spent \<and> \<not> passed then Keep else Resume)
           else candidate_decision s q liveness now))"

section \<open>Starting the supervisor\<close>

definition manager_bot :: "db \<Rightarrow> supervisor \<Rightarrow> ident option" where
  "manager_bot d s =
     (case su_bot s of
        None \<Rightarrow> None
      | Some b \<Rightarrow> (case map_of (bots d) b of None \<Rightarrow> None | Some r \<Rightarrow> if b_deleted_at r = None then Some b else None))"

datatype start_error = Not_Set_Up | Run_Stopping | Launch_Failed

text \<open>
  \<open>d\<close>: the bots and runs at that moment; \<open>launch\<close>: whether \<open>start_bot\<close> succeeds. The greeting, the
  reconciliation and the controller task that follow are left out.
\<close>

definition start_manager :: "db \<Rightarrow> bool \<Rightarrow> manager \<Rightarrow> (start_error + unit) \<times> manager" where
  "start_manager d launch m0 =
     (let (s, m) = get_or_init m0 in
      case manager_bot d s of
        None \<Rightarrow> (Inl Not_Set_Up, m)
      | Some b \<Rightarrow>
          (let up = (let m1 = set_status '''' m in
                     (Inr (), if su_generation (fst (get_or_init m1)) = 0 then bump_generation m1 else m1))
           in case active_run d b of
                None \<Rightarrow> if launch then up else (Inl Launch_Failed, m)
              | Some (rid, r) \<Rightarrow> if r_state r = ''stopping'' then (Inl Run_Stopping, m) else up))"

section \<open>Switching the model\<close>

definition MAX_AUTO_SWITCHES :: int where
  "MAX_AUTO_SWITCHES = 1"

definition SWITCH_COOLDOWN_SECS :: time where
  "SWITCH_COOLDOWN_SECS = 30 * 60"

definition CANDIDATES :: "string list" where
  "CANDIDATES = [''fable'', ''opus'', ''sonnet'']"

definition candidate :: "string \<Rightarrow> string" where
  "candidate model = (case List.find (\<lambda>c. c = model) CANDIDATES of Some c \<Rightarrow> c | None \<Rightarrow> ''fable'')"

text \<open>\<open>canonical_model("claude", _)\<close>; the other kinds play no part here.\<close>

definition canonical_claude_model :: "string \<Rightarrow> string" where
  "canonical_claude_model model = (if model = ''opus'' then ''claude-opus-5-5'' else model)"

definition model_arg :: "string \<Rightarrow> string" where
  "model_arg c = canonical_claude_model (candidate c)"

definition other_candidate :: "string \<Rightarrow> string" where
  "other_candidate c = (if c = ''fable'' then ''opus'' else ''fable'')"

definition iso_in :: "time \<Rightarrow> time \<Rightarrow> stamp" where
  "iso_in secs now = At (now + secs * 1000)"

text \<open>The soonest reset the reading names.\<close>

definition quota_reset_at :: "(time \<Rightarrow> string) \<Rightarrow> quota option \<Rightarrow> stamp option" where
  "quota_reset_at shown q =
     (case q of None \<Rightarrow> None
      | Some q \<Rightarrow> earliest shown (List.map_filter (\<lambda>w. Option.bind w wi_resets) [qu_five_hour q, qu_seven_day q, qu_fable q]))"

datatype switch_error = Not_Configured | Mid_Turn string | Unreadable_Liveness | Config_Unwritten | Row_Unwritten | Unknown_Model

text \<open>
  What the call finds: its clock, the liveness it reads and reads again before a restart (\<open>None\<close>: cannot be
  read), whether config.toml could be written, whether the running session took the model, what a
  restart meets, and which writes to the row succeed: clearing the budget, recording the switch, the reset of
  the quota and the status. The code ignores a failure of all but the second.
\<close>

record switch_env =
  sw_now :: time
  sw_live :: "string option"
  sw_config_ok :: bool
  sw_applied :: bool
  sw_again :: "string option"
  sw_world :: db
  sw_launch :: bool
  sw_clear_ok :: bool
  sw_record_ok :: bool
  sw_reset_ok :: bool
  sw_status_ok :: bool

definition attempted_write :: "bool \<Rightarrow> (manager \<Rightarrow> manager) \<Rightarrow> manager \<Rightarrow> manager" where
  "attempted_write written f m = (if written then f m else m)"

text \<open>From the writing of config.toml on: when the row cannot be written, the session and config.toml have moved already.\<close>

definition switch_now :: "switch_env \<Rightarrow> string \<Rightarrow> string \<Rightarrow> stamp option \<Rightarrow> string \<Rightarrow> manager \<Rightarrow> (switch_error + bool) \<times> manager" where
  "switch_now e live next reset_at effort m =
     (let m3 = m\<lparr>mg_config := Some (model_arg next, effort)\<rparr>;
          applied = (live = ''idle'' \<and> sw_applied e)
      in if \<not> sw_record_ok e then (Inl Row_Unwritten, m3)
         else
           (let m4 = attempted_write (sw_reset_ok e) (set_quota_reset reset_at)
                       (set_active_model next (Some (iso_in SWITCH_COOLDOWN_SECS (sw_now e))) m3);
                (res, m5) = (if \<not> applied \<and> live = ''idle'' \<and> sw_again e = Some ''idle''
                             then start_manager (sw_world e) (sw_launch e) m4 else (Inl Launch_Failed, m4))
            in (Inr True, if res = Inr () then m5 else attempted_write (sw_status_ok e) (set_status '''') m5)))"

definition switch_candidate ::
  "(time \<Rightarrow> string) \<Rightarrow> switch_env \<Rightarrow> quota option \<Rightarrow> string \<Rightarrow> stamp option \<Rightarrow> manager \<Rightarrow> (switch_error + bool) \<times> manager" where
  "switch_candidate shown e q next reset_at m0 =
     (let (s, m) = get_or_init m0 in
      if su_bot s = None then (Inl Not_Configured, m)
      else if su_active_model s = next then (Inr False, m)
      else case sw_live e of
        None \<Rightarrow> (Inl Unreadable_Liveness, m)
      | Some live \<Rightarrow>
          if live \<noteq> ''idle'' \<and> live \<noteq> ''stopped'' then (Inl (Mid_Turn live), m)
          else
            (let m1 = (if (case su_cooldown s of None \<Rightarrow> False | Some t \<Rightarrow> past t (sw_now e))
                       then attempted_write (sw_clear_ok e) clear_fallback_budget m else m);
                 (s1, m2) = get_or_init m1
             in if su_tries s1 \<ge> MAX_AUTO_SWITCHES \<and> (case su_cooldown s1 of None \<Rightarrow> False | Some t \<Rightarrow> \<not> past t (sw_now e))
                then (Inr False, attempted_write (sw_status_ok e) (set_status ''waiting_quota'')
                        (attempted_write (sw_reset_ok e) (set_quota_reset (quota_reset_at shown q)) m2))
                else if \<not> sw_config_ok e then (Inl Config_Unwritten, m2)
                else switch_now e live (candidate next) reset_at (su_effort s1) m2))"

text \<open>\<open>live\<close>: what \<open>apply_quota_policy\<close> itself reads before it decides.\<close>

definition apply_quota_policy ::
  "(time \<Rightarrow> string) \<Rightarrow> string option \<Rightarrow> switch_env \<Rightarrow> quota option \<Rightarrow> manager \<Rightarrow> (switch_error + bool) \<times> manager" where
  "apply_quota_policy shown live e q m0 =
     (let (s, m) = get_or_init m0 in
      if su_bot s = None then (Inr False, m)
      else case live of
        None \<Rightarrow> (Inl Unreadable_Liveness, m)
      | Some l \<Rightarrow>
          (case policy_decide shown s q l (sw_now e) of
             Keep \<Rightarrow> (Inr False, m)
           | Defer _ \<Rightarrow> (Inr False, m)
           | Wait_Quota r \<Rightarrow> (Inr False, attempted_write (sw_status_ok e) (set_status ''waiting_quota'')
                                          (attempted_write (sw_reset_ok e) (set_quota_reset r) m))
           | Resume \<Rightarrow> (Inr False, attempted_write (sw_status_ok e) (set_status '''')
                                    (attempted_write (sw_reset_ok e) (set_quota_reset None) m))
           | Switch_To model r \<Rightarrow> switch_candidate shown e q model r m))"

definition post_fallback ::
  "(time \<Rightarrow> string) \<Rightarrow> switch_env \<Rightarrow> quota option \<Rightarrow> string option \<Rightarrow> manager \<Rightarrow> (switch_error + bool) \<times> manager" where
  "post_fallback shown e q model m0 =
     (let (s, m) = get_or_init m0 in
      case model of
        Some x \<Rightarrow> if List.member CANDIDATES x then switch_candidate shown e q (candidate x) None m else (Inl Unknown_Model, m)
      | None \<Rightarrow> switch_candidate shown e q (other_candidate (su_active_model s)) None m)"

section \<open>The user's decisions\<close>

text \<open>\<open>live\<close> and \<open>q\<close> are for the policy, whose failure only is logged.\<close>

definition start_requested ::
  "(time \<Rightarrow> string) \<Rightarrow> string option \<Rightarrow> switch_env \<Rightarrow> quota option \<Rightarrow> db \<Rightarrow> bool \<Rightarrow> manager \<Rightarrow> (start_error + unit) \<times> manager" where
  "start_requested shown live e q d launch m0 =
     (let (s, m) = get_or_init (snd (apply_quota_policy shown live e q m0)) in
      if manager_bot d s = None then (Inl Not_Set_Up, m)
      else start_manager d launch (snd (set_desired_running True m)))"

text \<open>\<open>stopped\<close>: whether \<open>stop_bot\<close> succeeds.\<close>

definition stop_requested :: "db \<Rightarrow> bool \<Rightarrow> manager \<Rightarrow> (start_error + unit) \<times> manager" where
  "stop_requested d stopped m0 =
     (let (s, m) = get_or_init m0 in
      if manager_bot d s = None then (Inl Not_Set_Up, m)
      else (if stopped then Inr () else Inl Launch_Failed, snd (set_desired_running False m)))"

end
