(* ===== verification/Watchdog.thy ===== *)
theory Watchdog
  imports Manager
begin

text \<open>
  The watchdog that starts the supervisor again when it dies (\<open>supervisor/watchdog.rs\<close>): the plan, the
  deadlines that survive a wall clock set back, and one tick. A deadline is an instant of the wall clock in the
  row and, beside it, one of the monotonic clock in this process.
\<close>

section \<open>The plan\<close>

definition BACKOFF_SECS :: "time list" where
  "BACKOFF_SECS = [30, 60, 120, 300]"

definition MAX_ATTEMPTS :: int where
  "MAX_ATTEMPTS = 5"

definition backoff_secs :: "int \<Rightarrow> time" where
  "backoff_secs failures = BACKOFF_SECS ! min (nat (max failures 0)) (length BACKOFF_SECS - 1)"

datatype plan = Idle | Wait bool | Start | Gave_Up

record watched =
  wt_configured :: bool
  wt_wanted :: bool
  wt_waiting_quota :: bool
  wt_attempts :: int
  wt_next_at :: "stamp option"

definition plan_for :: "watched \<Rightarrow> string \<Rightarrow> (stamp \<Rightarrow> bool) \<Rightarrow> plan" where
  "plan_for w liveness now_past =
     (if \<not> wt_configured w \<or> \<not> wt_wanted w \<or> wt_waiting_quota w then Idle
      else if liveness \<noteq> ''stopped'' then Idle
      else if wt_attempts w \<ge> MAX_ATTEMPTS then Gave_Up
      else case wt_next_at w of None \<Rightarrow> Wait True | Some t \<Rightarrow> if \<not> now_past t then Wait False else Start)"

definition watched_of :: "supervisor \<Rightarrow> watched" where
  "watched_of s =
     \<lparr>wt_configured = (su_bot s \<noteq> None), wt_wanted = wants_running s, wt_waiting_quota = (su_status s = ''waiting_quota''),
      wt_attempts = su_attempts s, wt_next_at = su_next_at s\<rparr>"

definition plan_of :: "supervisor \<Rightarrow> string \<Rightarrow> (stamp \<Rightarrow> bool) \<Rightarrow> plan" where
  "plan_of s liveness now_past = plan_for (watched_of s) liveness now_past"

section \<open>Deadlines\<close>

type_synonym deadline_cache = "(string \<times> (stamp \<times> time)) list"

definition note_lane :: "string \<Rightarrow> stamp \<Rightarrow> time \<Rightarrow> deadline_cache \<Rightarrow> deadline_cache" where
  "note_lane key when due cache = AList.update key (when, due) cache"

definition clear_lane :: "string \<Rightarrow> deadline_cache \<Rightarrow> deadline_cache" where
  "clear_lane key cache = AList.delete key cache"

text \<open>Instants of the monotonic clock do not leave its range.\<close>

definition past_at :: "string \<Rightarrow> stamp \<Rightarrow> time \<Rightarrow> time \<Rightarrow> deadline_cache \<Rightarrow> bool \<times> deadline_cache" where
  "past_at key when wall tick cache =
     (case parse_utc when of
        None \<Rightarrow> (True, cache)
      | Some parsed \<Rightarrow>
          if parsed \<le> wall then (True, cache)
          else
            (case map_of cache key of
               Some (cached_at, deadline) \<Rightarrow>
                 if cached_at = when then (tick \<ge> deadline, cache)
                 else (tick \<ge> tick + (parsed - wall), note_lane key when (tick + (parsed - wall)) cache)
             | None \<Rightarrow> (tick \<ge> tick + (parsed - wall), note_lane key when (tick + (parsed - wall)) cache)))"

definition PATROL_LANE :: string where
  "PATROL_LANE = ''patrol''"

text \<open>The plan with the question to the cache, which may note a deadline.\<close>

definition plan_now :: "supervisor \<Rightarrow> string \<Rightarrow> time \<Rightarrow> time \<Rightarrow> manager \<Rightarrow> plan \<times> manager" where
  "plan_now s liveness wall tick m =
     (let p = (\<lambda>t. fst (past_at PATROL_LANE t wall tick (mg_cache m)));
          asked = (wt_configured (watched_of s) \<and> wt_wanted (watched_of s) \<and> \<not> wt_waiting_quota (watched_of s)
                   \<and> liveness = ''stopped'' \<and> wt_attempts (watched_of s) < MAX_ATTEMPTS)
      in (plan_of s liveness p,
          case su_next_at s of
            Some t \<Rightarrow> if asked then m\<lparr>mg_cache := snd (past_at PATROL_LANE t wall tick (mg_cache m))\<rparr> else m
          | None \<Rightarrow> m))"

section \<open>One tick\<close>

text \<open>
  What a tick finds: the clocks, the runs when it looks and under the lock (\<open>None\<close>: cannot be read), what the
  others did while it waited for the lock, the outcome of the start, whether the inbox takes the event, and the text
  of the reason (of a failed start, or the fixed one for a supervisor that did not stay alive).
\<close>

record watch_env =
  we_wall :: time
  we_mono :: time
  we_seen :: "db option"
  we_race :: "manager \<Rightarrow> manager"
  we_locked :: "db option"
  we_world :: db
  we_launch :: bool
  we_push :: bool
  we_event :: ident
  we_why :: string

definition gave_up_key :: "(time \<Rightarrow> string) \<Rightarrow> time \<Rightarrow> string" where
  "gave_up_key shown t = ''watchdog:gave_up:'' @ shown t"

definition report_gave_up :: "(time \<Rightarrow> string) \<Rightarrow> string \<Rightarrow> watch_env \<Rightarrow> manager \<Rightarrow> manager" where
  "report_gave_up shown why e m0 =
     (let (s, m) = get_or_init (mark_watchdog_gave_up why (we_wall e) m0) in
      case su_gave_up_at s of
        None \<Rightarrow> m
      | Some t \<Rightarrow>
          if \<not> we_push e then m
          else m\<lparr>mg_inbox := snd (push_inbox_tx (we_event e) (gave_up_key shown t) ''watchdog_gave_up'' None None None
                 (JObj [(''attempts'', JNum MAX_ATTEMPTS), (''why'', JStr why), (''gave_up_at'', JStr (shown t))]) (we_wall e) (mg_inbox m))\<rparr>)"

text \<open>\<open>set_watchdog\<close> with the deadline in the row and in the cache.\<close>

definition retry_in :: "int \<Rightarrow> watch_env \<Rightarrow> manager \<Rightarrow> manager" where
  "retry_in attempts e m =
     (let when = iso_in (backoff_secs attempts) (we_wall e); m1 = set_watchdog attempts (Some when) m
      in m1\<lparr>mg_cache := note_lane PATROL_LANE when (we_mono e + backoff_secs attempts * 1000) (mg_cache m1)\<rparr>)"

text \<open>\<open>Some\<close>: a start was attempted, with its outcome.\<close>

definition watchdog_start :: "(time \<Rightarrow> string) \<Rightarrow> ident \<Rightarrow> int \<Rightarrow> watch_env \<Rightarrow> manager \<Rightarrow> bool option \<times> manager" where
  "watchdog_start shown b failures e m0 =
     (let (s, m) = get_or_init (we_race e m0) in
      case we_locked e of
        None \<Rightarrow> (None, m)
      | Some d \<Rightarrow>
          (let (p, m1) = plan_now s (manager_liveness b d) (we_wall e) (we_mono e) m in
           if p \<noteq> Start then (None, m1)
           else
             (let attempt = failures + 1 in
              case start_manager (we_world e) (we_launch e) m1 of
                (Inr _, m2) \<Rightarrow> (Some True, retry_in attempt e m2)
              | (Inl _, m2) \<Rightarrow>
                  if attempt \<ge> MAX_ATTEMPTS
                  then (let m3 = set_watchdog attempt None m2 in
                        (Some False, report_gave_up shown (we_why e) e (m3\<lparr>mg_cache := clear_lane PATROL_LANE (mg_cache m3)\<rparr>)))
                  else (Some False, retry_in attempt e m2))))"

definition watchdog_tick :: "(time \<Rightarrow> string) \<Rightarrow> watch_env \<Rightarrow> manager \<Rightarrow> bool option \<times> manager" where
  "watchdog_tick shown e m0 =
     (let (s, m) = get_or_init m0 in
      case su_bot s of
        None \<Rightarrow> (None, m)
      | Some b \<Rightarrow>
          (case we_seen e of
             None \<Rightarrow> (None, m)
           | Some d \<Rightarrow>
               (let live = manager_liveness b d; (p, m1) = plan_now s live (we_wall e) (we_mono e) m in
                case p of
                  Idle \<Rightarrow>
                    (None,
                     if (live = ''idle'' \<or> live = ''busy'') \<and> (su_attempts s > 0 \<or> su_next_at s \<noteq> None)
                     then (let m2 = set_watchdog 0 None m1 in m2\<lparr>mg_cache := clear_lane PATROL_LANE (mg_cache m2)\<rparr>) else m1)
                | Wait True \<Rightarrow> (None, retry_in (su_attempts s) e m1)
                | Wait False \<Rightarrow> (None, m1)
                | Gave_Up \<Rightarrow> (None, report_gave_up shown (case su_last_error s of Some x \<Rightarrow> x | None \<Rightarrow> we_why e) e m1)
                | Start \<Rightarrow> watchdog_start shown b (su_attempts s) e m1)))"

end
