(* ===== verification/Retry_Bounds.thy ===== *)
theory Retry_Bounds
  imports Prelude
begin

text \<open>
  What the two watchdogs share: ticks that may attempt a start, a counter of attempts with a bound, and an
  outage that ends in one report. A watchdog is an instance; the bounds are proved once.
\<close>

text \<open>The attempts of a sequence of ticks, with their outcome, and the state they leave.\<close>

fun attempts_of :: "('e \<Rightarrow> 's \<Rightarrow> 'r option \<times> 's) \<Rightarrow> 'e list \<Rightarrow> 's \<Rightarrow> 'r list \<times> 's" where
  "attempts_of step [] s = ([], s)"
| "attempts_of step (e # es) s =
     (let (r, s1) = step e s; (rs, s2) = attempts_of step es s1
      in ((case r of None \<Rightarrow> rs | Some x \<Rightarrow> x # rs), s2))"

text \<open>Instants at least so far apart.\<close>

fun spaced :: "time \<Rightarrow> time list \<Rightarrow> bool" where
  "spaced g (x # y # zs) \<longleftrightarrow> x + g \<le> y \<and> spaced g (y # zs)"
| "spaced g _ \<longleftrightarrow> True"

locale counted_retries =
  fixes step :: "'e \<Rightarrow> 's \<Rightarrow> 'r option \<times> 's"
    and counter :: "int \<Rightarrow> 's \<Rightarrow> bool"
    and outage :: "'e \<Rightarrow> bool"
    and bound :: int
  assumes counts: "step e s = (r, s') \<Longrightarrow> counter a s \<Longrightarrow> outage e
      \<Longrightarrow> counter (a + (if r = None then 0 else 1)) s' \<and> (r \<noteq> None \<longrightarrow> a < bound)"
begin

lemma starts_bounded:
  "counter a s \<Longrightarrow> list_all outage es \<Longrightarrow> attempts_of step es s = (rs, s') \<Longrightarrow> a \<le> bound
    \<Longrightarrow> counter (a + int (length rs)) s' \<and> a + int (length rs) \<le> bound"
proof (induction es arbitrary: a s rs)
  case (Cons e es)
  obtain r s1 where t: "step e s = (r, s1)" by fastforce
  obtain rs1 where ts: "attempts_of step es s1 = (rs1, s')" using Cons.prems(3) t by (auto split: prod.splits)
  have c: "counter (a + (if r = None then 0 else 1)) s1" "r \<noteq> None \<longrightarrow> a < bound"
    using counts [OF t Cons.prems(1)] Cons.prems(2) by auto
  have "a + (if r = None then 0 else 1) \<le> bound" using c(2) Cons.prems(4) by auto
  then show ?case using Cons.IH [OF c(1) _ ts] Cons.prems(2,3) t ts by (auto simp: add.assoc split: option.splits)
qed auto

end

text \<open>
  An outage that no start ends: \<open>waiting a t s\<close> is the state after \<open>a\<close> attempts whose next one is due \<open>gap\<close> after
  \<open>t\<close> at the latest, \<open>told s\<close> the state once the end was reported.
\<close>

locale retried_outage =
  fixes step :: "'e \<Rightarrow> 's \<Rightarrow> 'r option \<times> 's"
    and waiting :: "int \<Rightarrow> time \<Rightarrow> 's \<Rightarrow> bool"
    and told :: "'s \<Rightarrow> bool"
    and outage :: "'e \<Rightarrow> bool"
    and clock :: "'e \<Rightarrow> time"
    and bound :: int
    and gap :: time
  assumes due: "waiting a t s \<Longrightarrow> a < bound \<Longrightarrow> 0 \<le> a \<Longrightarrow> t + gap \<le> clock e \<Longrightarrow> outage e \<Longrightarrow> step e s = (r, s')
      \<Longrightarrow> r \<noteq> None \<and> (waiting (a + 1) (clock e) s' \<or> a + 1 = bound \<and> told s')"
    and spent: "waiting bound t s \<Longrightarrow> outage e \<Longrightarrow> step e s = (r, s') \<Longrightarrow> r = None \<and> told s'"
    and quiet: "told s \<Longrightarrow> outage e \<Longrightarrow> step e s = (None, s)"
begin

lemma after_report: "told s \<Longrightarrow> list_all outage es \<Longrightarrow> attempts_of step es s = ([], s)"
  by (induction es) (simp_all add: quiet)

lemma outage_ends:
  assumes "waiting a t s" "0 \<le> a" "a \<le> bound" "list_all outage es" "spaced gap (t # map clock es)" "bound + 1 - a \<le> int (length es)"
  shows "int (length (fst (attempts_of step es s))) = bound - a \<and> told (snd (attempts_of step es s))"
  using assms
proof (induction es arbitrary: a t s)
  case (Cons e es)
  have h: "outage e" "t + gap \<le> clock e" "spaced gap (clock e # map clock es)" using Cons.prems(4,5) by simp_all
  obtain r s1 where tk: "step e s = (r, s1)" by fastforce
  show ?case
  proof (cases "a < bound")
    case True
    note d = due [OF Cons.prems(1) True Cons.prems(2) h(2,1) tk]
    consider "waiting (a + 1) (clock e) s1" | "a + 1 = bound" "told s1" using d by auto
    then show ?thesis
    proof cases
      case 1
      show ?thesis using Cons.IH [OF 1 _ _ _ h(3)] Cons.prems(2,4,6) True d tk by (auto split: prod.split)
    next
      case 2
      then show ?thesis using after_report [OF 2(2), of es] Cons.prems(4) d tk by auto
    qed
  next
    case False
    then have "a = bound" using Cons.prems(3) by simp
    then have "r = None \<and> told s1" using spent [of t s e r s1] Cons.prems(1) h(1) tk by blast
    then show ?thesis using after_report [of s1 es] Cons.prems(4) \<open>a = bound\<close> tk by auto
  qed
qed simp

end

end
