(* ===== verification/Watchdog_Safety.thy ===== *)
theory Watchdog_Safety
  imports Watchdog Retry_Bounds
begin

text \<open>
  What ticks of the watchdog leave during an outage: how many starts they attempt, and the report that ends it.
\<close>

section \<open>Statements on the row\<close>

lemma upd_sup_simps [simp]:
  "mg_row (upd_sup f m) = map_option f (mg_row m)" "mg_cache (upd_sup f m) = mg_cache m"
  "mg_inbox (upd_sup f m) = mg_inbox m" "mg_config (upd_sup f m) = mg_config m"
  by (simp_all add: upd_sup_def)

lemma get_or_init_Some [simp]: "mg_row m = Some s \<Longrightarrow> get_or_init m = (s, m)"
  by (simp add: get_or_init_def)

lemma get_or_init_row: "get_or_init m = (s, m') \<Longrightarrow> mg_row m' = Some s"
  by (auto simp: get_or_init_def split: option.splits)

definition counters :: "supervisor \<Rightarrow> ident option \<times> int" where
  "counters s = (su_bot s, su_attempts s)"

definition same_counters :: "manager \<Rightarrow> manager \<Rightarrow> bool" where
  "same_counters m m' \<longleftrightarrow> map_option counters (mg_row m') = map_option counters (mg_row m)"

text \<open>A start changes status and generation only.\<close>

lemma start_manager_cases:
  assumes "start_manager d launch m = (res, m')" "mg_row m = Some s"
  shows "m' = m \<or> m' = set_status '''' m \<or> m' = bump_generation (set_status '''' m)"
  using assms by (auto simp: start_manager_def Let_def split: option.splits if_splits prod.splits)

lemma start_manager_row:
  assumes "start_manager d launch m = (res, m')" "mg_row m = Some s"
  shows "\<exists>st g. mg_row m' = Some (s\<lparr>su_status := st, su_generation := g\<rparr>) \<and> (st = su_status s \<or> st = '''')"
    "mg_cache m' = mg_cache m" "mg_inbox m' = mg_inbox m"
proof -
  show "mg_cache m' = mg_cache m" "mg_inbox m' = mg_inbox m"
    using start_manager_cases [OF assms] by (auto simp: set_status_def bump_generation_def)
  consider "m' = m" | "m' = set_status '''' m" | "m' = bump_generation (set_status '''' m)" using start_manager_cases [OF assms] by blast
  then show "\<exists>st g. mg_row m' = Some (s\<lparr>su_status := st, su_generation := g\<rparr>) \<and> (st = su_status s \<or> st = '''')"
  proof cases
    case 1
    then show ?thesis using assms(2) by (intro exI [of _ "su_status s"] exI [of _ "su_generation s"]) simp
  next
    case 2
    then show ?thesis using assms(2) by (intro exI [of _ "''''"] exI [of _ "su_generation s"]) (simp add: set_status_def)
  next
    case 3
    then show ?thesis using assms(2)
      by (intro exI [of _ "''''"] exI [of _ "su_generation s + 1"]) (simp add: set_status_def bump_generation_def)
  qed
qed

lemma plan_now_row: "plan_now s live wall tick m = (p, m') \<Longrightarrow> mg_row m' = mg_row m \<and> mg_inbox m' = mg_inbox m"
  by (auto simp: plan_now_def Let_def split: option.splits if_splits)

lemma plan_now_start:
  assumes "plan_now s live wall tick m = (Start, m')"
  shows "su_attempts s < MAX_ATTEMPTS"
  using assms by (auto simp: plan_now_def plan_of_def plan_for_def watched_of_def Let_def split: option.splits if_splits)

lemma report_row:
  assumes "mg_row m = Some s"
  shows "\<exists>s'. mg_row (report_gave_up shown why e m) = Some s' \<and> counters s' = counters s"
  using assms by (auto simp: counters_def report_gave_up_def mark_watchdog_gave_up_def Let_def split: option.split)

section \<open>How many starts\<close>

text \<open>Others may move the row while a tick waits for the lock, but not the counters of the watchdog.\<close>

definition down :: "ident \<Rightarrow> watch_env \<Rightarrow> bool" where
  "down b e \<longleftrightarrow>
     (case we_seen e of None \<Rightarrow> True | Some d \<Rightarrow> manager_liveness b d \<noteq> ''idle'' \<and> manager_liveness b d \<noteq> ''busy'')
     \<and> (\<forall>m. mg_row m \<noteq> None \<longrightarrow> same_counters m (we_race e m))"

definition ticks :: "(time \<Rightarrow> string) \<Rightarrow> watch_env list \<Rightarrow> manager \<Rightarrow> bool list \<times> manager" where
  "ticks shown = attempts_of (watchdog_tick shown)"

lemma ticks_simps [simp]:
  "ticks shown [] m = ([], m)"
  "ticks shown (e # es) m =
     (let (r, m1) = watchdog_tick shown e m; (rs, m2) = ticks shown es m1
      in ((case r of None \<Rightarrow> rs | Some x \<Rightarrow> x # rs), m2))"
  by (simp_all add: ticks_def)

text \<open>The row of that bot after so many attempts.\<close>

definition attempted :: "ident \<Rightarrow> int \<Rightarrow> manager \<Rightarrow> bool" where
  "attempted b a m \<longleftrightarrow> map_option counters (mg_row m) = Some (Some b, a)"

lemma attempted_iff: "attempted b a m \<longleftrightarrow> (\<exists>s. mg_row m = Some s \<and> su_bot s = Some b \<and> su_attempts s = a)"
  by (auto simp: attempted_def counters_def)

lemma retry_in_attempted: "attempted b a m \<Longrightarrow> attempted b a' (retry_in a' e m)"
  by (cases "mg_row m") (simp_all add: retry_in_def set_watchdog_def Let_def attempted_def counters_def)

lemma report_attempted: "attempted b a m \<Longrightarrow> attempted b a (report_gave_up shown why e m)"
  using report_row by (fastforce simp: attempted_def)

lemma start_attempted: "start_manager d launch m = (res, m') \<Longrightarrow> attempted b a m \<Longrightarrow> attempted b a m'"
  using start_manager_row(1) by (fastforce simp: attempted_iff)

lemma plan_attempted: "plan_now s live wall tick m = (p, m') \<Longrightarrow> attempted b a m \<Longrightarrow> attempted b a m'"
  using plan_now_row [of s live wall tick m p m'] by (simp add: attempted_def)

lemma set_watchdog_attempted: "attempted b a m \<Longrightarrow> attempted b a' (set_watchdog a' next m)"
  by (cases "mg_row m") (simp_all add: set_watchdog_def attempted_def counters_def)

lemma cache_attempted [simp]: "attempted b a (m\<lparr>mg_cache := k\<rparr>) \<longleftrightarrow> attempted b a m"
  by (simp add: attempted_def)

lemma watchdog_start_none:
  assumes "mg_row (we_race e m) = Some s"
    and "case we_locked e of None \<Rightarrow> True | Some d \<Rightarrow> fst (plan_now s (manager_liveness b d) (we_wall e) (we_mono e) (we_race e m)) \<noteq> Start"
  shows "fst (watchdog_start shown b f e m) = None" "mg_row (snd (watchdog_start shown b f e m)) = Some s"
proof -
  have "fst (watchdog_start shown b f e m) = None \<and> mg_row (snd (watchdog_start shown b f e m)) = Some s"
  proof (cases "we_locked e")
    case None
    then show ?thesis using assms(1) by (simp add: watchdog_start_def)
  next
    case (Some d)
    obtain p m1 where p: "plan_now s (manager_liveness b d) (we_wall e) (we_mono e) (we_race e m) = (p, m1)" by fastforce
    then show ?thesis using assms Some plan_now_row [OF p] by (simp add: watchdog_start_def)
  qed
  then show "fst (watchdog_start shown b f e m) = None" "mg_row (snd (watchdog_start shown b f e m)) = Some s" by blast+
qed

lemma watchdog_start_eq:
  assumes "mg_row (we_race e m) = Some s" "we_locked e = Some d"
    and "plan_now s (manager_liveness b d) (we_wall e) (we_mono e) (we_race e m) = (Start, m1)"
    and "start_manager (we_world e) (we_launch e) m1 = (res, m2)"
  shows "watchdog_start shown b f e m =
    (if res = Inr () then (Some True, retry_in (f + 1) e m2)
     else if f + 1 \<ge> MAX_ATTEMPTS
     then (Some False, report_gave_up shown (we_why e) e
       (set_watchdog (f + 1) None m2\<lparr>mg_cache := clear_lane PATROL_LANE (mg_cache (set_watchdog (f + 1) None m2))\<rparr>))
     else (Some False, retry_in (f + 1) e m2))"
  by (cases res) (simp_all add: watchdog_start_def assms Let_def)

lemma start_counts:
  assumes "watchdog_start shown b a e m = (r, m')" "attempted b a m" "same_counters m (we_race e m)"
  shows "attempted b (a + (if r = None then 0 else 1)) m' \<and> (r \<noteq> None \<longrightarrow> a < MAX_ATTEMPTS)"
proof -
  have att: "attempted b a (we_race e m)" using assms(2,3) by (simp add: same_counters_def attempted_def)
  then obtain s where s: "mg_row (we_race e m) = Some s" "su_attempts s = a" by (auto simp: attempted_iff)
  show ?thesis
  proof (cases "case we_locked e of None \<Rightarrow> True | Some d \<Rightarrow> fst (plan_now s (manager_liveness b d) (we_wall e) (we_mono e) (we_race e m)) \<noteq> Start")
    case True
    then show ?thesis using watchdog_start_none [OF s(1) True, of shown a] assms(1) att s by (simp add: attempted_def)
  next
    case False
    then obtain d m1 where d: "we_locked e = Some d" "plan_now s (manager_liveness b d) (we_wall e) (we_mono e) (we_race e m) = (Start, m1)"
      by (cases "we_locked e"; cases "plan_now s (manager_liveness b (the (we_locked e))) (we_wall e) (we_mono e) (we_race e m)") auto
    obtain res m2 where st: "start_manager (we_world e) (we_launch e) m1 = (res, m2)" by fastforce
    have "attempted b a m2" using start_attempted [OF st plan_attempted [OF d(2) att]] .
    then show ?thesis
      using assms(1) [unfolded watchdog_start_eq [OF s(1) d st]] plan_now_start [OF d(2)] s(2)
      by (auto simp: retry_in_attempted report_attempted set_watchdog_attempted split: if_splits)
  qed
qed

lemma tick_counts:
  assumes "watchdog_tick shown e m = (r, m')" "attempted b a m" "down b e"
  shows "attempted b (a + (if r = None then 0 else 1)) m' \<and> (r \<noteq> None \<longrightarrow> a < MAX_ATTEMPTS)"
proof (cases "we_seen e")
  case None
  then show ?thesis using assms by (auto simp: watchdog_tick_def attempted_iff)
next
  case (Some d)
  obtain s where s: "mg_row m = Some s" "su_bot s = Some b" "su_attempts s = a" using assms(2) by (auto simp: attempted_iff)
  obtain p m1 where p: "plan_now s (manager_liveness b d) (we_wall e) (we_mono e) m = (p, m1)" by fastforce
  have att: "attempted b a m1" using plan_attempted [OF p assms(2)] .
  have alive: "manager_liveness b d \<noteq> ''idle''" "manager_liveness b d \<noteq> ''busy''" and race: "same_counters m1 (we_race e m1)"
    using assms(3) Some att by (auto simp: down_def attempted_iff)
  have tick: "(r, m') =
      (case p of
         Idle \<Rightarrow> (None, m1)
       | Wait True \<Rightarrow> (None, retry_in a e m1)
       | Wait False \<Rightarrow> (None, m1)
       | Gave_Up \<Rightarrow> (None, report_gave_up shown (case su_last_error s of Some x \<Rightarrow> x | None \<Rightarrow> we_why e) e m1)
       | Start \<Rightarrow> watchdog_start shown b a e m1)"
    using assms(1) s Some p alive by (auto simp: watchdog_tick_def Let_def split: plan.split)
  show ?thesis
  proof (cases p)
    case Start
    then show ?thesis using start_counts [of shown b a e m1 r m'] race att tick by auto
  next
    case (Wait w)
    then show ?thesis using tick att retry_in_attempted by (cases w) auto
  qed (use tick att report_attempted in auto)
qed

interpretation patrol_retries: counted_retries "watchdog_tick shown" "attempted b" "down b" MAX_ATTEMPTS for shown b
  by unfold_locales (use tick_counts in blast)

end
