(* ===== verification/Watchdog_Outage.thy ===== *)
theory Watchdog_Outage
  imports Watchdog_Safety
begin

text \<open>
  An outage that no start ends: the ticks of the watchdog step through its attempts and end in one report.
\<close>

section \<open>The ticks of an outage\<close>

text \<open>
  A tick of an outage: the supervisor is stopped when the tick looks and under the lock, nobody else moves the
  row meanwhile, and the inbox takes a new event under a new id.
\<close>

definition hopeless :: "(time \<Rightarrow> string) \<Rightarrow> ident \<Rightarrow> db \<Rightarrow> watch_env \<Rightarrow> bool" where
  "hopeless shown b d0 e \<longleftrightarrow>
     (case we_seen e of None \<Rightarrow> False | Some d \<Rightarrow> manager_liveness b d = ''stopped'')
     \<and> (case we_locked e of None \<Rightarrow> False | Some d \<Rightarrow> manager_liveness b d = ''stopped'')
     \<and> we_race e = id \<and> we_push e \<and> map_of (inbox d0) (we_event e) = None
     \<and> \<not> list_ex (\<lambda>(_, x). i_key x = gave_up_key shown (we_wall e)) (inbox d0)"

definition wanted_row :: "ident \<Rightarrow> supervisor \<Rightarrow> bool" where
  "wanted_row b s \<longleftrightarrow> su_bot s = Some b \<and> wants_running s \<and> su_status s \<noteq> ''waiting_quota''"

definition stage :: "ident \<Rightarrow> db \<Rightarrow> int \<Rightarrow> time \<Rightarrow> manager \<Rightarrow> bool" where
  "stage b d0 a t m \<longleftrightarrow>
     (\<exists>s w due. mg_row m = Some s \<and> wanted_row b s \<and> su_attempts s = a \<and> su_gave_up_at s = None \<and> su_next_at s = Some w
        \<and> map_of (mg_cache m) PATROL_LANE = Some (w, due) \<and> due \<le> t + 300000 \<and> mg_inbox m = d0)"

definition reported :: "(time \<Rightarrow> string) \<Rightarrow> ident \<Rightarrow> db \<Rightarrow> manager \<Rightarrow> bool" where
  "reported shown b d0 m \<longleftrightarrow>
     (\<exists>s g i ev. mg_row m = Some s \<and> wanted_row b s \<and> su_attempts s = MAX_ATTEMPTS \<and> su_gave_up_at s = Some g
        \<and> mg_inbox m = d0\<lparr>inbox := inbox d0 @ [(i, ev)]\<rparr> \<and> i_key ev = gave_up_key shown g \<and> i_kind ev = ''watchdog_gave_up'')"

section \<open>One step\<close>

lemma backoff_bound: "backoff_secs n \<le> 300"
proof -
  have "i < 4 \<Longrightarrow> BACKOFF_SECS ! i \<le> 300" for i
    by (simp add: BACKOFF_SECS_def less_Suc_eq numeral_eq_Suc) auto
  then show ?thesis by (simp add: backoff_secs_def BACKOFF_SECS_def)
qed

lemma retry_stage:
  assumes "mg_row m = Some s" "wanted_row b s" "su_gave_up_at s = None" "mg_inbox m = d0" "0 \<le> a"
  shows "stage b d0 a (we_mono e) (retry_in a e m)"
proof -
  have "we_mono e + backoff_secs a * 1000 \<le> we_mono e + 300000" using backoff_bound [of a] by simp
  then show ?thesis using assms
    by (auto simp: stage_def retry_in_def set_watchdog_def Let_def note_lane_def update_conv' wanted_row_def wants_running_def)
qed

lemma plan_due:
  assumes "wanted_row b s" "su_attempts s < MAX_ATTEMPTS" "su_next_at s = Some w" "map_of (mg_cache m) PATROL_LANE = Some (w, due)" "due \<le> tick"
  shows "plan_now s ''stopped'' wall tick m = (Start, m)"
proof -
  have "past_at PATROL_LANE w wall tick (mg_cache m) = (True, mg_cache m)"
    using assms(4,5) by (auto simp: past_at_def split: option.split)
  then show ?thesis using assms(1-3) by (simp add: plan_now_def plan_of_def plan_for_def watched_of_def wanted_row_def Let_def)
qed

lemma report_first:
  assumes "mg_row m = Some s" "wanted_row b s" "su_attempts s = MAX_ATTEMPTS" "su_gave_up_at s = None" "mg_inbox m = d0" "hopeless shown b d0 e"
  shows "reported shown b d0 (report_gave_up shown why e m)"
proof -
  let ?s = "s\<lparr>su_gave_up_at := Some (we_wall e), su_last_error := Some why\<rparr>"
  let ?p = "JObj [(''attempts'', JNum MAX_ATTEMPTS), (''why'', JStr why), (''gave_up_at'', JStr (shown (we_wall e)))]"
  let ?ev = "new_event (gave_up_key shown (we_wall e)) ''watchdog_gave_up'' None None None ?p (we_wall e)"
  let ?m = "report_gave_up shown why e m"
  have "mg_row ?m = Some ?s" "mg_inbox ?m = d0\<lparr>inbox := inbox d0 @ [(we_event e, ?ev)]\<rparr>"
    using assms(1,4-6)
    by (simp_all add: report_gave_up_def mark_watchdog_gave_up_def Let_def hopeless_def push_inbox_tx_def insert_or_ignore_def new_event_def)
  moreover have "wanted_row b ?s" "su_attempts ?s = MAX_ATTEMPTS" "su_gave_up_at ?s = Some (we_wall e)"
    using assms(2,3) by (simp_all add: wanted_row_def wants_running_def)
  moreover have "i_key ?ev = gave_up_key shown (we_wall e)" "i_kind ?ev = ''watchdog_gave_up''" by (simp_all add: new_event_def)
  ultimately show ?thesis unfolding reported_def by blast
qed

lemma report_again:
  assumes "reported shown b d0 m"
  shows "report_gave_up shown why e m = m"
proof -
  obtain s g i ev where r: "mg_row m = Some s" "su_gave_up_at s = Some g" "mg_inbox m = d0\<lparr>inbox := inbox d0 @ [(i, ev)]\<rparr>"
      "i_key ev = gave_up_key shown g"
    using assms by (auto simp: reported_def)
  have "mark_watchdog_gave_up why (we_wall e) m = m" using r(1,2) by (simp add: mark_watchdog_gave_up_def upd_sup_def)
  moreover have "push_inbox_tx (we_event e) (gave_up_key shown g) k None None None p n (mg_inbox m) = (None, mg_inbox m)" for k p n
    using r(3,4) by (simp add: push_inbox_tx_def insert_or_ignore_def new_event_def)
  ultimately show ?thesis using r(1,2) by (simp add: report_gave_up_def)
qed

lemma tick_first:
  assumes "mg_row m = Some s" "wanted_row b s" "su_attempts s = 0" "su_next_at s = None" "su_gave_up_at s = None" "hopeless shown b (mg_inbox m) e"
  shows "fst (watchdog_tick shown e m) = None" "stage b (mg_inbox m) 0 (we_mono e) (snd (watchdog_tick shown e m))"
proof -
  have "watchdog_tick shown e m = (None, retry_in 0 e m)"
    using assms by (auto simp: watchdog_tick_def hopeless_def wanted_row_def plan_now_def plan_of_def plan_for_def watched_of_def
        MAX_ATTEMPTS_def Let_def split: option.splits)
  then show "fst (watchdog_tick shown e m) = None" "stage b (mg_inbox m) 0 (we_mono e) (snd (watchdog_tick shown e m))"
    using retry_stage [OF assms(1,2,5), of "mg_inbox m" 0 e] by simp_all
qed

lemma tick_start:
  assumes "stage b d0 a t m" "a < MAX_ATTEMPTS" "0 \<le> a" "t + 300000 \<le> we_mono e" "hopeless shown b d0 e"
  shows "fst (watchdog_tick shown e m) \<noteq> None"
    "stage b d0 (a + 1) (we_mono e) (snd (watchdog_tick shown e m))
      \<or> a + 1 = MAX_ATTEMPTS \<and> reported shown b d0 (snd (watchdog_tick shown e m))"
proof -
  obtain s w due where s: "mg_row m = Some s" "wanted_row b s" "su_attempts s = a" "su_gave_up_at s = None" "su_next_at s = Some w"
      "map_of (mg_cache m) PATROL_LANE = Some (w, due)" "due \<le> t + 300000" "mg_inbox m = d0"
    using assms(1) by (auto simp: stage_def)
  obtain d d' where d: "we_seen e = Some d" "manager_liveness b d = ''stopped''" "we_locked e = Some d'" "manager_liveness b d' = ''stopped''"
      "we_race e = id"
    using assms(5) by (auto simp: hopeless_def split: option.splits)
  have p: "plan_now s ''stopped'' (we_wall e) (we_mono e) m = (Start, m)"
    using plan_due [OF s(2) _ s(5,6)] s(3,7) assms(2,4) by simp
  obtain res m2 where st: "start_manager (we_world e) (we_launch e) m = (res, m2)" by fastforce
  obtain st' g where r2: "mg_row m2 = Some (s\<lparr>su_status := st', su_generation := g\<rparr>)" "st' = su_status s \<or> st' = ''''"
    and i2: "mg_inbox m2 = d0" using start_manager_row [OF st s(1)] s(8) by auto
  let ?s2 = "s\<lparr>su_status := st', su_generation := g\<rparr>"
  have w2: "wanted_row b ?s2" "su_gave_up_at ?s2 = None" using s(2,4) r2(2) by (auto simp: wanted_row_def wants_running_def)
  have tick: "watchdog_tick shown e m = watchdog_start shown b a e m"
    using s(1-3) d p by (simp add: watchdog_tick_def wanted_row_def)
  have race: "mg_row (we_race e m) = Some s" "plan_now s (manager_liveness b d') (we_wall e) (we_mono e) (we_race e m) = (Start, m)"
    using d(4,5) s(1) p by simp_all
  note eq = watchdog_start_eq [OF race(1) d(3) race(2) st]
  have retry: "stage b d0 (a + 1) (we_mono e) (retry_in (a + 1) e m2)"
    using retry_stage [OF r2(1) w2 i2] assms(3) by simp
  have rep: "reported shown b d0 (report_gave_up shown (we_why e) e
      (set_watchdog (a + 1) None m2\<lparr>mg_cache := k\<rparr>))" if "a + 1 = MAX_ATTEMPTS" for k
    by (rule report_first [where s = "?s2\<lparr>su_attempts := MAX_ATTEMPTS, su_next_at := None\<rparr>", OF _ _ _ _ _ assms(5)])
       (use r2(1) w2 i2 that in \<open>simp_all add: set_watchdog_def wanted_row_def wants_running_def MAX_ATTEMPTS_def\<close>)
  show "fst (watchdog_tick shown e m) \<noteq> None" using tick eq [of shown a] by (simp split: if_splits) auto
  show "stage b d0 (a + 1) (we_mono e) (snd (watchdog_tick shown e m))
      \<or> a + 1 = MAX_ATTEMPTS \<and> reported shown b d0 (snd (watchdog_tick shown e m))"
  proof (cases "res \<noteq> Inr () \<and> MAX_ATTEMPTS \<le> a + 1")
    case True
    then have last: "a + 1 = MAX_ATTEMPTS" using assms(2) by simp
    show ?thesis using tick eq [of shown a] True last rep [OF last] by simp
  next
    case False
    then show ?thesis using tick eq [of shown a] retry by (auto split: if_splits)
  qed
qed

lemma tick_gave_up:
  assumes "mg_row m = Some s" "wanted_row b s" "su_attempts s = MAX_ATTEMPTS" "hopeless shown b d0 e"
  shows "watchdog_tick shown e m = (None, report_gave_up shown (case su_last_error s of Some x \<Rightarrow> x | None \<Rightarrow> we_why e) e m)"
  using assms
  by (auto simp: watchdog_tick_def hopeless_def wanted_row_def plan_now_def plan_of_def plan_for_def watched_of_def Let_def
      split: option.splits)

section \<open>The whole outage\<close>

interpretation patrol_outage: retried_outage "watchdog_tick shown" "stage b d0" "reported shown b d0" "hopeless shown b d0" we_mono
    MAX_ATTEMPTS 300000 for shown b d0
proof unfold_locales
  fix a t m e r m'
  assume "stage b d0 a t m" "a < MAX_ATTEMPTS" "0 \<le> a" "t + 300000 \<le> we_mono e" "hopeless shown b d0 e" "watchdog_tick shown e m = (r, m')"
  then show "r \<noteq> None \<and> (stage b d0 (a + 1) (we_mono e) m' \<or> a + 1 = MAX_ATTEMPTS \<and> reported shown b d0 m')"
    using tick_start [of b d0 a t m e shown] by simp
next
  fix t m e r m'
  assume st: "stage b d0 MAX_ATTEMPTS t m" and h: "hopeless shown b d0 e" and tk: "watchdog_tick shown e m = (r, m')"
  obtain s where s: "mg_row m = Some s" "wanted_row b s" "su_attempts s = MAX_ATTEMPTS" "su_gave_up_at s = None" "mg_inbox m = d0"
    using st by (auto simp: stage_def)
  have "r = None" "m' = report_gave_up shown (case su_last_error s of Some x \<Rightarrow> x | None \<Rightarrow> we_why e) e m"
    using tk tick_gave_up [OF s(1-3) h] by simp_all
  then show "r = None \<and> reported shown b d0 m'" using report_first [OF s h] by blast
next
  fix m e
  assume rep: "reported shown b d0 m" and h: "hopeless shown b d0 e"
  obtain s where "mg_row m = Some s" "wanted_row b s" "su_attempts s = MAX_ATTEMPTS" using rep by (auto simp: reported_def)
  then show "watchdog_tick shown e m = (None, m)" using tick_gave_up [of m s b shown d0 e] report_again [OF rep] h by simp
qed

end
