(* ===== verification/Manager_Safety.thy ===== *)
theory Manager_Safety
  imports Watchdog_Outage
begin

text \<open>
  Sequences of everything that moves the row of the supervisor: the policy, the switch a user asks for, starting
  and stopping, the watchdog. What they keep of the row, and how far apart switches of the model are.
\<close>

section \<open>Sequences\<close>

datatype manager_op =
  Policy "string option" switch_env "quota option"
| Fallback switch_env "quota option" "string option"
| Start_It "string option" switch_env "quota option" db bool
| Stop_It db bool
| Watch_It watch_env
| Set_Up ident

fun op_env :: "manager_op \<Rightarrow> switch_env option" where
  "op_env (Policy live e q) = Some e"
| "op_env (Fallback e q x) = Some e"
| "op_env (Start_It live e q d launch) = Some e"
| "op_env _ = None"

fun manager_step :: "(time \<Rightarrow> string) \<Rightarrow> manager_op \<Rightarrow> manager \<Rightarrow> manager" where
  "manager_step shown (Policy live e q) m = snd (apply_quota_policy shown live e q m)"
| "manager_step shown (Fallback e q x) m = snd (post_fallback shown e q x m)"
| "manager_step shown (Start_It live e q d launch) m = snd (start_requested shown live e q d launch m)"
| "manager_step shown (Stop_It d stopped) m = snd (stop_requested d stopped m)"
| "manager_step shown (Watch_It e) m = snd (watchdog_tick shown e m)"
| "manager_step shown (Set_Up b) m = set_env b (snd (get_or_init m))"

text \<open>Whether the operation switched the model.\<close>

fun switched :: "(time \<Rightarrow> string) \<Rightarrow> manager_op \<Rightarrow> manager \<Rightarrow> bool" where
  "switched shown (Policy live e q) m \<longleftrightarrow> fst (apply_quota_policy shown live e q m) = Inr True"
| "switched shown (Fallback e q x) m \<longleftrightarrow> fst (post_fallback shown e q x m) = Inr True"
| "switched shown (Start_It live e q d launch) m \<longleftrightarrow> fst (apply_quota_policy shown live e q m) = Inr True"
| "switched shown _ m \<longleftrightarrow> False"

fun manager_steps :: "(time \<Rightarrow> string) \<Rightarrow> manager_op list \<Rightarrow> manager \<Rightarrow> switch_env list \<times> manager" where
  "manager_steps shown [] m = ([], m)"
| "manager_steps shown (x # xs) m =
     (let (es, m') = manager_steps shown xs (manager_step shown x m)
      in (if switched shown x m then (case op_env x of Some e \<Rightarrow> e # es | None \<Rightarrow> es) else es, m'))"

text \<open>Nobody else moves the row while the watchdog waits for the lock.\<close>

fun calm :: "manager_op \<Rightarrow> bool" where
  "calm (Watch_It e) \<longleftrightarrow> we_race e = id"
| "calm _ \<longleftrightarrow> True"

section \<open>The row\<close>

text \<open>
  \<open>strict\<close>: every write of a switch succeeds, so that the budget never goes beyond one switch and config.toml
  names the model of the row.
\<close>

definition row_ok :: "bool \<Rightarrow> supervisor \<Rightarrow> bool" where
  "row_ok strict s \<longleftrightarrow>
     List.member CANDIDATES (su_active_model s) \<and> List.member ['''', ''waiting_quota''] (su_status s)
     \<and> List.member [0, 1] (su_desired s) \<and> 0 \<le> su_generation s
     \<and> 0 \<le> su_tries s \<and> (strict \<longrightarrow> su_tries s \<le> MAX_AUTO_SWITCHES) \<and> (su_tries s = 0 \<longleftrightarrow> su_cooldown s = None)
     \<and> 0 \<le> su_attempts s \<and> su_attempts s \<le> MAX_ATTEMPTS
     \<and> (su_gave_up_at s \<noteq> None \<longrightarrow> su_attempts s = MAX_ATTEMPTS) \<and> (su_last_error s \<noteq> None \<longleftrightarrow> su_gave_up_at s \<noteq> None)"

definition config_ok :: "bool \<Rightarrow> supervisor \<Rightarrow> string \<times> string \<Rightarrow> bool" where
  "config_ok strict s c \<longleftrightarrow> List.member (map model_arg CANDIDATES) (fst c) \<and> snd c = su_effort s
     \<and> (strict \<longrightarrow> fst c = model_arg (su_active_model s))"

definition manager_ok :: "bool \<Rightarrow> manager \<Rightarrow> bool" where
  "manager_ok strict m \<longleftrightarrow>
     (case mg_row m of
        None \<Rightarrow> mg_config m = None
      | Some s \<Rightarrow> row_ok strict s \<and> (case mg_config m of None \<Rightarrow> True | Some c \<Rightarrow> config_ok strict s c))"

lemma manager_ok_init: "manager_ok strict m \<Longrightarrow> get_or_init m = (s, m') \<Longrightarrow> manager_ok strict m' \<and> mg_row m' = Some s \<and> row_ok strict s"
  by (auto simp: get_or_init_def manager_ok_def default_row_def row_ok_def CANDIDATES_def MAX_AUTO_SWITCHES_def MAX_ATTEMPTS_def
      split: option.splits)

lemma config_ok_cong: "su_active_model t = su_active_model s \<Longrightarrow> su_effort t = su_effort s \<Longrightarrow> config_ok strict t c = config_ok strict s c"
  by (simp add: config_ok_def)

text \<open>A statement that leaves model and effort keeps the whole, when it keeps the row.\<close>

lemma upd_ok:
  assumes "manager_ok strict m" "\<And>s. mg_row m = Some s \<Longrightarrow> row_ok strict s \<Longrightarrow> row_ok strict (f s) \<and> su_active_model (f s) = su_active_model s \<and> su_effort (f s) = su_effort s"
  shows "manager_ok strict (upd_sup f m)"
proof (cases "mg_row m")
  case (Some s)
  then have "row_ok strict s" "case mg_config m of None \<Rightarrow> True | Some c \<Rightarrow> config_ok strict s c" using assms(1) by (simp_all add: manager_ok_def)
  then show ?thesis using Some assms(2) [OF Some] config_ok_cong [of "f s" s] by (cases "mg_config m") (simp_all add: manager_ok_def upd_sup_def)
qed (use assms(1) in \<open>simp add: manager_ok_def upd_sup_def\<close>)

lemma cache_ok [simp]: "manager_ok strict (m\<lparr>mg_cache := k\<rparr>) = manager_ok strict m" "manager_ok strict (m\<lparr>mg_inbox := d\<rparr>) = manager_ok strict m"
  by (simp_all add: manager_ok_def split: option.split)

lemma set_status_ok: "manager_ok strict m \<Longrightarrow> st = '''' \<or> st = ''waiting_quota'' \<Longrightarrow> manager_ok strict (set_status st m)"
  unfolding set_status_def by (rule upd_ok) (auto simp: row_ok_def)

lemma set_quota_reset_ok: "manager_ok strict m \<Longrightarrow> manager_ok strict (set_quota_reset r m)"
  unfolding set_quota_reset_def by (rule upd_ok) (auto simp: row_ok_def)

lemma bump_ok: "manager_ok strict m \<Longrightarrow> manager_ok strict (bump_generation m)"
  unfolding bump_generation_def by (rule upd_ok) (auto simp: row_ok_def)

lemma set_env_ok: "manager_ok strict m \<Longrightarrow> manager_ok strict (set_env b m)"
  unfolding set_env_def by (rule upd_ok) (auto simp: row_ok_def)

lemma clear_budget_ok: "manager_ok strict m \<Longrightarrow> manager_ok strict (clear_fallback_budget m)"
  unfolding clear_fallback_budget_def by (rule upd_ok) (auto simp: row_ok_def MAX_AUTO_SWITCHES_def)

lemma desired_ok: "manager_ok strict m \<Longrightarrow> manager_ok strict (snd (set_desired_running w m))"
  unfolding set_desired_running_def snd_conv by (rule upd_ok) (auto simp: row_ok_def MAX_ATTEMPTS_def)

lemma set_watchdog_ok:
  assumes "manager_ok strict m" "0 \<le> a" "a \<le> MAX_ATTEMPTS" "\<And>s. mg_row m = Some s \<Longrightarrow> a = 0 \<or> su_gave_up_at s = None \<or> a = MAX_ATTEMPTS"
  shows "manager_ok strict (set_watchdog a next m)"
  unfolding set_watchdog_def
proof (rule upd_ok [OF assms(1)])
  fix s
  assume "mg_row m = Some s" "row_ok strict s"
  then show "row_ok strict (s\<lparr>su_attempts := a, su_next_at := next, su_gave_up_at := if a = 0 then None else su_gave_up_at s,
        su_last_error := if a = 0 then None else su_last_error s\<rparr>)
      \<and> su_active_model (s\<lparr>su_attempts := a, su_next_at := next, su_gave_up_at := if a = 0 then None else su_gave_up_at s,
        su_last_error := if a = 0 then None else su_last_error s\<rparr>) = su_active_model s
      \<and> su_effort (s\<lparr>su_attempts := a, su_next_at := next, su_gave_up_at := if a = 0 then None else su_gave_up_at s,
        su_last_error := if a = 0 then None else su_last_error s\<rparr>) = su_effort s"
    using assms(2,3) assms(4) [of s] by (cases "a = 0") (auto simp: row_ok_def)
qed

lemma attempted_ok: "manager_ok strict m \<Longrightarrow> manager_ok strict (f m) \<Longrightarrow> manager_ok strict (attempted_write x f m)"
  by (simp add: attempted_write_def)

lemma start_init: "start_manager d launch m = start_manager d launch (snd (get_or_init m))"
proof -
  obtain s m1 where i: "get_or_init m = (s, m1)" by fastforce
  have "get_or_init m1 = (s, m1)" using get_or_init_row [OF i] by simp
  then show ?thesis by (simp add: start_manager_def i)
qed

lemma start_manager_ok:
  assumes "manager_ok strict m"
  shows "manager_ok strict (snd (start_manager d launch m))"
proof -
  obtain s m1 where i: "get_or_init m = (s, m1)" by fastforce
  have ok: "manager_ok strict m1" "mg_row m1 = Some s" using manager_ok_init [OF assms i] by simp_all
  obtain res m2 where st: "start_manager d launch m1 = (res, m2)" by fastforce
  show ?thesis
    using start_manager_cases [OF st ok(2)] ok(1) st start_init [of d launch m] i by (auto intro: set_status_ok bump_ok)
qed

lemma candidate_known: "List.member CANDIDATES (candidate x)"
  by (simp add: candidate_def CANDIDATES_def)

lemma candidate_self: "List.member CANDIDATES x \<Longrightarrow> candidate x = x"
  by (auto simp: candidate_def CANDIDATES_def)

section \<open>Switching\<close>

definition budget :: "manager \<Rightarrow> (int \<times> stamp option) option" where
  "budget m = map_option (\<lambda>s. (su_tries s, su_cooldown s)) (mg_row m)"

lemma budget_upd: "(\<And>s. su_tries (f s) = su_tries s \<and> su_cooldown (f s) = su_cooldown s) \<Longrightarrow> budget (upd_sup f m) = budget m"
  by (simp add: budget_def option.map_comp comp_def)

lemma budget_simps [simp]:
  "budget (set_status st m) = budget m" "budget (set_quota_reset r m) = budget m" "budget (bump_generation m) = budget m"
  "budget (set_env b m) = budget m" "budget (snd (set_desired_running w m)) = budget m" "budget (set_watchdog a next m) = budget m"
  "budget (mark_watchdog_gave_up why t m) = budget m"
  by (simp_all add: budget_upd set_status_def set_quota_reset_def bump_generation_def set_env_def set_desired_running_def
      set_watchdog_def mark_watchdog_gave_up_def)

lemma budget_other [simp]: "budget (m\<lparr>mg_cache := k\<rparr>) = budget m" "budget (m\<lparr>mg_inbox := d\<rparr>) = budget m" "budget (m\<lparr>mg_config := c\<rparr>) = budget m"
  by (simp_all add: budget_def)

lemma budget_attempted [simp]: "budget (f m) = budget m \<Longrightarrow> budget (attempted_write x f m) = budget m"
  by (simp add: attempted_write_def)

lemma budget_start: "mg_row m = Some s \<Longrightarrow> budget (snd (start_manager d launch m)) = budget m"
  using start_manager_cases [of d launch m "fst (start_manager d launch m)" "snd (start_manager d launch m)" s] by auto

lemma switch_now_ok:
  assumes "manager_ok strict m" "mg_row m = Some s" "List.member CANDIDATES next" "strict \<longrightarrow> su_tries s = 0 \<and> sw_record_ok e"
    and "switch_now e live next r (su_effort s) m = (res, m')"
  shows "manager_ok strict m'"
    "if res = Inr True then budget m' = Some (su_tries s + 1, Some (iso_in SWITCH_COOLDOWN_SECS (sw_now e))) else budget m' = budget m"
proof -
  let ?m3 = "m\<lparr>mg_config := Some (model_arg next, su_effort s)\<rparr>"
  have arg: "List.member (map model_arg CANDIDATES) (model_arg next)" using assms(3) by (auto simp: CANDIDATES_def)
  show "manager_ok strict m'"
    "if res = Inr True then budget m' = Some (su_tries s + 1, Some (iso_in SWITCH_COOLDOWN_SECS (sw_now e))) else budget m' = budget m"
  proof (atomize (full), cases "sw_record_ok e")
    case False
    then have "res = Inl Row_Unwritten" "m' = ?m3" using assms(5) by (simp_all add: switch_now_def)
    moreover have "manager_ok strict ?m3"
      using assms(1,2,4) arg False by (simp add: manager_ok_def config_ok_def)
    ultimately show "manager_ok strict m' \<and> (if res = Inr True then budget m' = Some (su_tries s + 1, Some (iso_in SWITCH_COOLDOWN_SECS (sw_now e)))
        else budget m' = budget m)" by simp
  next
    case True
    define m4 where "m4 = attempted_write (sw_reset_ok e) (set_quota_reset r)
        (set_active_model next (Some (iso_in SWITCH_COOLDOWN_SECS (sw_now e))) ?m3)"
    have "manager_ok strict (set_active_model next (Some (iso_in SWITCH_COOLDOWN_SECS (sw_now e))) ?m3)"
      using assms(1-4) arg by (auto simp: manager_ok_def set_active_model_def row_ok_def config_ok_def MAX_AUTO_SWITCHES_def)
    then have ok: "manager_ok strict m4" unfolding m4_def by (intro attempted_ok set_quota_reset_ok)
    have b: "budget m4 = Some (su_tries s + 1, Some (iso_in SWITCH_COOLDOWN_SECS (sw_now e)))"
      unfolding m4_def using assms(2) by (simp add: set_active_model_def budget_def set_quota_reset_def attempted_write_def)
    obtain s4 where s4: "mg_row m4 = Some s4" using b by (auto simp: budget_def)
    obtain x m5 where st: "start_manager (sw_world e) (sw_launch e) m4 = (x, m5)" by fastforce
    have m5: "manager_ok strict m5" "budget m5 = budget m4"
      using start_manager_ok [OF ok, of "sw_world e" "sw_launch e"] budget_start [OF s4, of "sw_world e" "sw_launch e"] st by simp_all
    have "switch_now e live next r (su_effort s) m = (Inr True,
        if \<not> (live = ''idle'' \<and> sw_applied e) \<and> live = ''idle'' \<and> sw_again e = Some ''idle''
        then (if x = Inr () then m5 else attempted_write (sw_status_ok e) (set_status '''') m5)
        else attempted_write (sw_status_ok e) (set_status '''') m4)"
      unfolding switch_now_def Let_def m4_def [symmetric] using True by (simp add: st)
    then have "res = Inr True" and cs: "m' = m5 \<or> m' = attempted_write (sw_status_ok e) (set_status '''') m5
        \<or> m' = attempted_write (sw_status_ok e) (set_status '''') m4"
      using assms(5) by (auto split: if_splits)
    then show "manager_ok strict m' \<and> (if res = Inr True then budget m' = Some (su_tries s + 1, Some (iso_in SWITCH_COOLDOWN_SECS (sw_now e)))
        else budget m' = budget m)"
      using ok b m5 by (auto intro: attempted_ok set_status_ok)
  qed
qed

definition over :: "stamp option \<Rightarrow> time \<Rightarrow> bool" where
  "over c now \<longleftrightarrow> (case c of None \<Rightarrow> True | Some t \<Rightarrow> past t now)"

text \<open>
  What a call does to the row and to the budget of switches, given the budget before: it switches only in an idle
  or stopped session whose cooldown is over.
\<close>

definition switch_effect :: "bool \<Rightarrow> switch_env \<Rightarrow> manager \<Rightarrow> bool \<Rightarrow> manager \<Rightarrow> bool" where
  "switch_effect strict e m yes m' \<longleftrightarrow>
     manager_ok strict m'
     \<and> (if yes
        then (case budget m of None \<Rightarrow> True | Some (n, c) \<Rightarrow> over c (sw_now e))
          \<and> (\<exists>n \<ge> 1. budget m' = Some (n, Some (iso_in SWITCH_COOLDOWN_SECS (sw_now e))))
          \<and> (sw_live e = Some ''idle'' \<or> sw_live e = Some ''stopped'')
        else budget m' = budget m \<or> budget m = None \<and> budget m' = Some (0, None)
          \<or> (case budget m of None \<Rightarrow> True | Some (n, c) \<Rightarrow> over c (sw_now e)) \<and> budget m' = Some (0, None))"

text \<open>The writes a strict row needs.\<close>

definition switch_written :: "switch_env \<Rightarrow> bool" where
  "switch_written e \<longleftrightarrow> sw_clear_ok e \<and> sw_record_ok e"

lemma switch_effect_init:
  assumes "get_or_init m0 = (s, m)" "switch_effect strict e m yes m'"
  shows "switch_effect strict e m0 yes m'"
  using assms by (auto simp: switch_effect_def get_or_init_def budget_def default_row_def over_def split: option.splits if_splits)

lemma switch_candidate_effect:
  assumes "manager_ok strict m0" "switch_candidate shown e q next r m0 = (res, m')" "strict \<longrightarrow> switch_written e"
  shows "switch_effect strict e m0 (res = Inr True) m'"
proof -
  obtain s m where i: "get_or_init m0 = (s, m)" by fastforce
  have ok: "manager_ok strict m" "mg_row m = Some s" "row_ok strict s" using manager_ok_init [OF assms(1) i] by simp_all
  have b: "budget m = Some (su_tries s, su_cooldown s)" using ok(2) by (simp add: budget_def)
  have tries: "0 \<le> su_tries s" "strict \<longrightarrow> su_tries s \<le> 1" "su_tries s = 0 \<longleftrightarrow> su_cooldown s = None"
    using ok(3) by (simp_all add: row_ok_def MAX_AUTO_SWITCHES_def)
  define lapsed where "lapsed = (case su_cooldown s of None \<Rightarrow> False | Some t \<Rightarrow> past t (sw_now e))"
  define m1 where "m1 = (if lapsed then attempted_write (sw_clear_ok e) clear_fallback_budget m else m)"
  define s1 where "s1 = (if lapsed \<and> sw_clear_ok e then s\<lparr>su_tries := 0, su_cooldown := None\<rparr> else s)"
  have m1: "manager_ok strict m1" "mg_row m1 = Some s1" "budget m1 = Some (su_tries s1, su_cooldown s1)"
  proof -
    show "manager_ok strict m1" using ok(1) clear_budget_ok by (simp add: m1_def attempted_ok)
    show "mg_row m1 = Some s1" "budget m1 = Some (su_tries s1, su_cooldown s1)"
      using ok(2) by (simp_all add: m1_def s1_def clear_fallback_budget_def budget_def attempted_write_def)
  qed
  have o: "over (su_cooldown s) (sw_now e) \<longleftrightarrow> lapsed \<or> su_cooldown s = None" by (simp add: over_def lapsed_def split: option.split)
  have eq: "switch_candidate shown e q next r m0 =
     (if su_bot s = None then (Inl Not_Configured, m)
      else if su_active_model s = next then (Inr False, m)
      else case sw_live e of
        None \<Rightarrow> (Inl Unreadable_Liveness, m)
      | Some live \<Rightarrow>
          if live \<noteq> ''idle'' \<and> live \<noteq> ''stopped'' then (Inl (Mid_Turn live), m)
          else if su_tries s1 \<ge> MAX_AUTO_SWITCHES \<and> (case su_cooldown s1 of None \<Rightarrow> False | Some t \<Rightarrow> \<not> past t (sw_now e))
          then (Inr False, attempted_write (sw_status_ok e) (set_status ''waiting_quota'')
                  (attempted_write (sw_reset_ok e) (set_quota_reset (quota_reset_at shown q)) m1))
          else if \<not> sw_config_ok e then (Inl Config_Unwritten, m1)
          else switch_now e live (candidate next) r (su_effort s1) m1)"
    unfolding switch_candidate_def i prod.case Let_def lapsed_def [symmetric] m1_def [symmetric] get_or_init_Some [OF m1(2)] by (rule refl)
  have unmoved: "switch_effect strict e m False m" using ok b by (simp add: switch_effect_def)
  have parked: "switch_effect strict e m False (attempted_write (sw_status_ok e) (set_status ''waiting_quota'')
      (attempted_write (sw_reset_ok e) (set_quota_reset x) m1))" for x
    using m1 b o by (auto simp: switch_effect_def s1_def intro!: attempted_ok set_status_ok set_quota_reset_ok)
  have failed: "switch_effect strict e m False m1" using m1 b o by (auto simp: switch_effect_def s1_def)
  have moved: "switch_effect strict e m (res' = Inr True) m''"
    if "\<not> (su_tries s1 \<ge> MAX_AUTO_SWITCHES \<and> (case su_cooldown s1 of None \<Rightarrow> False | Some t \<Rightarrow> \<not> past t (sw_now e)))"
      "sw_live e = Some ''idle'' \<or> sw_live e = Some ''stopped''"
      "switch_now e live (candidate next) r (su_effort s1) m1 = (res', m'')" for live res' m''
  proof -
    have free: "lapsed \<or> su_cooldown s = None"
      using that(1) tries by (auto simp: s1_def lapsed_def MAX_AUTO_SWITCHES_def split: option.splits if_splits)
    have strict: "strict \<longrightarrow> su_tries s1 = 0 \<and> sw_record_ok e"
      using free tries assms(3) by (auto simp: s1_def switch_written_def)
    have n: "0 \<le> su_tries s1" using tries(1) by (simp add: s1_def)
    have unspent: "budget m1 = budget m \<or> over (su_cooldown s) (sw_now e) \<and> budget m1 = Some (0, None)"
      using m1(3) b o by (auto simp: s1_def)
    show ?thesis
      using switch_now_ok [OF m1(1,2) candidate_known strict that(3)] b o free n that(2) unspent
      by (auto simp: switch_effect_def split: if_splits)
  qed
  have "switch_effect strict e m (res = Inr True) m'"
    using assms(2) unmoved parked failed moved unfolding eq by (auto split: option.splits if_splits)
  then show ?thesis by (rule switch_effect_init [OF i])
qed

section \<open>The watchdog\<close>

text \<open>What an operation leaves that does not switch.\<close>

definition still :: "bool \<Rightarrow> manager \<Rightarrow> manager \<Rightarrow> bool" where
  "still strict m m' \<longleftrightarrow> manager_ok strict m' \<and> (budget m' = budget m \<or> budget m = None \<and> budget m' = Some (0, None))"

lemma still_trans: "still strict m u \<Longrightarrow> still strict u v \<Longrightarrow> still strict m v"
  by (auto simp: still_def)

lemma still_init: "manager_ok strict m \<Longrightarrow> get_or_init m = (s, m') \<Longrightarrow> still strict m m'"
  using manager_ok_init [of strict m s m'] by (auto simp: still_def get_or_init_def budget_def default_row_def split: option.splits)

lemma mark_ok:
  assumes "manager_ok strict m" "\<And>s. mg_row m = Some s \<Longrightarrow> su_attempts s = MAX_ATTEMPTS"
  shows "manager_ok strict (mark_watchdog_gave_up why t m)"
  unfolding mark_watchdog_gave_up_def by (rule upd_ok [OF assms(1)]) (use assms(2) in \<open>auto simp: row_ok_def\<close>)

lemma report_still:
  assumes "manager_ok strict m" "mg_row m = Some s" "su_attempts s = MAX_ATTEMPTS"
  shows "still strict m (report_gave_up shown why e m)"
proof -
  have ok: "manager_ok strict (mark_watchdog_gave_up why (we_wall e) m)" by (rule mark_ok) (use assms in auto)
  have "budget (mark_watchdog_gave_up why (we_wall e) m) = budget m" by simp
  moreover obtain s' where "mg_row (mark_watchdog_gave_up why (we_wall e) m) = Some s'"
    using assms(2) by (simp add: mark_watchdog_gave_up_def)
  ultimately show ?thesis using ok by (auto simp: still_def report_gave_up_def split: option.split)
qed

lemma retry_still:
  assumes "manager_ok strict m" "mg_row m = Some s" "su_gave_up_at s = None" "0 \<le> a" "a \<le> MAX_ATTEMPTS"
  shows "still strict m (retry_in a e m)"
  using set_watchdog_ok [OF assms(1,4,5)] assms(2,3) by (auto simp: still_def retry_in_def Let_def)

lemma plan_now_still: "manager_ok strict m \<Longrightarrow> plan_now s live wall tick m = (p, m') \<Longrightarrow> still strict m m'"
  by (auto simp: still_def plan_now_def Let_def split: option.splits if_splits)

lemma open_row: "row_ok strict s \<Longrightarrow> su_attempts s < MAX_ATTEMPTS \<Longrightarrow> su_gave_up_at s = None"
  by (auto simp: row_ok_def)

lemma start_still: "manager_ok strict m \<Longrightarrow> mg_row m = Some s \<Longrightarrow> still strict m (snd (start_manager d launch m))"
  by (simp add: still_def start_manager_ok budget_start)

lemma watchdog_start_still:
  assumes "manager_ok strict m" "mg_row m = Some s" "we_race e = id"
  shows "still strict m (snd (watchdog_start shown b (su_attempts s) e m))"
proof -
  have row: "mg_row (we_race e m) = Some s" using assms(2,3) by simp
  show ?thesis
  proof (cases "we_locked e")
    case None
    then show ?thesis using assms row by (simp add: watchdog_start_def still_def)
  next
    case (Some d)
    obtain p m1 where p: "plan_now s (manager_liveness b d) (we_wall e) (we_mono e) (we_race e m) = (p, m1)" by fastforce
    have s1: "still strict m m1" "mg_row m1 = Some s" using plan_now_still [of strict m] plan_now_row [OF p] assms p by simp_all
    show ?thesis
    proof (cases "p = Start")
      case False
      then show ?thesis using row Some p s1(1) by (simp add: watchdog_start_def)
    next
      case True
      obtain res m2 where st: "start_manager (we_world e) (we_launch e) m1 = (res, m2)" by fastforce
      have ok1: "manager_ok strict m1" "row_ok strict s" using s1 assms(1,2) by (auto simp: still_def manager_ok_def)
      have a: "su_attempts s < MAX_ATTEMPTS" "0 \<le> su_attempts s" using plan_now_start p True ok1(2) by (auto simp: row_ok_def)
      have s2: "still strict m m2" using still_trans [OF s1(1) start_still [OF ok1(1) s1(2)]] st by (metis snd_conv)
      obtain r where r: "mg_row m2 = Some r" "su_gave_up_at r = None" "su_attempts r = su_attempts s"
        using start_manager_row(1) [OF st s1(2)] open_row [OF ok1(2) a(1)] by auto
      have ok2: "manager_ok strict m2" using s2 by (simp add: still_def)
      have retry: "still strict m (retry_in (su_attempts s + 1) e m2)"
        using still_trans [OF s2 retry_still [OF ok2 r(1,2)]] a by simp
      have rep: "still strict m (report_gave_up shown (we_why e) e (set_watchdog (su_attempts s + 1) None m2\<lparr>mg_cache := k\<rparr>))"
        if "MAX_ATTEMPTS \<le> su_attempts s + 1" for k
      proof -
        have last: "su_attempts s + 1 = MAX_ATTEMPTS" using that a(1) by simp
        let ?m3 = "set_watchdog (su_attempts s + 1) None m2\<lparr>mg_cache := k\<rparr>"
        have "manager_ok strict (set_watchdog (su_attempts s + 1) None m2)" by (rule set_watchdog_ok [OF ok2]) (use a last in auto)
        then have m3: "still strict m2 ?m3" by (simp add: still_def)
        obtain s3 where "mg_row ?m3 = Some s3" "su_attempts s3 = MAX_ATTEMPTS" using r(1) last by (simp add: set_watchdog_def)
        then show ?thesis using still_trans [OF still_trans [OF s2 m3] report_still] m3 by (auto simp: still_def)
      qed
      show ?thesis
        using watchdog_start_eq [OF row Some p [unfolded True] st, of shown "su_attempts s"] retry rep by (auto split: if_splits)
    qed
  qed
qed

lemma watchdog_still:
  assumes "manager_ok strict m0" "we_race e = id"
  shows "still strict m0 (snd (watchdog_tick shown e m0))"
proof -
  obtain s m where i: "get_or_init m0 = (s, m)" by fastforce
  have ok: "manager_ok strict m" "mg_row m = Some s" "row_ok strict s" using manager_ok_init [OF assms(1) i] by simp_all
  have "still strict m (snd (watchdog_tick shown e m))"
  proof (cases "su_bot s = None \<or> we_seen e = None")
    case True
    then show ?thesis using ok by (auto simp: watchdog_tick_def still_def split: option.split)
  next
    case False
    then obtain b d where d: "su_bot s = Some b" "we_seen e = Some d" by auto
    obtain p m1 where p: "plan_now s (manager_liveness b d) (we_wall e) (we_mono e) m = (p, m1)" by fastforce
    have s1: "still strict m m1" "mg_row m1 = Some s" "manager_ok strict m1"
      using plan_now_still [OF ok(1) p] plan_now_row [OF p] ok(2) by (simp_all add: still_def)
    show ?thesis
    proof (cases p)
      case Idle
      have z: "manager_ok strict (set_watchdog 0 None m1)" by (rule set_watchdog_ok [OF s1(3)]) (simp_all add: MAX_ATTEMPTS_def)
      then have "still strict m1 (set_watchdog 0 None m1\<lparr>mg_cache := k\<rparr>)" for k by (simp add: still_def)
      then show ?thesis using s1 d p Idle ok(2) still_trans [OF s1(1)] by (simp add: watchdog_tick_def Let_def)
    next
      case (Wait w)
      have a: "su_attempts s < MAX_ATTEMPTS" "0 \<le> su_attempts s"
        using p Wait ok(3) by (auto simp: plan_now_def plan_of_def plan_for_def watched_of_def row_ok_def Let_def split: if_splits option.splits)
      then have "still strict m (retry_in (su_attempts s) e m1)"
        using still_trans [OF s1(1) retry_still [OF s1(3,2) open_row [OF ok(3) a(1)]]] by simp
      then show ?thesis using s1(1) d p Wait ok(2) by (cases w) (simp_all add: watchdog_tick_def Let_def)
    next
      case Start
      then show ?thesis
        using still_trans [OF s1(1) watchdog_start_still [OF s1(3,2) assms(2)]] d p ok(2) by (simp add: watchdog_tick_def Let_def)
    next
      case Gave_Up
      have "su_attempts s = MAX_ATTEMPTS"
        using p Gave_Up ok(3) by (auto simp: plan_now_def plan_of_def plan_for_def watched_of_def row_ok_def Let_def split: if_splits option.splits)
      then show ?thesis
        using still_trans [OF s1(1) report_still [OF s1(3,2)]] d p ok(2) Gave_Up by (simp add: watchdog_tick_def Let_def)
    qed
  qed
  moreover have "watchdog_tick shown e m = watchdog_tick shown e m0" using ok(2) by (simp add: watchdog_tick_def i)
  ultimately show ?thesis using still_trans [OF still_init [OF assms(1) i]] by simp
qed

section \<open>Every operation\<close>

lemma still_effect: "still strict m m' \<Longrightarrow> switch_effect strict e m False m'"
  by (auto simp: still_def switch_effect_def)

lemma effect_still:
  assumes "switch_effect strict e m yes u" "still strict u v" "budget u \<noteq> None"
  shows "switch_effect strict e m yes v"
  using assms by (auto simp: still_def switch_effect_def)

lemma policy_effect:
  assumes "manager_ok strict m0" "apply_quota_policy shown live e q m0 = (res, m')" "strict \<longrightarrow> switch_written e"
  shows "switch_effect strict e m0 (res = Inr True) m'"
proof -
  obtain s m where i: "get_or_init m0 = (s, m)" by fastforce
  have ok: "manager_ok strict m" "mg_row m = Some s" using manager_ok_init [OF assms(1) i] by simp_all
  have "switch_effect strict e m False m"
    "switch_effect strict e m False (attempted_write a (set_status ''waiting_quota'') (attempted_write c (set_quota_reset r) m))"
    "switch_effect strict e m False (attempted_write a (set_status '''') (attempted_write c (set_quota_reset r) m))" for r a c
    using ok(1) by (simp_all add: switch_effect_def attempted_ok set_status_ok set_quota_reset_ok)
  then have "switch_effect strict e m (res = Inr True) m'"
    using assms(2) switch_candidate_effect [OF ok(1) _ assms(3), of shown q _ _ res m']
    by (auto simp: apply_quota_policy_def i split: if_splits option.splits decision.splits)
  then show ?thesis by (rule switch_effect_init [OF i])
qed

lemma fallback_effect:
  assumes "manager_ok strict m0" "post_fallback shown e q x m0 = (res, m')" "strict \<longrightarrow> switch_written e"
  shows "switch_effect strict e m0 (res = Inr True) m'"
proof -
  obtain s m where i: "get_or_init m0 = (s, m)" by fastforce
  have ok: "manager_ok strict m" using manager_ok_init [OF assms(1) i] by simp
  then have "switch_effect strict e m False m" by (simp add: switch_effect_def)
  then have "switch_effect strict e m (res = Inr True) m'"
    using assms(2) switch_candidate_effect [OF ok _ assms(3), of shown q _ _ res m']
    by (auto simp: post_fallback_def i split: if_splits option.splits)
  then show ?thesis by (rule switch_effect_init [OF i])
qed

lemma start_requested_effect:
  assumes "manager_ok strict m0" "strict \<longrightarrow> switch_written e"
  shows "switch_effect strict e m0 (fst (apply_quota_policy shown live e q m0) = Inr True) (snd (start_requested shown live e q d launch m0))"
proof -
  obtain res m1 where p: "apply_quota_policy shown live e q m0 = (res, m1)" by fastforce
  note eff = policy_effect [OF assms(1) p assms(2)]
  obtain s m where i: "get_or_init m1 = (s, m)" by fastforce
  have ok1: "manager_ok strict m1" using eff by (simp add: switch_effect_def split: if_splits)
  have ok: "manager_ok strict m" "mg_row m = Some s" using manager_ok_init [OF ok1 i] by simp_all
  have row: "budget m1 \<noteq> None"
  proof -
    obtain s0 u where u: "get_or_init m0 = (s0, u)" by fastforce
    have r: "mg_row u = Some s0" "manager_ok strict u" using manager_ok_init [OF assms(1) u] by simp_all
    have "apply_quota_policy shown live e q u = (res, m1)" using p by (simp add: apply_quota_policy_def u r(1))
    then have "switch_effect strict e u (res = Inr True) m1" using policy_effect [OF r(2) _ assms(2)] by blast
    moreover have "budget u \<noteq> None" using r(1) by (simp add: budget_def)
    ultimately show ?thesis by (auto simp: switch_effect_def split: if_splits)
  qed
  have m: "still strict m1 m" by (rule still_init [OF ok1 i])
  have "still strict m (snd (set_desired_running True m))" using desired_ok [OF ok(1)] by (simp add: still_def)
  moreover obtain s2 where "mg_row (snd (set_desired_running True m)) = Some s2" using ok(2) by (simp add: set_desired_running_def)
  ultimately have "still strict m1 (snd (start_manager d launch (snd (set_desired_running True m))))"
    using still_trans [OF still_trans [OF m] start_still] by (simp add: still_def)
  then have "still strict m1 (snd (start_requested shown live e q d launch m0))"
    using m by (auto simp: start_requested_def p i)
  then show ?thesis using effect_still [OF eff _ row] p by simp
qed

lemma stop_still:
  assumes "manager_ok strict m0"
  shows "still strict m0 (snd (stop_requested d stopped m0))"
proof -
  obtain s m where i: "get_or_init m0 = (s, m)" by fastforce
  have "manager_ok strict m" using manager_ok_init [OF assms i] by simp
  then have "still strict m m" "still strict m (snd (set_desired_running False m))" by (simp_all add: still_def desired_ok)
  then show ?thesis using still_trans [OF still_init [OF assms i]] by (simp add: stop_requested_def i)
qed

lemma set_up_still:
  assumes "manager_ok strict m0"
  shows "still strict m0 (set_env b (snd (get_or_init m0)))"
proof -
  obtain s m where i: "get_or_init m0 = (s, m)" by fastforce
  have "manager_ok strict m" using manager_ok_init [OF assms i] by simp
  then have "still strict m (set_env b m)" by (simp add: still_def set_env_ok)
  then show ?thesis using still_trans [OF still_init [OF assms i]] by (simp add: i)
qed

text \<open>Every switch among the operations can write what a strict row needs.\<close>

definition writes_done :: "manager_op \<Rightarrow> bool" where
  "writes_done x \<longleftrightarrow> (case op_env x of None \<Rightarrow> True | Some e \<Rightarrow> switch_written e)"

lemma step_effect:
  assumes "manager_ok strict m" "calm x" "strict \<longrightarrow> writes_done x"
  shows "case op_env x of None \<Rightarrow> \<not> switched shown x m \<and> still strict m (manager_step shown x m)
      | Some e \<Rightarrow> switch_effect strict e m (switched shown x m) (manager_step shown x m)"
proof (cases x)
  case (Policy live e q)
  then show ?thesis using policy_effect [OF assms(1) prod.collapse [symmetric]] assms(3) by (simp add: writes_done_def)
next
  case (Fallback e q y)
  then show ?thesis using fallback_effect [OF assms(1) prod.collapse [symmetric]] assms(3) by (simp add: writes_done_def)
next
  case (Start_It live e q d launch)
  then show ?thesis using start_requested_effect [OF assms(1)] assms(3) by (simp add: writes_done_def)
qed (use assms stop_still watchdog_still set_up_still in auto)

end
