(* ===== verification/Manager_Properties.thy ===== *)
theory Manager_Properties
  imports Manager_Safety Sample_Data
begin

text \<open>
  The properties of the supervisor's row and its watchdog, with witnesses that run a day of switches and an outage.
\<close>

section \<open>Switches of the model\<close>

definition not_set_up :: "db \<Rightarrow> manager" where
  "not_set_up d = \<lparr>mg_row = None, mg_config = None, mg_cache = [], mg_inbox = d\<rparr>"








definition fable_low :: "quota" where
  "fable_low =
     \<lparr>qu_five_hour = None, qu_seven_day = None, qu_fable = Some \<lparr>wi_used = Fin 97, wi_resets = Some (At 90000000), wi_observed = Some (At 0)\<rparr>,
      qu_credits = None, qu_hit = None, qu_plan = None, qu_updated_at = At 0, qu_source = ''claude-usage'', qu_account = None,
      qu_host = LOCAL_HOST\<rparr>"

definition met :: "time \<Rightarrow> switch_env" where
  "met now = \<lparr>sw_now = now, sw_live = Some ''stopped'', sw_config_ok = True, sw_applied = False, sw_again = None, sw_world = sample, sw_launch = True,
     sw_clear_ok = True, sw_record_ok = True, sw_reset_ok = True, sw_status_ok = True\<rparr>"



section \<open>The watchdog\<close>

text \<open>
  C37. During an outage of a supervisor that is wanted, whatever the starts return and whatever the wall clock does,
  the watchdog attempts at most five starts. When the supervisor is seen stopped at seven ticks or more, five
  minutes apart on the monotonic clock, it attempts exactly five and ends with exactly one event in the
  inbox that says so, and adds nothing afterwards, provided the inbox takes the event. Nobody else moves the attempts in
  the row meanwhile.
\<close>

theorem watchdog_ends:
  assumes "mg_row m = Some s" "wanted_row b s" "su_attempts s = 0" "su_next_at s = None" "su_gave_up_at s = None"
    and "list_all (down b) es"
  shows "length (fst (ticks shown es m)) \<le> 5
    \<and> (list_all (hopeless shown b (mg_inbox m)) es \<and> spaced (5 * 60 * 1000) (map we_mono es) \<and> 7 \<le> length es
        \<longrightarrow> length (fst (ticks shown es m)) = 5 \<and> reported shown b (mg_inbox m) (snd (ticks shown es m)))"
proof -
  have "attempted b 0 m" using assms(1-3) by (simp add: attempted_iff wanted_row_def)
  then have bound: "length (fst (ticks shown es m)) \<le> 5"
    using patrol_retries.starts_bounded [of b 0 m es shown "fst (ticks shown es m)" "snd (ticks shown es m)"] assms(6) by (simp add: MAX_ATTEMPTS_def ticks_def)
  have "length (fst (ticks shown es m)) = 5 \<and> reported shown b (mg_inbox m) (snd (ticks shown es m))"
    if h: "list_all (hopeless shown b (mg_inbox m)) es" and sp: "spaced (5 * 60 * 1000) (map we_mono es)" and n: "7 \<le> length es"
  proof -
    obtain e es' where es: "es = e # es'" using n by (cases es) auto
    obtain m1 where t: "watchdog_tick shown e m = (None, m1)" "stage b (mg_inbox m) 0 (we_mono e) m1"
      using tick_first [OF assms(1-5), of shown e] h es by (cases "watchdog_tick shown e m") auto
    have "int (length (fst (ticks shown es' m1))) = MAX_ATTEMPTS - 0 \<and> reported shown b (mg_inbox m) (snd (ticks shown es' m1))"
      unfolding ticks_def by (rule patrol_outage.outage_ends [OF t(2)]) (use h sp n es in \<open>simp_all add: MAX_ATTEMPTS_def\<close>)
    then show ?thesis using t(1) by (simp add: es MAX_ATTEMPTS_def split: prod.split)
  qed
  with bound show ?thesis by blast
qed

text \<open>An outage in which every second start fails and the wall clock stands still.\<close>

definition outage_tick :: "nat \<Rightarrow> watch_env" where
  "outage_tick i =
     \<lparr>we_wall = 1000, we_mono = 300000 * int i, we_seen = Some (sample\<lparr>runs := []\<rparr>), we_race = id, we_locked = Some (sample\<lparr>runs := []\<rparr>),
      we_world = sample\<lparr>runs := []\<rparr>, we_launch = (i mod 2 = 0), we_push = True, we_event = ''E'', we_why = ''failed''\<rparr>"

definition wanted :: manager where
  "wanted = (not_set_up sample)\<lparr>mg_row := Some (default_row\<lparr>su_bot := Some ''B'', su_desired := 1, su_generation := 1\<rparr>)\<rparr>"

theorem watchdog_ends_witness:
  "reported (\<lambda>_. ''t'') ''B'' sample (snd (ticks (\<lambda>_. ''t'') (map outage_tick [0..<8]) wanted))
     \<and> length (fst (ticks (\<lambda>_. ''t'') (map outage_tick [0..<8]) wanted)) = 5"
proof -
  let ?s = "default_row\<lparr>su_bot := Some ''B'', su_desired := 1, su_generation := 1\<rparr>"
  have l: "manager_liveness ''B'' (sample\<lparr>runs := []\<rparr>) = ''stopped''" by (simp add: manager_liveness_def active_run_def)
  have i: "inbox sample = []" by (simp add: sample_def)
  have up: "[0..<8::nat] = [0, 1, 2, 3, 4, 5, 6, 7]" by (simp add: upt_rec)
  have row: "mg_row wanted = Some ?s" "wanted_row ''B'' ?s" "su_attempts ?s = 0" "su_next_at ?s = None" "su_gave_up_at ?s = None" "mg_inbox wanted = sample"
    by (simp_all add: wanted_def wanted_row_def wants_running_def default_row_def not_set_up_def)
  have d: "list_all (down ''B'') (map outage_tick [0..<8])" by (simp add: up down_def outage_tick_def l same_counters_def)
  have h: "list_all (hopeless (\<lambda>_. ''t'') ''B'' sample) (map outage_tick [0..<8])"
    by (simp add: up hopeless_def outage_tick_def l i)
  have sp: "spaced (5 * 60 * 1000) (map we_mono (map outage_tick [0..<8]))" by (simp add: up outage_tick_def)
  show ?thesis using watchdog_ends [OF row(1-5) d, of "\<lambda>_. ''t''"] h sp unfolding row(6) by simp
qed

section \<open>The row\<close>



text \<open>
  When the switch cannot be recorded, config.toml names the new model and the row the old one; and when the spent budget
  cannot be cleared, the next switch counts as the second.
\<close>

lemma unrecorded_switch:
  "(let m = snd (manager_steps (\<lambda>_. []) [Set_Up ''B'', Policy (Some ''stopped'') ((met 1000)\<lparr>sw_record_ok := False\<rparr>) (Some fable_low)] (not_set_up sample))
    in map_option su_active_model (mg_row m) = Some ''fable'' \<and> mg_config m = Some (''claude-opus-5-5'', ''low''))"
  "(let m = snd (manager_steps (\<lambda>_. []) [Set_Up ''B'', Policy (Some ''stopped'') (met 1000) (Some fable_low),
          Fallback ((met 1801000)\<lparr>sw_clear_ok := False\<rparr>) (Some fable_low) None] (not_set_up sample))
    in map_option su_tries (mg_row m) = Some 2)"
  by code_simp+

section \<open>A wait that does not wait\<close>

text \<open>
  Parked because both models were tried, with a reading whose five-hour reset has passed: the soonest reset the
  row records is that one, so the next tick resumes and the one after parks again, over and over.
\<close>

definition stale_five :: quota where
  "stale_five = fable_low\<lparr>qu_five_hour := Some \<lparr>wi_used = Fin 20, wi_resets = Some (At 500), wi_observed = Some (At 0)\<rparr>\<rparr>"

definition back_on_fable :: manager where
  "back_on_fable = wanted\<lparr>mg_row := Some (default_row\<lparr>su_bot := Some ''B'', su_desired := 1, su_tries := 1, su_cooldown := Some (At 1800000)\<rparr>)\<rparr>"

lemma parked_and_resumed:
  "map (\<lambda>n. map_option su_status (mg_row (snd (manager_steps (\<lambda>_. [])
      (map (\<lambda>i. Policy (Some ''stopped'') (met (1000 + 5000 * int i)) (Some stale_five)) [0..<n]) back_on_fable)))) [1, 2, 3, 4]
    = [Some ''waiting_quota'', Some '''', Some ''waiting_quota'', Some '''']"
  by code_simp

end
