(* ===== verification/Failover.thy ===== *)
theory Failover
  imports Window_Approvals "HOL-Library.AList"
begin

text \<open>
  What happens to approval requests when the responder is down (\<open>supervisor/failover.rs\<close>), and how the
  daemon knows (\<open>role_state\<close> of \<open>supervisor/health.rs\<close>, the table of \<open>supervisor/role_faults.rs\<close>). What
  a pane shows and whether a read or a statement succeeds are arguments.
\<close>

section \<open>Faults seen by the health tick\<close>

definition REASON_NEEDS_LOGIN :: string where
  "REASON_NEEDS_LOGIN = ''needs_login''"

definition REASON_WAITING_QUOTA :: string where
  "REASON_WAITING_QUOTA = ''waiting_quota''"

definition REASON_NO_RUN :: string where
  "REASON_NO_RUN = ''no_run''"

definition REASON_NOTIFY_STALLED :: string where
  "REASON_NOTIFY_STALLED = ''notify_stalled''"

definition NOTIFY_STALL_LIMIT :: nat where
  "NOTIFY_STALL_LIMIT = 3"

definition WATCHED :: "role list" where
  "WATCHED = [Responder, Patrol]"

record role_fault =
  rf_reason :: "string option"
  rf_failed_turns :: "ident set"
  rf_probe_failed :: bool
  rf_since :: "time option"

type_synonym fault_table = "(string \<times> role_fault) list"

definition no_fault :: role_fault where
  "no_fault = \<lparr>rf_reason = None, rf_failed_turns = {}, rf_probe_failed = False, rf_since = None\<rparr>"

definition fault_entry :: "fault_table \<Rightarrow> string \<Rightarrow> role_fault" where
  "fault_entry t r = (case map_of t r of Some f \<Rightarrow> f | None \<Rightarrow> no_fault)"

text \<open>What \<open>refresh\<close> makes of one look: \<open>Some True\<close> a login screen, \<open>None\<close> nothing could be read.\<close>

definition refreshed :: "bool option \<Rightarrow> time \<Rightarrow> role_fault \<Rightarrow> role_fault" where
  "refreshed probe now f =
     (let logged_out = (case probe of Some v \<Rightarrow> v | None \<Rightarrow> rf_reason f = Some REASON_NEEDS_LOGIN);
          reason = (if logged_out then Some REASON_NEEDS_LOGIN
                    else if card (rf_failed_turns f) \<ge> NOTIFY_STALL_LIMIT then Some REASON_NOTIFY_STALLED
                    else None)
      in f\<lparr>rf_probe_failed := (probe = None),
           rf_since := (if rf_reason f \<noteq> reason then map_option (\<lambda>_. now) reason else rf_since f),
           rf_reason := reason\<rparr>)"

definition refresh_role :: "bool \<Rightarrow> bool option \<Rightarrow> time \<Rightarrow> role \<Rightarrow> fault_table \<Rightarrow> fault_table" where
  "refresh_role configured probe now r t =
     (if \<not> configured then AList.delete (role_str r) t
      else AList.update (role_str r) (refreshed probe now (fault_entry t (role_str r))) t)"

definition refresh :: "(role \<Rightarrow> bool) \<Rightarrow> (role \<Rightarrow> bool option) \<Rightarrow> time \<Rightarrow> fault_table \<Rightarrow> fault_table" where
  "refresh configured probe now t = fold (\<lambda>r. refresh_role (configured r) (probe r) now r) WATCHED t"

definition fault_reason :: "fault_table \<Rightarrow> role \<Rightarrow> string option" where
  "fault_reason t r = Option.bind (map_of t (role_str r)) rf_reason"

definition note_notify_round :: "string \<Rightarrow> ident set \<Rightarrow> bool \<Rightarrow> fault_table \<Rightarrow> fault_table" where
  "note_notify_round r failed any_completed t =
     (if \<not> list_ex (\<lambda>w. role_str w = r) WATCHED then t
      else if failed = {} \<and> \<not> any_completed then t
      else
        (let f = fault_entry t r in
         AList.update r (f\<lparr>rf_failed_turns := (if any_completed then {} else rf_failed_turns f \<union> failed)\<rparr>) t))"

section \<open>Can a role work\<close>

datatype role_state = NotConfigured | Available | Unavailable string | Unknown

text \<open>
  The arguments are what the reads answer, \<open>None\<close> for a failed one: the bot and status of the role's row,
  whether that bot is there and not deleted, whether it has an active run; then the table of faults.
\<close>

definition role_state ::
  "(ident option \<times> string) option \<Rightarrow> bool option \<Rightarrow> bool option \<Rightarrow> string option \<Rightarrow> role_state" where
  "role_state row there active fault =
     (case row of
        None \<Rightarrow> Unknown
      | Some (None, _) \<Rightarrow> NotConfigured
      | Some (Some _, status) \<Rightarrow>
          if status = ''needs_login'' then Unavailable REASON_NEEDS_LOGIN
          else if status = ''waiting_quota'' then Unavailable REASON_WAITING_QUOTA
          else (case there of
                  None \<Rightarrow> Unknown
                | Some False \<Rightarrow> Unavailable REASON_NO_RUN
                | Some True \<Rightarrow>
                    (case active of
                       None \<Rightarrow> Unknown
                     | Some False \<Rightarrow> Unavailable REASON_NO_RUN
                     | Some True \<Rightarrow> (case fault of Some r \<Rightarrow> Unavailable r | None \<Rightarrow> Available))))"

definition reason_of :: "role_state \<Rightarrow> string option" where
  "reason_of s = (case s of Unavailable r \<Rightarrow> Some r | _ \<Rightarrow> None)"

definition is_unavailable :: "role_state \<Rightarrow> bool" where
  "is_unavailable s = (case s of Unavailable _ \<Rightarrow> True | _ \<Rightarrow> False)"

definition responder_unavailable :: "role_state \<Rightarrow> string option" where
  "responder_unavailable s = (if \<not> is_unavailable s then None else reason_of s)"

section \<open>Handing approvals over\<close>

definition REASSIGN_AFTER_SECS :: int where
  "REASSIGN_AFTER_SECS = 300"

definition STALLED_AFTER_SECS :: int where
  "STALLED_AFTER_SECS = 1800"

definition REASSIGNABLE :: string where
  "REASSIGNABLE = ''approval_requested''"

text \<open>Whole seconds, cut towards zero.\<close>

definition age_secs :: "time \<Rightarrow> time \<Rightarrow> int" where
  "age_secs since now = (if since \<le> now then (now - since) div 1000 else - ((since - now) div 1000))"

definition should_reassign :: "int \<Rightarrow> string \<Rightarrow> string option \<Rightarrow> bool" where
  "should_reassign age own unavailable \<longleftrightarrow> unavailable \<noteq> None \<and> own = role_str Responder \<and> age \<ge> REASSIGN_AFTER_SECS"

definition approval_named :: "json \<Rightarrow> string option" where
  "approval_named p = Option.bind (case json_get ''approval_id'' p of Some v \<Rightarrow> Some v | None \<Rightarrow> json_get ''id'' p) as_str"

definition approval_needs_no_decision :: "approval table \<Rightarrow> inbox_event \<Rightarrow> time \<Rightarrow> bool" where
  "approval_needs_no_decision aps e now =
     (case approval_named (i_payload e) of
        None \<Rightarrow> False
      | Some i \<Rightarrow>
          (case map_of aps i of
             None \<Rightarrow> False
           | Some a \<Rightarrow> ap_status a \<noteq> ''pending'' \<or> expired_at (effective_expiry a) now))"

definition handed_payload :: "string \<Rightarrow> string \<Rightarrow> json \<Rightarrow> json" where
  "handed_payload reason stamp p =
     (case p of
        JObj ms \<Rightarrow>
          JObj (member_set ''to_role'' (JStr (role_str Patrol)) (member_set ''reassigned_at'' (JStr stamp)
                 (member_set ''reassigned_reason'' (JStr reason) (member_set ''reassigned_from'' (JStr (role_str Responder)) ms))))
      | _ \<Rightarrow> p)"

definition handed_over :: "json \<Rightarrow> time \<Rightarrow> inbox_event \<Rightarrow> inbox_event" where
  "handed_over p now e =
     e\<lparr>i_role := Some ''patrol'', i_claimed_by := None, i_wake := Some True, i_state := ''pending'', i_payload := p,
       i_attempts := 0, i_next_at := None, i_notify_turn := None, i_notify_delivery := None, i_error := None,
       i_delivered_at := None, i_updated_at := now\<rparr>"

definition reassign_one :: "ident \<times> inbox_event \<Rightarrow> string \<Rightarrow> string \<Rightarrow> time \<Rightarrow> db \<Rightarrow> bool \<times> db" where
  "reassign_one x reason stamp now d =
     (let (d', n) = update_event (fst x) (\<lambda>e. owner e = Some ''responder'' \<and> i_state e \<noteq> ''handled'')
                      (handed_over (handed_payload reason stamp (i_payload (snd x))) now) d
      in (0 < n, d'))"

definition settle_approval_event :: "ident \<Rightarrow> time \<Rightarrow> db \<Rightarrow> db" where
  "settle_approval_event i now d =
     fst (update_event i (\<lambda>e. i_state e \<noteq> ''handled'')
       (\<lambda>e. e\<lparr>i_state := ''handled'', i_acked_by := Some ''daemon'', i_updated_at := now\<rparr>) d)"

text \<open>
  What the database does in one pass: the instant and its text, whether the list can be read, for which events the approval can be
  read, and for which the write succeeds.
\<close>

record failover_env =
  fo_now :: time
  fo_text :: string
  fo_listed :: bool
  fo_readable :: "ident \<Rightarrow> bool"
  fo_writable :: "ident \<Rightarrow> bool"

definition failover_step ::
  "failover_env \<Rightarrow> string option \<Rightarrow> approval table \<Rightarrow> ident \<times> inbox_event \<Rightarrow> nat \<times> db \<Rightarrow> nat \<times> db" where
  "failover_step v unavailable aps x s =
     (let (moved, d) = s in
      if \<not> fo_readable v (fst x) then (moved, d)
      else if approval_needs_no_decision aps (snd x) (fo_now v) then
        (moved, if fo_writable v (fst x) then settle_approval_event (fst x) (fo_now v) d else d)
      else
        (case unavailable of
           None \<Rightarrow> (moved, d)
         | Some reason \<Rightarrow>
             if \<not> should_reassign (age_secs (i_created_at (snd x)) (fo_now v)) (owner_or_default (snd x)) (Some reason) then (moved, d)
             else if \<not> fo_writable v (fst x) then (moved, d)
             else (let (yes, d') = reassign_one x reason (fo_text v) (fo_now v) d in (if yes then moved + 1 else moved, d'))))"

definition open_approval_events :: "db \<Rightarrow> inbox_event table" where
  "open_approval_events d = by_age (filter (\<lambda>(_, e). i_kind e = REASSIGNABLE \<and> i_state e \<noteq> ''handled'') (inbox d))"

definition reassign_stale_approvals :: "failover_env \<Rightarrow> string option \<Rightarrow> approval table \<Rightarrow> db \<Rightarrow> nat \<times> db" where
  "reassign_stale_approvals v unavailable aps d =
     (if \<not> fo_listed v then (0, d) else fold (failover_step v unavailable aps) (open_approval_events d) (0, d))"

text \<open>Pending approvals nobody decided for so long, with their age and who asked.\<close>

definition stalled_approvals :: "int \<Rightarrow> time \<Rightarrow> approval table \<Rightarrow> (ident \<times> int \<times> string) list" where
  "stalled_approvals after_secs now aps =
     List.map_filter (\<lambda>(i, a).
         let age = age_secs (case ap_wait_since a of Some w \<Rightarrow> w | None \<Rightarrow> ap_created_at a) now in
         if ap_status a \<noteq> ''pending'' \<or> expired_at (ap_expires_at a) now \<or> \<not> age \<ge> after_secs then None
         else Some (i, age, ap_requester a)) aps"

end
