(* ===== verification/Role_Rows.thy ===== *)
theory Role_Rows
  imports Watchdog Failover
begin

text \<open>
  The rows of the two supervisor roles (\<open>supervisor_roles\<close>, second part of \<open>supervisor/roles.rs\<close>) and
  what is kept beside them: the supervisor's own row, the inbox and the approvals, and the table of faults.
  Texts for people (\<open>status_detail\<close>, \<open>last_wake_reason\<close>) are left out.
\<close>

section \<open>Rows\<close>

record role_row =
  ro_bot :: "ident option"
  ro_identity :: string
  ro_model :: string
  ro_effort :: string
  ro_desired :: int
  ro_status :: string
  ro_quota_reset :: "stamp option"
  ro_attempts :: int
  ro_next_at :: "stamp option"
  ro_gave_up_at :: "time option"
  ro_last_error :: "string option"
  ro_last_notify :: "stamp option"
  ro_notify_next :: "stamp option"
  ro_last_wake :: "time option"
  ro_wakes :: int
  ro_events_delivered :: int
  ro_duplicates :: int
  ro_merged :: int
  ro_persona :: "string option"
  ro_persona_version :: int
  ro_waiting_since :: "time option"

text \<open>\<open>of_last_notify\<close>: the column \<open>last_notify_at\<close> of the supervisor's row.\<close>

record office =
  of_mgr :: manager
  of_roles :: "role_row table"
  of_approvals :: "approval table"
  of_faults :: fault_table
  of_last_notify :: "stamp option"

definition fresh_role_row :: role_row where
  "fresh_role_row =
     \<lparr>ro_bot = None, ro_identity = ''cc0'', ro_model = ''opus'', ro_effort = ''high'', ro_desired = 0, ro_status = '''',
      ro_quota_reset = None, ro_attempts = 0, ro_next_at = None, ro_gave_up_at = None, ro_last_error = None,
      ro_last_notify = None, ro_notify_next = None, ro_last_wake = None, ro_wakes = 0, ro_events_delivered = 0,
      ro_duplicates = 0, ro_merged = 0, ro_persona = None, ro_persona_version = 0, ro_waiting_since = None\<rparr>"

definition mail :: "office \<Rightarrow> db" where
  "mail w = mg_inbox (of_mgr w)"

definition with_mail :: "db \<Rightarrow> office \<Rightarrow> office" where
  "with_mail d w = w\<lparr>of_mgr := (of_mgr w)\<lparr>mg_inbox := d\<rparr>\<rparr>"

definition with_cache :: "deadline_cache \<Rightarrow> office \<Rightarrow> office" where
  "with_cache k w = w\<lparr>of_mgr := (of_mgr w)\<lparr>mg_cache := k\<rparr>\<rparr>"

section \<open>Statements\<close>

text \<open>\<open>get\<close> writes the row when it is missing.\<close>

definition role_get :: "role \<Rightarrow> office \<Rightarrow> role_row \<times> office" where
  "role_get r w =
     (case map_of (of_roles w) (role_str r) of
        Some x \<Rightarrow> (x, w)
      | None \<Rightarrow> (fresh_role_row, w\<lparr>of_roles := of_roles w @ [(role_str r, fresh_role_row)]\<rparr>))"

text \<open>An UPDATE by role, and the same after \<open>get\<close>.\<close>

definition upd_role :: "role \<Rightarrow> (role_row \<Rightarrow> role_row) \<Rightarrow> office \<Rightarrow> office" where
  "upd_role r f w = w\<lparr>of_roles := upd_row (role_str r) f (of_roles w)\<rparr>"

definition get_upd_role :: "role \<Rightarrow> (role_row \<Rightarrow> role_row) \<Rightarrow> office \<Rightarrow> office" where
  "get_upd_role r f w = upd_role r f (snd (role_get r w))"

definition role_set_env :: "role \<Rightarrow> ident \<Rightarrow> office \<Rightarrow> office" where
  "role_set_env r b = get_upd_role r (\<lambda>x. x\<lparr>ro_bot := Some b\<rparr>)"

definition role_set_runtime :: "role \<Rightarrow> string \<Rightarrow> string \<Rightarrow> string \<Rightarrow> office \<Rightarrow> office" where
  "role_set_runtime r identity model effort =
     get_upd_role r (\<lambda>x. x\<lparr>ro_identity := identity, ro_model := model, ro_effort := effort\<rparr>)"

definition role_set_desired_running :: "role \<Rightarrow> bool \<Rightarrow> office \<Rightarrow> office" where
  "role_set_desired_running r wanted =
     get_upd_role r (\<lambda>x. x\<lparr>ro_desired := (if wanted then 1 else 0), ro_attempts := 0, ro_next_at := None,
       ro_gave_up_at := None, ro_last_error := None\<rparr>)"

definition WAITING_STATES :: "string list" where
  "WAITING_STATES = [''waiting_quota'', ''needs_login'']"

definition role_set_status :: "role \<Rightarrow> string \<Rightarrow> stamp option \<Rightarrow> time \<Rightarrow> office \<Rightarrow> office" where
  "role_set_status r status reset_at now =
     upd_role r (\<lambda>x. x\<lparr>ro_status := status, ro_quota_reset := reset_at,
       ro_waiting_since :=
         (if List.member WAITING_STATES status
          then (case ro_waiting_since x of Some t \<Rightarrow> Some t | None \<Rightarrow> Some now) else None)\<rparr>)"

definition role_set_watchdog :: "role \<Rightarrow> int \<Rightarrow> stamp option \<Rightarrow> string option \<Rightarrow> office \<Rightarrow> office" where
  "role_set_watchdog r attempts next_at err =
     upd_role r (\<lambda>x. let clear = (attempts = 0 \<and> next_at = None) in
       x\<lparr>ro_attempts := attempts, ro_next_at := next_at,
         ro_last_error := (case err of Some y \<Rightarrow> Some y | None \<Rightarrow> if clear then None else ro_last_error x),
         ro_gave_up_at := (if clear then None else ro_gave_up_at x)\<rparr>)"

definition role_mark_gave_up :: "role \<Rightarrow> string \<Rightarrow> time \<Rightarrow> office \<Rightarrow> office" where
  "role_mark_gave_up r why now =
     upd_role r (\<lambda>x. if ro_gave_up_at x = None then x\<lparr>ro_gave_up_at := Some now, ro_last_error := Some why\<rparr> else x)"

definition role_set_notify_next :: "role \<Rightarrow> stamp option \<Rightarrow> office \<Rightarrow> office" where
  "role_set_notify_next r next_at = upd_role r (\<lambda>x. x\<lparr>ro_notify_next := next_at\<rparr>)"

definition role_record_wake :: "role \<Rightarrow> nat \<Rightarrow> time \<Rightarrow> office \<Rightarrow> office" where
  "role_record_wake r events now =
     get_upd_role r (\<lambda>x. x\<lparr>ro_wakes := ro_wakes x + 1, ro_events_delivered := ro_events_delivered x + int events,
       ro_last_wake := Some now, ro_last_notify := Some (At now), ro_notify_next := None\<rparr>)"

definition role_count_duplicate :: "role \<Rightarrow> office \<Rightarrow> office" where
  "role_count_duplicate r = get_upd_role r (\<lambda>x. x\<lparr>ro_duplicates := ro_duplicates x + 1\<rparr>)"

definition role_count_merged :: "role \<Rightarrow> nat \<Rightarrow> office \<Rightarrow> office" where
  "role_count_merged r n w = (if n = 0 then w else get_upd_role r (\<lambda>x. x\<lparr>ro_merged := ro_merged x + int n\<rparr>) w)"

definition responder_configured :: "office \<Rightarrow> bool \<times> office" where
  "responder_configured w = (let (x, w1) = role_get Responder w in (ro_bot x \<noteq> None, w1))"

text \<open>The bot of the row if it is there and not deleted; \<open>d\<close> holds the bots.\<close>

definition responder_bot :: "db \<Rightarrow> role_row \<Rightarrow> ident option" where
  "responder_bot d x =
     (case ro_bot x of
        None \<Rightarrow> None
      | Some b \<Rightarrow> (case map_of (bots d) b of None \<Rightarrow> None | Some y \<Rightarrow> if b_deleted_at y = None then Some b else None))"

text \<open>The bot and the status of a role.\<close>

definition bot_for :: "role \<Rightarrow> office \<Rightarrow> ident option \<times> office" where
  "bot_for r w =
     (case r of
        Patrol \<Rightarrow> (let (s, m) = get_or_init (of_mgr w) in (su_bot s, w\<lparr>of_mgr := m\<rparr>))
      | Responder \<Rightarrow> (let (x, w1) = role_get Responder w in (ro_bot x, w1)))"

definition role_record :: "role \<Rightarrow> office \<Rightarrow> (ident option \<times> string) \<times> office" where
  "role_record r w =
     (case r of
        Patrol \<Rightarrow> (let (s, m) = get_or_init (of_mgr w) in ((su_bot s, su_status s), w\<lparr>of_mgr := m\<rparr>))
      | Responder \<Rightarrow> (let (x, w1) = role_get Responder w in ((ro_bot x, ro_status x), w1)))"

definition role_of_bot :: "ident \<Rightarrow> office \<Rightarrow> role option \<times> office" where
  "role_of_bot b w =
     (let (s, m) = get_or_init (of_mgr w); w1 = w\<lparr>of_mgr := m\<rparr> in
      if su_bot s = Some b then (Some Patrol, w1)
      else (let (x, w2) = role_get Responder w1 in (if ro_bot x = Some b then Some Responder else None, w2)))"

section \<open>The persona\<close>

text \<open>\<open>Inl current\<close>: the caller's version is not the row's any more.\<close>

definition set_persona :: "string \<Rightarrow> int option \<Rightarrow> office \<Rightarrow> (int + int) \<times> office" where
  "set_persona txt expected w =
     (let (x, w1) = role_get Responder w in
      if (case expected of None \<Rightarrow> False | Some v \<Rightarrow> v \<noteq> ro_persona_version x \<and> ro_persona x \<noteq> Some txt)
      then (Inl (ro_persona_version x), w1)
      else if ro_persona x = Some txt then (Inr (ro_persona_version x), w1)
      else
        (let w2 = upd_role Responder (\<lambda>y. y\<lparr>ro_persona := Some txt, ro_persona_version := ro_persona_version y + 1\<rparr>) w1
         in (Inr (ro_persona_version (fst (role_get Responder w2))), w2)))"

text \<open>What is stored wins; \<open>embedded\<close> is only planted where nothing is.\<close>

definition effective_persona :: "string \<Rightarrow> office \<Rightarrow> string \<times> office" where
  "effective_persona embedded w =
     (let w1 = snd (role_get Responder w);
          w2 = upd_role Responder (\<lambda>y. if ro_persona y = None \<or> ro_persona y = Some []
                 then y\<lparr>ro_persona := Some embedded, ro_persona_version := ro_persona_version y + 1\<rparr> else y) w1;
          (x, w3) = role_get Responder w2
      in (case ro_persona x of None \<Rightarrow> embedded | Some t \<Rightarrow> if t = [] then embedded else t, w3))"

section \<open>Facts\<close>

definition role_row_of :: "office \<Rightarrow> role \<Rightarrow> role_row" where
  "role_row_of w r = (case map_of (of_roles w) (role_str r) of Some x \<Rightarrow> x | None \<Rightarrow> fresh_role_row)"

lemma role_str_eq [simp]: "role_str r = role_str s \<longleftrightarrow> r = s"
  by (cases r; cases s) simp_all

lemma role_get_fst [simp]: "fst (role_get r w) = role_row_of w r"
  by (simp add: role_get_def role_row_of_def split: option.split)

lemma role_get_row [simp]: "role_row_of (snd (role_get r w)) s = role_row_of w s"
  by (auto simp: role_get_def role_row_of_def map_add_def split: option.split)

lemma role_get_rest [simp]:
  "of_mgr (snd (role_get r w)) = of_mgr w" "of_approvals (snd (role_get r w)) = of_approvals w"
  "of_faults (snd (role_get r w)) = of_faults w" "of_last_notify (snd (role_get r w)) = of_last_notify w"
  by (simp_all add: role_get_def split: option.split)

lemma role_get_there [simp]: "map_of (of_roles (snd (role_get r w))) (role_str r) = Some (role_row_of w r)"
  by (simp add: role_get_def role_row_of_def map_add_def split: option.split)

lemma upd_role_row:
  "map_of (of_roles w) (role_str r) = Some x \<Longrightarrow> role_row_of (upd_role r f w) r = f x"
  "r \<noteq> s \<Longrightarrow> role_row_of (upd_role r f w) s = role_row_of w s"
  by (simp_all add: upd_role_def role_row_of_def)

lemma get_upd_role_row [simp]:
  "role_row_of (get_upd_role r f w) s = (if r = s then f (role_row_of w r) else role_row_of w s)"
  by (simp add: get_upd_role_def upd_role_row)

lemma upd_role_rest [simp]:
  "of_mgr (upd_role r f w) = of_mgr w" "of_approvals (upd_role r f w) = of_approvals w"
  "of_faults (upd_role r f w) = of_faults w" "of_last_notify (upd_role r f w) = of_last_notify w"
  by (simp_all add: upd_role_def)

lemma get_upd_role_rest [simp]:
  "of_mgr (get_upd_role r f w) = of_mgr w" "of_approvals (get_upd_role r f w) = of_approvals w"
  "of_faults (get_upd_role r f w) = of_faults w" "of_last_notify (get_upd_role r f w) = of_last_notify w"
  by (simp_all add: get_upd_role_def)

lemma with_mail_simps [simp]:
  "mail (with_mail d w) = d" "of_roles (with_mail d w) = of_roles w" "of_approvals (with_mail d w) = of_approvals w"
  "of_faults (with_mail d w) = of_faults w" "of_last_notify (with_mail d w) = of_last_notify w"
  "role_row_of (with_mail d w) r = role_row_of w r" "mg_row (of_mgr (with_mail d w)) = mg_row (of_mgr w)"
  "mg_cache (of_mgr (with_mail d w)) = mg_cache (of_mgr w)"
  by (simp_all add: mail_def with_mail_def role_row_of_def)

lemma with_cache_simps [simp]:
  "mail (with_cache k w) = mail w" "of_roles (with_cache k w) = of_roles w" "of_approvals (with_cache k w) = of_approvals w"
  "of_faults (with_cache k w) = of_faults w" "role_row_of (with_cache k w) r = role_row_of w r"
  "mg_row (of_mgr (with_cache k w)) = mg_row (of_mgr w)" "mg_cache (of_mgr (with_cache k w)) = k"
  by (simp_all add: mail_def with_cache_def role_row_of_def)

text \<open>The persona's version counts its texts: it rises by one exactly when the text changes.\<close>

lemma set_persona_version:
  assumes "set_persona txt expected w = (res, w')"
  shows "case res of
       Inl v \<Rightarrow> v = ro_persona_version (role_row_of w Responder) \<and> expected \<noteq> Some v \<and> role_row_of w' Responder = role_row_of w Responder
     | Inr v \<Rightarrow> ro_persona (role_row_of w' Responder) = Some txt \<and> v = ro_persona_version (role_row_of w' Responder)
         \<and> v = ro_persona_version (role_row_of w Responder) + (if ro_persona (role_row_of w Responder) = Some txt then 0 else 1)"
proof -
  obtain x w1 where g: "role_get Responder w = (x, w1)" by fastforce
  then have x: "x = role_row_of w Responder" "role_row_of w1 Responder = x" "map_of (of_roles w1) (role_str Responder) = Some x"
    using role_get_fst [of Responder w] role_get_row [of Responder w Responder] role_get_there [of Responder w] by simp_all
  show ?thesis
    using assms x(1,2) unfolding set_persona_def g
    by (auto simp: Let_def upd_role_row(1) [OF x(3)] split: option.splits if_splits)
qed

end
