(* ===== verification/Responder.thy ===== *)
theory Responder
  imports Role_Rows Quota_Store
begin

text \<open>
  The responder, the second AGM bot (\<open>supervisor/responder.rs\<close>): what its quota lets it do, when it is
  woken, starting and stopping it, and its watchdog. Statements on its own row succeed; what the reads, the
  pane and the sending answer are arguments, and so is what others write to the inbox while it is sending.
\<close>

section \<open>Its quota\<close>

datatype quota_state = Unknown_Quota | Available_Quota | Blocked "stamp option"

definition shared_window_readings_complete :: "quota \<Rightarrow> time \<Rightarrow> bool" where
  "shared_window_readings_complete q now \<longleftrightarrow>
     (usable_window q Five_Hour now \<noteq> None \<or> qu_source q = ''codex-app-server'' \<and> qu_five_hour q = None)
     \<and> usable_window q Seven_Day now \<noteq> None"

definition live_block :: "quota \<Rightarrow> string option \<Rightarrow> time \<Rightarrow> limit_hit option" where
  "live_block q model now =
     (case qu_hit q of
        None \<Rightarrow> None
      | Some h \<Rightarrow> if \<not> limit_hit_expired (Some h) now \<and> limit_hit_blocks_model h model then Some h else None)"

text \<open>\<open>key\<close>: where the readings of its account are kept, \<open>None\<close> when that cannot be told.\<close>

definition quota_state :: "(time \<Rightarrow> string) \<Rightarrow> string option \<Rightarrow> string option \<Rightarrow> time \<Rightarrow> quotas \<Rightarrow> quota_state" where
  "quota_state shown key model now qs =
     (case Option.bind key (map_of (qs_table qs)) of
        None \<Rightarrow> Unknown_Quota
      | Some q \<Rightarrow>
          (case live_block q model now of
             Some h \<Rightarrow>
               Blocked (case lh_until h of
                          Some u \<Rightarrow> Some u
                        | None \<Rightarrow> earliest shown (List.map_filter (\<lambda>w. Option.bind w wi_resets) [qu_five_hour q, qu_seven_day q, qu_fable q]))
           | None \<Rightarrow>
               if critical_shared q now \<noteq> [] then Blocked (earliest shown (List.map_filter wi_resets (critical_shared q now)))
               else if reading_is_stale q (List.member (qs_stale qs) (the key)) now then Unknown_Quota
               else if shared_window_readings_complete q now then Available_Quota else Unknown_Quota))"

definition CAPTURE_SETTLE_SECS :: int where
  "CAPTURE_SETTLE_SECS = 15"

text \<open>
  The last turn of its conversations that ended after \<open>since\<close>; \<open>turn_error\<close> is the column of \<open>runs\<close>.
\<close>

definition ended_since :: "db \<Rightarrow> ident \<Rightarrow> time option \<Rightarrow> ident \<times> turn \<Rightarrow> bool" where
  "ended_since d b since x \<longleftrightarrow>
     map_of (conversations d) (t_conversation (snd x)) = Some b
     \<and> (case t_completed_at (snd x) of None \<Rightarrow> False | Some c \<Rightarrow> (case since of None \<Rightarrow> True | Some s \<Rightarrow> c > s))"

definition last_ended :: "db \<Rightarrow> ident \<Rightarrow> time option \<Rightarrow> (ident \<times> turn) option" where
  "last_ended d b since =
     least_by (\<lambda>x y. the (t_completed_at (snd y)) < the (t_completed_at (snd x))) (filter (ended_since d b since) (turns d))"

definition newer_turn :: "db \<Rightarrow> ident \<times> turn \<Rightarrow> bool" where
  "newer_turn d x \<longleftrightarrow>
     list_ex (\<lambda>(j, u). t_run u \<noteq> None \<and> t_run u = t_run (snd x) \<and> j \<noteq> fst x
                \<and> t_created_at u > t_created_at (snd x) \<and> t_status u \<noteq> ''queued'') (turns d)"

definition noted_turn :: "db \<Rightarrow> ident \<times> turn \<Rightarrow> bool" where
  "noted_turn d x \<longleftrightarrow>
     list_ex (\<lambda>(j, g). m_turn g = Some (fst x) \<and> m_role g = ''system'' \<and> take 4 j \<noteq> ''ask:'') (messages d)"

definition answered_since :: "(ident \<Rightarrow> string option) \<Rightarrow> db \<Rightarrow> ident \<Rightarrow> time option \<Rightarrow> time \<Rightarrow> bool" where
  "answered_since turn_error d b since now =
     (case last_ended d b since of
        None \<Rightarrow> False
      | Some x \<Rightarrow>
          (t_status (snd x) = ''completed'' \<or> t_status (snd x) = ''completed_fallback'')
          \<and> \<not> noted_turn d x
          \<and> \<not> (\<not> newer_turn d x
               \<and> (case Option.bind (t_run (snd x)) turn_error of None \<Rightarrow> False | Some e \<Rightarrow> trim e \<noteq> []))
          \<and> (case t_completed_at (snd x) of None \<Rightarrow> False | Some c \<Rightarrow> age_secs c now \<ge> CAPTURE_SETTLE_SECS))"

section \<open>When to wake it\<close>

text \<open>An instant that cannot be read is as old as can be.\<close>

definition batch_due :: "time \<Rightarrow> stamp option \<Rightarrow> int \<Rightarrow> time \<Rightarrow> bool" where
  "batch_due oldest_wake last_wake batch_secs now \<longleftrightarrow>
     (let oldest = age_secs oldest_wake now in oldest < 0 \<or> oldest \<ge> batch_secs)
     \<and> (case last_wake of
          None \<Rightarrow> True
        | Some s \<Rightarrow> (case parse_utc s of None \<Rightarrow> True | Some t \<Rightarrow> age_secs t now < 0 \<or> age_secs t now \<ge> batch_secs))"

definition responder_backoff_secs :: "int \<Rightarrow> int \<Rightarrow> int" where
  "responder_backoff_secs attempts cap = min (15 * 2 ^ nat (min 16 (max 0 attempts))) (max cap 15)"

definition quota_retry_at :: "(time \<Rightarrow> string) \<Rightarrow> stamp option \<Rightarrow> stamp \<Rightarrow> time \<Rightarrow> stamp" where
  "quota_retry_at shown reset retry now =
     (case reset of Some t \<Rightarrow> if cmp_ts shown t retry = LT \<and> \<not> past t now then t else retry | None \<Rightarrow> retry)"

text \<open>\<open>Send_Refused\<close>: the call failed; otherwise the turn and what became of the delivery.\<close>

datatype sending = Send_Refused string | Sent ident string

text \<open>
  What one tick of \<open>notify\<close> finds. \<open>ne_screen\<close> and \<open>ne_screen_after\<close>: whether the pane shows a login problem, before and
  after sending (\<open>None\<close>: nobody can tell). \<open>ne_due_ok\<close>: the inbox can be read.
\<close>

record notify_env =
  ne_now :: time
  ne_world :: db
  ne_rows_ok :: bool
  ne_key :: "string option"
  ne_model :: "string option"
  ne_quotas :: quotas
  ne_turn_error :: "ident \<Rightarrow> string option"
  ne_screen :: "bool option"
  ne_screen_after :: "bool option"
  ne_due_ok :: bool
  ne_live :: "string option"
  ne_sending :: sending
  ne_race :: "db \<Rightarrow> db"
  ne_event :: ident
  ne_push :: bool

definition report_missing :: "(time \<Rightarrow> string) \<Rightarrow> ident \<Rightarrow> time \<Rightarrow> ident \<Rightarrow> bool \<Rightarrow> office \<Rightarrow> office" where
  "report_missing shown b now event pushed w =
     (if \<not> pushed then w
      else with_mail (snd (push_inbox_tx event (''responder_bot_missing:'' @ b @ '':'' @ take 13 (shown now))
              ''responder_bot_missing'' None None None (JObj [(''bot_id'', JStr b)]) now (mail w))) w)"

definition wakes :: "inbox_event \<Rightarrow> bool" where
  "wakes e \<longleftrightarrow> i_wake e \<noteq> Some False"

definition note_login_problem :: "notify_env \<Rightarrow> string \<Rightarrow> office \<Rightarrow> office" where
  "note_login_problem e status w =
     (if status = ''needs_login'' \<or> ne_screen_after e \<noteq> Some True then w
      else role_set_status Responder ''needs_login'' None (ne_now e) w)"

definition deferred :: "int \<Rightarrow> string \<Rightarrow> inbox_event table \<Rightarrow> notify_env \<Rightarrow> office \<Rightarrow> office" where
  "deferred wait why due e w =
     with_mail (defer_notify (map fst due) (ne_now e + 1000 * wait) why (ne_now e) (mail w)) w"

text \<open>The digest goes out; \<open>row\<close> is what was read when the tick began.\<close>

definition send_digest :: "int \<Rightarrow> role_row \<Rightarrow> inbox_event table \<Rightarrow> notify_env \<Rightarrow> office \<Rightarrow> office" where
  "send_digest cap row due e w0 =
     (let attempt = Max (insert 0 (set (map (\<lambda>x. i_attempts (snd x)) due)));
          wait = responder_backoff_secs attempt cap;
          w = with_mail (ne_race e (mail w0)) w0
      in case ne_sending e of
           Send_Refused why \<Rightarrow> note_login_problem e (ro_status row) (deferred wait why due e w)
         | Sent turn_id delivery \<Rightarrow>
             if delivery = ''failed'' then note_login_problem e (ro_status row) (deferred wait ''delivery failed'' due e w)
             else
               (let (n, d) = inbox_mark_delivered (map fst due) Responder turn_id delivery (ne_now e) (mail w);
                    w1 = role_record_wake Responder n (ne_now e) (with_mail d w)
                in if ro_status row = ''waiting_quota''
                   then role_set_notify_next Responder (Some (iso_in cap (ne_now e))) w1 else w1))"

definition deliver_due :: "int \<Rightarrow> int \<Rightarrow> role_row \<Rightarrow> stamp option \<Rightarrow> notify_env \<Rightarrow> office \<Rightarrow> office" where
  "deliver_due batch cap row next_at e w =
     (if (case next_at of None \<Rightarrow> False | Some t \<Rightarrow> \<not> past t (ne_now e)) \<or> \<not> ne_due_ok e then w
      else
        (let due = due_for Responder True (ne_now e) 0 (mail w) in
         case List.find (\<lambda>x. wakes (snd x)) due of
           None \<Rightarrow> w
         | Some (_, oldest) \<Rightarrow>
             if \<not> batch_due (i_created_at oldest) (ro_last_notify row) batch (ne_now e) then w
             else if ne_live e \<noteq> Some ''idle'' then w
             else send_digest cap row due e w))"

text \<open>Whether a wait for quota is over, and whether a wait for a login is.\<close>

definition quota_wait_over :: "quota_state \<Rightarrow> ident \<Rightarrow> role_row \<Rightarrow> notify_env \<Rightarrow> bool" where
  "quota_wait_over st b row e \<longleftrightarrow>
     ro_status row = ''waiting_quota''
     \<and> (st = Available_Quota
        \<or> st = Unknown_Quota \<and> answered_since (ne_turn_error e) (ne_world e) b (ro_waiting_since row) (ne_now e))"

definition login_recovered :: "ident \<Rightarrow> role_row \<Rightarrow> notify_env \<Rightarrow> bool" where
  "login_recovered b row e \<longleftrightarrow>
     answered_since (ne_turn_error e) (ne_world e) b (ro_waiting_since row) (ne_now e) \<or> ne_screen e = Some False"

definition park_on_quota :: "(time \<Rightarrow> string) \<Rightarrow> int \<Rightarrow> stamp option \<Rightarrow> role_row \<Rightarrow> notify_env \<Rightarrow> office \<Rightarrow> office" where
  "park_on_quota shown cap reset row e w =
     (let due_now = (case ro_notify_next row of None \<Rightarrow> True | Some t \<Rightarrow> past t (ne_now e)) in
      if ro_status row = ''waiting_quota'' \<and> \<not> due_now \<and> same_instant shown (ro_quota_reset row) reset then w
      else role_set_notify_next Responder (Some (quota_retry_at shown reset (iso_in cap (ne_now e)) (ne_now e)))
             (role_set_status Responder ''waiting_quota'' reset (ne_now e) w))"

text \<open>One tick (\<open>notify\<close>); \<open>batch\<close> and \<open>cap\<close> come from config.toml.\<close>

definition responder_notify :: "(time \<Rightarrow> string) \<Rightarrow> int \<Rightarrow> int \<Rightarrow> notify_env \<Rightarrow> office \<Rightarrow> office" where
  "responder_notify shown batch cap e w0 =
     (if \<not> ne_rows_ok e then w0
      else
        (let (row, w) = role_get Responder w0 in
         case responder_bot (ne_world e) row of
           None \<Rightarrow> (case ro_bot row of None \<Rightarrow> w | Some b \<Rightarrow> report_missing shown b (ne_now e) (ne_event e) (ne_push e) w)
         | Some b \<Rightarrow>
             (case quota_state shown (ne_key e) (ne_model e) (ne_now e) (ne_quotas e) of
                Blocked reset \<Rightarrow> park_on_quota shown cap reset row e w
              | st \<Rightarrow>
                  (let over = quota_wait_over st b row e;
                       w1 = (if over then role_set_notify_next Responder None (role_set_status Responder '''' None (ne_now e) w) else w);
                       w2 = (if ro_status row = ''needs_login'' \<and> login_recovered b row e
                             then role_set_status Responder '''' None (ne_now e) w1 else w1)
                   in deliver_due batch cap row (if over then None else ro_notify_next row) e w2))))"

section \<open>Starting and stopping\<close>

text \<open>\<open>d\<close>: bots and runs at that moment; \<open>launch\<close>: \<open>start_bot\<close> succeeds; \<open>sup_ok\<close>: the supervisor's row can be read.\<close>

definition responder_start :: "db \<Rightarrow> bool \<Rightarrow> bool \<Rightarrow> office \<Rightarrow> (start_error + unit) \<times> office" where
  "responder_start d launch sup_ok w0 =
     (let (row, w) = role_get Responder w0;
          tail = (if sup_ok then (Inr (), w\<lparr>of_mgr := snd (get_or_init (of_mgr w))\<rparr>) else (Inl Launch_Failed, w))
      in case responder_bot d row of
           None \<Rightarrow> (Inl Not_Set_Up, w)
         | Some b \<Rightarrow>
             (case active_run d b of
                None \<Rightarrow> if launch then tail else (Inl Launch_Failed, w)
              | Some (_, r) \<Rightarrow> if r_state r = ''stopping'' then (Inl Run_Stopping, w) else tail))"

definition responder_start_requested :: "db \<Rightarrow> bool \<Rightarrow> bool \<Rightarrow> office \<Rightarrow> (start_error + unit) \<times> office" where
  "responder_start_requested d launch sup_ok w0 =
     (let (row, w) = role_get Responder w0 in
      if responder_bot d row = None then (Inl Not_Set_Up, w)
      else responder_start d launch sup_ok (role_set_desired_running Responder True w))"

definition responder_stop :: "db \<Rightarrow> bool \<Rightarrow> office \<Rightarrow> (start_error + unit) \<times> office" where
  "responder_stop d stopped w0 =
     (let (row, w) = role_get Responder w0 in
      if responder_bot d row = None then (Inl Not_Set_Up, w)
      else (if stopped then Inr () else Inl Launch_Failed, role_set_desired_running Responder False w))"

section \<open>Its watchdog\<close>

definition RESPONDER_LANE :: string where
  "RESPONDER_LANE = ''responder''"

definition responder_watched :: "role_row \<Rightarrow> bool \<Rightarrow> watched" where
  "responder_watched row quota_unknown_retry =
     \<lparr>wt_configured = True, wt_wanted = (ro_desired row \<noteq> 0),
      wt_waiting_quota = (ro_status row = ''waiting_quota'' \<and> \<not> quota_unknown_retry),
      wt_attempts = ro_attempts row, wt_next_at = ro_next_at row\<rparr>"

text \<open>The plan with its question to the cache of deadlines.\<close>

definition responder_plan :: "watched \<Rightarrow> string \<Rightarrow> time \<Rightarrow> time \<Rightarrow> deadline_cache \<Rightarrow> plan \<times> deadline_cache" where
  "responder_plan x liveness wall tick cache =
     (plan_for x liveness (\<lambda>t. fst (past_at RESPONDER_LANE t wall tick cache)),
      case wt_next_at x of
        None \<Rightarrow> cache
      | Some t \<Rightarrow>
          if wt_configured x \<and> wt_wanted x \<and> \<not> wt_waiting_quota x \<and> liveness = ''stopped'' \<and> wt_attempts x < MAX_ATTEMPTS
          then snd (past_at RESPONDER_LANE t wall tick cache) else cache)"

text \<open>
  What a tick finds, as \<open>watch_env\<close> for the supervisor: the database when it looks, the quota, what happens
  until it has the lock, the database then (\<open>None\<close>: liveness cannot be read), the outcome of a start.
\<close>

record responder_env =
  rw_wall :: time
  rw_mono :: time
  rw_rows_ok :: bool
  rw_seen :: db
  rw_live_ok :: bool
  rw_quota :: quota_state
  rw_race :: "office \<Rightarrow> office"
  rw_locked :: "db option"
  rw_launch :: bool
  rw_sup_ok :: bool
  rw_push :: bool
  rw_event :: ident
  rw_why :: string

definition responder_gave_up_key :: "(time \<Rightarrow> string) \<Rightarrow> time \<Rightarrow> string" where
  "responder_gave_up_key shown t = ''responder_watchdog:gave_up:'' @ shown t"

definition responder_report_gave_up :: "(time \<Rightarrow> string) \<Rightarrow> string \<Rightarrow> responder_env \<Rightarrow> office \<Rightarrow> office" where
  "responder_report_gave_up shown why e w0 =
     (let (row, w) = role_get Responder (role_mark_gave_up Responder why (rw_wall e) w0) in
      case ro_gave_up_at row of
        None \<Rightarrow> w
      | Some t \<Rightarrow>
          if \<not> rw_push e then w
          else with_mail (snd (push_inbox_tx (rw_event e) (responder_gave_up_key shown t) ''responder_watchdog_gave_up'' None None None
                 (JObj [(''why'', JStr why), (''gave_up_at'', JStr (shown t))]) (rw_wall e) (mail w))) w)"

definition responder_retry_in :: "int \<Rightarrow> string option \<Rightarrow> responder_env \<Rightarrow> office \<Rightarrow> office" where
  "responder_retry_in attempts err e w =
     (let when = iso_in (backoff_secs attempts) (rw_wall e) in
      with_cache (note_lane RESPONDER_LANE when (rw_mono e + backoff_secs attempts * 1000) (mg_cache (of_mgr w)))
        (role_set_watchdog Responder attempts (Some when) err w))"

definition responder_restart :: "(time \<Rightarrow> string) \<Rightarrow> ident \<Rightarrow> bool \<Rightarrow> responder_env \<Rightarrow> office \<Rightarrow> bool option \<times> office" where
  "responder_restart shown b qur e w0 =
     (let (row, w) = role_get Responder (rw_race e w0) in
      case rw_locked e of
        None \<Rightarrow> (None, w)
      | Some d \<Rightarrow>
          (let (p, k) = responder_plan (responder_watched row qur) (manager_liveness b d) (rw_wall e) (rw_mono e) (mg_cache (of_mgr w));
               w1 = with_cache k w
           in if p \<noteq> Start then (None, w1)
              else
                (let attempt = ro_attempts row + 1 in
                 case responder_start d (rw_launch e) (rw_sup_ok e) w1 of
                   (Inr _, w2) \<Rightarrow> (Some True, responder_retry_in attempt None e w2)
                 | (Inl _, w2) \<Rightarrow>
                     if attempt < MAX_ATTEMPTS then (Some False, responder_retry_in attempt (Some (rw_why e)) e w2)
                     else
                       (let w3 = role_set_watchdog Responder attempt None (Some (rw_why e)) w2 in
                        (Some False,
                         responder_report_gave_up shown (rw_why e) e
                           (with_cache (clear_lane RESPONDER_LANE (mg_cache (of_mgr w3))) w3))))))"

definition responder_watchdog_tick :: "(time \<Rightarrow> string) \<Rightarrow> responder_env \<Rightarrow> office \<Rightarrow> bool option \<times> office" where
  "responder_watchdog_tick shown e w0 =
     (if \<not> rw_rows_ok e then (None, w0)
      else
        (let (row, w) = role_get Responder w0 in
         case responder_bot (rw_seen e) row of
           None \<Rightarrow> (None, case ro_bot row of None \<Rightarrow> w | Some b \<Rightarrow> report_missing shown b (rw_wall e) (rw_event e) (rw_push e) w)
         | Some b \<Rightarrow>
             if \<not> rw_live_ok e then (None, w)
             else
               (let live = manager_liveness b (rw_seen e);
                    retry_due = (case ro_notify_next row of None \<Rightarrow> True | Some t \<Rightarrow> past t (rw_wall e));
                    qur = (retry_due \<and> rw_quota e = Unknown_Quota);
                    (p, k) = responder_plan (responder_watched row qur) live (rw_wall e) (rw_mono e) (mg_cache (of_mgr w));
                    w1 = with_cache k w
                in case p of
                     Idle \<Rightarrow>
                       (None,
                        if (live = ''idle'' \<or> live = ''busy'') \<and> (ro_attempts row > 0 \<or> ro_next_at row \<noteq> None)
                        then with_cache (clear_lane RESPONDER_LANE (mg_cache (of_mgr w1))) (role_set_watchdog Responder 0 None None w1)
                        else w1)
                   | Wait True \<Rightarrow> (None, responder_retry_in (ro_attempts row) None e w1)
                   | Wait False \<Rightarrow> (None, w1)
                   | Gave_Up \<Rightarrow>
                       (None, responder_report_gave_up shown (case ro_last_error row of Some x \<Rightarrow> x | None \<Rightarrow> rw_why e) e w1)
                   | Start \<Rightarrow> responder_restart shown b qur e w1)))"

end
