(* ===== verification/Mail_Loop.thy ===== *)
theory Mail_Loop
  imports Responder
begin

text \<open>
  The part of the controller that moves the inbox (\<open>supervisor/controller.rs\<close>): waking the patrol, offering
  again what was delivered and never acknowledged, giving up on it, and one pass over both roles in the order of
  \<open>tick\<close> (\<open>runners/supervisor/runtime.rs\<close>). Texts for people are left out.
\<close>

section \<open>Waking the patrol\<close>

definition RETRY_BACKOFF :: "int list" where
  "RETRY_BACKOFF = [15, 30, 60, 120, 300]"

definition notify_backoff :: "int \<Rightarrow> int" where
  "notify_backoff attempts = RETRY_BACKOFF ! min (nat (max attempts 0)) (length RETRY_BACKOFF - 1)"

definition notify_due :: "stamp option \<Rightarrow> int \<Rightarrow> time \<Rightarrow> bool" where
  "notify_due prior interval now \<longleftrightarrow>
     interval = 0
     \<or> (case Option.bind prior parse_utc of
          None \<Rightarrow> True
        | Some t \<Rightarrow> age_secs t now < 0 \<or> age_secs t now \<ge> interval)"

text \<open>What the tick finds; \<open>pe_configured\<close>: whether a responder is set up, \<open>None\<close> when that cannot be read.\<close>

record patrol_env =
  pe_now :: time
  pe_configured :: "bool option"
  pe_due_ok :: bool
  pe_live :: "string option"
  pe_sending :: sending
  pe_race :: "db \<Rightarrow> db"

definition patrol_send :: "inbox_event table \<Rightarrow> patrol_env \<Rightarrow> office \<Rightarrow> office" where
  "patrol_send due e w0 =
     (let wait = notify_backoff (Max (insert 0 (set (map (\<lambda>x. i_attempts (snd x)) due))));
          w = with_mail (pe_race e (mail w0)) w0;
          later = (\<lambda>why. with_mail (defer_notify (map fst due) (pe_now e + 1000 * wait) why (pe_now e) (mail w)) w)
      in case pe_sending e of
           Send_Refused why \<Rightarrow> later why
         | Sent turn_id delivery \<Rightarrow>
             if delivery = ''failed'' then later ''delivery failed''
             else
               (let (n, d) = inbox_mark_delivered (map fst due) Patrol turn_id delivery (pe_now e) (mail w)
                in role_record_wake Patrol n (pe_now e) ((with_mail d w)\<lparr>of_last_notify := Some (At (pe_now e))\<rparr>)))"

definition patrol_notify :: "int \<Rightarrow> int \<Rightarrow> patrol_env \<Rightarrow> office \<Rightarrow> office" where
  "patrol_notify max_attempts interval e w0 =
     (let (s, m) = get_or_init (of_mgr w0); w = w0\<lparr>of_mgr := m\<rparr> in
      case (su_bot s, pe_configured e) of
        (Some _, Some configured) \<Rightarrow>
          (let due = due_for Patrol configured (pe_now e) (max max_attempts 1) (mail w) in
           if \<not> pe_due_ok e \<or> \<not> list_ex (\<lambda>x. wakes (snd x)) due then w
           else if \<not> notify_due (of_last_notify w) interval (pe_now e) then w
           else if pe_live e \<noteq> Some ''idle'' then w
           else patrol_send due e w)
      | _ \<Rightarrow> w)"

section \<open>Delivered, never acknowledged\<close>

definition RECOVER_MAX_DELIVERIES :: int where
  "RECOVER_MAX_DELIVERIES = 5"

definition RECOVER_WINDOW_SECS :: int where
  "RECOVER_WINDOW_SECS = 6 * 3600"

definition RECOVER_WINDOW_MIN_DELIVERIES :: int where
  "RECOVER_WINDOW_MIN_DELIVERIES = 3"

definition keep_recovering :: "int \<Rightarrow> int \<Rightarrow> bool" where
  "keep_recovering deliveries age \<longleftrightarrow>
     (if deliveries \<ge> RECOVER_MAX_DELIVERIES then False
      else \<not> (age \<ge> RECOVER_WINDOW_SECS \<and> deliveries \<ge> RECOVER_WINDOW_MIN_DELIVERIES))"

definition delivered_inbox :: "db \<Rightarrow> inbox_event table" where
  "delivered_inbox d =
     sort_key (\<lambda>x. case i_delivered_at (snd x) of Some t \<Rightarrow> t | None \<Rightarrow> i_updated_at (snd x))
       (filter (\<lambda>(_, e). i_state e = ''delivered'') (inbox d))"

text \<open>
  What a pass finds: the turns, for which events the turn can be read and the write succeeds, and the id a
  notice about an event would get.
\<close>

record recover_env =
  rv_now :: time
  rv_listed :: bool
  rv_world :: db
  rv_readable :: "ident \<Rightarrow> bool"
  rv_writable :: "ident \<Rightarrow> bool"
  rv_notice :: "ident \<Rightarrow> ident"

definition notify_turn_status :: "recover_env \<Rightarrow> ident \<Rightarrow> string option" where
  "notify_turn_status v t = map_option t_status (map_of (turns (rv_world v)) t)"

text \<open>Why an event has to be looked at again, if it has.\<close>

definition why_again :: "int \<Rightarrow> recover_env \<Rightarrow> inbox_event \<Rightarrow> ident \<Rightarrow> string option" where
  "why_again deadline v e t =
     (case notify_turn_status v t of
        None \<Rightarrow> Some ''notify turn is gone''
      | Some s \<Rightarrow>
          if s = ''failed'' then Some ''notify turn did not complete''
          else if s = ''in_flight'' \<or> s = ''queued'' then None
          else if age_secs (case i_delivered_at e of Some d \<Rightarrow> d | None \<Rightarrow> i_updated_at e) (rv_now v) \<ge> deadline
          then Some ''delivered but never acknowledged'' else None)"

definition other_role :: "string \<Rightarrow> role" where
  "other_role own = (if role_parse own = Some Responder then Patrol else Responder)"

definition waiting_for :: "inbox_event \<Rightarrow> string option" where
  "waiting_for e =
     (case str_at [''from_name''] (i_payload e) of
        Some n \<Rightarrow> Some n
      | None \<Rightarrow> (case str_at [''from_bot_id''] (i_payload e) of Some b \<Rightarrow> Some b | None \<Rightarrow> i_bot e))"

definition give_up_notice :: "ident \<Rightarrow> inbox_event \<Rightarrow> int \<Rightarrow> json" where
  "give_up_notice i e age =
     JObj [(''to_role'', JStr (role_str (other_role (owner_or_default e)))), (''event_id'', JStr i), (''event_kind'', JStr (i_kind e)),
       (''owner_role'', JStr (owner_or_default e)), (''deliveries'', JNum (i_attempts e)), (''open_secs'', JNum age),
       (''waiting_for'', opt_json (waiting_for e))]"

definition give_up_on :: "recover_env \<Rightarrow> ident \<times> inbox_event \<Rightarrow> string \<Rightarrow> int \<Rightarrow> db \<Rightarrow> db" where
  "give_up_on v x why age d =
     snd (give_up_inbox_and_notify (fst x) why (''inbox_gave_up:'' @ fst x) (i_assignment (snd x)) (i_bot (snd x))
            (give_up_notice (fst x) (snd x) age) (rv_notice v (fst x)) (rv_now v) d)"

definition recover_one :: "int \<Rightarrow> recover_env \<Rightarrow> ident \<times> inbox_event \<Rightarrow> db \<Rightarrow> db" where
  "recover_one deadline v x d =
     (case i_notify_turn (snd x) of
        None \<Rightarrow> d
      | Some t \<Rightarrow>
          if \<not> rv_readable v (fst x) then d
          else
            (case why_again deadline v (snd x) t of
               None \<Rightarrow> d
             | Some why \<Rightarrow>
                 (let age = age_secs (i_created_at (snd x)) (rv_now v) in
                  if \<not> rv_writable v (fst x) then d
                  else if \<not> keep_recovering (i_attempts (snd x)) age then give_up_on v x why age d
                  else snd (requeue_inbox (fst x) why (rv_now v) d))))"

text \<open>What the pass saw of one role: the turns of its notifications that failed, and whether one ended otherwise.\<close>

definition round_turns :: "recover_env \<Rightarrow> role \<Rightarrow> inbox_event table \<Rightarrow> (ident \<times> string) list" where
  "round_turns v r evs =
     List.map_filter (\<lambda>(i, e). case i_notify_turn e of
         None \<Rightarrow> None
       | Some t \<Rightarrow> if rv_readable v i \<and> owner e = Some (role_str r) then map_option (Pair t) (notify_turn_status v t) else None) evs"

definition round_failed :: "(ident \<times> string) list \<Rightarrow> ident set" where
  "round_failed ts = fst ` set (filter (\<lambda>(_, s). s = ''failed'') ts)"

definition round_completed :: "(ident \<times> string) list \<Rightarrow> bool" where
  "round_completed ts = list_ex (\<lambda>(_, s). s \<noteq> ''failed'' \<and> s \<noteq> ''in_flight'' \<and> s \<noteq> ''queued'') ts"

text \<open>An acknowledged notification whose turn completed, newer than every failed one; turns are in rowid order.\<close>

definition handled_notify_completed_after_failures :: "db \<Rightarrow> db \<Rightarrow> role \<Rightarrow> ident set \<Rightarrow> bool" where
  "handled_notify_completed_after_failures world d r failed \<longleftrightarrow>
     failed \<noteq> {}
     \<and> (let later = takeWhile (\<lambda>x. fst x \<notin> failed) (rev (turns world)) in
        list_ex (\<lambda>(_, e). i_state e = ''handled'' \<and> owner e = Some (role_str r)
           \<and> (case i_notify_turn e of
                None \<Rightarrow> False
              | Some t \<Rightarrow> list_ex (\<lambda>(j, u). j = t \<and> (t_status u = ''completed'' \<or> t_status u = ''completed_fallback'')) later)) (inbox d))"

definition note_round :: "recover_env \<Rightarrow> db \<Rightarrow> inbox_event table \<Rightarrow> role \<Rightarrow> fault_table \<Rightarrow> fault_table" where
  "note_round v d evs r t =
     (let ts = round_turns v r evs;
          known = (case map_of t (role_str r) of Some f \<Rightarrow> rf_failed_turns f | None \<Rightarrow> {});
          fine = (round_completed ts \<or> handled_notify_completed_after_failures (rv_world v) d r (known \<union> round_failed ts))
      in note_notify_round (role_str r) (round_failed ts) fine t)"

definition recover_unacked :: "int \<Rightarrow> recover_env \<Rightarrow> office \<Rightarrow> office" where
  "recover_unacked deadline v w =
     (if \<not> rv_listed v then w
      else
        (let evs = delivered_inbox (mail w); d = fold (recover_one deadline v) evs (mail w)
         in (with_mail d w)\<lparr>of_faults := fold (note_round v d evs) WATCHED (of_faults w)\<rparr>))"

section \<open>One pass\<close>

text \<open>The settings of config.toml the pass reads, with the lower bounds its parser sets.\<close>

record mail_cfg =
  mc_max_attempts :: int
  mc_interval :: int
  mc_deadline :: int
  mc_batch :: int
  mc_cap :: int

definition tick_failover :: "failover_env \<Rightarrow> role_state \<Rightarrow> office \<Rightarrow> office" where
  "tick_failover v st w = with_mail (snd (reassign_stale_approvals v (responder_unavailable st) (of_approvals w) (mail w))) w"

definition tick_roles :: "time \<Rightarrow> bool \<Rightarrow> office \<Rightarrow> office" where
  "tick_roles now classified w =
     (let d = (if classified then classify_inbox (mail w) else mail w) in with_mail (coalesce_patrol now d) w)"

definition mail_pass ::
  "(time \<Rightarrow> string) \<Rightarrow> mail_cfg \<Rightarrow> recover_env \<Rightarrow> time \<Rightarrow> bool \<Rightarrow> failover_env \<Rightarrow> role_state \<Rightarrow> patrol_env \<Rightarrow> notify_env \<Rightarrow> office \<Rightarrow> office" where
  "mail_pass shown c rv now classified fo st pe ne w =
     responder_notify shown (mc_batch c) (mc_cap c) ne
       (patrol_notify (mc_max_attempts c) (mc_interval c) pe
          (tick_failover fo st (tick_roles now classified (recover_unacked (mc_deadline c) rv w))))"

end
