(* ===== verification/Mail_Safety.thy ===== *)
theory Mail_Safety
  imports Mail_Loop
begin

text \<open>
  What the passes of the controller and the writers beside it do to one event: the role it belongs to, and how
  often it can still be delivered.
\<close>

section \<open>Operations\<close>

text \<open>
  What others write to the inbox (new events, acknowledgements, classification, merging, the daemon closing the
  event of a decided approval): an event keeps its content, its attempts and its role, and its state, or is handled.
  The pruning of events that were handled long ago (\<open>prune_handled_events\<close>) deletes rows and is not among them: nothing is
  said here about an event after it was handled and pruned.
\<close>

definition tame_event :: "inbox_event \<Rightarrow> inbox_event \<Rightarrow> bool" where
  "tame_event e f \<longleftrightarrow> i_kind f = i_kind e \<and> i_claimed_by f = i_claimed_by e \<and> i_attempts f = i_attempts e
     \<and> (i_role e \<noteq> None \<longrightarrow> i_role f = i_role e) \<and> (i_state f = i_state e \<or> i_state f = ''handled'')"

definition tame :: "(db \<Rightarrow> db) \<Rightarrow> bool" where
  "tame g \<longleftrightarrow>
     (\<forall>d. distinct (map fst (inbox d)) \<longrightarrow> distinct (map fst (inbox (g d)))
        \<and> (\<forall>i e. map_of (inbox d) i = Some e \<longrightarrow> (\<exists>f. map_of (inbox (g d)) i = Some f \<and> tame_event e f)))"

datatype mail_op =
    Patrol_Wake int int patrol_env
  | Responder_Wake int int notify_env
  | Recover int recover_env
  | Roles time bool
  | Hand_Over failover_env role_state
  | Others "db \<Rightarrow> db"

fun mail_step :: "(time \<Rightarrow> string) \<Rightarrow> mail_op \<Rightarrow> office \<Rightarrow> office" where
  "mail_step shown (Patrol_Wake m iv e) w = patrol_notify m iv e w"
| "mail_step shown (Responder_Wake batch cap e) w = responder_notify shown batch cap e w"
| "mail_step shown (Recover deadline v) w = recover_unacked deadline v w"
| "mail_step shown (Roles now classified) w = tick_roles now classified w"
| "mail_step shown (Hand_Over v st) w = tick_failover v st w"
| "mail_step shown (Others g) w = with_mail (g (mail w)) w"

fun tame_op :: "mail_op \<Rightarrow> bool" where
  "tame_op (Patrol_Wake m iv e) \<longleftrightarrow> tame (pe_race e)"
| "tame_op (Responder_Wake batch cap e) \<longleftrightarrow> tame (ne_race e)"
| "tame_op (Others g) \<longleftrightarrow> tame g"
| "tame_op _ \<longleftrightarrow> True"

section \<open>The measure\<close>

text \<open>
  How often an event may still be delivered: five times in the hands of a role (a pending one once at least), and five more for an
  approval that may still be handed over.
\<close>

definition rest_of :: "inbox_event \<Rightarrow> int" where
  "rest_of e = (if i_state e = ''pending'' then max 1 (5 - i_attempts e)
     else if i_state e = ''delivered'' then max 0 (5 - i_attempts e) else 0)"

definition allowance :: "inbox_event \<Rightarrow> int" where
  "allowance e = (if i_kind e = REASSIGNABLE \<and> owner e \<noteq> Some ''patrol'' then 5 else 0) + rest_of e"

definition delivered_now :: "inbox_event \<Rightarrow> inbox_event \<Rightarrow> int" where
  "delivered_now e f = (if i_state e \<noteq> ''delivered'' \<and> i_state f = ''delivered'' then 1 else 0)"

definition moves :: "inbox_event \<Rightarrow> inbox_event \<Rightarrow> bool" where
  "moves e f \<longleftrightarrow> i_kind f = i_kind e \<and> (owner e = Some ''patrol'' \<longrightarrow> owner f = Some ''patrol'')
     \<and> allowance f + delivered_now e f \<le> allowance e"

definition rows_move :: "db \<Rightarrow> db \<Rightarrow> bool" where
  "rows_move d d' \<longleftrightarrow> distinct (map fst (inbox d'))
     \<and> (\<forall>i e. map_of (inbox d) i = Some e \<longrightarrow> (\<exists>f. map_of (inbox d') i = Some f \<and> moves e f))"

lemma moves_refl [simp]: "moves e e"
  by (simp add: moves_def delivered_now_def)

lemma moves_trans:
  assumes "moves e f" "moves f g"
  shows "moves e g"
proof -
  have "delivered_now e g \<le> delivered_now e f + delivered_now f g" by (simp add: delivered_now_def)
  then show ?thesis using assms by (auto simp: moves_def)
qed

text \<open>A statement that keeps kind and owner, and lets nothing become delivered.\<close>

lemma keeps_moves:
  "i_kind f = i_kind e \<Longrightarrow> owner f = owner e \<or> owner e = None \<Longrightarrow> rest_of f \<le> rest_of e
     \<Longrightarrow> i_state f \<noteq> ''delivered'' \<or> i_state e = ''delivered'' \<Longrightarrow> moves e f"
  by (auto simp: moves_def allowance_def delivered_now_def)

lemma owner_simps [simp]:
  "owner (e\<lparr>i_state := s\<rparr>) = owner e" "owner (e\<lparr>i_attempts := n\<rparr>) = owner e" "owner (e\<lparr>i_next_at := nx\<rparr>) = owner e"
  "owner (e\<lparr>i_error := r\<rparr>) = owner e" "owner (e\<lparr>i_updated_at := t\<rparr>) = owner e" "owner (e\<lparr>i_acked_by := b\<rparr>) = owner e"
  "owner (e\<lparr>i_merged_into := m\<rparr>) = owner e" "owner (e\<lparr>i_wake := k\<rparr>) = owner e"
  by (simp_all add: owner_def cong: option.case_cong)

lemma rows_move_refl: "distinct (map fst (inbox d)) \<Longrightarrow> rows_move d d"
  by (simp add: rows_move_def)

lemma rows_move_trans: "rows_move a b \<Longrightarrow> rows_move b c \<Longrightarrow> rows_move a c"
  unfolding rows_move_def using moves_trans by (metis (no_types, lifting))

lemma rows_moveD: "rows_move a b \<Longrightarrow> distinct (map fst (inbox b))"
  by (simp add: rows_move_def)

lemma rows_move_fold:
  "distinct (map fst (inbox d)) \<Longrightarrow> (\<And>x d. distinct (map fst (inbox d)) \<Longrightarrow> rows_move d (g x d)) \<Longrightarrow> rows_move d (fold g xs d)"
proof (induction xs arbitrary: d)
  case (Cons x xs)
  have step: "rows_move d (g x d)" using Cons.prems by blast
  have "rows_move (g x d) (fold g xs (g x d))" using Cons.IH [OF rows_moveD [OF step]] Cons.prems(2) by blast
  then show ?case using rows_move_trans [OF step] by simp
qed (simp add: rows_move_refl)

lemma tame_owner: "tame_event e f \<Longrightarrow> owner e \<noteq> None \<Longrightarrow> owner f = owner e"
  by (auto simp: tame_event_def owner_def split: option.splits)

lemma tame_moves: "tame_event e f \<Longrightarrow> moves e f"
  using tame_owner [of e f] by (auto simp: moves_def allowance_def rest_of_def delivered_now_def tame_event_def)

lemma tame_rows: "tame g \<Longrightarrow> distinct (map fst (inbox d)) \<Longrightarrow> rows_move d (g d)"
  unfolding tame_def rows_move_def using tame_moves by blast

section \<open>Single statements\<close>

lemma update_keys [simp]: "map fst (inbox (fst (update_event i w f d))) = map fst (inbox d)"
  by (simp add: update_event_def split: option.split)

lemma update_row:
  "map_of (inbox d) j = Some e \<Longrightarrow>
     map_of (inbox (fst (update_event i w f d))) j = Some (if i = j \<and> w e then f e else e)"
  by (auto simp: update_event_def split: option.split)

lemma update_moves:
  assumes "distinct (map fst (inbox d))" "\<And>e. map_of (inbox d) i = Some e \<Longrightarrow> w e \<Longrightarrow> moves e (f e)"
  shows "rows_move d (fst (update_event i w f d))"
  unfolding rows_move_def
proof (intro conjI allI impI)
  fix j e
  assume "map_of (inbox d) j = Some e"
  then show "\<exists>g. map_of (inbox (fst (update_event i w f d))) j = Some g \<and> moves e g"
    using update_row [of d j e i w f] assms(2) [of e] by auto
qed (use assms(1) in simp)

lemma push_rows:
  assumes "map_of (inbox d) i = Some e"
  shows "map_of (inbox (snd (push_inbox_tx eid key kind a b t p now d))) i = Some e"
  using assms by (auto simp: push_inbox_tx_def insert_or_ignore_def Let_def map_add_def split: option.splits if_splits)

lemma push_distinct:
  "distinct (map fst (inbox d)) \<Longrightarrow> distinct (map fst (inbox (snd (push_inbox_tx eid key kind a b t p now d))))"
  by (auto simp: push_inbox_tx_def insert_or_ignore_def Let_def dest: map_of_eq_None_iff [THEN iffD1] split: if_splits)

lemma push_moves: "distinct (map fst (inbox d)) \<Longrightarrow> rows_move d (snd (push_inbox_tx eid key kind a b t p now d))"
  unfolding rows_move_def by (auto simp: push_rows push_distinct)

lemma merge_moves: "distinct (map fst (inbox d)) \<Longrightarrow> rows_move d (merge_into keep now i d)"
  unfolding merge_into_def by (rule update_moves) (auto simp: rest_of_def intro!: keeps_moves)

lemma classify_one_moves: "distinct (map fst (inbox d)) \<Longrightarrow> rows_move d (classify_one x d)"
  unfolding classify_one_def
  by (cases x) (auto simp: Let_def rest_of_def owner_def split: option.splits intro!: update_moves keeps_moves)

lemma defer_moves: "distinct (map fst (inbox d)) \<Longrightarrow> rows_move d (defer_notify ids nx why now d)"
proof (induction ids arbitrary: d)
  case (Cons i ids)
  have step: "rows_move d (fst (update_event i (\<lambda>e. i_state e \<noteq> ''handled'')
      (\<lambda>e. e\<lparr>i_attempts := i_attempts e + 1, i_next_at := Some nx, i_error := Some why, i_updated_at := now\<rparr>) d))"
    by (rule update_moves [OF Cons.prems]) (auto simp: rest_of_def intro!: keeps_moves)
  show ?case using rows_move_trans [OF step Cons.IH [OF rows_moveD [OF step]]] by simp
qed (simp add: rows_move_refl)

lemma settle_moves: "distinct (map fst (inbox d)) \<Longrightarrow> rows_move d (settle_approval_event i now d)"
  unfolding settle_approval_event_def
  by (rule update_moves) (auto simp: rest_of_def intro!: keeps_moves)

lemma requeue_moves:
  assumes "distinct (map fst (inbox d))" "\<And>e. map_of (inbox d) i = Some e \<Longrightarrow> i_attempts e < 5"
  shows "rows_move d (snd (requeue_inbox i why now d))"
proof -
  have "snd (requeue_inbox i why now d) = fst (update_event i (\<lambda>e. i_state e = ''delivered'')
      (\<lambda>e. e\<lparr>i_state := ''pending'', i_error := Some why, i_next_at := None, i_updated_at := now\<rparr>) d)"
    by (simp add: requeue_inbox_def split: prod.split)
  moreover have "rows_move d \<dots>"
    by (rule update_moves [OF assms(1)]) (use assms(2) in \<open>auto simp: rest_of_def intro!: keeps_moves\<close>)
  ultimately show ?thesis by simp
qed

lemma give_up_moves:
  assumes "distinct (map fst (inbox d))"
  shows "rows_move d (snd (give_up_inbox_and_notify i why key a b p eid now d))"
proof -
  let ?d = "fst (update_event i (\<lambda>e. i_state e = ''delivered'')
      (\<lambda>e. e\<lparr>i_state := ''gave_up'', i_error := Some why, i_next_at := None, i_updated_at := now\<rparr>) d)"
  have step: "rows_move d ?d"
    by (rule update_moves [OF assms]) (auto simp: rest_of_def intro!: keeps_moves)
  have "snd (give_up_inbox_and_notify i why key a b p eid now d) = d
      \<or> snd (give_up_inbox_and_notify i why key a b p eid now d) = snd (push_inbox_tx eid key ''inbox_gave_up'' a b None p now ?d)"
    by (auto simp: give_up_inbox_and_notify_def split: prod.split)
  then show ?thesis using rows_move_refl [OF assms] rows_move_trans [OF step push_moves [OF rows_moveD [OF step]]] by metis
qed

lemma reassign_moves:
  assumes "distinct (map fst (inbox d))" "\<And>e. map_of (inbox d) (fst x) = Some e \<Longrightarrow> i_kind e = REASSIGNABLE"
  shows "rows_move d (snd (reassign_one x reason stamp now d))"
proof -
  have "snd (reassign_one x reason stamp now d) = fst (update_event (fst x) (\<lambda>e. owner e = Some ''responder'' \<and> i_state e \<noteq> ''handled'')
      (handed_over (handed_payload reason stamp (i_payload (snd x))) now) d)"
    by (simp add: reassign_one_def split: prod.split)
  moreover have "rows_move d \<dots>"
    by (rule update_moves [OF assms(1)])
      (use assms(2) in \<open>auto simp: moves_def allowance_def rest_of_def delivered_now_def owner_def handed_over_def\<close>)
  ultimately show ?thesis by simp
qed

section \<open>Deliveries\<close>

definition marked :: "role \<Rightarrow> inbox_event \<Rightarrow> inbox_event \<Rightarrow> bool" where
  "marked r e f \<longleftrightarrow> f = e
     \<or> i_state e \<noteq> ''handled'' \<and> i_state f = ''delivered'' \<and> i_claimed_by f = Some (role_str r) \<and> i_kind f = i_kind e
       \<and> i_attempts e + 1 \<le> i_attempts f"

lemma marked_trans: "marked r e f \<Longrightarrow> marked r f g \<Longrightarrow> marked r e g"
  by (auto simp: marked_def)

definition mark_one :: "role \<Rightarrow> ident \<Rightarrow> string \<Rightarrow> time \<Rightarrow> ident \<Rightarrow> db \<Rightarrow> db" where
  "mark_one r t dl now i d =
     fst (update_event i (\<lambda>e. i_state e \<noteq> ''handled'' \<and> (i_claimed_by e = None \<or> i_claimed_by e = Some (role_str r)))
            (\<lambda>e. e\<lparr>i_state := ''delivered'', i_claimed_by := Some (role_str r), i_notify_turn := Some t,
                   i_notify_delivery := Some dl, i_delivered_at := Some now, i_attempts := i_attempts e + 1,
                   i_next_at := None, i_error := None, i_updated_at := now\<rparr>) d)"

lemma mark_fold: "snd (inbox_mark_delivered ids r t dl now d) = fold (mark_one r t dl now) ids d"
  by (induction ids arbitrary: d) (simp_all add: Let_def mark_one_def split: prod.split, metis fst_conv snd_conv)

lemma mark_one_row:
  assumes "map_of (inbox d) i = Some e"
  obtains f where "map_of (inbox (mark_one r t dl now j d)) i = Some f" "marked r e f" "j \<noteq> i \<Longrightarrow> f = e"
  using update_row [OF assms] by (simp add: mark_one_def marked_def)

lemma mark_rows:
  assumes "map_of (inbox d) i = Some e"
  shows "\<exists>f. map_of (inbox (fold (mark_one r t dl now) ids d)) i = Some f \<and> marked r e f \<and> (i \<notin> set ids \<longrightarrow> f = e)"
  using assms
proof (induction ids arbitrary: d e)
  case (Cons j ids)
  obtain g where g: "map_of (inbox (mark_one r t dl now j d)) i = Some g" "marked r e g" "j \<noteq> i \<Longrightarrow> g = e"
    using mark_one_row [OF Cons.prems] by metis
  from Cons.IH [OF g(1)] obtain f where
    f: "map_of (inbox (fold (mark_one r t dl now) ids (mark_one r t dl now j d))) i = Some f" "marked r g f" "i \<notin> set ids \<longrightarrow> f = g"
    by (elim exE conjE)
  show ?case using f(1) marked_trans [OF g(2) f(2)] f(3) g(3) by (intro exI [of _ f]) auto
qed (simp add: marked_def)

lemma mark_keys: "map fst (inbox (fold (mark_one r t dl now) ids d)) = map fst (inbox d)"
  by (induction ids arbitrary: d) (simp_all add: mark_one_def)

text \<open>A wake-up: what was due is read, others write while the digest goes out, then the rows are marked.\<close>

lemma due_member:
  assumes "distinct (map fst (inbox d))" "map_of (inbox d) i = Some e" "i \<in> set (map fst (due_for r conf now m d))"
  shows "i_state e = ''pending'' \<and> owned_and_capped r conf m e"
proof -
  obtain x where "(i, x) \<in> set (inbox d)" "i_state x = ''pending'' \<and> owned_and_capped r conf m x"
    using assms(3) by (auto simp: due_for_def by_age_def)
  then show ?thesis using assms(1,2) by simp
qed

lemma deliver_moves:
  assumes "tame g" "distinct (map fst (inbox d))"
  shows "rows_move d (snd (inbox_mark_delivered (map fst (due_for r conf now m d)) r t dl now' (g d)))"
  unfolding rows_move_def mark_fold
proof (intro conjI allI impI)
  show "distinct (map fst (inbox (fold (mark_one r t dl now') (map fst (due_for r conf now m d)) (g d))))"
    using assms by (simp add: tame_def mark_keys)
  fix i e
  assume row: "map_of (inbox d) i = Some e"
  let ?ids = "map fst (due_for r conf now m d)"
  obtain e1 where e1: "map_of (inbox (g d)) i = Some e1" "tame_event e e1" using assms row unfolding tame_def by blast
  obtain f where f: "map_of (inbox (fold (mark_one r t dl now') ?ids (g d))) i = Some f" "marked r e1 f" "i \<notin> set ?ids \<longrightarrow> f = e1"
    using mark_rows [OF e1(1)] by blast
  have "moves e f"
  proof (cases "f = e1")
    case True
    then show ?thesis using tame_moves [OF e1(2)] by simp
  next
    case False
    then have "i \<in> set ?ids" using f(3) by blast
    then have due: "i_state e = ''pending''" "owned_and_capped r conf m e" using due_member [OF assms(2) row] by auto
    have f': "i_state f = ''delivered''" "i_claimed_by f = Some (role_str r)" "i_kind f = i_kind e" "i_attempts e + 1 \<le> i_attempts f"
      using f(2) False e1(2) by (auto simp: marked_def tame_event_def)
    have own: "owner f = Some (role_str r)" using f'(2) by (simp add: owner_def)
    have "owner e = Some ''patrol'' \<longrightarrow> r = Patrol" using due(2) by (auto simp: owned_and_capped_def split: role.splits)
    then show ?thesis using f' own due
      by (cases r) (auto simp: moves_def allowance_def rest_of_def delivered_now_def owned_and_capped_def)
  qed
  then show "\<exists>f. map_of (inbox (fold (mark_one r t dl now') ?ids (g d))) i = Some f \<and> moves e f" using f(1) by blast
qed

section \<open>Passes over a list of events\<close>

text \<open>
  A pass reads a list once and then treats each event of it: what it read is still there when its turn comes,
  because no step touches the event of another.
\<close>

lemma rows_move_snapshot:
  assumes "distinct (map fst (inbox d))" "distinct (map fst xs)" "\<And>x. x \<in> set xs \<Longrightarrow> map_of (inbox d) (fst x) = Some (snd x)"
    and "\<And>x d. distinct (map fst (inbox d)) \<Longrightarrow> map_of (inbox d) (fst x) = Some (snd x) \<Longrightarrow> rows_move d (g x d)"
    and "\<And>x d j e. j \<noteq> fst x \<Longrightarrow> map_of (inbox d) j = Some e \<Longrightarrow> map_of (inbox (g x d)) j = Some e"
  shows "rows_move d (fold g xs d)"
  using assms(1-3)
proof (induction xs arbitrary: d)
  case (Cons x xs)
  have step: "rows_move d (g x d)" using Cons.prems assms(4) by simp
  have "rows_move (g x d) (fold g xs (g x d))"
  proof (rule Cons.IH [OF rows_moveD [OF step]])
    show "distinct (map fst xs)" using Cons.prems(2) by simp
    fix y assume y: "y \<in> set xs"
    then have "fst y \<noteq> fst x" using Cons.prems(2) by (auto simp: image_iff)
    then show "map_of (inbox (g x d)) (fst y) = Some (snd y)" using assms(5) [of "fst y" x d "snd y"] Cons.prems(3) y by simp
  qed
  then show ?case using rows_move_trans [OF step] by simp
qed (simp add: rows_move_refl)

lemma sorted_rows:
  assumes "distinct (map fst t)"
  shows "distinct (map fst (sort_key k (filter P t)))" "x \<in> set (sort_key k (filter P t)) \<Longrightarrow> map_of t (fst x) = Some (snd x)"
  using assms by (auto simp: distinct_map intro: inj_on_subset)

lemma recover_one_moves:
  assumes "distinct (map fst (inbox d))" "map_of (inbox d) (fst x) = Some (snd x)"
  shows "rows_move d (recover_one deadline v x d)"
proof -
  have "rows_move d (snd (requeue_inbox (fst x) why now d))" if "keep_recovering (i_attempts (snd x)) age" for why now age
    using requeue_moves [OF assms(1), of "fst x"] assms(2) that by (auto simp: keep_recovering_def RECOVER_MAX_DELIVERIES_def split: if_splits)
  then show ?thesis
    using rows_move_refl [OF assms(1)] give_up_moves [OF assms(1)]
    by (auto simp: recover_one_def Let_def give_up_on_def split: option.split)
qed

lemma recover_one_others:
  assumes "j \<noteq> fst x" "map_of (inbox d) j = Some e"
  shows "map_of (inbox (recover_one deadline v x d)) j = Some e"
  using assms
  by (auto simp: recover_one_def Let_def give_up_on_def requeue_inbox_def give_up_inbox_and_notify_def update_event_def
      intro!: push_rows split: option.split prod.split)

lemma mail_recover:
  assumes "distinct (map fst (inbox (mail w)))"
  shows "rows_move (mail w) (mail (recover_unacked deadline v w))"
proof -
  have "rows_move (mail w) (fold (recover_one deadline v) (delivered_inbox (mail w)) (mail w))"
    unfolding delivered_inbox_def
    by (rule rows_move_snapshot [where g = "recover_one deadline v", OF assms sorted_rows(1) [OF assms] sorted_rows(2) [OF assms]
          recover_one_moves recover_one_others])
  then show ?thesis using rows_move_refl [OF assms] by (simp add: recover_unacked_def Let_def mail_def with_mail_def)
qed

lemma coalesce_moves: "distinct (map fst (inbox d)) \<Longrightarrow> rows_move d (coalesce_patrol now d)"
proof -
  assume d: "distinct (map fst (inbox d))"
  have h: "rows_move d (coalesce_health now d)"
    by (auto simp: coalesce_health_def intro: rows_move_refl d rows_move_fold merge_moves split: list.split)
  have "rows_move (coalesce_health now d) (coalesce_patrol now d)"
    unfolding coalesce_patrol_def Let_def
    by (rule rows_move_fold [OF rows_moveD [OF h]])
      (auto split: prod.split intro: rows_move_trans [OF merge_moves merge_moves] rows_moveD [OF merge_moves])
  then show ?thesis using rows_move_trans [OF h] by blast
qed

lemma mail_roles:
  assumes "distinct (map fst (inbox (mail w)))"
  shows "rows_move (mail w) (mail (tick_roles now classified w))"
proof -
  have "rows_move (mail w) (classify_inbox (mail w))"
    unfolding classify_inbox_def by (rule rows_move_fold [OF assms]) (rule classify_one_moves)
  from rows_move_trans [OF this coalesce_moves [OF rows_moveD [OF this]]] coalesce_moves [OF assms]
  show ?thesis by (simp add: tick_roles_def Let_def)
qed

definition all_reassignable :: "(ident \<times> inbox_event) list \<Rightarrow> db \<Rightarrow> bool" where
  "all_reassignable xs d \<longleftrightarrow> (\<forall>x \<in> set xs. \<exists>e. map_of (inbox d) (fst x) = Some e \<and> i_kind e = REASSIGNABLE)"

lemma failover_step_moves:
  assumes "distinct (map fst (inbox (snd s)))" "all_reassignable [x] (snd s)"
  shows "rows_move (snd s) (snd (failover_step v u aps x s))"
  using rows_move_refl [OF assms(1)] settle_moves [OF assms(1)] reassign_moves [OF assms(1), of x] assms(2)
  by (cases s) (auto simp: failover_step_def all_reassignable_def case_prod_beta split: option.split)

lemma failover_fold_moves:
  "distinct (map fst (inbox (snd s))) \<Longrightarrow> all_reassignable xs (snd s) \<Longrightarrow> rows_move (snd s) (snd (fold (failover_step v u aps) xs s))"
proof (induction xs arbitrary: s)
  case (Cons x xs)
  have step: "rows_move (snd s) (snd (failover_step v u aps x s))"
    using Cons.prems by (intro failover_step_moves) (simp_all add: all_reassignable_def)
  have "all_reassignable xs (snd (failover_step v u aps x s))"
    unfolding all_reassignable_def
  proof
    fix y assume "y \<in> set xs"
    then obtain e where "map_of (inbox (snd s)) (fst y) = Some e" "i_kind e = REASSIGNABLE"
      using Cons.prems(2) by (auto simp: all_reassignable_def)
    then show "\<exists>e. map_of (inbox (snd (failover_step v u aps x s))) (fst y) = Some e \<and> i_kind e = REASSIGNABLE"
      using step by (fastforce simp: rows_move_def moves_def)
  qed
  then show ?case using Cons.IH [OF rows_moveD [OF step]] rows_move_trans [OF step] by simp
qed (simp add: rows_move_refl)

lemma mail_failover:
  assumes "distinct (map fst (inbox (mail w)))"
  shows "rows_move (mail w) (mail (tick_failover v st w))"
proof -
  have "all_reassignable (open_approval_events (mail w)) (mail w)"
    using assms by (auto simp: all_reassignable_def open_approval_events_def by_age_def)
  then show ?thesis
    using assms failover_fold_moves [of "(0, mail w)" "open_approval_events (mail w)"] rows_move_refl [OF assms]
    by (auto simp: tick_failover_def reassign_stale_approvals_def)
qed

section \<open>Waking\<close>

lemma office_mail [simp]:
  "mail (role_record_wake r n now w) = mail w" "mail (role_set_status r st reset now w) = mail w"
  "mail (role_set_notify_next r nx w) = mail w" "mail (w\<lparr>of_last_notify := t\<rparr>) = mail w"
  "mail (snd (role_get r w)) = mail w"
  by (simp_all add: role_record_wake_def role_set_status_def role_set_notify_next_def get_upd_role_def upd_role_def mail_def)

lemma mail_patrol_send:
  assumes "tame (pe_race e)" "distinct (map fst (inbox (mail w)))" "due = due_for Patrol conf now m (mail w)"
  shows "rows_move (mail w) (mail (patrol_send due e w))"
proof -
  have race: "rows_move (mail w) (pe_race e (mail w))" using assms tame_rows by blast
  have later: "rows_move (mail w) (defer_notify (map fst due) nx why now' (pe_race e (mail w)))" for nx why now'
    using rows_move_trans [OF race defer_moves [OF rows_moveD [OF race]]] .
  have sent: "rows_move (mail w) (snd (inbox_mark_delivered (map fst due) Patrol t dl now' (pe_race e (mail w))))" for t dl now'
    unfolding assms(3) by (rule deliver_moves [OF assms(1,2)])
  show ?thesis
    using later sent by (auto simp: patrol_send_def Let_def case_prod_beta split: sending.split)
qed

lemma mail_patrol:
  assumes "tame (pe_race e)" "distinct (map fst (inbox (mail w)))"
  shows "rows_move (mail w) (mail (patrol_notify m iv e w))"
proof -
  obtain s k where init: "get_or_init (of_mgr w) = (s, k)" by (cases "get_or_init (of_mgr w)")
  let ?w = "w\<lparr>of_mgr := k\<rparr>"
  have same: "mail ?w = mail w" using init by (auto simp: get_or_init_def mail_def split: option.splits)
  have send: "rows_move (mail w) (mail (patrol_send (due_for Patrol conf (pe_now e) n (mail ?w)) e ?w))" for conf n
    using mail_patrol_send [OF assms(1), of ?w] assms(2) same by simp
  show ?thesis
    using rows_move_refl [OF assms(2)] send same init
    by (auto simp: patrol_notify_def Let_def split: option.split)
qed

lemma mail_send_digest:
  assumes "tame (ne_race e)" "distinct (map fst (inbox (mail w)))" "due = due_for Responder conf now m (mail w)"
  shows "rows_move (mail w) (mail (send_digest cap row due e w))"
proof -
  have race: "rows_move (mail w) (ne_race e (mail w))" using assms tame_rows by blast
  have later: "rows_move (mail w) (defer_notify (map fst due) nx why now' (ne_race e (mail w)))" for nx why now'
    using rows_move_trans [OF race defer_moves [OF rows_moveD [OF race]]] .
  have sent: "rows_move (mail w) (snd (inbox_mark_delivered (map fst due) Responder t dl now' (ne_race e (mail w))))" for t dl now'
    unfolding assms(3) by (rule deliver_moves [OF assms(1,2)])
  show ?thesis
    using later sent
    by (auto simp: send_digest_def Let_def case_prod_beta note_login_problem_def deferred_def split: sending.split)
qed

lemma mail_responder:
  assumes "tame (ne_race e)" "distinct (map fst (inbox (mail w)))"
  shows "rows_move (mail w) (mail (responder_notify shown batch cap e w))"
proof -
  have deliver: "rows_move (mail w) (mail (deliver_due batch cap row nx e x))" if "mail x = mail w" for row nx x
    using mail_send_digest [OF assms(1), of x _ True "ne_now e" 0] assms(2) rows_move_refl [OF assms(2)] that
    by (auto simp: deliver_due_def Let_def split: option.split)
  have missing: "rows_move (mail w) (mail (report_missing shown b now ev p x))" if "mail x = mail w" for b now ev p x
    using push_moves [OF assms(2)] rows_move_refl [OF assms(2)] that by (simp add: report_missing_def)
  show ?thesis
    using deliver missing rows_move_refl [OF assms(2)]
    by (auto simp: responder_notify_def park_on_quota_def Let_def case_prod_beta split: option.split quota_state.split)
qed

lemma mail_step_moves:
  assumes "tame_op op" "distinct (map fst (inbox (mail w)))"
  shows "rows_move (mail w) (mail (mail_step shown op w))"
  using assms mail_patrol mail_responder mail_recover mail_roles mail_failover tame_rows by (cases op) auto

end
