(* ===== verification/Responder_Waits.thy ===== *)
theory Responder_Waits
  imports Responder
begin

text \<open>
  How the responder's waits begin and end: the status of its row and the time the wait began, through any
  sequence of wake-ups, watchdog ticks, starts, stops and settings.
\<close>

section \<open>Operations\<close>

datatype responder_op =
    Wake notify_env
  | Watch responder_env
  | Start_Asked db bool bool
  | Stop_Asked db bool
  | Set_Up ident
  | Set_Runtime string string string
  | Set_Persona string "int option"
  | Duplicate
  | Other_Mail "db \<Rightarrow> db"

fun respond :: "(time \<Rightarrow> string) \<Rightarrow> int \<Rightarrow> int \<Rightarrow> responder_op \<Rightarrow> office \<Rightarrow> office" where
  "respond shown batch cap (Wake e) w = responder_notify shown batch cap e w"
| "respond shown batch cap (Watch e) w = snd (responder_watchdog_tick shown e w)"
| "respond shown batch cap (Start_Asked d launch sup_ok) w = snd (responder_start_requested d launch sup_ok w)"
| "respond shown batch cap (Stop_Asked d stopped) w = snd (responder_stop d stopped w)"
| "respond shown batch cap (Set_Up b) w = role_set_env Responder b w"
| "respond shown batch cap (Set_Runtime i mo ef) w = role_set_runtime Responder i mo ef w"
| "respond shown batch cap (Set_Persona txt v) w = snd (set_persona txt v w)"
| "respond shown batch cap Duplicate w = role_count_duplicate Responder w"
| "respond shown batch cap (Other_Mail f) w = with_mail (f (mail w)) w"

definition wait_of :: "office \<Rightarrow> string \<times> time option" where
  "wait_of w = (ro_status (role_row_of w Responder), ro_waiting_since (role_row_of w Responder))"

text \<open>What happens while a watchdog tick waits for its lock does not move the wait.\<close>

fun calm :: "responder_op \<Rightarrow> bool" where
  "calm (Watch e) \<longleftrightarrow> (\<forall>w. wait_of (rw_race e w) = wait_of w)"
| "calm _ \<longleftrightarrow> True"

section \<open>What each statement does to the wait\<close>

definition upd_or_same :: "(role_row \<Rightarrow> role_row) \<Rightarrow> bool" where
  "upd_or_same f \<longleftrightarrow> (\<forall>x. ro_status (f x) = ro_status x \<and> ro_waiting_since (f x) = ro_waiting_since x)"

lemma wait_upd:
  assumes "upd_or_same f"
  shows "wait_of (upd_role Responder f w) = wait_of w"
proof -
  have f: "ro_status (f x) = ro_status x" "ro_waiting_since (f x) = ro_waiting_since x" for x
    using assms by (simp_all add: upd_or_same_def)
  show ?thesis by (simp add: wait_of_def upd_role_def role_row_of_def f split: option.split)
qed

lemma wait_get_upd:
  assumes "upd_or_same f"
  shows "wait_of (get_upd_role Responder f w) = wait_of w"
  using assms by (simp add: wait_of_def upd_or_same_def)

lemma wait_get [simp]: "wait_of (snd (role_get r w)) = wait_of w"
  by (simp add: wait_of_def)

lemma wait_mail [simp]: "wait_of (with_mail d w) = wait_of w" "wait_of (with_cache k w) = wait_of w" "wait_of (w\<lparr>of_mgr := m\<rparr>) = wait_of w"
  by (simp_all add: wait_of_def role_row_of_def)

lemma wait_statements [simp]:
  "wait_of (role_set_env Responder b w) = wait_of w" "wait_of (role_set_runtime Responder i mo ef w) = wait_of w"
  "wait_of (role_set_desired_running Responder x w) = wait_of w" "wait_of (role_set_watchdog Responder a n er w) = wait_of w"
  "wait_of (role_mark_gave_up Responder why now w) = wait_of w" "wait_of (role_set_notify_next Responder n w) = wait_of w"
  "wait_of (role_record_wake Responder k now w) = wait_of w" "wait_of (role_count_duplicate Responder w) = wait_of w"
  unfolding role_set_env_def role_set_runtime_def role_set_desired_running_def role_set_watchdog_def role_mark_gave_up_def
    role_set_notify_next_def role_record_wake_def role_count_duplicate_def
  by (intro wait_upd wait_get_upd; simp add: upd_or_same_def Let_def)+

lemma wait_report_missing [simp]: "wait_of (report_missing shown b now ev p w) = wait_of w"
  by (simp add: report_missing_def)

lemma role_get_eq: "role_get r w = (role_row_of w r, snd (role_get r w))"
  by (metis role_get_fst prod.collapse)

lemma wait_persona [simp]: "wait_of (snd (set_persona txt v w)) = wait_of w"
proof -
  have "upd_or_same (\<lambda>y. y\<lparr>ro_persona := Some txt, ro_persona_version := ro_persona_version y + 1\<rparr>)" by (simp add: upd_or_same_def)
  then show ?thesis unfolding set_persona_def by (subst role_get_eq) (simp add: Let_def wait_upd split: prod.split)
qed

lemma wait_start [simp]: "wait_of (snd (responder_start d launch sup_ok w)) = wait_of w"
  unfolding responder_start_def by (subst role_get_eq) (simp add: Let_def split: option.split)

lemma wait_start_requested [simp]: "wait_of (snd (responder_start_requested d launch sup_ok w)) = wait_of w"
  unfolding responder_start_requested_def by (subst role_get_eq) (simp add: Let_def)

lemma wait_stop [simp]: "wait_of (snd (responder_stop d stopped w)) = wait_of w"
  unfolding responder_stop_def by (subst role_get_eq) (simp add: Let_def)

lemma wait_retry [simp]: "wait_of (responder_retry_in a er e w) = wait_of w"
  by (simp add: responder_retry_in_def Let_def)

lemma wait_report [simp]: "wait_of (responder_report_gave_up shown why e w) = wait_of w"
  unfolding responder_report_gave_up_def by (subst role_get_eq) (simp add: Let_def split: option.split)

lemma wait_restart:
  assumes "\<And>w. wait_of (rw_race e w) = wait_of w"
  shows "wait_of (snd (responder_restart shown b qur e w)) = wait_of w"
proof -
  have start: "wait_of w2 = wait_of w" if "responder_start d l s w = (res, w2)" for d l s w res w2
    using wait_start [of d l s w] that by simp
  show ?thesis
    unfolding responder_restart_def
    by (subst role_get_eq) (auto simp: Let_def assms dest!: start split: option.split prod.split sum.split)
qed

lemma wait_watch:
  assumes "\<And>w. wait_of (rw_race e w) = wait_of w"
  shows "wait_of (snd (responder_watchdog_tick shown e w)) = wait_of w"
  unfolding responder_watchdog_tick_def
  by (subst role_get_eq) (auto simp: Let_def wait_restart [OF assms] split: option.split prod.split plan.split bool.split)

lemma respond_wait: "calm op \<Longrightarrow> \<forall>e. op \<noteq> Wake e \<Longrightarrow> wait_of (respond shown batch cap op w) = wait_of w"
  by (cases op) (auto simp: wait_watch)

lemma wait_set_status:
  assumes "map_of (of_roles w) ''responder'' = Some x"
  shows "wait_of (role_set_status Responder st r now w) =
    (st, if st = ''waiting_quota'' \<or> st = ''needs_login'' then (case snd (wait_of w) of Some t \<Rightarrow> Some t | None \<Rightarrow> Some now) else None)"
  using assms by (simp add: wait_of_def role_set_status_def upd_role_def role_row_of_def WAITING_STATES_def)

section \<open>One wake-up\<close>

lemma row_there: "map_of (of_roles (snd (role_get Responder w))) ''responder'' = Some (role_row_of w Responder)"
  using role_get_there [of Responder w] by simp

lemma there_status:
  "map_of (of_roles w) ''responder'' = Some x \<Longrightarrow> \<exists>y. map_of (of_roles (role_set_status Responder st r now w)) ''responder'' = Some y"
  by (simp add: role_set_status_def upd_role_def)

lemma there_upd:
  "map_of (of_roles w) ''responder'' = Some x \<Longrightarrow> \<exists>y. map_of (of_roles (upd_role Responder f w)) ''responder'' = Some y"
  by (simp add: upd_role_def)

lemma wait_note:
  assumes "map_of (of_roles w) ''responder'' = Some x"
  shows "wait_of (note_login_problem e status (deferred n why due e w)) =
    (if status = ''needs_login'' \<or> ne_screen_after e \<noteq> Some True then wait_of w
     else (''needs_login'', case snd (wait_of w) of Some t \<Rightarrow> Some t | None \<Rightarrow> Some (ne_now e)))"
  using assms wait_set_status [of "deferred n why due e w" x "''needs_login''"]
  by (auto simp: note_login_problem_def deferred_def)

text \<open>Sending leaves the wait as it is, or turns it into the wait for a login that the pane shows.\<close>

definition asks_login :: "notify_env \<Rightarrow> string \<times> time option \<Rightarrow> string \<times> time option" where
  "asks_login e x = (''needs_login'', case snd x of Some t \<Rightarrow> Some t | None \<Rightarrow> Some (ne_now e))"

lemma wait_send:
  assumes "map_of (of_roles w) ''responder'' = Some x"
  shows "wait_of (send_digest cap row due e w) = wait_of w
    \<or> ne_screen_after e = Some True \<and> wait_of (send_digest cap row due e w) = asks_login e (wait_of w)"
proof -
  let ?w = "with_mail (ne_race e (mail w)) w"
  have n: "wait_of (note_login_problem e (ro_status row) (deferred k why due e ?w)) = wait_of w
      \<or> ne_screen_after e = Some True \<and> wait_of (note_login_problem e (ro_status row) (deferred k why due e ?w)) = asks_login e (wait_of w)" for k why
    using assms wait_note [of ?w x e "ro_status row" k why due] by (simp add: asks_login_def)
  show ?thesis using n by (auto simp: send_digest_def Let_def split: sending.split prod.split)
qed

lemma wait_deliver:
  assumes "map_of (of_roles w) ''responder'' = Some x"
  shows "wait_of (deliver_due batch cap row next_at e w) = wait_of w
    \<or> ne_screen_after e = Some True \<and> wait_of (deliver_due batch cap row next_at e w) = asks_login e (wait_of w)"
  using wait_send [OF assms] by (auto simp: deliver_due_def Let_def split: option.split)

text \<open>The wait after the first half of a wake-up, before anything is sent.\<close>

definition settled_wait :: "quota_state \<Rightarrow> ident \<Rightarrow> role_row \<Rightarrow> notify_env \<Rightarrow> string \<times> time option \<Rightarrow> string \<times> time option" where
  "settled_wait st b row e x =
     (if quota_wait_over st b row e \<or> ro_status row = ''needs_login'' \<and> login_recovered b row e then ('''', None) else x)"

lemma wait_notify:
  fixes w :: office and shown and batch cap and e
  defines "row \<equiv> role_row_of w Responder" and "w' \<equiv> responder_notify shown batch cap e w"
  shows "wait_of w' = wait_of w
    \<or> (\<exists>b r. responder_bot (ne_world e) row = Some b \<and> quota_state shown (ne_key e) (ne_model e) (ne_now e) (ne_quotas e) = Blocked r
          \<and> wait_of w' = (''waiting_quota'', case snd (wait_of w) of Some t \<Rightarrow> Some t | None \<Rightarrow> Some (ne_now e)))
    \<or> (\<exists>b. responder_bot (ne_world e) row = Some b
          \<and> (\<forall>r. quota_state shown (ne_key e) (ne_model e) (ne_now e) (ne_quotas e) \<noteq> Blocked r)
          \<and> (let x = settled_wait (quota_state shown (ne_key e) (ne_model e) (ne_now e) (ne_quotas e)) b row e (wait_of w)
             in wait_of w' = x \<or> ne_screen_after e = Some True \<and> wait_of w' = asks_login e x))"
proof -
  let ?st = "quota_state shown (ne_key e) (ne_model e) (ne_now e) (ne_quotas e)"
  let ?g = "snd (role_get Responder w)"
  have eq: "w' = (if \<not> ne_rows_ok e then w
      else case responder_bot (ne_world e) row of
           None \<Rightarrow> (case ro_bot row of None \<Rightarrow> ?g | Some b \<Rightarrow> report_missing shown b (ne_now e) (ne_event e) (ne_push e) ?g)
         | Some b \<Rightarrow>
             (case ?st of
                Blocked reset \<Rightarrow> park_on_quota shown cap reset row e ?g
              | st \<Rightarrow>
                  (let over = quota_wait_over st b row e;
                       w1 = (if over then role_set_notify_next Responder None (role_set_status Responder '''' None (ne_now e) ?g) else ?g);
                       w2 = (if ro_status row = ''needs_login'' \<and> login_recovered b row e
                             then role_set_status Responder '''' None (ne_now e) w1 else w1)
                   in deliver_due batch cap row (if over then None else ro_notify_next row) e w2)))"
    unfolding w'_def responder_notify_def row_def by (subst role_get_eq) simp
  show ?thesis
  proof (cases "ne_rows_ok e \<and> responder_bot (ne_world e) row \<noteq> None")
    case False
    then have "wait_of w' = wait_of w" by (auto simp: eq split: option.split)
    then show ?thesis by blast
  next
    case True
    then obtain b where b: "responder_bot (ne_world e) row = Some b" "ne_rows_ok e" by auto
    have park: "wait_of w' = wait_of w \<or> wait_of w' = (''waiting_quota'', case snd (wait_of w) of Some t \<Rightarrow> Some t | None \<Rightarrow> Some (ne_now e))"
      if "?st = Blocked r" for r
      using that b by (auto simp: eq park_on_quota_def Let_def wait_set_status [OF row_there])
    let ?x = "settled_wait ?st b row e (wait_of w)"
    have send: "wait_of w' = ?x \<or> ne_screen_after e = Some True \<and> wait_of w' = asks_login e ?x" if nb: "\<And>r. ?st \<noteq> Blocked r"
    proof -
      let ?over = "quota_wait_over ?st b row e"
      define w1 where "w1 = (if ?over then role_set_notify_next Responder None (role_set_status Responder '''' None (ne_now e) ?g) else ?g)"
      define w2 where "w2 = (if ro_status row = ''needs_login'' \<and> login_recovered b row e
                             then role_set_status Responder '''' None (ne_now e) w1 else w1)"
      obtain y0 where "map_of (of_roles (role_set_status Responder '''' None (ne_now e) ?g)) ''responder'' = Some y0"
        using there_status [OF row_there] by blast
      then obtain y where y: "map_of (of_roles w1) ''responder'' = Some y"
        using there_upd [of _ y0 "\<lambda>x. x\<lparr>ro_notify_next := None\<rparr>"] row_there [of w]
        by (cases ?over) (auto simp: w1_def role_set_notify_next_def)
      obtain z where z: "map_of (of_roles w2) ''responder'' = Some z"
        using there_status [OF y, of "''''" None "ne_now e"] y
        by (cases "ro_status row = ''needs_login'' \<and> login_recovered b row e") (auto simp: w2_def)
      have "wait_of w1 = (if ?over then ('''', None) else wait_of w)" by (simp add: w1_def wait_set_status [OF row_there])
      moreover have "wait_of w2 = (if ro_status row = ''needs_login'' \<and> login_recovered b row e then ('''', None) else wait_of w1)"
        by (simp add: w2_def wait_set_status [OF y])
      ultimately have "wait_of w2 = ?x" by (simp add: settled_wait_def)
      moreover have "w' = deliver_due batch cap row (if ?over then None else ro_notify_next row) e w2"
      proof (cases ?st)
        case (Blocked r)
        then show ?thesis using nb by blast
      qed (use b in \<open>simp_all add: eq w1_def w2_def Let_def\<close>)
      ultimately show ?thesis using wait_deliver [OF z] by simp
    qed
    show ?thesis using park send b(1) by (cases ?st) (auto simp: Let_def)
  qed
qed

end
