(* ===== verification/Responder_Watch.thy ===== *)
theory Responder_Watch
  imports Responder Watchdog_Outage
begin

text \<open>
  The responder's watchdog counts and ends like the supervisor's: both are instances of \<open>Retry_Bounds\<close>.
\<close>

section \<open>How many starts\<close>

definition tried :: "ident \<Rightarrow> int \<Rightarrow> office \<Rightarrow> bool" where
  "tried b a w \<longleftrightarrow> (\<exists>x. map_of (of_roles w) ''responder'' = Some x \<and> ro_bot x = Some b \<and> ro_attempts x = a)"

definition same_tries :: "office \<Rightarrow> office \<Rightarrow> bool" where
  "same_tries w w' \<longleftrightarrow> (\<forall>b a. tried b a w \<longrightarrow> tried b a w')"

text \<open>A tick that does not see it at work; others may move the row meanwhile, but not its counters.\<close>

definition responder_down :: "ident \<Rightarrow> responder_env \<Rightarrow> bool" where
  "responder_down b e \<longleftrightarrow>
     manager_liveness b (rw_seen e) \<noteq> ''idle'' \<and> manager_liveness b (rw_seen e) \<noteq> ''busy''
     \<and> (\<forall>w. same_tries w (rw_race e w))"

lemma get_known: "map_of (of_roles w) ''responder'' = Some x \<Longrightarrow> role_get Responder w = (x, w)"
  by (simp add: role_get_def)

lemma with_rows [simp]: "of_roles (with_mail d w) = of_roles w" "of_roles (with_cache k w) = of_roles w"
  by simp_all

lemma upd_known:
  "map_of (of_roles w) ''responder'' = Some x \<Longrightarrow> map_of (of_roles (upd_role Responder f w)) ''responder'' = Some (f x)"
  by (simp add: upd_role_def)

lemma set_watchdog_known:
  assumes "map_of (of_roles w) ''responder'' = Some x"
  shows "map_of (of_roles (role_set_watchdog Responder a next err w)) ''responder'' =
    Some (let clear = (a = 0 \<and> next = None) in
       x\<lparr>ro_attempts := a, ro_next_at := next,
         ro_last_error := (case err of Some y \<Rightarrow> Some y | None \<Rightarrow> if clear then None else ro_last_error x),
         ro_gave_up_at := (if clear then None else ro_gave_up_at x)\<rparr>)"
  unfolding role_set_watchdog_def by (rule upd_known [OF assms])

lemma set_watchdog_tried: "tried b a w \<Longrightarrow> tried b c (role_set_watchdog Responder c next err w)"
  by (auto simp: tried_def set_watchdog_known Let_def)

lemma retry_tried: "tried b a w \<Longrightarrow> tried b c (responder_retry_in c err e w)"
  using set_watchdog_tried by (simp add: responder_retry_in_def Let_def tried_def)

lemma report_tried:
  assumes "tried b a w"
  shows "tried b a (responder_report_gave_up shown why e w)"
proof -
  obtain x where x: "map_of (of_roles w) ''responder'' = Some x" "ro_bot x = Some b" "ro_attempts x = a" using assms by (auto simp: tried_def)
  let ?w = "role_mark_gave_up Responder why (rw_wall e) w"
  have m: "\<exists>y. map_of (of_roles ?w) ''responder'' = Some y \<and> ro_bot y = Some b \<and> ro_attempts y = a"
    unfolding role_mark_gave_up_def using upd_known [OF x(1)] x(2,3) by simp
  then obtain y where "role_get Responder ?w = (y, ?w)" using get_known by blast
  then show ?thesis using m by (auto simp: responder_report_gave_up_def tried_def split: option.split)
qed

lemma responder_start_rows:
  assumes "responder_start d launch sup_ok w = (res, w')" "map_of (of_roles w) ''responder'' = Some x"
  shows "of_roles w' = of_roles w" "mail w' = mail w" "mg_cache (of_mgr w') = mg_cache (of_mgr w)"
  using assms get_known [OF assms(2)]
  by (auto simp: responder_start_def Let_def mail_def get_or_init_def split: option.splits if_splits prod.splits)

lemma plan_start_bound:
  "responder_plan v live wall tick k = (Start, k') \<Longrightarrow> wt_attempts v < MAX_ATTEMPTS"
  by (auto simp: responder_plan_def plan_for_def split: option.splits if_splits)

lemma restart_counts:
  assumes "responder_restart shown b qur e w = (r, w')" "tried b a w" "same_tries w (rw_race e w)"
  shows "tried b (a + (if r = None then 0 else 1)) w' \<and> (r \<noteq> None \<longrightarrow> a < MAX_ATTEMPTS)"
proof -
  let ?w = "rw_race e w"
  have t: "tried b a ?w" using assms(2,3) by (simp add: same_tries_def)
  then obtain x where x: "map_of (of_roles ?w) ''responder'' = Some x" "ro_bot x = Some b" "ro_attempts x = a" by (auto simp: tried_def)
  show ?thesis
  proof (cases "rw_locked e")
    case None
    then show ?thesis using assms(1) t get_known [OF x(1)] by (simp add: responder_restart_def)
  next
    case (Some d)
    obtain p k where p: "responder_plan (responder_watched x qur) (manager_liveness b d) (rw_wall e) (rw_mono e) (mg_cache (of_mgr ?w)) = (p, k)"
      by fastforce
    let ?w1 = "with_cache k ?w"
    have t1: "tried b a ?w1" and x1: "map_of (of_roles ?w1) ''responder'' = Some x" using t x(1) by (simp_all add: tried_def)
    show ?thesis
    proof (cases "p = Start")
      case False
      then show ?thesis using assms(1) t1 get_known [OF x(1)] Some p by (simp add: responder_restart_def)
    next
      case True
      obtain res w2 where st: "responder_start d (rw_launch e) (rw_sup_ok e) ?w1 = (res, w2)" by fastforce
      have t2: "tried b a w2" using responder_start_rows(1) [OF st x1] t1 by (simp add: tried_def)
      have b: "a < MAX_ATTEMPTS" using plan_start_bound [of "responder_watched x qur"] p True x(3) by (simp add: responder_watched_def)
      have c: "tried b c (with_cache kk v)" if "tried b c v" for c kk v using that by (simp add: tried_def)
      show ?thesis
        using assms(1) get_known [OF x(1)] Some p True st b x(3)
        by (auto simp: responder_restart_def Let_def retry_tried [OF t2] c report_tried set_watchdog_tried [OF t2] split: sum.splits if_splits)
    qed
  qed
qed

lemma responder_tick_eq:
  assumes "map_of (of_roles w) ''responder'' = Some x" "ro_bot x = Some b" "rw_rows_ok e" "rw_live_ok e"
    and "responder_bot (rw_seen e) x = Some b"
    and "responder_plan (responder_watched x (qur)) (manager_liveness b (rw_seen e)) (rw_wall e) (rw_mono e) (mg_cache (of_mgr w)) = (p, k)"
    and "qur = ((case ro_notify_next x of None \<Rightarrow> True | Some t \<Rightarrow> past t (rw_wall e)) \<and> rw_quota e = Unknown_Quota)"
    and "manager_liveness b (rw_seen e) \<noteq> ''idle''" "manager_liveness b (rw_seen e) \<noteq> ''busy''"
  shows "responder_watchdog_tick shown e w =
    (case p of
       Idle \<Rightarrow> (None, with_cache k w)
     | Wait True \<Rightarrow> (None, responder_retry_in (ro_attempts x) None e (with_cache k w))
     | Wait False \<Rightarrow> (None, with_cache k w)
     | Gave_Up \<Rightarrow> (None, responder_report_gave_up shown (case ro_last_error x of Some y \<Rightarrow> y | None \<Rightarrow> rw_why e) e (with_cache k w))
     | Start \<Rightarrow> responder_restart shown b qur e (with_cache k w))"
  using assms get_known [OF assms(1)] by (simp add: responder_watchdog_tick_def Let_def split: plan.split)

lemma responder_tick_counts:
  assumes "responder_watchdog_tick shown e w = (r, w')" "tried b a w" "responder_down b e"
  shows "tried b (a + (if r = None then 0 else 1)) w' \<and> (r \<noteq> None \<longrightarrow> a < MAX_ATTEMPTS)"
proof -
  obtain x where x: "map_of (of_roles w) ''responder'' = Some x" "ro_bot x = Some b" "ro_attempts x = a" using assms(2) by (auto simp: tried_def)
  note g = get_known [OF x(1)]
  have "responder_bot (rw_seen e) x = None \<or> responder_bot (rw_seen e) x = Some b"
    using x(2) by (simp add: responder_bot_def split: option.split)
  then consider "\<not> rw_rows_ok e" | "rw_rows_ok e" "responder_bot (rw_seen e) x = None" | "rw_rows_ok e" "responder_bot (rw_seen e) x = Some b" "\<not> rw_live_ok e"
    | "rw_rows_ok e" "responder_bot (rw_seen e) x = Some b" "rw_live_ok e"
    by metis
  then show ?thesis
  proof cases
    case 4
    let ?q = "(case ro_notify_next x of None \<Rightarrow> True | Some t \<Rightarrow> past t (rw_wall e)) \<and> rw_quota e = Unknown_Quota"
    obtain p k where p: "responder_plan (responder_watched x ?q) (manager_liveness b (rw_seen e)) (rw_wall e) (rw_mono e) (mg_cache (of_mgr w)) = (p, k)"
      by fastforce
    have dn: "manager_liveness b (rw_seen e) \<noteq> ''idle''" "manager_liveness b (rw_seen e) \<noteq> ''busy''" using assms(3) by (simp_all add: responder_down_def)
    note eq = responder_tick_eq [OF x(1,2) 4(1,3,2) p refl dn, of shown]
    have t1: "tried b a (with_cache k w)" using assms(2) by (simp add: tried_def)
    show ?thesis
    proof (cases p)
      case Start
      then show ?thesis using restart_counts [OF _ t1] assms(1,3) eq by (simp add: responder_down_def)
    next
      case (Wait y)
      then show ?thesis using assms(1) eq t1 x(3) retry_tried [OF t1, of a None e] by (cases y) auto
    qed (use assms(1) eq t1 report_tried in auto)
  qed (use assms g x(2) in \<open>auto simp: responder_watchdog_tick_def report_missing_def tried_def split: if_splits\<close>)
qed

interpretation responder_retries: counted_retries "responder_watchdog_tick shown" "tried b" "responder_down b" MAX_ATTEMPTS for shown b
  by unfold_locales (use responder_tick_counts in blast)

end
