(* ===== verification/Responder_Outage.thy ===== *)
theory Responder_Outage
  imports Responder_Watch
begin

text \<open>
  An outage of the responder that no start ends, also while it waits for a quota nobody can read: the
  attempts of its watchdog and the one report to the patrol.
\<close>

section \<open>The ticks of an outage\<close>

text \<open>
  \<open>st\<close> and \<open>nn\<close>: status and next retry of the row, which the watchdog does not move. A tick finds the bot
  stopped when it looks and under the lock, nobody else moves the row meanwhile, the inbox takes a new event, and a
  wait for quota does not forbid the start: the quota is unknown and the retry is due.
\<close>

definition may_retry :: "string \<Rightarrow> stamp option \<Rightarrow> responder_env \<Rightarrow> bool" where
  "may_retry st nn e \<longleftrightarrow>
     st \<noteq> ''waiting_quota'' \<or> rw_quota e = Unknown_Quota \<and> (case nn of None \<Rightarrow> True | Some t \<Rightarrow> past t (rw_wall e))"

definition responder_hopeless :: "(time \<Rightarrow> string) \<Rightarrow> ident \<Rightarrow> string \<Rightarrow> stamp option \<Rightarrow> db \<Rightarrow> responder_env \<Rightarrow> bool" where
  "responder_hopeless shown b st nn d0 e \<longleftrightarrow>
     rw_rows_ok e \<and> rw_live_ok e \<and> map_option b_deleted_at (map_of (bots (rw_seen e)) b) = Some None
     \<and> manager_liveness b (rw_seen e) = ''stopped''
     \<and> (case rw_locked e of None \<Rightarrow> False | Some d \<Rightarrow> manager_liveness b d = ''stopped'')
     \<and> rw_race e = id \<and> may_retry st nn e
     \<and> rw_push e \<and> map_of (inbox d0) (rw_event e) = None
     \<and> \<not> list_ex (\<lambda>(_, x). i_key x = responder_gave_up_key shown (rw_wall e)) (inbox d0)"

definition wanted_responder :: "ident \<Rightarrow> string \<Rightarrow> stamp option \<Rightarrow> role_row \<Rightarrow> bool" where
  "wanted_responder b st nn x \<longleftrightarrow> ro_bot x = Some b \<and> ro_desired x \<noteq> 0 \<and> ro_status x = st \<and> ro_notify_next x = nn"

definition responder_stage :: "ident \<Rightarrow> string \<Rightarrow> stamp option \<Rightarrow> db \<Rightarrow> int \<Rightarrow> time \<Rightarrow> office \<Rightarrow> bool" where
  "responder_stage b st nn d0 a t w \<longleftrightarrow>
     (\<exists>x v due. map_of (of_roles w) ''responder'' = Some x \<and> wanted_responder b st nn x \<and> ro_attempts x = a \<and> ro_gave_up_at x = None
        \<and> ro_next_at x = Some v \<and> map_of (mg_cache (of_mgr w)) RESPONDER_LANE = Some (v, due) \<and> due \<le> t + 300000 \<and> mail w = d0)"

definition responder_reported :: "(time \<Rightarrow> string) \<Rightarrow> ident \<Rightarrow> string \<Rightarrow> stamp option \<Rightarrow> db \<Rightarrow> office \<Rightarrow> bool" where
  "responder_reported shown b st nn d0 w \<longleftrightarrow>
     (\<exists>x g i ev. map_of (of_roles w) ''responder'' = Some x \<and> wanted_responder b st nn x \<and> ro_attempts x = MAX_ATTEMPTS
        \<and> ro_gave_up_at x = Some g \<and> mail w = d0\<lparr>inbox := inbox d0 @ [(i, ev)]\<rparr>
        \<and> i_key ev = responder_gave_up_key shown g \<and> i_kind ev = ''responder_watchdog_gave_up'')"

section \<open>One step\<close>

lemma upd_role_keeps [simp]:
  "mail (upd_role r f w) = mail w" "mg_cache (of_mgr (upd_role r f w)) = mg_cache (of_mgr w)"
  by (simp_all add: mail_def)

lemma responder_retry_stage:
  assumes "map_of (of_roles w) ''responder'' = Some x" "wanted_responder b st nn x" "ro_gave_up_at x = None" "mail w = d0"
  shows "responder_stage b st nn d0 a (rw_mono e) (responder_retry_in a err e w)"
proof -
  have "rw_mono e + backoff_secs a * 1000 \<le> rw_mono e + 300000" using backoff_bound [of a] by simp
  moreover have "mail (role_set_watchdog Responder a n err w) = d0" for n using assms(4) by (simp add: role_set_watchdog_def)
  ultimately show ?thesis using assms(2,3)
    by (auto simp: responder_stage_def responder_retry_in_def set_watchdog_known [OF assms(1)] Let_def note_lane_def update_conv' wanted_responder_def)
qed

lemma responder_plan_due:
  assumes "wanted_responder b st nn x" "ro_attempts x < MAX_ATTEMPTS" "ro_next_at x = Some when" "map_of k RESPONDER_LANE = Some (when, due)"
    and "due \<le> tick" "st \<noteq> ''waiting_quota'' \<or> qur"
  shows "responder_plan (responder_watched x qur) ''stopped'' wall tick k = (Start, k)"
proof -
  have "past_at RESPONDER_LANE when wall tick k = (True, k)"
    using assms(4,5) by (auto simp: past_at_def split: option.split)
  then show ?thesis using assms(1-3,6) by (auto simp: responder_plan_def plan_for_def responder_watched_def wanted_responder_def)
qed

lemma responder_report_first:
  assumes "map_of (of_roles w) ''responder'' = Some x" "wanted_responder b st nn x" "ro_attempts x = MAX_ATTEMPTS" "ro_gave_up_at x = None"
    and "mail w = d0" "responder_hopeless shown b st nn d0 e"
  shows "responder_reported shown b st nn d0 (responder_report_gave_up shown why e w)"
proof -
  let ?x = "x\<lparr>ro_gave_up_at := Some (rw_wall e), ro_last_error := Some why\<rparr>"
  let ?w = "role_mark_gave_up Responder why (rw_wall e) w"
  let ?p = "JObj [(''why'', JStr why), (''gave_up_at'', JStr (shown (rw_wall e)))]"
  let ?ev = "new_event (responder_gave_up_key shown (rw_wall e)) ''responder_watchdog_gave_up'' None None None ?p (rw_wall e)"
  have x: "map_of (of_roles ?w) ''responder'' = Some ?x" unfolding role_mark_gave_up_def using upd_known [OF assms(1)] assms(4) by simp
  have m: "mail ?w = d0" using assms(5) by (simp add: role_mark_gave_up_def)
  let ?r = "responder_report_gave_up shown why e w"
  have "map_of (of_roles ?r) ''responder'' = Some ?x" "mail ?r = d0\<lparr>inbox := inbox d0 @ [(rw_event e, ?ev)]\<rparr>"
    using x m assms(6) get_known [OF x]
    by (simp_all add: responder_report_gave_up_def responder_hopeless_def push_inbox_tx_def insert_or_ignore_def new_event_def)
  moreover have "wanted_responder b st nn ?x" "ro_attempts ?x = MAX_ATTEMPTS" "ro_gave_up_at ?x = Some (rw_wall e)"
    using assms(2,3) by (simp_all add: wanted_responder_def)
  moreover have "i_key ?ev = responder_gave_up_key shown (rw_wall e)" "i_kind ?ev = ''responder_watchdog_gave_up''" by (simp_all add: new_event_def)
  ultimately show ?thesis unfolding responder_reported_def by blast
qed

lemma with_mail_same: "mail w = d \<Longrightarrow> with_mail d w = w"
  by (cases w) (simp add: mail_def with_mail_def)

lemma with_cache_same: "mg_cache (of_mgr w) = k \<Longrightarrow> with_cache k w = w"
  by (cases w) (simp add: with_cache_def)

lemma upd_row_same: "map_of t i = Some x \<Longrightarrow> f x = x \<Longrightarrow> upd_row i f t = t"
  by (induction t) (auto split: if_splits)

lemma responder_report_again:
  assumes "responder_reported shown b st nn d0 w"
  shows "responder_report_gave_up shown why e w = w"
proof -
  obtain x g i ev where r: "map_of (of_roles w) ''responder'' = Some x" "ro_gave_up_at x = Some g" "mail w = d0\<lparr>inbox := inbox d0 @ [(i, ev)]\<rparr>"
      "i_key ev = responder_gave_up_key shown g"
    using assms by (auto simp: responder_reported_def)
  have "role_mark_gave_up Responder why (rw_wall e) w = w"
    using r(1,2) by (cases w) (simp add: role_mark_gave_up_def upd_role_def upd_row_same)
  moreover have "push_inbox_tx (rw_event e) (responder_gave_up_key shown g) k None None None p n (mail w) = (None, mail w)" for k p n
    using r(3,4) by (simp add: push_inbox_tx_def insert_or_ignore_def new_event_def)
  ultimately show ?thesis using r(2) get_known [OF r(1)] by (simp add: responder_report_gave_up_def with_mail_same)
qed

text \<open>A tick of the outage on such a row.\<close>

lemma responder_outage_tick:
  assumes "map_of (of_roles w) ''responder'' = Some x" "wanted_responder b st nn x" "responder_hopeless shown b st nn d0 e"
  shows "\<exists>qur. (st \<noteq> ''waiting_quota'' \<or> qur) \<and> responder_watchdog_tick shown e w =
    (case responder_plan (responder_watched x qur) ''stopped'' (rw_wall e) (rw_mono e) (mg_cache (of_mgr w)) of
       (Idle, k) \<Rightarrow> (None, with_cache k w)
     | (Wait True, k) \<Rightarrow> (None, responder_retry_in (ro_attempts x) None e (with_cache k w))
     | (Wait False, k) \<Rightarrow> (None, with_cache k w)
     | (Gave_Up, k) \<Rightarrow> (None, responder_report_gave_up shown (case ro_last_error x of Some y \<Rightarrow> y | None \<Rightarrow> rw_why e) e (with_cache k w))
     | (Start, k) \<Rightarrow> responder_restart shown b qur e (with_cache k w))"
proof -
  let ?q = "(case ro_notify_next x of None \<Rightarrow> True | Some t \<Rightarrow> past t (rw_wall e)) \<and> rw_quota e = Unknown_Quota"
  have h: "rw_rows_ok e" "rw_live_ok e" "manager_liveness b (rw_seen e) = ''stopped''" "may_retry st nn e"
    using assms(3) by (simp_all add: responder_hopeless_def)
  have bot: "responder_bot (rw_seen e) x = Some b" "ro_bot x = Some b" "ro_notify_next x = nn"
    using assms(2,3) by (auto simp: responder_bot_def responder_hopeless_def wanted_responder_def split: option.split)
  obtain p k where p: "responder_plan (responder_watched x ?q) ''stopped'' (rw_wall e) (rw_mono e) (mg_cache (of_mgr w)) = (p, k)" by fastforce
  have "responder_watchdog_tick shown e w =
    (case p of
       Idle \<Rightarrow> (None, with_cache k w)
     | Wait True \<Rightarrow> (None, responder_retry_in (ro_attempts x) None e (with_cache k w))
     | Wait False \<Rightarrow> (None, with_cache k w)
     | Gave_Up \<Rightarrow> (None, responder_report_gave_up shown (case ro_last_error x of Some y \<Rightarrow> y | None \<Rightarrow> rw_why e) e (with_cache k w))
     | Start \<Rightarrow> responder_restart shown b ?q e (with_cache k w))"
    by (rule responder_tick_eq [OF assms(1) bot(2) h(1,2) bot(1) _ refl]) (simp_all add: h(3) p)
  moreover have "st \<noteq> ''waiting_quota'' \<or> ?q" using h(4) bot(3) by (auto simp: may_retry_def)
  ultimately show ?thesis using p by (intro exI [of _ ?q]) (cases p; simp)
qed

lemma responder_restart_eq:
  assumes "map_of (of_roles (rw_race e w)) ''responder'' = Some x" "rw_locked e = Some d"
    and "responder_plan (responder_watched x qur) (manager_liveness b d) (rw_wall e) (rw_mono e) (mg_cache (of_mgr (rw_race e w))) = (Start, k)"
    and "responder_start d (rw_launch e) (rw_sup_ok e) (with_cache k (rw_race e w)) = (res, w2)"
  shows "responder_restart shown b qur e w =
    (if res = Inr () then (Some True, responder_retry_in (ro_attempts x + 1) None e w2)
     else if ro_attempts x + 1 < MAX_ATTEMPTS then (Some False, responder_retry_in (ro_attempts x + 1) (Some (rw_why e)) e w2)
     else (Some False, responder_report_gave_up shown (rw_why e) e
       (with_cache (clear_lane RESPONDER_LANE (mg_cache (of_mgr (role_set_watchdog Responder (ro_attempts x + 1) None (Some (rw_why e)) w2))))
         (role_set_watchdog Responder (ro_attempts x + 1) None (Some (rw_why e)) w2))))"
  using get_known [OF assms(1)] assms(2-4) by (cases res) (simp_all add: responder_restart_def Let_def)

lemma responder_tick_start:
  assumes "responder_stage b st nn d0 a t w" "a < MAX_ATTEMPTS" "0 \<le> a" "t + 300000 \<le> rw_mono e" "responder_hopeless shown b st nn d0 e"
  shows "fst (responder_watchdog_tick shown e w) \<noteq> None"
    "responder_stage b st nn d0 (a + 1) (rw_mono e) (snd (responder_watchdog_tick shown e w))
      \<or> a + 1 = MAX_ATTEMPTS \<and> responder_reported shown b st nn d0 (snd (responder_watchdog_tick shown e w))"
proof -
  obtain x nx due where x: "map_of (of_roles w) ''responder'' = Some x" "wanted_responder b st nn x" "ro_attempts x = a" "ro_gave_up_at x = None"
      "ro_next_at x = Some nx" "map_of (mg_cache (of_mgr w)) RESPONDER_LANE = Some (nx, due)" "due \<le> t + 300000" "mail w = d0"
    using assms(1) by (auto simp: responder_stage_def)
  obtain d where d: "rw_locked e = Some d" "manager_liveness b d = ''stopped''" "rw_race e = id"
    using assms(5) by (auto simp: responder_hopeless_def split: option.splits)
  obtain qur where q: "st \<noteq> ''waiting_quota'' \<or> qur" and tick: "responder_watchdog_tick shown e w =
    (case responder_plan (responder_watched x qur) ''stopped'' (rw_wall e) (rw_mono e) (mg_cache (of_mgr w)) of
       (Idle, k) \<Rightarrow> (None, with_cache k w)
     | (Wait True, k) \<Rightarrow> (None, responder_retry_in (ro_attempts x) None e (with_cache k w))
     | (Wait False, k) \<Rightarrow> (None, with_cache k w)
     | (Gave_Up, k) \<Rightarrow> (None, responder_report_gave_up shown (case ro_last_error x of Some y \<Rightarrow> y | None \<Rightarrow> rw_why e) e (with_cache k w))
     | (Start, k) \<Rightarrow> responder_restart shown b qur e (with_cache k w))"
    using responder_outage_tick [OF x(1,2) assms(5)] by blast
  let ?k = "mg_cache (of_mgr w)"
  have plan: "responder_plan (responder_watched x qur) ''stopped'' (rw_wall e) (rw_mono e) ?k = (Start, ?k)"
    using responder_plan_due [OF x(2) _ x(5,6)] x(3,7) assms(2,4) q by simp
  then have run: "responder_watchdog_tick shown e w = responder_restart shown b qur e w" using tick by (simp add: with_cache_same)
  obtain res w2 where st2: "responder_start d (rw_launch e) (rw_sup_ok e) w = (res, w2)" by fastforce
  have r2: "map_of (of_roles w2) ''responder'' = Some x" "mail w2 = d0" using responder_start_rows [OF st2 x(1)] x(1,8) by simp_all
  have race: "map_of (of_roles (rw_race e w)) ''responder'' = Some x"
      "responder_plan (responder_watched x qur) (manager_liveness b d) (rw_wall e) (rw_mono e) (mg_cache (of_mgr (rw_race e w))) = (Start, ?k)"
      "responder_start d (rw_launch e) (rw_sup_ok e) (with_cache ?k (rw_race e w)) = (res, w2)"
    using d(2,3) x(1) plan st2 by (simp_all add: with_cache_same)
  note eq = responder_restart_eq [OF race(1) d(1) race(2,3), of shown]
  have retry: "responder_stage b st nn d0 (a + 1) (rw_mono e) (responder_retry_in (a + 1) err e w2)" for err
    by (rule responder_retry_stage [OF r2(1) x(2,4) r2(2)])
  let ?w3 = "role_set_watchdog Responder (a + 1) None (Some (rw_why e)) w2"
  have rep: "responder_reported shown b st nn d0 (responder_report_gave_up shown (rw_why e) e (with_cache k ?w3))" if last: "a + 1 = MAX_ATTEMPTS" for k
  proof (rule responder_report_first [OF _ _ _ _ _ assms(5)])
    let ?x = "x\<lparr>ro_attempts := a + 1, ro_next_at := None, ro_last_error := Some (rw_why e)\<rparr>"
    have "a + 1 \<noteq> 0" using assms(3) by simp
    then show "map_of (of_roles (with_cache k ?w3)) ''responder'' = Some ?x"
      using x(4) by (simp add: set_watchdog_known [OF r2(1)] Let_def)
    show "wanted_responder b st nn ?x" "ro_attempts ?x = MAX_ATTEMPTS" "ro_gave_up_at ?x = None" "mail (with_cache k ?w3) = d0"
      using x(2,4) last r2(2) by (simp_all add: wanted_responder_def role_set_watchdog_def)
  qed
  show "fst (responder_watchdog_tick shown e w) \<noteq> None" using run eq by (simp split: if_splits) auto
  show "responder_stage b st nn d0 (a + 1) (rw_mono e) (snd (responder_watchdog_tick shown e w))
      \<or> a + 1 = MAX_ATTEMPTS \<and> responder_reported shown b st nn d0 (snd (responder_watchdog_tick shown e w))"
  proof (cases "res = Inr () \<or> a + 1 < MAX_ATTEMPTS")
    case True
    then show ?thesis using run eq retry x(3) by auto
  next
    case False
    then have last: "a + 1 = MAX_ATTEMPTS" using assms(2) by simp
    then show ?thesis using run eq rep [OF last] False x(3) by simp
  qed
qed

lemma responder_tick_spent:
  assumes "map_of (of_roles w) ''responder'' = Some x" "wanted_responder b st nn x" "ro_attempts x = MAX_ATTEMPTS" "responder_hopeless shown b st nn d0 e"
  shows "responder_watchdog_tick shown e w =
    (None, responder_report_gave_up shown (case ro_last_error x of Some y \<Rightarrow> y | None \<Rightarrow> rw_why e) e w)"
proof -
  have "responder_plan (responder_watched x qur) ''stopped'' wall tick k = (Gave_Up, k)" if "st \<noteq> ''waiting_quota'' \<or> qur" for qur wall tick k
    using assms(2,3) that by (auto simp: responder_plan_def plan_for_def responder_watched_def wanted_responder_def split: option.split)
  then show ?thesis using responder_outage_tick [OF assms(1,2,4)] by (auto simp: with_cache_same)
qed

lemma responder_tick_first:
  assumes "map_of (of_roles w) ''responder'' = Some x" "wanted_responder b st nn x" "ro_attempts x = 0" "ro_next_at x = None" "ro_gave_up_at x = None"
    and "responder_hopeless shown b st nn (mail w) e"
  shows "fst (responder_watchdog_tick shown e w) = None"
    "responder_stage b st nn (mail w) 0 (rw_mono e) (snd (responder_watchdog_tick shown e w))"
proof -
  have "responder_plan (responder_watched x qur) ''stopped'' wall tick k = (Wait True, k)" if "st \<noteq> ''waiting_quota'' \<or> qur" for qur wall tick k
    using assms(2-4) that by (auto simp: responder_plan_def plan_for_def responder_watched_def wanted_responder_def MAX_ATTEMPTS_def split: option.split)
  then have "responder_watchdog_tick shown e w = (None, responder_retry_in 0 None e w)"
    using responder_outage_tick [OF assms(1,2,6)] assms(3) by (auto simp: with_cache_same)
  then show "fst (responder_watchdog_tick shown e w) = None"
    "responder_stage b st nn (mail w) 0 (rw_mono e) (snd (responder_watchdog_tick shown e w))"
    using responder_retry_stage [OF assms(1,2,5) refl, of 0 e None] by simp_all
qed

interpretation responder_outage: retried_outage "responder_watchdog_tick shown" "responder_stage b st nn d0" "responder_reported shown b st nn d0"
    "responder_hopeless shown b st nn d0" rw_mono MAX_ATTEMPTS 300000 for shown b st nn d0
proof unfold_locales
  fix a t w e r w'
  assume "responder_stage b st nn d0 a t w" "a < MAX_ATTEMPTS" "0 \<le> a" "t + 300000 \<le> rw_mono e" "responder_hopeless shown b st nn d0 e"
    "responder_watchdog_tick shown e w = (r, w')"
  then show "r \<noteq> None \<and> (responder_stage b st nn d0 (a + 1) (rw_mono e) w' \<or> a + 1 = MAX_ATTEMPTS \<and> responder_reported shown b st nn d0 w')"
    using responder_tick_start [of b st nn d0 a t w e shown] by simp
next
  fix t w e r w'
  assume sg: "responder_stage b st nn d0 MAX_ATTEMPTS t w" and h: "responder_hopeless shown b st nn d0 e"
    and tk: "responder_watchdog_tick shown e w = (r, w')"
  obtain x where x: "map_of (of_roles w) ''responder'' = Some x" "wanted_responder b st nn x" "ro_attempts x = MAX_ATTEMPTS" "ro_gave_up_at x = None" "mail w = d0"
    using sg by (auto simp: responder_stage_def)
  show "r = None \<and> responder_reported shown b st nn d0 w'"
    using tk responder_tick_spent [OF x(1-3) h] responder_report_first [OF x h] by auto
next
  fix w e
  assume rep: "responder_reported shown b st nn d0 w" and h: "responder_hopeless shown b st nn d0 e"
  obtain x where "map_of (of_roles w) ''responder'' = Some x" "wanted_responder b st nn x" "ro_attempts x = MAX_ATTEMPTS"
    using rep by (auto simp: responder_reported_def)
  then show "responder_watchdog_tick shown e w = (None, w)" using responder_tick_spent [of w x b st nn shown d0 e] responder_report_again [OF rep] h by simp
qed

end
