(* ===== verification/Responder_Properties.thy ===== *)
theory Responder_Properties
  imports Responder_Waits Responder_Outage Sample_Data
begin

text \<open>
  The properties of the responder: its waits begin and end on evidence, and an outage ends in a report.
\<close>

section \<open>Waits\<close>
















abbreviation responding :: "(time \<Rightarrow> string) \<Rightarrow> int \<Rightarrow> int \<Rightarrow> responder_op list \<Rightarrow> office \<Rightarrow> office" where
  "responding shown batch cap ops \<equiv> fold (respond shown batch cap) ops"



text \<open>A desk with a responder and one request waiting for it; readings of its account, and wake-ups.\<close>

definition desk :: office where
  "desk =
     \<lparr>of_mgr = \<lparr>mg_row = None, mg_config = None, mg_cache = [], mg_inbox = sample\<lparr>inbox := [(''E'', (new_event ''q'' ''bot_request'' None None None (JObj []) 0)
        \<lparr>i_role := Some ''responder'', i_wake := Some True\<rparr>)]\<rparr>\<rparr>,
      of_roles = [(''responder'', fresh_role_row\<lparr>ro_bot := Some ''B'', ro_desired := 1\<rparr>)], of_approvals = [], of_faults = [], of_last_notify = None\<rparr>"

definition reading_with :: "rat \<Rightarrow> time \<Rightarrow> quotas" where
  "reading_with used now =
     \<lparr>qs_table = [(''claude'', (empty_quota ''local'' ''statusline'' now)
        \<lparr>qu_five_hour := Some \<lparr>wi_used = Fin used, wi_resets = Some (At 9000000), wi_observed = Some (At now)\<rparr>,
         qu_seven_day := Some \<lparr>wi_used = Fin 10, wi_resets = Some (At 99000000), wi_observed = Some (At now)\<rparr>\<rparr>)],
      qs_stale = [], qs_cache = [], qs_marks = [], qs_cleared = []\<rparr>"

definition wake_up :: "time \<Rightarrow> quotas \<Rightarrow> sending \<Rightarrow> bool option \<Rightarrow> notify_env" where
  "wake_up now qs s login =
     \<lparr>ne_now = now, ne_world = sample, ne_rows_ok = True, ne_key = Some ''claude'', ne_model = None, ne_quotas = qs,
      ne_turn_error = (\<lambda>_. None), ne_screen = login, ne_screen_after = login, ne_due_ok = True, ne_live = Some ''idle'',
      ne_sending = s, ne_race = id, ne_event = ''N'', ne_push = True\<rparr>"

definition no_reading :: quotas where
  "no_reading = \<lparr>qs_table = [], qs_stale = [], qs_cache = [], qs_marks = [], qs_cleared = []\<rparr>"


text \<open>
  The wake-up that ends a wait for quota still counts the row it read before as waiting: after delivering, it puts the next wake-up
  off by the whole backoff, although the account is usable again.
\<close>

lemma recovered_yet_held:
  "(let w = responding (\<lambda>_. ''t'') 15 300
       [Wake (wake_up 100000 (reading_with 100 100000) (Sent ''T4'' ''ok'') (Some False)),
        Wake (wake_up 500000 (reading_with 20 500000) (Sent ''T5'' ''ok'') (Some False))] desk
    in wait_of w = ('''', None) \<and> ro_notify_next (role_row_of w Responder) = Some (At 800000)
       \<and> map_option i_state (map_of (inbox (mail w)) ''E'') = Some ''delivered'')"
  by code_simp

text \<open>
  A wait for quota that meets a login screen while the quota is unknown becomes a wait for a login, and a pane without that screen then ends
  it: nothing said that the quota came back.
\<close>

lemma login_forgets_quota_wait:
  "(let parked = Wake (wake_up 100000 (reading_with 100 100000) (Sent ''T4'' ''ok'') (Some False));
        refused = Wake (wake_up 500000 no_reading (Send_Refused ''composer'') (Some True));
        looked = Wake (wake_up 900000 no_reading (Send_Refused ''busy'') (Some False));
        run = (\<lambda>ops. wait_of (responding (\<lambda>_. ''t'') 15 300 ops desk))
    in run [parked] = (''waiting_quota'', Some 100000) \<and> run [parked, refused] = (''needs_login'', Some 100000)
       \<and> run [parked, refused, looked] = ('''', None))"
  by code_simp

section \<open>Outages\<close>

text \<open>
  C39. During an outage of a responder that is wanted, whatever the starts return and whatever the wall clock does, its watchdog
  attempts at most five starts. When it is seen stopped at seven ticks or more, five minutes apart on the monotonic
  clock, it attempts exactly five and ends with exactly one event in the inbox for the patrol, and adds nothing
  afterwards, provided the inbox takes the event; nobody else moves its row meanwhile. This holds also while it waits for a quota that nobody can read, once its retry is due: the wait for an answer that
  only a running bot could give does not keep the bot down.
\<close>

theorem responder_outage_ends:
  assumes "map_of (of_roles w) ''responder'' = Some x" "wanted_responder b st nn x" "ro_attempts x = 0" "ro_next_at x = None" "ro_gave_up_at x = None"
    and "list_all (responder_down b) es"
  shows "length (fst (attempts_of (responder_watchdog_tick shown) es w)) \<le> 5
    \<and> (list_all (responder_hopeless shown b st nn (mail w)) es \<and> spaced (5 * 60 * 1000) (map rw_mono es) \<and> 7 \<le> length es
        \<longrightarrow> length (fst (attempts_of (responder_watchdog_tick shown) es w)) = 5
            \<and> responder_reported shown b st nn (mail w) (snd (attempts_of (responder_watchdog_tick shown) es w)))"
proof -
  let ?run = "attempts_of (responder_watchdog_tick shown)"
  have "tried b 0 w" using assms(1-3) by (simp add: tried_def wanted_responder_def)
  then have limit: "length (fst (?run es w)) \<le> 5"
    using responder_retries.starts_bounded [of b 0 w es shown "fst (?run es w)" "snd (?run es w)"] assms(6) by (simp add: MAX_ATTEMPTS_def)
  have "length (fst (?run es w)) = 5 \<and> responder_reported shown b st nn (mail w) (snd (?run es w))"
    if h: "list_all (responder_hopeless shown b st nn (mail w)) es" and sp: "spaced (5 * 60 * 1000) (map rw_mono es)" and n: "7 \<le> length es"
  proof -
    obtain e es' where es: "es = e # es'" using n by (cases es) auto
    obtain w1 where t: "responder_watchdog_tick shown e w = (None, w1)" "responder_stage b st nn (mail w) 0 (rw_mono e) w1"
      using responder_tick_first [OF assms(1-5), of shown e] h es by (cases "responder_watchdog_tick shown e w") auto
    have "int (length (fst (?run es' w1))) = MAX_ATTEMPTS - 0 \<and> responder_reported shown b st nn (mail w) (snd (?run es' w1))"
      by (rule responder_outage.outage_ends [OF t(2)]) (use h sp n es in \<open>simp_all add: MAX_ATTEMPTS_def\<close>)
    then show ?thesis using t(1) by (simp add: es MAX_ATTEMPTS_def split: prod.split)
  qed
  with limit show ?thesis by blast
qed

text \<open>An outage that began while the responder waited for quota, with its retry due, nobody able to read the quota and every second start failing.\<close>

definition stopped_world :: db where
  "stopped_world = sample\<lparr>runs := []\<rparr>"

definition responder_outage_tick :: "nat \<Rightarrow> responder_env" where
  "responder_outage_tick i =
     \<lparr>rw_wall = 1000, rw_mono = 300000 * int i, rw_rows_ok = True, rw_seen = stopped_world, rw_live_ok = True, rw_quota = Unknown_Quota,
      rw_race = id, rw_locked = Some stopped_world, rw_launch = (i mod 2 = 0), rw_sup_ok = True, rw_push = True, rw_event = ''X'', rw_why = ''failed''\<rparr>"

definition parked_desk :: office where
  "parked_desk =
     desk\<lparr>of_roles := [(''responder'', fresh_role_row\<lparr>ro_bot := Some ''B'', ro_desired := 1, ro_status := ''waiting_quota'', ro_waiting_since := Some 100,
        ro_notify_next := Some (At 500)\<rparr>)]\<rparr>"

theorem responder_outage_ends_witness:
  "length (fst (attempts_of (responder_watchdog_tick (\<lambda>_. ''t'')) (map responder_outage_tick [0..<8]) parked_desk)) = 5
   \<and> responder_reported (\<lambda>_. ''t'') ''B'' ''waiting_quota'' (Some (At 500)) (mail parked_desk)
       (snd (attempts_of (responder_watchdog_tick (\<lambda>_. ''t'')) (map responder_outage_tick [0..<8]) parked_desk))"
proof -
  let ?x = "fresh_role_row\<lparr>ro_bot := Some ''B'', ro_desired := 1, ro_status := ''waiting_quota'', ro_waiting_since := Some 100, ro_notify_next := Some (At 500)\<rparr>"
  have row: "map_of (of_roles parked_desk) ''responder'' = Some ?x" by (simp add: parked_desk_def)
  have x: "wanted_responder ''B'' ''waiting_quota'' (Some (At 500)) ?x" "ro_attempts ?x = 0" "ro_next_at ?x = None" "ro_gave_up_at ?x = None"
    by (simp_all add: wanted_responder_def fresh_role_row_def)
  have l: "manager_liveness ''B'' stopped_world = ''stopped''" by (simp add: manager_liveness_def active_run_def stopped_world_def)
  have bot: "map_option b_deleted_at (map_of (bots stopped_world) ''B'') = Some None" by (simp add: stopped_world_def sample_def mk_bot_def)
  have i: "map_of (inbox (mail parked_desk)) ''X'' = None"
    "\<not> list_ex (\<lambda>(_, x). i_key x = responder_gave_up_key (\<lambda>_. ''t'') 1000) (inbox (mail parked_desk))"
    by (simp_all add: parked_desk_def desk_def mail_def responder_gave_up_key_def new_event_def)
  have up: "[0..<8::nat] = [0, 1, 2, 3, 4, 5, 6, 7]" by (simp add: upt_rec)
  have d: "list_all (responder_down ''B'') (map responder_outage_tick [0..<8])"
    by (simp add: up responder_down_def responder_outage_tick_def l same_tries_def)
  have h: "list_all (responder_hopeless (\<lambda>_. ''t'') ''B'' ''waiting_quota'' (Some (At 500)) (mail parked_desk)) (map responder_outage_tick [0..<8])"
    unfolding up using i by (simp add: responder_hopeless_def responder_outage_tick_def l bot may_retry_def past_def parse_utc_def)
  have sp: "spaced (5 * 60 * 1000) (map rw_mono (map responder_outage_tick [0..<8]))" by (simp add: up responder_outage_tick_def)
  show ?thesis using responder_outage_ends [OF row x d, of "\<lambda>_. ''t''"] h sp by simp
qed

end
