(* ===== verification/Mail_Properties.thy ===== *)
theory Mail_Properties
  imports Mail_Safety Responder_Properties
begin

text \<open>
  The properties of the controller's pass over the inbox: approvals leave a responder that cannot decide them,
  and nothing is offered again without end.
\<close>

section \<open>Handing over\<close>

lemma update_other: "j \<noteq> i \<Longrightarrow> map_of (inbox (fst (update_event j w f d))) i = map_of (inbox d) i"
  by (auto simp: update_event_def split: option.split)

lemma failover_other:
  "fst x \<noteq> i \<Longrightarrow> map_of (inbox (snd (failover_step v u aps x s))) i = map_of (inbox (snd s)) i"
  by (cases s) (auto simp: failover_step_def settle_approval_event_def reassign_one_def case_prod_beta update_other split: option.split)

lemma failover_others:
  "i \<notin> fst ` set xs \<Longrightarrow> map_of (inbox (snd (fold (failover_step v u aps) xs s))) i = map_of (inbox (snd s)) i"
  by (induction xs arbitrary: s) (auto simp: failover_other)

lemma failover_row:
  assumes "distinct (map fst xs)" "(i, e) \<in> set xs" "map_of (inbox (snd s)) i = Some e"
  shows "map_of (inbox (snd (fold (failover_step v u aps) xs s))) i
     = map_of (inbox (snd (failover_step v u aps (i, e) (0, snd s)))) i"
proof -
  obtain ys zs where xs: "xs = ys @ (i, e) # zs" using assms(2) by (meson split_list)
  let ?s = "fold (failover_step v u aps) ys s"
  have "i \<notin> fst ` set ys" "i \<notin> fst ` set zs" using assms(1) xs by auto
  then have "map_of (inbox (snd ?s)) i = Some e"
    and "map_of (inbox (snd (fold (failover_step v u aps) xs s))) i = map_of (inbox (snd (failover_step v u aps (i, e) ?s))) i"
    using assms(3) xs by (simp_all add: failover_others)
  moreover have "map_of (inbox (snd (failover_step v u aps (i, e) (n, d)))) i
      = map_of (inbox (snd (failover_step v u aps (i, e) (0, d')))) i"
    if "map_of (inbox d) i = Some e" "map_of (inbox d') i = Some e" for n d d'
    using that
    by (auto simp: failover_step_def settle_approval_event_def reassign_one_def case_prod_beta update_event_def split: option.split)
  ultimately show ?thesis using assms(3) by (metis prod.collapse)
qed

text \<open>What one pass of the hand-over does to an open approval request of the responder.\<close>

definition handed :: "failover_env \<Rightarrow> role_state \<Rightarrow> approval table \<Rightarrow> ident \<Rightarrow> inbox_event \<Rightarrow> bool" where
  "handed v st aps i e \<longleftrightarrow>
     fo_listed v \<and> fo_readable v i \<and> fo_writable v i
     \<and> (\<forall>a n. approval_named (i_payload e) = Some n \<and> map_of aps n = Some a \<longrightarrow>
          ap_status a = ''pending'' \<and> \<not> expired_at (effective_expiry a) (fo_now v))
     \<and> (\<exists>why. st = Unavailable why) \<and> i_created_at e + 300000 \<le> fo_now v"

lemma needs_decision:
  "approval_needs_no_decision aps e now \<longleftrightarrow>
     \<not> (\<forall>a n. approval_named (i_payload e) = Some n \<and> map_of aps n = Some a \<longrightarrow>
          ap_status a = ''pending'' \<and> \<not> expired_at (effective_expiry a) now)"
  by (auto simp: approval_needs_no_decision_def split: option.splits)

lemma old_enough: "age_secs c now \<ge> REASSIGN_AFTER_SECS \<longleftrightarrow> c + 300000 \<le> now"
  by (auto simp: age_secs_def REASSIGN_AFTER_SECS_def)

lemma should_reassign_iff:
  "owner e = Some ''responder'' \<Longrightarrow> should_reassign (age_secs c now) (owner_or_default e) (Some why) \<longleftrightarrow> c + 300000 \<le> now"
  by (simp add: should_reassign_def owner_or_default_def old_enough)

lemma step_row:
  assumes "map_of (inbox d) i = Some e" "i_state e \<noteq> ''handled''" "owner e = Some ''responder''"
  shows "map_of (inbox (snd (failover_step v u aps (i, e) (0, d)))) i = Some
    (if \<not> fo_readable v i \<or> \<not> fo_writable v i then e
     else if approval_needs_no_decision aps e (fo_now v)
     then e\<lparr>i_state := ''handled'', i_acked_by := Some ''daemon'', i_updated_at := fo_now v\<rparr>
     else (case u of
             Some why \<Rightarrow> if i_created_at e + 300000 \<le> fo_now v then handed_over (handed_payload why (fo_text v) (i_payload e)) (fo_now v) e else e
           | None \<Rightarrow> e))"
  using assms should_reassign_iff [OF assms(3), of "i_created_at e" "fo_now v"]
  by (simp add: failover_step_def settle_approval_event_def reassign_one_def update_event_def case_prod_beta split: option.split)

lemma handed_step:
  assumes "map_of (inbox d) i = Some e" "i_state e \<noteq> ''handled''" "owner e = Some ''responder''"
  obtains (yes) why where "handed v st aps i e" "st = Unavailable why"
      "map_of (inbox (snd (failover_step v (responder_unavailable st) aps (i, e) (0, d)))) i
       = Some (handed_over (handed_payload why (fo_text v) (i_payload e)) (fo_now v) e)"
  | (no) f where "\<not> (fo_listed v \<longrightarrow> handed v st aps i e)"
      "map_of (inbox (snd (failover_step v (responder_unavailable st) aps (i, e) (0, d)))) i = Some f" "owner f = Some ''responder''"
  | (unlisted) "\<not> fo_listed v"
proof (cases "fo_listed v")
  case True
  show ?thesis
  proof (cases "handed v st aps i e")
    case yes: True
    then obtain why where "st = Unavailable why" by (auto simp: handed_def)
    then show ?thesis using that(1) yes step_row [OF assms, of v "responder_unavailable st" aps]
      by (simp add: handed_def needs_decision responder_unavailable_def is_unavailable_def reason_of_def)
  next
    case no: False
    have "\<exists>f. map_of (inbox (snd (failover_step v (responder_unavailable st) aps (i, e) (0, d)))) i = Some f \<and> owner f = Some ''responder''"
    proof (cases "fo_readable v i \<and> fo_writable v i \<and> \<not> approval_needs_no_decision aps e (fo_now v)")
      case usable: True
      then have "responder_unavailable st = None \<or> \<not> i_created_at e + 300000 \<le> fo_now v"
        using no True by (auto simp: handed_def needs_decision responder_unavailable_def is_unavailable_def split: role_state.splits)
      then show ?thesis using usable step_row [OF assms, of v "responder_unavailable st" aps] assms(3)
        by (auto split: option.splits)
    qed (use step_row [OF assms, of v "responder_unavailable st" aps] assms(3) in auto)
    then show ?thesis using that(2) no True by blast
  qed
qed (use that(3) in blast)

lemma tick_failover_row:
  assumes "distinct (map fst (inbox (mail w)))" "map_of (inbox (mail w)) i = Some e"
    and "i_kind e = ''approval_requested''" "i_state e \<noteq> ''handled''" "fo_listed v"
  shows "map_of (inbox (mail (tick_failover v st w))) i
     = map_of (inbox (snd (failover_step v (responder_unavailable st) (of_approvals w) (i, e) (0, mail w)))) i"
proof -
  let ?xs = "open_approval_events (mail w)"
  have "distinct (map fst ?xs)" unfolding open_approval_events_def by_age_def by (rule sorted_rows(1) [OF assms(1)])
  moreover have "(i, e) \<in> set ?xs"
    using map_of_SomeD [OF assms(2)] assms(3,4) by (simp add: open_approval_events_def by_age_def REASSIGNABLE_def)
  ultimately show ?thesis
    using failover_row [of ?xs i e "(0, mail w)"] assms(2,5) by (simp add: tick_failover_def reassign_stale_approvals_def)
qed

lemma trim_patrol: "trim ''patrol'' = ''patrol''" "trim ''responder'' = ''responder''"
  by code_simp+

fun mail_steps :: "(time \<Rightarrow> string) \<Rightarrow> mail_op list \<Rightarrow> office \<Rightarrow> office" where
  "mail_steps shown [] w = w"
| "mail_steps shown (op # ops) w = mail_steps shown ops (mail_step shown op w)"

lemma mail_steps_move:
  "list_all tame_op ops \<Longrightarrow> distinct (map fst (inbox (mail w))) \<Longrightarrow> rows_move (mail w) (mail (mail_steps shown ops w))"
proof (induction ops arbitrary: w)
  case (Cons op ops)
  then have step: "rows_move (mail w) (mail (mail_step shown op w))" using mail_step_moves by simp
  show ?case using Cons rows_move_trans [OF step] rows_moveD [OF step] by simp
qed (simp add: rows_move_refl)

text \<open>
  C20. Approvals follow whoever can decide them. One pass of the hand-over gives an open approval request of the responder to
  the patrol exactly when the daemon knows that the responder cannot work (not merely cannot tell), the request is five minutes
  old, its approval still waits for a decision as far as the table says, and the reads and the write succeed; it then starts over, pending and
  undelivered, is due to the patrol at once, wakes it, is the responder's to acknowledge no more, and whatever the passes and the other writers do
  later, short of pruning it once handled, it stays with the patrol. In every other case it stays with the responder.
\<close>

theorem approvals_follow_the_living:
  assumes "distinct (map fst (inbox (mail w)))" "map_of (inbox (mail w)) i = Some e"
    and "i_kind e = ''approval_requested''" "i_state e \<noteq> ''handled''" "owner e = Some ''responder''" "i_payload e = JObj ms"
    and "list_all tame_op ops"
  shows "if handed v st (of_approvals w) i e
     then (\<exists>f. map_of (inbox (mail (tick_failover v st w))) i = Some f \<and> i_state f = ''pending'' \<and> i_attempts f = 0
            \<and> route (i_kind f) (i_payload f) rev_role = \<lparr>rt_role = Patrol, rt_wake = True\<rparr> \<and> wakes f
            \<and> (\<forall>conf now n. 0 < n \<longrightarrow> (i, f) \<in> set (due_for Patrol conf now n (mail (tick_failover v st w))))
            \<and> \<not> may_ack Responder conf f)
        \<and> (\<exists>g. map_of (inbox (mail (mail_steps shown ops (tick_failover v st w)))) i = Some g \<and> owner g = Some ''patrol'')
     else (\<exists>f. map_of (inbox (mail (tick_failover v st w))) i = Some f \<and> owner f = Some ''responder'')"
proof (cases "fo_listed v")
  case True
  show ?thesis
    using assms(2,4,5)
  proof (cases rule: handed_step [of "mail w" i e v st "of_approvals w"])
    case (yes why)
    let ?f = "handed_over (handed_payload why (fo_text v) (i_payload e)) (fo_now v) e"
    let ?w = "tick_failover v st w"
    have row: "map_of (inbox (mail ?w)) i = Some ?f" using tick_failover_row [OF assms(1-4) True, of st] yes(3) by simp
    have own: "owner ?f = Some ''patrol''" by (simp add: handed_over_def owner_def)
    have keys: "distinct (map fst (inbox (mail ?w)))" using mail_failover [OF assms(1)] by (simp add: rows_move_def)
    obtain g where g: "map_of (inbox (mail (mail_steps shown ops ?w))) i = Some g" "moves ?f g"
      using mail_steps_move [OF assms(7) keys] row unfolding rows_move_def by blast
    have "owner g = Some ''patrol''" using g(2) own by (simp add: moves_def)
    moreover have "(i, ?f) \<in> set (due_for Patrol conf now n (mail ?w))" if "0 < n" for conf now n
      using map_of_SomeD [OF row] that own by (simp add: due_for_def by_age_def handed_over_def owned_and_capped_def)
    moreover have "route (i_kind ?f) (i_payload ?f) rev_role = \<lparr>rt_role = Patrol, rt_wake = True\<rparr>"
      using assms(3,6) trim_patrol
      by (simp add: handed_over_def handed_payload_def route_def known_route_def to_role_def str_at_def role_parse_def Let_def)
    moreover have "i_state ?f = ''pending''" "i_attempts ?f = 0" "wakes ?f" "\<not> may_ack Responder conf ?f"
      using own by (simp_all add: handed_over_def wakes_def may_ack_def)
    ultimately show ?thesis using yes(1) row g(1) by auto
  next
    case (no f)
    then show ?thesis using tick_failover_row [OF assms(1-4) True, of st] by auto
  qed (use True in simp)
next
  case False
  then show ?thesis using assms(2,5) by (simp add: handed_def tick_failover_def reassign_stale_approvals_def)
qed

text \<open>A request the responder was sent and never decided, in a world where the turn of that notification is gone.\<close>

definition asking :: office where
  "asking = with_mail ((mail desk)\<lparr>inbox := [(''A'', (new_event ''approval:1'' ''approval_requested'' None None None
        (JObj [(''approval_id'', JStr ''ap1''), (''to_role'', JStr ''responder'')]) 0)
        \<lparr>i_role := Some ''responder'', i_wake := Some True, i_claimed_by := Some ''responder'', i_state := ''delivered'',
         i_attempts := 4, i_notify_turn := Some ''T9''\<rparr>)]\<rparr>) desk"

definition all_reads :: "time \<Rightarrow> failover_env" where
  "all_reads now = \<lparr>fo_now = now, fo_text = ''t'', fo_listed = True, fo_readable = (\<lambda>_. True), fo_writable = (\<lambda>_. True)\<rparr>"

definition recovering :: "time \<Rightarrow> recover_env" where
  "recovering now =
     \<lparr>rv_now = now, rv_listed = True, rv_world = sample, rv_readable = (\<lambda>_. True), rv_writable = (\<lambda>_. True), rv_notice = (\<lambda>i. ''N'' @ i)\<rparr>"

lemma tame_id [simp]: "tame id"
  by (simp add: tame_def tame_event_def)

theorem approvals_follow_the_living_witness:
  "\<exists>g. map_of (inbox (mail (mail_steps (\<lambda>_. ''t'')
        [Recover 1800 (recovering 400000), Hand_Over (all_reads 800000) (Unavailable ''no_run'')]
        (tick_failover (all_reads 300000) (Unavailable ''no_run'') asking)))) ''A'' = Some g \<and> owner g = Some ''patrol''"
proof -
  let ?e = "snd (hd (inbox (mail asking)))"
  let ?ops = "[Recover 1800 (recovering 400000), Hand_Over (all_reads 800000) (Unavailable ''no_run'')]"
  have e: "map_of (inbox (mail asking)) ''A'' = Some ?e" "distinct (map fst (inbox (mail asking)))" by (simp_all add: asking_def)
  have k: "i_kind ?e = ''approval_requested''" "i_state ?e \<noteq> ''handled''" "owner ?e = Some ''responder''"
    "i_payload ?e = JObj [(''approval_id'', JStr ''ap1''), (''to_role'', JStr ''responder'')]"
    by (simp_all add: asking_def new_event_def owner_def)
  have ops: "list_all tame_op ?ops" by simp
  have "handed (all_reads 300000) (Unavailable ''no_run'') (of_approvals asking) ''A'' ?e"
    by (simp add: handed_def all_reads_def asking_def new_event_def desk_def)
  then show ?thesis
    using approvals_follow_the_living [OF e(2,1) k ops, where shown = "\<lambda>_. ''t''" and v = "all_reads 300000" and st = "Unavailable ''no_run''"] by simp
qed

section \<open>Offering again\<close>

definition delivered_in :: "ident \<Rightarrow> db \<Rightarrow> db \<Rightarrow> int" where
  "delivered_in i d d' =
     (case (map_of (inbox d) i, map_of (inbox d') i) of (Some e, Some f) \<Rightarrow> delivered_now e f | _ \<Rightarrow> 0)"

fun deliveries :: "(time \<Rightarrow> string) \<Rightarrow> ident \<Rightarrow> mail_op list \<Rightarrow> office \<Rightarrow> int" where
  "deliveries shown i [] w = 0"
| "deliveries shown i (op # ops) w =
     delivered_in i (mail w) (mail (mail_step shown op w)) + deliveries shown i ops (mail_step shown op w)"

lemma allowance_nonneg: "0 \<le> allowance e"
  by (auto simp: allowance_def rest_of_def)

lemma deliveries_allowed:
  "list_all tame_op ops \<Longrightarrow> distinct (map fst (inbox (mail w))) \<Longrightarrow> map_of (inbox (mail w)) i = Some e \<Longrightarrow>
     deliveries shown i ops w \<le> allowance e"
proof (induction ops arbitrary: w e)
  case (Cons op ops)
  let ?w = "mail_step shown op w"
  have step: "rows_move (mail w) (mail ?w)" using Cons.prems mail_step_moves by simp
  then obtain f where f: "map_of (inbox (mail ?w)) i = Some f" "moves e f"
    using Cons.prems(3) unfolding rows_move_def by blast
  then have "deliveries shown i ops ?w \<le> allowance f" using Cons rows_moveD [OF step] by simp
  then show ?case using f Cons.prems(3) by (simp add: delivered_in_def moves_def)
qed (simp add: allowance_nonneg)

text \<open>
  C21. No single event is delivered again without end. Whatever sequence of wake-ups, looks at unanswered notifications, hand-overs,
  classifications, mergers and writes of others an event goes through, and however sending fails, it is turned into
  a delivered one at most five times, also when the role never acknowledges; an approval request that may still change hands has five more.
  The bound is per event (a notice that an event was given up is an event of its own), and up to the pruning of handled events.
\<close>

theorem redelivery_bounded:
  assumes "list_all tame_op ops" "distinct (map fst (inbox (mail w)))" "map_of (inbox (mail w)) i = Some e"
    and "i_state e = ''pending''" "i_attempts e = 0"
  shows "deliveries shown i ops w \<le> (if i_kind e = ''approval_requested'' \<and> owner e \<noteq> Some ''patrol'' then 10 else 5)"
  using deliveries_allowed [OF assms(1-3), of shown] assms(4,5) by (auto simp: allowance_def rest_of_def REASSIGNABLE_def split: if_splits)

text \<open>A responder that never acknowledges: its turns come to nothing, and after each the event is looked at again.\<close>

definition deaf_rounds :: "int list \<Rightarrow> mail_op list" where
  "deaf_rounds ks = concat (map (\<lambda>k.
     [Responder_Wake 15 300 (wake_up (100000 * k) (reading_with 20 (100000 * k)) (Sent ''T9'' ''ok'') (Some False)),
      Recover 1800 (recovering (100000 * k + 50000))]) ks)"

theorem redelivery_bounded_witness:
  "deliveries (\<lambda>_. ''t'') ''E'' (deaf_rounds [1, 2, 3, 4, 5, 6, 7]) desk \<le> 5
   \<and> deliveries (\<lambda>_. ''t'') ''E'' (deaf_rounds [1, 2, 3, 4, 5, 6, 7]) desk = 5"
proof
  let ?e = "snd (hd (inbox (mail desk)))"
  have "list_all tame_op (deaf_rounds [1, 2, 3, 4, 5, 6, 7])" by (simp add: deaf_rounds_def wake_up_def)
  moreover have "map_of (inbox (mail desk)) ''E'' = Some ?e" "distinct (map fst (inbox (mail desk)))" by (simp_all add: desk_def mail_def)
  moreover have "i_state ?e = ''pending''" "i_attempts ?e = 0" "i_kind ?e = ''bot_request''" by (simp_all add: desk_def mail_def new_event_def)
  ultimately show "deliveries (\<lambda>_. ''t'') ''E'' (deaf_rounds [1, 2, 3, 4, 5, 6, 7]) desk \<le> 5"
    using redelivery_bounded [of "deaf_rounds [1, 2, 3, 4, 5, 6, 7]" desk "''E''" ?e "\<lambda>_. ''t''"] by simp
  show "deliveries (\<lambda>_. ''t'') ''E'' (deaf_rounds [1, 2, 3, 4, 5, 6, 7]) desk = 5" by code_simp
qed

text \<open>What else writes to the inbox is tame: new events, acknowledgements, and any sequence of tame writes.\<close>

lemma push_tame: "tame (\<lambda>d. snd (push_inbox_tx eid key kind a b t p now d))"
  unfolding tame_def tame_event_def using push_rows push_distinct by blast

lemma ack_tame: "tame (\<lambda>d. snd (ack i actor conf now d))"
proof -
  have "snd (ack i actor conf now d) = fst (update_event i (\<lambda>e. i_state e \<noteq> ''handled'' \<and> may_ack actor conf e)
      (\<lambda>e. e\<lparr>i_state := ''handled'', i_acked_by := Some (role_str actor), i_updated_at := now\<rparr>) d)" for d
    by (simp add: ack_def case_prod_beta split: option.split)
  then show ?thesis unfolding tame_def using update_row by (force simp: tame_event_def)
qed

lemma tame_event_trans: "tame_event e f \<Longrightarrow> tame_event f h \<Longrightarrow> tame_event e h"
  by (auto simp: tame_event_def)

lemma tame_comp: "tame f \<Longrightarrow> tame g \<Longrightarrow> tame (g \<circ> f)"
  unfolding tame_def comp_def by (blast intro: tame_event_trans)

text \<open>
  Giving up on a notice that something was given up on writes a notice of the same kind for the other role: the bound holds for each
  event, and not for the chain they form.
\<close>

lemma upd_keeps_keys:
  "(\<And>x. i_key (g x) = i_key x) \<Longrightarrow> list_ex (\<lambda>(_, x). i_key x = k) (upd_row i g t) \<longleftrightarrow> list_ex (\<lambda>(_, x). i_key x = k) t"
  by (induction t) (auto split: if_splits)

lemma give_up_answers_itself:
  assumes "map_of (inbox d) i = Some e" "i_kind e = ''inbox_gave_up''" "i_state e = ''delivered''" "owner e = Some (role_str r)"
    and "map_of (inbox d) (rv_notice v i) = None" "\<not> list_ex (\<lambda>(_, x). i_key x = ''inbox_gave_up:'' @ i) (inbox d)"
  shows "\<exists>f. map_of (inbox (give_up_on v (i, e) why age d)) (rv_notice v i) = Some f \<and> i_kind f = ''inbox_gave_up''
    \<and> i_state f = ''pending'' \<and> route (i_kind f) (i_payload f) None = \<lparr>rt_role = (if r = Responder then Patrol else Responder), rt_wake = True\<rparr>"
proof -
  let ?to = "if r = Responder then Patrol else Responder"
  let ?g = "\<lambda>x. x\<lparr>i_state := ''gave_up'', i_error := Some why, i_next_at := None, i_updated_at := rv_now v\<rparr>"
  have other: "other_role (owner_or_default e) = ?to"
    using assms(4) trim_patrol by (cases r) (simp_all add: other_role_def owner_or_default_def role_parse_def)
  have "to_role (give_up_notice i e age) Patrol = ?to"
    using trim_patrol by (cases r) (simp_all add: to_role_def str_at_def give_up_notice_def other role_parse_def)
  then have routed: "route ''inbox_gave_up'' (give_up_notice i e age) None = \<lparr>rt_role = ?to, rt_wake = True\<rparr>"
    by (simp add: route_def known_route_def Let_def)
  have "\<not> list_ex (\<lambda>(_, x). i_key x = ''inbox_gave_up:'' @ i) (upd_row i ?g (inbox d))"
    using assms(6) upd_keeps_keys [of ?g "''inbox_gave_up:'' @ i" i "inbox d"] by simp
  moreover have ne: "i \<noteq> rv_notice v i" using assms(1,5) by (metis option.distinct(1))
  moreover have "map_of (upd_row i ?g (inbox d)) (rv_notice v i) = None" using ne assms(5) by simp
  ultimately have "inbox (give_up_on v (i, e) why age d) = upd_row i ?g (inbox d) @
      [(rv_notice v i, new_event (''inbox_gave_up:'' @ i) ''inbox_gave_up'' (i_assignment e) (i_bot e) None (give_up_notice i e age) (rv_now v))]"
    using assms(1,3)
    by (simp add: give_up_on_def give_up_inbox_and_notify_def update_event_def push_inbox_tx_def insert_or_ignore_def new_event_def)
  then show ?thesis using routed ne assms(5) by (simp add: new_event_def map_add_def)
qed

end
