(* ===== verification/Dispatcher.thy ===== *)
theory Dispatcher
  imports Mail_Loop Window_Leases Turn_Controller
begin

text \<open>
  Handing assignments to their targets (\<open>dispatch\<close>, \<open>drain_queue\<close> and the waiting for quota of
  \<open>supervisor/controller.rs\<close>). What the reads answer, what sending answers and what others write meanwhile
  are arguments; one call reads the clock once. Sentences for people in \<open>error\<close> and in events are left
  out or an argument; where a reason is a fixed text it is kept.
\<close>

section \<open>Bounds\<close>

definition QUOTA_BLIND_WAIT_SECS :: int where
  "QUOTA_BLIND_WAIT_SECS = 30 * 60"

definition MAX_QUOTA_RETRIES :: int where
  "MAX_QUOTA_RETRIES = 6"

definition MAX_QUOTA_WAIT_SECS :: int where
  "MAX_QUOTA_WAIT_SECS = 6 * 3600"

definition QUOTA_RECHECK_SECS :: int where
  "QUOTA_RECHECK_SECS = 15 * 60"

definition CONFLICT_BACKOFF_CAP_SECS :: int where
  "CONFLICT_BACKOFF_CAP_SECS = 900"

definition CONFLICT_GIVE_UP_MINS :: int where
  "CONFLICT_GIVE_UP_MINS = 30"

definition CONFLICT_MAX_ROUNDS :: int where
  "CONFLICT_MAX_ROUNDS = 20"

definition UNCOMMITTED_RECHECK_SECS :: int where
  "UNCOMMITTED_RECHECK_SECS = 15"

definition UNREADABLE_RETRY_SECS :: int where
  "UNREADABLE_RETRY_SECS = 10"

text \<open>A setting of the environment: the number in it, \<open>None\<close> when it is not set or holds none.\<close>

definition env_i64 :: "int option \<Rightarrow> int \<Rightarrow> int" where
  "env_i64 v dflt = (case v of Some n \<Rightarrow> if n > 0 then n else dflt | None \<Rightarrow> dflt)"

definition conflict_backoff_secs :: "int option \<Rightarrow> int \<Rightarrow> int" where
  "conflict_backoff_secs cap attempts = min (15 * 2 ^ nat (min 16 (max 0 attempts))) (env_i64 cap CONFLICT_BACKOFF_CAP_SECS)"

text \<open>Whole minutes, cut towards zero.\<close>

definition conflict_gave_up :: "int option \<Rightarrow> time \<Rightarrow> time \<Rightarrow> bool" where
  "conflict_gave_up mins since now \<longleftrightarrow>
     (if since \<le> now then (now - since) div 60000 else - ((since - now) div 60000)) \<ge> env_i64 mins CONFLICT_GIVE_UP_MINS"

definition upstream_retries_left :: "int \<Rightarrow> bool" where
  "upstream_retries_left attempts \<longleftrightarrow> attempts < int (length RETRY_BACKOFF)"

definition backoff_for :: "int \<Rightarrow> int" where
  "backoff_for attempts = RETRY_BACKOFF ! min (nat (max attempts 0)) (length RETRY_BACKOFF - 1)"

section \<open>Ends and waits\<close>

definition event_key_for :: "string \<Rightarrow> ident \<Rightarrow> assignment \<Rightarrow> string" where
  "event_key_for kind i a = kind @ '':'' @ i @ '':'' @ (case a_turn a of None \<Rightarrow> [] | Some t \<Rightarrow> t)"

definition settle_event :: "assignment \<Rightarrow> string \<Rightarrow> bool \<Rightarrow> string option \<Rightarrow> string option \<Rightarrow> string \<times> json" where
  "settle_event a turn_status evidence result err =
     (if turn_status = ''completed'' \<or> turn_status = ''completed_fallback'' then ''assignment_completed'' else ''assignment_failed'',
      JObj [(''bot_id'', JStr (a_target_bot a)), (''turn_status'', JStr turn_status), (''evidence_complete'', JBool evidence),
        (''result'', opt_json result), (''error'', opt_json err), (''needs_review'', JBool True)])"

text \<open>The writes of this file: the answer is only logged, and a failed one changes nothing.\<close>

definition settle_asg ::
  "ident \<Rightarrow> assignment \<Rightarrow> string \<Rightarrow> bool \<Rightarrow> string option \<Rightarrow> string option \<Rightarrow> ident \<Rightarrow> time \<Rightarrow> db \<Rightarrow> db" where
  "settle_asg i a turn_status evidence result err event now d =
     (let (kind, payload) = settle_event a turn_status evidence result err in
      kept (settle_and_notify_on i turn_status evidence result err (event_key_for kind i a) kind payload event now d) d)"

datatype quota_action = Wait_Until stamp | Wait_Blind | Give_Up_Quota

definition quota_action :: "int \<Rightarrow> stamp option \<Rightarrow> time \<Rightarrow> quota_action" where
  "quota_action retries until now =
     (if retries \<ge> MAX_QUOTA_RETRIES then Give_Up_Quota
      else (case until of Some t \<Rightarrow> if \<not> past t now then Wait_Until t else Wait_Blind | None \<Rightarrow> Wait_Blind))"

definition resume_at_from :: "time \<Rightarrow> stamp option \<Rightarrow> stamp option \<Rightarrow> time" where
  "resume_at_from now banner quota_reset =
     (case filter (\<lambda>t. now < t) (List.map_filter (\<lambda>s. Option.bind s parse_utc) [banner, quota_reset]) of
        [] \<Rightarrow> now + 1000 * QUOTA_BLIND_WAIT_SECS
      | t # ts \<Rightarrow>
          (let soonest = Min (set (t # ts)) in
           if soonest - now > 1000 * MAX_QUOTA_WAIT_SECS then now + 1000 * QUOTA_RECHECK_SECS else soonest))"

text \<open>\<open>reset\<close>: the next reset of the target's account; \<open>why\<close>: the texts of giving up and of waiting.\<close>

definition park_quota ::
  "ident \<Rightarrow> assignment \<Rightarrow> limit_hit \<Rightarrow> string \<Rightarrow> stamp option \<Rightarrow> string \<Rightarrow> ident \<Rightarrow> time \<Rightarrow> db \<Rightarrow> db" where
  "park_quota i a hit where_seen reset why event now d =
     (if quota_action (a_quota_retries a) (lh_until hit) now = Give_Up_Quota
      then settle_asg i a ''quota_exhausted'' True None (Some why) event now d
      else
        (let resume_at = resume_at_from now (lh_until hit) reset;
             payload = JObj [(''bot_id'', JStr (a_target_bot a)), (''resume_at'', JNum resume_at), (''retries'', JNum (a_quota_retries a)),
               (''message'', JStr (lh_message hit)), (''where'', JStr where_seen), (''needs_review'', JBool False)]
         in kept (park_quota_blocked i resume_at why (''quota_blocked:'' @ i @ '':'' @ nat_str (nat (a_quota_retries a))) payload event now d) d))"

definition undeliverable ::
  "int option \<Rightarrow> ident \<Rightarrow> assignment \<Rightarrow> time \<Rightarrow> string \<Rightarrow> string \<Rightarrow> ident \<Rightarrow> time \<Rightarrow> db \<Rightarrow> db" where
  "undeliverable mins i a since why note event now d =
     kept (mark_undeliverable i note (event_key_for ''assignment_undeliverable'' i a)
       (JObj [(''assignment_id'', JStr i), (''target_bot_id'', JStr (a_target_bot a)), (''attempts'', JNum (a_attempts a)),
         (''busy_rounds'', JNum (a_busy_rounds a + 1)), (''max_busy_rounds'', JNum CONFLICT_MAX_ROUNDS),
         (''waited_mins'', JNum (env_i64 mins CONFLICT_GIVE_UP_MINS)), (''conflict_since'', JNum since), (''reason'', JStr why),
         (''status'', JStr ''blocked'')]) event now d) d"

section \<open>Sending one\<close>

text \<open>
  What \<open>prompt_relayed_queueable\<close> answers: the turn and what became of the delivery, or one of its errors
  (\<open>Bad\<close>, \<open>BadValue\<close> and \<open>Unprocessable\<close> are \<open>Prompt_Bad\<close>; every other one \<open>Prompt_Upstream\<close>).
\<close>

datatype prompt_answer =
    Prompted ident string
  | Prompt_Conflict string
  | Prompt_Not_Found string
  | Prompt_Bad string
  | Prompt_Uncommitted string
  | Prompt_Upstream string

text \<open>
  What one call finds. \<open>None\<close>: cannot be read. \<open>di_target\<close>: the bot is there and not deleted;
  \<open>di_role\<close>: it is one of the roles; \<open>di_limit\<close>: the limit its account ran into; \<open>di_responder\<close>,
  \<open>di_manager\<close>: the bots of the roles; \<open>di_reset\<close>: the next reset of that account; \<open>di_race\<close>: what others
  write between reading the assignment and the first write; \<open>di_cap\<close>, \<open>di_mins\<close>: the two settings of the environment;
  \<open>di_words\<close>: the sentence for people.
\<close>

record dispatch_env =
  di_now :: time
  di_read :: bool
  di_target :: "bool option"
  di_role :: "bool option"
  di_limit :: "limit_hit option option"
  di_window :: window_state
  di_responder :: "ident option option"
  di_manager :: "ident option option"
  di_answer :: prompt_answer
  di_reset :: "stamp option"
  di_race :: "db \<Rightarrow> db"
  di_cap :: "int option"
  di_mins :: "int option"
  di_event :: ident
  di_words :: string
  di_shown :: "time \<Rightarrow> string"

definition pause_note :: "string \<Rightarrow> string" where
  "pause_note until = ''restart window held until '' @ until"

record sent_prompt =
  sp_bot :: ident
  sp_crid :: string
  sp_text :: string
  sp_from :: ident

definition dispatch_failed :: "dispatch_env \<Rightarrow> ident \<Rightarrow> assignment \<Rightarrow> string \<Rightarrow> db \<Rightarrow> db" where
  "dispatch_failed e i a why d = settle_asg i a ''dispatch_failed'' True None (Some why) (di_event e) (di_now e) d"

definition held_back :: "dispatch_env \<Rightarrow> ident \<Rightarrow> int \<Rightarrow> string \<Rightarrow> db \<Rightarrow> db" where
  "held_back e i secs why d = kept (hold i (di_now e + 1000 * secs) why (di_now e) d) d"

definition put_off :: "dispatch_env \<Rightarrow> ident \<Rightarrow> int \<Rightarrow> string \<Rightarrow> db \<Rightarrow> db" where
  "put_off e i secs why d = kept (defer_attempt i (di_now e + 1000 * secs) why (di_now e) d) d"

definition refused_busy :: "dispatch_env \<Rightarrow> ident \<Rightarrow> assignment \<Rightarrow> string \<Rightarrow> db \<Rightarrow> db" where
  "refused_busy e i a why d =
     (if (case a_conflict_since a of None \<Rightarrow> False | Some s \<Rightarrow> conflict_gave_up (di_mins e) s (di_now e))
      then undeliverable (di_mins e) i a (the (a_conflict_since a)) why (di_words e) (di_event e) (di_now e) d
      else if a_busy_rounds a + 1 \<ge> CONFLICT_MAX_ROUNDS
      then undeliverable (di_mins e) i a (case a_conflict_since a of Some s \<Rightarrow> s | None \<Rightarrow> a_created_at a) why (di_words e)
             (di_event e) (di_now e) d
      else kept (defer_conflict i (di_now e + 1000 * conflict_backoff_secs (di_cap e) (a_busy_rounds a)) why (di_now e) d) d)"

definition record_sent :: "dispatch_env \<Rightarrow> ident \<Rightarrow> assignment \<Rightarrow> ident \<Rightarrow> string \<Rightarrow> db \<Rightarrow> db" where
  "record_sent e i a turn_id delivery d =
     (case mark_delivered i turn_id delivery (di_now e) d of
        Inr (False, d1) \<Rightarrow> d1
      | r \<Rightarrow>
          (let d1 = kept r d in
           if delivery = ''queued''
           then snd (push_inbox_tx (di_event e) (''assignment_queued:'' @ i @ '':'' @ turn_id) ''assignment_queued'' (Some i)
                  (Some (a_target_bot a)) (Some turn_id)
                  (JObj [(''bot_id'', JStr (a_target_bot a)), (''turn_id'', JStr turn_id), (''needs_review'', JBool False)]) (di_now e) d1)
           else d1))"

definition after_sending :: "dispatch_env \<Rightarrow> ident \<Rightarrow> assignment \<Rightarrow> db \<Rightarrow> db" where
  "after_sending e i a d =
     (case di_answer e of
        Prompted turn_id delivery \<Rightarrow>
          if delivery = ''failed'' then dispatch_failed e i a ''delivery failed'' d else record_sent e i a turn_id delivery d
      | Prompt_Conflict why \<Rightarrow> refused_busy e i a why d
      | Prompt_Not_Found what \<Rightarrow> dispatch_failed e i a (''not found: '' @ what) d
      | Prompt_Bad why \<Rightarrow> dispatch_failed e i a why d
      | Prompt_Uncommitted why \<Rightarrow> held_back e i UNCOMMITTED_RECHECK_SECS why d
      | Prompt_Upstream why \<Rightarrow>
          if \<not> upstream_retries_left (a_attempts a) then dispatch_failed e i a why d else put_off e i (backoff_for (a_attempts a)) why d)"

text \<open>Who it is sent as: \<open>Inl\<close> what happens when that cannot be told.\<close>

definition attribution :: "dispatch_env \<Rightarrow> ident \<Rightarrow> assignment \<Rightarrow> (db \<Rightarrow> db) + ident" where
  "attribution e i a =
     (let manager = (\<lambda>resp. case di_manager e of
            None \<Rightarrow> Inl (put_off e i 30 ''could not read the supervisor row'')
          | Some mb \<Rightarrow>
              (case (resp, mb) of
                 (Some r, _) \<Rightarrow> Inr r
               | (None, Some b) \<Rightarrow> Inr b
               | (None, None) \<Rightarrow> Inl (put_off e i 30 ''supervisor has no bot id; cannot attribute the assignment'')))
      in if a_review_role a = Some ''patrol'' then manager None
         else (case di_responder e of
                 None \<Rightarrow> Inl (held_back e i UNREADABLE_RETRY_SECS ''cannot read responder attribution'')
               | Some r \<Rightarrow> manager r))"

definition dispatch_queued :: "dispatch_env \<Rightarrow> ident \<Rightarrow> assignment \<Rightarrow> (db \<Rightarrow> db) + sent_prompt" where
  "dispatch_queued e i a =
     (case di_target e of
        None \<Rightarrow> Inl (put_off e i 30 ''db'')
      | Some False \<Rightarrow> Inl (dispatch_failed e i a ''target bot no longer exists'')
      | Some True \<Rightarrow>
     (case di_role e of
        None \<Rightarrow> Inl (held_back e i UNREADABLE_RETRY_SECS ''cannot tell whether the target is an AGM role'')
      | Some True \<Rightarrow> Inl (dispatch_failed e i a ''target bot is now an AGM role; hand it over through the role queue instead'')
      | Some False \<Rightarrow>
     (case di_limit e of
        None \<Rightarrow> Inl (held_back e i UNREADABLE_RETRY_SECS ''cannot tell whether the target has hit its limit'')
      | Some (Some hit) \<Rightarrow> Inl (park_quota i a hit ''dispatch'' (di_reset e) (di_words e) (di_event e) (di_now e))
      | Some None \<Rightarrow>
     (case di_window e of
        Unreadable _ \<Rightarrow> Inl (held_back e i UNREADABLE_RETRY_SECS ''restart window state unreadable; retrying (fail closed)'')
      | Held _ _ _ until \<Rightarrow> Inl (\<lambda>d. kept (hold i until (pause_note (di_shown e until)) (di_now e) d) d)
      | Not_Held \<Rightarrow>
     (case attribution e i a of
        Inl f \<Rightarrow> Inl f
      | Inr from \<Rightarrow> Inr \<lparr>sp_bot = a_target_bot a, sp_crid = dispatch_crid a, sp_text = a_text a, sp_from = from\<rparr>)))))"

text \<open>The prompt that went out, if one did, and the database.\<close>

definition dispatch :: "dispatch_env \<Rightarrow> ident \<Rightarrow> db \<Rightarrow> sent_prompt option \<times> db" where
  "dispatch e i d =
     (if \<not> di_read e then (None, d)
      else
        (case map_of (assignments d) i of
           None \<Rightarrow> (None, d)
         | Some a \<Rightarrow>
             if a_status a \<noteq> ''queued'' then (None, d)
             else
               (case dispatch_queued e i a of
                  Inl f \<Rightarrow> (None, f (di_race e d))
                | Inr p \<Rightarrow> (Some p, after_sending e i a (di_race e d)))))"

section \<open>One pass over the queue\<close>

definition open_assignments :: "db \<Rightarrow> assignment table" where
  "open_assignments d = sort_key (\<lambda>x. a_created_at (snd x)) (filter (\<lambda>(_, a). List.member IN_FLIGHT (a_status a)) (assignments d))"

text \<open>\<open>paused\<close>: what \<open>dispatch_paused\<close> answers; \<open>es\<close>: what each call finds.\<close>

definition drain_one :: "time \<Rightarrow> (ident \<Rightarrow> dispatch_env) \<Rightarrow> ident \<times> assignment \<Rightarrow> sent_prompt list \<times> db \<Rightarrow> sent_prompt list \<times> db" where
  "drain_one now es x s =
     (if a_status (snd x) \<noteq> ''queued'' then s
      else if (case a_next_attempt_at (snd x) of None \<Rightarrow> False | Some t \<Rightarrow> \<not> t \<le> now) then s
      else (let (p, d) = dispatch (es (fst x)) (fst x) (snd s) in (fst s @ (case p of None \<Rightarrow> [] | Some q \<Rightarrow> [q]), d)))"

definition drain_queue ::
  "string + time option \<Rightarrow> bool \<Rightarrow> time \<Rightarrow> (ident \<Rightarrow> dispatch_env) \<Rightarrow> db \<Rightarrow> sent_prompt list \<times> db" where
  "drain_queue paused listed now es d0 =
     (let d = (if paused = Inr None then kept (clear_restart_holds now d0) d0 else d0) in
      if \<not> listed then ([], d) else fold (drain_one now es) (open_assignments d) ([], d))"

section \<open>When quota comes back\<close>

text \<open>
  What a look at one waiting assignment finds: whether its bot can be read and is there, whether the limit is still in
  force (\<open>None\<close>: cannot be told), the next reset, whether a turn of that account ended well since the wait was last
  confirmed, whether the limit was of another model's bucket, whether the old turn can be revoked, and the sending.
\<close>

record resume_env =
  rq_bot :: bool
  rq_hit :: "limit_hit option option"
  rq_reset :: "stamp option"
  rq_cleared :: bool
  rq_other_bucket :: bool
  rq_revocable :: bool
  rq_words :: string
  rq_message :: ident
  rq_event :: ident
  rq_dispatch :: dispatch_env

definition may_resume :: "time \<Rightarrow> resume_env \<Rightarrow> assignment \<Rightarrow> bool" where
  "may_resume now r a \<longleftrightarrow>
     (let due = (case a_resume_at a of None \<Rightarrow> True | Some t \<Rightarrow> t \<le> now) in
      case rq_hit r of
        None \<Rightarrow> False
      | Some (Some _) \<Rightarrow> due \<and> \<not> a_quota_retries a + 1 < MAX_QUOTA_RETRIES
      | Some None \<Rightarrow> due \<or> rq_other_bucket r \<or> rq_cleared r)"

text \<open>A queued turn is withdrawn with a note in its conversation (\<open>lifecycle/queue.rs\<close>); \<open>False\<close>: it is not queued any more.\<close>

definition revoke_queued_turn_tx :: "ident \<Rightarrow> string \<Rightarrow> ident \<Rightarrow> time \<Rightarrow> db \<Rightarrow> db_error + bool \<times> db" where
  "revoke_queued_turn_tx t why mid now d =
     bind_res (retract_queued t now d) (\<lambda>(out, d1).
       if out \<noteq> Applied then Inr (False, d)
       else (case map_of (turns d1) t of
               None \<Rightarrow> Inl Row_Not_Found
             | Some u \<Rightarrow>
                 if map_of (conversations d1) (t_conversation u) = None then Inl Row_Not_Found
                 else bind_res (insert_row (\<lambda>_. True) mid
                        \<lparr>m_conversation = t_conversation u, m_turn = Some t, m_role = ''system'', m_content = why, m_relay_from = None,
                         m_relay_unverified = False, m_relay_auth = None\<rparr> (messages d1))
                        (\<lambda>ms. Inr (True, d1\<lparr>messages := ms\<rparr>))))"

definition revoke_old :: "resume_env \<Rightarrow> time \<Rightarrow> assignment \<Rightarrow> db \<Rightarrow> db option" where
  "revoke_old r now a d =
     (case a_turn a of
        None \<Rightarrow> Some d
      | Some t \<Rightarrow>
          if \<not> rq_revocable r then None
          else (case revoke_queued_turn_tx t (rq_words r) (rq_message r) now d of Inl _ \<Rightarrow> None | Inr (_, d1) \<Rightarrow> Some d1))"

definition resume_one :: "time \<Rightarrow> (ident \<Rightarrow> resume_env) \<Rightarrow> ident \<times> assignment \<Rightarrow> sent_prompt list \<times> db \<Rightarrow> sent_prompt list \<times> db" where
  "resume_one now rs x s =
     (let (i, a) = x; r = rs i; (ps, d) = s in
      if \<not> rq_bot r then s
      else if \<not> may_resume now r a then
        (case rq_hit r of
           Some (Some hit) \<Rightarrow>
             if (case a_resume_at a of None \<Rightarrow> True | Some t \<Rightarrow> t \<le> now)
             then (ps, kept (extend_quota_blocked i (resume_at_from now (lh_until hit) (rq_reset r)) now d) d) else s
         | _ \<Rightarrow> s)
      else
        (case revoke_old r now a d of
           None \<Rightarrow> s
         | Some d1 \<Rightarrow>
             (case resume_quota_blocked i (''quota_resumed:'' @ i @ '':'' @ nat_str (nat (a_quota_retries a)))
                     (JObj [(''bot_id'', JStr (a_target_bot a)), (''retries'', JNum (a_quota_retries a + 1)), (''needs_review'', JBool False)])
                     (rq_event r) now d1 of
                Inl _ \<Rightarrow> (ps, d1)
              | Inr (res, d2) \<Rightarrow>
                  if \<not> moved res then (ps, d2)
                  else (let (p, d3) = dispatch (rq_dispatch r) i d2 in (ps @ (case p of None \<Rightarrow> [] | Some q \<Rightarrow> [q]), d3)))))"

definition resume_waiting :: "bool \<Rightarrow> time \<Rightarrow> (ident \<Rightarrow> resume_env) \<Rightarrow> db \<Rightarrow> sent_prompt list \<times> db" where
  "resume_waiting listed now rs d =
     (if \<not> listed then ([], d)
      else fold (resume_one now rs)
             (sort_key (\<lambda>x. a_updated_at (snd x)) (filter (\<lambda>(_, a). a_status a = ''quota_blocked'') (assignments d))) ([], d))"

end
