(* ===== verification/Settling.thy ===== *)
theory Settling
  imports Dispatcher
begin

text \<open>
  What becomes of an assignment whose turn ended, went missing or never started (\<open>on_turn_done\<close>, \<open>reconcile\<close>,
  \<open>late_reply\<close> and \<open>block_stale_queues\<close> of \<open>supervisor/controller.rs\<close>). As in \<open>Dispatcher\<close>, what the reads
  answer and what others write meanwhile are arguments; messages and turns are in the order they were written in.
\<close>

section \<open>The end of a turn\<close>

definition EXECUTING_STATES :: "string list" where
  "EXECUTING_STATES = [''queued'', ''delivered'', ''unknown'']"

definition is_executing :: "assignment \<Rightarrow> bool" where
  "is_executing a \<longleftrightarrow> List.member EXECUTING_STATES (a_status a)"

definition last_reply :: "db \<Rightarrow> ident \<Rightarrow> string option" where
  "last_reply d t =
     (case filter (\<lambda>(_, g). m_turn g = Some t \<and> m_role g = ''assistant'') (messages d) of
        [] \<Rightarrow> None
      | ms \<Rightarrow> Some (m_content (snd (last ms))))"

text \<open>\<open>turn_error\<close> is the column of \<open>runs\<close>, one for the whole run; it counts while no later turn of that run began.\<close>

definition turn_error_of :: "(ident \<Rightarrow> string option) \<Rightarrow> db \<Rightarrow> ident \<Rightarrow> string option" where
  "turn_error_of turn_error d t =
     (case map_of (turns d) t of
        None \<Rightarrow> None
      | Some u \<Rightarrow>
          (case t_run u of
             None \<Rightarrow> None
           | Some r \<Rightarrow>
               if map_of (runs d) r = None \<or> newer_turn d (t, u) then None
               else (case turn_error r of None \<Rightarrow> None | Some e \<Rightarrow> if trim e = [] then None else Some e)))"

fun text_lines :: "string \<Rightarrow> string \<Rightarrow> string list" where
  "text_lines cur [] = [cur]"
| "text_lines cur (c # cs) = (if c = CHR 0x0A then cur # text_lines [] cs else text_lines (cur @ [c]) cs)"

text \<open>\<open>banner\<close>: one line is what a CLI prints at its limit (\<open>turn_error.rs\<close>, \<open>codex_limit_hit_line\<close>).\<close>

definition is_limit_banner :: "(string \<Rightarrow> bool) \<Rightarrow> string \<Rightarrow> bool" where
  "is_limit_banner banner txt \<longleftrightarrow>
     (let ls = filter (\<lambda>l. l \<noteq> []) (map trim (text_lines [] txt)) in length ls \<le> 2 \<and> list_ex banner ls)"

record turn_end =
  te_status :: string
  te_reply :: "string option"
  te_error :: "string option"

definition cut_by_limit :: "(string \<Rightarrow> bool) \<Rightarrow> turn_end \<Rightarrow> bool" where
  "cut_by_limit banner x \<longleftrightarrow>
     (case te_error x of
        Some e \<Rightarrow> is_limit_banner banner e
      | None \<Rightarrow>
          \<not> ((te_status x = ''completed'' \<or> te_status x = ''completed_fallback'')
             \<and> (case map_option trim (te_reply x) of None \<Rightarrow> False | Some r \<Rightarrow> r \<noteq> [] \<and> \<not> is_limit_banner banner r)))"

text \<open>
  What the settling finds: the instant; whether the assignment, the error and the reply can be read and the error can be
  noted; the bot (\<open>None\<close>: unreadable) and the limit of its account (as in \<open>dispatch_env\<close>).
\<close>

record settle_env =
  se_now :: time
  se_banner :: "string \<Rightarrow> bool"
  se_turn_error :: "ident \<Rightarrow> string option"
  se_found :: bool
  se_error_read :: bool
  se_noted :: bool
  se_reply_read :: bool
  se_bot :: "bool option"
  se_limit :: "limit_hit option option"
  se_reset :: "stamp option"
  se_race :: "db \<Rightarrow> db"
  se_event :: ident
  se_words :: string

definition settle_finished_turn :: "settle_env \<Rightarrow> ident \<Rightarrow> string \<Rightarrow> db \<Rightarrow> db" where
  "settle_finished_turn e t status d =
     (if \<not> se_found e then d
      else
        (case List.find (\<lambda>(_, a). a_turn a = Some t) (assignments d) of
           None \<Rightarrow> d
         | Some (i, a) \<Rightarrow>
             if \<not> is_executing a \<or> \<not> se_error_read e then d
             else
               (let err = turn_error_of (se_turn_error e) d t in
                if err \<noteq> None \<and> \<not> se_noted e then d
                else
                  (let d1 = (case err of None \<Rightarrow> d | Some x \<Rightarrow> kept (set_turn_error i x d) d) in
                   if \<not> se_reply_read e then d1
                   else
                     (let reply = last_reply d1 t;
                          ok_turn = (status = ''completed'' \<or> status = ''completed_fallback'');
                          settled_now = settle_asg i a status (status \<noteq> ''completed_fallback'') reply (if ok_turn then None else Some status)
                                          (se_event e) (se_now e) (se_race e d1)
                      in if \<not> cut_by_limit (se_banner e) \<lparr>te_status = status, te_reply = reply, te_error = err\<rparr> then settled_now
                         else
                           (case se_bot e of
                              None \<Rightarrow> d1
                            | Some False \<Rightarrow> settled_now
                            | Some True \<Rightarrow>
                                (case se_limit e of
                                   None \<Rightarrow> d1
                                 | Some None \<Rightarrow> settled_now
                                 | Some (Some hit) \<Rightarrow>
                                     park_quota i a hit ''turn'' (se_reset e) (se_words e) (se_event e) (se_now e) (se_race e d1))))))))"

definition on_turn_done :: "settle_env \<Rightarrow> ident \<Rightarrow> string \<Rightarrow> db \<Rightarrow> db" where
  "on_turn_done e t status d =
     (if status = ''completed'' \<or> status = ''completed_fallback'' \<or> status = ''failed'' then settle_finished_turn e t status d else d)"

section \<open>Replies that come late\<close>

record late_env =
  la_now :: time
  la_reads :: bool
  la_writes :: bool
  la_race :: "db \<Rightarrow> db"
  la_event :: ident

definition late_event :: "ident \<Rightarrow> assignment \<Rightarrow> ident \<Rightarrow> string \<Rightarrow> assignment \<Rightarrow> time \<Rightarrow> inbox_event" where
  "late_event i a t reply row now =
     (let noticed = (\<not> a_expects_review row \<and> a_status row = ''completed'') in
      new_event (''assignment_late_reply:'' @ i @ '':'' @ t) (if noticed then ''assignment_noticed'' else ''assignment_completed'')
        (Some i) (Some (a_target_bot a)) (Some t)
        (JObj [(''bot_id'', JStr (a_target_bot a)), (''turn_status'', JStr ''completed''), (''evidence_complete'', JBool True),
          (''result'', JStr reply), (''error'', JNull), (''needs_review'', JBool (\<not> noticed)), (''late_reply'', JBool True),
          (''assignment_status'', JStr (a_status row))]) now)"

definition write_late_reply :: "late_env \<Rightarrow> ident \<Rightarrow> assignment \<Rightarrow> ident \<Rightarrow> string \<Rightarrow> db \<Rightarrow> db_error + db" where
  "write_late_reply e i a t reply d =
     (case map_of (assignments d) i of
        None \<Rightarrow> Inl Row_Not_Found
      | Some row \<Rightarrow>
          bind_res (update_assignment i (\<lambda>x. a_turn_status x = Some ''completed_fallback'')
              (\<lambda>x. x\<lparr>a_turn_status := Some ''completed'', a_evidence_complete := True,
                     a_result := (case a_result x of None \<Rightarrow> Some reply | Some r \<Rightarrow> Some r), a_updated_at := la_now e\<rparr>) d) (\<lambda>(d1, n).
            if 0 < n \<and> (case a_result row of None \<Rightarrow> True | Some r \<Rightarrow> trim r = [])
            then Inr (snd (insert_or_ignore (la_event e) (late_event i a t reply row (la_now e)) d1))
            else Inr d1))"

definition late_reply :: "late_env \<Rightarrow> ident \<Rightarrow> assignment \<Rightarrow> ident \<Rightarrow> db \<Rightarrow> db" where
  "late_reply e i a t d =
     (if is_executing a \<or> a_status a = ''quota_blocked'' \<or> a_turn_status a \<noteq> Some ''completed_fallback'' then d
      else if \<not> la_reads e \<or> map_option t_status (map_of (turns d) t) \<noteq> Some ''completed'' then d
      else
        (case last_reply d t of
           None \<Rightarrow> d
         | Some reply \<Rightarrow>
             if trim reply = [] \<or> \<not> la_writes e then d
             else (case write_late_reply e i a t reply (la_race e d) of Inl _ \<Rightarrow> la_race e d | Inr d1 \<Rightarrow> d1)))"

definition late_reply_for_turn :: "late_env \<Rightarrow> bool \<Rightarrow> ident \<Rightarrow> string \<Rightarrow> db \<Rightarrow> db" where
  "late_reply_for_turn e found t status d =
     (if \<not> (status = ''completed'' \<or> status = ''completed_fallback'') \<or> \<not> found then d
      else (case List.find (\<lambda>(_, a). a_turn a = Some t) (assignments d) of None \<Rightarrow> d | Some (i, a) \<Rightarrow> late_reply e i a t d))"

section \<open>Looking again\<close>

text \<open>\<open>rc_turn\<close>: whether the turn can be read; \<open>rc_settle\<close>, \<open>rc_late\<close>: what the two writers find.\<close>

record reconcile_env =
  rc_now :: time
  rc_listed :: bool
  rc_turn :: "ident \<Rightarrow> bool"
  rc_settle :: "ident \<Rightarrow> settle_env"
  rc_orphans :: bool
  rc_pushed :: "ident \<Rightarrow> bool"
  rc_event :: "ident \<Rightarrow> ident"
  rc_late_listed :: bool
  rc_late :: "ident \<Rightarrow> late_env"

definition reconcile_one :: "reconcile_env \<Rightarrow> ident \<times> assignment \<Rightarrow> db \<Rightarrow> db" where
  "reconcile_one e x d =
     (case a_turn (snd x) of
        None \<Rightarrow> d
      | Some t \<Rightarrow>
          if \<not> rc_turn e (fst x) then d
          else
            (case map_of (turns d) t of
               None \<Rightarrow> settle_asg (fst x) (snd x) ''turn_missing'' False None (Some ''turn no longer exists'')
                         (se_event (rc_settle e (fst x))) (rc_now e) d
             | Some u \<Rightarrow>
                 if t_status u \<noteq> ''in_flight'' \<and> t_status u \<noteq> ''queued'' then on_turn_done (rc_settle e (fst x)) t (t_status u) d else d))"

text \<open>Rows that an older daemon closed (\<open>legacy_closed\<close>) are not in the model.\<close>

definition settled_without_event :: "nat \<Rightarrow> db \<Rightarrow> assignment table" where
  "settled_without_event limit d =
     take limit (sort_key (\<lambda>x. a_updated_at (snd x)) (filter (\<lambda>(i, a). a_status a = ''awaiting_review''
        \<and> \<not> list_ex (\<lambda>(_, e). i_assignment e = Some i \<and> (i_kind e = ''assignment_completed'' \<or> i_kind e = ''assignment_failed'')) (inbox d))
        (assignments d)))"

definition sweep_one :: "reconcile_env \<Rightarrow> ident \<times> assignment \<Rightarrow> db \<Rightarrow> db" where
  "sweep_one e x d =
     (let (i, a) = x;
          kind = (if a_turn_status a = Some ''completed'' \<or> a_turn_status a = Some ''completed_fallback''
                  then ''assignment_completed'' else ''assignment_failed'')
      in if \<not> rc_pushed e i then d
         else snd (push_inbox_tx (rc_event e i) (event_key_for kind i a) kind (Some i) (Some (a_target_bot a)) (a_turn a)
                (JObj [(''bot_id'', JStr (a_target_bot a)), (''turn_status'', opt_json (a_turn_status a)),
                  (''evidence_complete'', JBool (a_evidence_complete a)), (''result'', opt_json (a_result a)),
                  (''error'', opt_json (a_error a)), (''needs_review'', JBool True), (''recovered'', JBool True)]) (rc_now e) d))"

definition sweep_missing_events :: "reconcile_env \<Rightarrow> db \<Rightarrow> db" where
  "sweep_missing_events e d = (if \<not> rc_orphans e then d else fold (sweep_one e) (settled_without_event 50 d) d)"

definition late_candidates :: "db \<Rightarrow> assignment table" where
  "late_candidates d =
     take 50 (rev (sort_key (\<lambda>x. a_updated_at (snd x)) (filter (\<lambda>(_, a). a_turn_status a = Some ''completed_fallback''
        \<and> (case a_turn a of None \<Rightarrow> False | Some t \<Rightarrow> map_option t_status (map_of (turns d) t) = Some ''completed'')
        \<and> \<not> List.member [''queued'', ''delivered'', ''unknown'', ''quota_blocked''] (a_status a)) (assignments d))))"

definition sweep_late_replies :: "reconcile_env \<Rightarrow> db \<Rightarrow> db" where
  "sweep_late_replies e d =
     (if \<not> rc_late_listed e then d
      else fold (\<lambda>(i, a) d. case a_turn a of None \<Rightarrow> d | Some t \<Rightarrow> late_reply (rc_late e i) i a t d) (late_candidates d) d)"

definition reconcile_assignments :: "reconcile_env \<Rightarrow> db \<Rightarrow> db" where
  "reconcile_assignments e d =
     (if \<not> rc_listed e then d
      else sweep_late_replies e (sweep_missing_events e (fold (reconcile_one e) (open_assignments d) d)))"

section \<open>Waiting too long in the queue of a bot\<close>

definition bounded_hit :: "limit_hit \<Rightarrow> time \<Rightarrow> int \<Rightarrow> bool" where
  "bounded_hit h now max_wait \<longleftrightarrow> (case Option.bind (lh_until h) parse_utc of None \<Rightarrow> False | Some u \<Rightarrow> u \<le> now + max_wait)"

text \<open>\<open>sq_bot\<close>: the bot (\<open>None\<close>: unreadable); \<open>sq_hit\<close>: the limit that blocks it; \<open>sq_recent\<close>: the flush held its queue lately.\<close>

record stale_env =
  sq_turn :: bool
  sq_bot :: "bool option"
  sq_hit :: "limit_hit option"
  sq_recent :: bool
  sq_why :: string
  sq_text :: string
  sq_message :: ident
  sq_event :: ident

definition revoke_and_block ::
  "ident \<Rightarrow> ident \<Rightarrow> string \<Rightarrow> string \<Rightarrow> string \<times> json \<Rightarrow> ident \<Rightarrow> ident \<Rightarrow> time \<Rightarrow> db \<Rightarrow> db_error + bool \<times> db" where
  "revoke_and_block i t why txt notice mid event now d =
     bind_res (revoke_queued_turn_tx t txt mid now d) (\<lambda>(revoked, d1).
       if \<not> revoked then Inr (False, d)
       else bind_res (block_stale_queue_tx i why now d1) (\<lambda>(blocked, d2).
         if \<not> blocked then Inr (False, d)
         else (case map_of (assignments d2) i of
                 None \<Rightarrow> Inl Row_Not_Found
               | Some a \<Rightarrow>
                   Inr (True, snd (push_inbox_tx event (fst notice) ''assignment_undeliverable'' (Some i) (Some (a_target_bot a)) (Some t)
                          (snd notice) now d2)))))"

definition stale_one :: "int \<Rightarrow> time \<Rightarrow> (ident \<Rightarrow> stale_env) \<Rightarrow> ident \<times> assignment \<Rightarrow> db \<Rightarrow> db" where
  "stale_one limit now qs x d =
     (let (i, a) = x; q = qs i in
      if a_status a \<noteq> ''delivered'' \<or> a_delivery a \<noteq> Some ''queued'' then d
      else
        (case a_turn a of
           None \<Rightarrow> d
         | Some t \<Rightarrow>
             (case map_of (turns d) t of
                None \<Rightarrow> d
              | Some u \<Rightarrow>
                  (let waited = age_secs (t_created_at u) now;
                       hit = (if sq_bot q = Some True then sq_hit q else None)
                   in if \<not> sq_turn q \<or> t_status u \<noteq> ''queued'' \<or> waited < limit \<or> sq_bot q = None then d
                      else if (case hit of Some h \<Rightarrow> bounded_hit h now (1000 * MAX_QUOTA_WAIT_SECS) | None \<Rightarrow> sq_recent q) then d
                      else
                        kept (revoke_and_block i t (sq_why q) (sq_text q)
                          (''queue_blocked:'' @ i @ '':'' @ t,
                           JObj [(''assignment_id'', JStr i), (''bot_id'', JStr (a_target_bot a)), (''turn_id'', JStr t),
                             (''revoked_turn_id'', JStr t), (''waited_s'', JNum waited), (''reason'', JStr (sq_why q)),
                             (''status'', JStr ''blocked''), (''needs_review'', JBool True)])
                          (sq_message q) (sq_event q) now d) d))))"

definition block_stale_queues :: "bool \<Rightarrow> int \<Rightarrow> time \<Rightarrow> (ident \<Rightarrow> stale_env) \<Rightarrow> db \<Rightarrow> db" where
  "block_stale_queues listed limit now qs d = (if \<not> listed then d else fold (stale_one limit now qs) (open_assignments d) d)"

end
