(* ===== verification/Dispatch_Safety.thy ===== *)
theory Dispatch_Safety
  imports Settling Assignment_Safety
begin

text \<open>
  What the controller's passes over the assignments keep. Each of their writes is one of the store's operations (or a message, or an
  event), so whatever holds along the store's operations holds along the passes.
\<close>

section \<open>Paths\<close>

abbreviation asg_path :: "db \<Rightarrow> db \<Rightarrow> bool" where
  "asg_path \<equiv> asg_move (\<lambda>a b. allowed\<^sup>*\<^sup>* a b)"

lemma asg_move_trans:
  assumes "asg_move R d d'" "asg_move S d' d''" "\<And>a b c. R a b \<Longrightarrow> S b c \<Longrightarrow> T a c"
  shows "asg_move T d d''"
  unfolding asg_move_def
proof (intro conjI allI impI)
  fix i a
  assume a: "map_of (assignments d) i = Some a"
  obtain b where b: "map_of (assignments d') i = Some b" "R (a_status a) (a_status b)" "same_work a b"
    using assms(1) a unfolding asg_move_def by blast
  obtain c where c: "map_of (assignments d'') i = Some c" "S (a_status b) (a_status c)" "same_work b c"
    using assms(2) b(1) unfolding asg_move_def by blast
  show "\<exists>b. map_of (assignments d'') i = Some b \<and> T (a_status a) (a_status b) \<and> same_work a b"
    using c(1) assms(3) [OF b(2) c(2)] same_work_trans [OF b(3) c(3)] by blast
next
  assume "assignments_ok (assignments d)"
  then show "assignments_ok (assignments d'')" using assms(1,2) unfolding asg_move_def by blast
qed

lemma asg_path_trans: "asg_path a b \<Longrightarrow> asg_path b c \<Longrightarrow> asg_path a c"
  by (erule (1) asg_move_trans) (rule rtranclp_trans)

lemma asg_step_path: "asg_step d d' \<Longrightarrow> asg_path d d'"
  by (fastforce simp: asg_move_def)

lemma asg_path_same [simp]: "assignments d' = assignments d \<Longrightarrow> asg_path d d'"
  by (simp add: asg_move_def)

lemma asg_path_fold: "(\<And>x d. asg_path d (g x d)) \<Longrightarrow> asg_path d (fold g xs d)"
  by (induction xs arbitrary: d) (auto intro: asg_path_trans)

lemma asg_path_store: "asg_path d (asg_perform op d)"
  by (rule asg_step_path [OF asg_perform_step])

lemma asg_path_stores: "asg_path d (fold asg_perform ops d)"
  by (rule asg_path_fold) (rule asg_path_store)

text \<open>A path through the branches of a definition.\<close>

lemma path_branch:
  "asg_path d x \<Longrightarrow> asg_path d y \<Longrightarrow> asg_path d (if c then x else y)"
  "asg_path d x \<Longrightarrow> (\<And>v. asg_path d (f v)) \<Longrightarrow> asg_path d (case m of None \<Rightarrow> x | Some v \<Rightarrow> f v)"
  "asg_path d x \<Longrightarrow> asg_path d y \<Longrightarrow> asg_path d (case c of True \<Rightarrow> x | False \<Rightarrow> y)"
  "(\<And>a b. asg_path d (g a b)) \<Longrightarrow> asg_path d (case q of (a, b) \<Rightarrow> g a b)"
  by (simp_all split: option.split bool.split prod.split)

lemma asg_path_refl: "asg_path d d"
  by simp

lemma path_final: "allowed\<^sup>*\<^sup>* a b \<Longrightarrow> asg_terminal a \<Longrightarrow> b = a"
  by (induction rule: rtranclp_induct) (auto dest: terminal_final)

section \<open>The writes of the controller\<close>

named_theorems writes "writes of the controller that are operations of the store"

lemma settle_path [writes]: "asg_path d (settle_asg i a ts ec res err event now d)"
  using asg_path_store [of d "Settle i ts ec res err (event_key_for (fst (settle_event a ts ec res err)) i a) (fst (settle_event a ts ec res err))
      (snd (settle_event a ts ec res err)) event now"]
  by (simp add: settle_asg_def case_prod_beta)

lemma park_path [writes]: "asg_path d (park_quota i a hit seen_at reset why event now d)"
  using settle_path asg_path_store [of d "Park i r why k p event now" for r k p] by (simp add: park_quota_def Let_def)

lemma undeliverable_path [writes]: "asg_path d (undeliverable mins i a since why note event now d)"
  using asg_path_store [of d "Undeliverable i note k p event now" for k p] by (simp add: undeliverable_def)

lemma failed_path [writes]: "asg_path d (dispatch_failed e i a why d)"
  by (simp add: dispatch_failed_def settle_path)

lemma held_path [writes]: "asg_path d (held_back e i secs why d)" "asg_path d (kept (hold i u why now d) d)"
  using asg_path_store [of d "Hold_It i u why now" for u why now] by (simp_all add: held_back_def)

lemma put_off_path [writes]: "asg_path d (put_off e i secs why d)"
  using asg_path_store [of d "Defer_It i nx why now" for nx now] by (simp add: put_off_def)

lemma busy_path [writes]: "asg_path d (refused_busy e i a why d)"
  using undeliverable_path asg_path_store [of d "Conflict i nx why now" for nx now] by (simp add: refused_busy_def)

lemma push_assignments [simp]: "assignments (snd (push_inbox_tx eid k kind a b t p now d)) = assignments d"
  using push_inbox_rows [of eid k kind a b t p now d "fst (push_inbox_tx eid k kind a b t p now d)"] by simp

lemma push_path: "asg_path d (snd (push_inbox_tx eid k kind a b t p now d))"
  by simp

lemma sent_path [writes]: "asg_path d (record_sent e i a t dl d)"
proof -
  have k: "asg_path d (kept (mark_delivered i t dl now d) d)" for now
    using asg_path_store [of d "asg_op.Sent i t dl now"] by simp
  show ?thesis
    using k [of "di_now e"] asg_path_trans [OF k [of "di_now e"] push_path]
    by (cases "mark_delivered i t dl (di_now e) d") (auto simp: record_sent_def Let_def split: prod.split bool.split)
qed

lemma after_sending_path [writes]: "asg_path d (after_sending e i a d)"
  by (simp add: after_sending_def writes split: prompt_answer.split)

lemma attribution_path: "attribution e i a = Inl f \<Longrightarrow> asg_path d (f d)"
  by (auto simp: attribution_def Let_def writes split: if_splits option.splits)

lemma queued_path: "dispatch_queued e i a = Inl f \<Longrightarrow> asg_path d (f d)"
  by (auto simp: dispatch_queued_def writes attribution_path split: option.splits bool.splits window_state.splits sum.splits)

text \<open>What others write meanwhile.\<close>

definition orderly :: "(db \<Rightarrow> db) \<Rightarrow> bool" where
  "orderly g \<longleftrightarrow> (\<forall>d. asg_path d (g d))"

lemma orderly_stores: "orderly (fold asg_perform ops)"
  by (simp add: orderly_def asg_path_stores)

lemma orderly_id [simp]: "orderly id"
  by (simp add: orderly_def)

lemma dispatch_path:
  assumes "orderly (di_race e)"
  shows "asg_path d (snd (dispatch e i d))"
proof -
  have r: "asg_path d (di_race e d)" using assms by (simp add: orderly_def)
  show ?thesis
    using asg_path_trans [OF r after_sending_path] asg_path_trans [OF r queued_path]
    by (auto simp: dispatch_def split: option.split sum.split)
qed

section \<open>The passes\<close>

datatype pass =
    Dispatching dispatch_env ident
  | Draining "string + time option" bool time "ident \<Rightarrow> dispatch_env"
  | Resuming bool time "ident \<Rightarrow> resume_env"
  | Turn_Ended settle_env ident string
  | Late_Reply late_env bool ident string
  | Reconciling reconcile_env
  | Stale_Queues bool int time "ident \<Rightarrow> stale_env"
  | Stored asg_op

fun run_pass :: "pass \<Rightarrow> db \<Rightarrow> db" where
  "run_pass (Dispatching e i) d = snd (dispatch e i d)"
| "run_pass (Draining paused listed now es) d = snd (drain_queue paused listed now es d)"
| "run_pass (Resuming listed now rs) d = snd (resume_waiting listed now rs d)"
| "run_pass (Turn_Ended e t status) d = on_turn_done e t status d"
| "run_pass (Late_Reply e found t status) d = late_reply_for_turn e found t status d"
| "run_pass (Reconciling e) d = reconcile_assignments e d"
| "run_pass (Stale_Queues listed limit now qs) d = block_stale_queues listed limit now qs d"
| "run_pass (Stored op) d = asg_perform op d"

fun orderly_pass :: "pass \<Rightarrow> bool" where
  "orderly_pass (Dispatching e i) \<longleftrightarrow> orderly (di_race e)"
| "orderly_pass (Draining paused listed now es) \<longleftrightarrow> (\<forall>i. orderly (di_race (es i)))"
| "orderly_pass (Resuming listed now rs) \<longleftrightarrow> (\<forall>i. orderly (di_race (rq_dispatch (rs i))))"
| "orderly_pass (Turn_Ended e t status) \<longleftrightarrow> orderly (se_race e)"
| "orderly_pass (Late_Reply e found t status) \<longleftrightarrow> orderly (la_race e)"
| "orderly_pass (Reconciling e) \<longleftrightarrow> (\<forall>i. orderly (se_race (rc_settle e i)) \<and> orderly (la_race (rc_late e i)))"
| "orderly_pass _ \<longleftrightarrow> True"

lemma drain_path:
  assumes "\<And>i. orderly (di_race (es i))"
  shows "asg_path d (snd (drain_queue paused listed now es d))"
proof -
  have k: "asg_path d (kept (clear_restart_holds now d) d)"
    using asg_path_store [of d "Lift_Holds now"] by simp
  have "asg_path (snd s) (snd (fold (drain_one now es) xs s))" for xs s
  proof (induction xs arbitrary: s)
    case (Cons x xs)
    have "asg_path (snd s) (snd (drain_one now es x s))"
      using dispatch_path [OF assms] by (simp add: drain_one_def case_prod_beta)
    then show ?case using asg_path_trans [OF _ Cons.IH] by simp
  qed simp
  from this [of "([], _)"] have f: "asg_path d' (snd (fold (drain_one now es) xs ([], d')))" for d' xs by simp
  show ?thesis using asg_path_trans [OF k f] f k by (auto simp: drain_queue_def Let_def)
qed

lemma revoke_rows: "revoke_queued_turn_tx t why mid now d = Inr (r, d') \<Longrightarrow> assignments d' = assignments d"
  by (auto simp: revoke_queued_turn_tx_def retract_queued_def update_turn_def split: if_splits option.splits elim!: bind_res_InrE)

lemma revoke_old_rows: "revoke_old r now a d = Some d' \<Longrightarrow> assignments d' = assignments d"
  by (auto simp: revoke_old_def dest: revoke_rows split: option.splits if_splits sum.splits)

lemma resume_one_path:
  assumes "\<And>i. orderly (di_race (rq_dispatch (rs i)))"
  shows "asg_path (snd s) (snd (resume_one now rs x s))"
proof -
  obtain i a ps d where x: "x = (i, a)" "s = (ps, d)" by (cases x; cases s) auto
  have ext: "asg_path d (kept (extend_quota_blocked i rs now d) d)" for rs
    using asg_path_store [of d "Extend i rs now"] by simp
  show ?thesis
  proof (cases "rq_bot (rs i) \<and> may_resume now (rs i) a")
    case False
    then show ?thesis using ext by (auto simp: resume_one_def x Let_def split: option.splits)
  next
    case True
    let ?k = "''quota_resumed:'' @ i @ '':'' @ nat_str (nat (a_quota_retries a))"
    let ?p = "JObj [(''bot_id'', JStr (a_target_bot a)), (''retries'', JNum (a_quota_retries a + 1)), (''needs_review'', JBool False)]"
    show ?thesis
    proof (cases "revoke_old (rs i) now a d")
      case (Some d1)
      have one: "asg_path d d1" using revoke_old_rows [OF Some] by simp
      show ?thesis
      proof (cases "resume_quota_blocked i ?k ?p (rq_event (rs i)) now d1")
        case (Inr r)
        have "asg_path d1 (snd r)" using asg_path_store [of d1 "Resume i ?k ?p (rq_event (rs i)) now"] Inr by (cases r) simp
        then have two: "asg_path d (snd r)" using asg_path_trans [OF one] by blast
        show ?thesis
          using two asg_path_trans [OF two dispatch_path [OF assms]] True Some Inr
          by (cases r) (auto simp: resume_one_def x Let_def case_prod_beta)
      qed (use True Some one in \<open>simp add: resume_one_def x Let_def\<close>)
    qed (use True in \<open>simp add: resume_one_def x Let_def\<close>)
  qed
qed

lemma resume_path:
  assumes "\<And>i. orderly (di_race (rq_dispatch (rs i)))"
  shows "asg_path d (snd (resume_waiting listed now rs d))"
proof -
  have "asg_path (snd s) (snd (fold (resume_one now rs) xs s))" for xs s
  proof (induction xs arbitrary: s)
    case (Cons x xs)
    show ?case using asg_path_trans [OF resume_one_path [of rs s now x, OF assms] Cons.IH] by simp
  qed simp
  from this [of "([], d)"] show ?thesis by (simp add: resume_waiting_def)
qed

lemma settle_turn_path:
  assumes "orderly (se_race e)"
  shows "asg_path d (settle_finished_turn e t status d)"
proof -
  have note_it: "asg_path d (kept (set_turn_error i x d) d)" for i x
    using asg_path_store [of d "Turn_Error i x"] by simp
  have race: "asg_path d1 (se_race e d1)" for d1 using assms by (simp add: orderly_def)
  have s: "asg_path d (settle_asg i a ts ec res err ev now (se_race e d1))" if "asg_path d d1" for i a ts ec res err ev now d1
    using asg_path_trans [OF asg_path_trans [OF that race] settle_path] .
  have p: "asg_path d (park_quota i a hit sn rs why ev now (se_race e d1))" if "asg_path d d1" for i a hit sn rs why ev now d1
    using asg_path_trans [OF asg_path_trans [OF that race] park_path] .
  show ?thesis
    unfolding settle_finished_turn_def Let_def by (intro path_branch s p note_it asg_path_refl)
qed

lemma late_path:
  assumes "orderly (la_race e)"
  shows "asg_path d (late_reply e i a t d)"
proof -
  have race: "asg_path d (la_race e d)" using assms by (simp add: orderly_def)
  have "asg_path d1 d2" if w: "write_late_reply e i a t reply d1 = Inr d2" for d1 d2 reply
  proof -
    obtain d3 n where u: "update_assignment i (\<lambda>x. a_turn_status x = Some ''completed_fallback'')
              (\<lambda>x. x\<lparr>a_turn_status := Some ''completed'', a_evidence_complete := True,
                     a_result := (case a_result x of None \<Rightarrow> Some reply | Some r \<Rightarrow> Some r), a_updated_at := la_now e\<rparr>) d1 = Inr (d3, n)"
        and rest: "assignments d2 = assignments d3"
      using w by (auto simp: write_late_reply_def insert_or_ignore_def split: option.splits if_splits elim!: bind_res_InrE)
    have "asg_step d1 d3" by (rule update_assignment_step [OF u]) (simp add: same_work_def)
    from asg_path_trans [OF asg_step_path [OF this] asg_path_same [OF rest]] show ?thesis .
  qed
  then show ?thesis
    using race asg_path_trans [OF race] by (auto simp: late_reply_def split: option.split sum.split)
qed

lemma reconcile_path:
  assumes "\<And>i. orderly (se_race (rc_settle e i)) \<and> orderly (la_race (rc_late e i))"
  shows "asg_path d (reconcile_assignments e d)"
proof -
  have one: "asg_path d (reconcile_one e x d)" for x d
    using settle_path settle_turn_path assms by (auto simp: reconcile_one_def on_turn_done_def split: option.split)
  have sweep: "asg_path d (sweep_one e x d)" for x d
    using push_path by (cases x) (simp add: sweep_one_def Let_def)
  let ?late = "\<lambda>(i, a) d. case a_turn a of None \<Rightarrow> d | Some t \<Rightarrow> late_reply (rc_late e i) i a t d"
  have late: "asg_path d (?late x d)" for x d
    using late_path assms by (cases x) (auto split: option.split)
  have m: "asg_path d (sweep_missing_events e d)" for d
    using asg_path_fold [of "sweep_one e"] sweep by (simp add: sweep_missing_events_def)
  have l: "asg_path d (sweep_late_replies e d)" for d
    using asg_path_fold [of ?late, OF late] by (simp add: sweep_late_replies_def)
  have f: "asg_path d (fold (reconcile_one e) xs d)" for xs using asg_path_fold [OF one] .
  show ?thesis using asg_path_trans [OF asg_path_trans [OF f m] l] by (simp add: reconcile_assignments_def)
qed

lemma stale_path: "asg_path d (block_stale_queues listed limit now qs d)"
proof -
  have rb: "asg_path d d'" if w: "revoke_and_block i t why say n mid ev nw d = Inr (r, d')" for i t why say n mid ev nw r d d'
  proof -
    obtain b d1 where s1: "revoke_queued_turn_tx t say mid nw d = Inr (b, d1)"
      using w by (auto simp: revoke_and_block_def elim!: bind_res_InrE)
    show ?thesis
    proof (cases b)
      case True
      obtain c d2 where s2: "block_stale_queue_tx i why nw d1 = Inr (c, d2)"
        using w s1 True by (auto simp: revoke_and_block_def elim!: bind_res_InrE)
      have path: "asg_path d d2"
        using asg_path_trans [OF asg_path_same [OF revoke_rows [OF s1]] asg_step_path [OF stale_step [OF s2]]] .
      have "d' = d \<or> assignments d' = assignments d2"
        using w s1 s2 True by (auto simp: revoke_and_block_def split: if_splits option.splits)
      then show ?thesis using asg_path_trans [OF path] by auto
    qed (use w s1 in \<open>simp add: revoke_and_block_def\<close>)
  qed
  have k: "asg_path d (kept (revoke_and_block i t why say n mid ev nw d) d)" for i t why say n mid ev nw d
  proof (cases "revoke_and_block i t why say n mid ev nw d")
    case (Inr q)
    then show ?thesis using rb [of i t why say n mid ev nw d "fst q" "snd q"] by (cases q) simp
  qed simp
  have "asg_path d (stale_one limit now qs x d)" for x d
    unfolding stale_one_def Let_def by (intro path_branch k asg_path_refl)
  then show ?thesis using asg_path_fold [of "stale_one limit now qs"] by (simp add: block_stale_queues_def)
qed

lemma pass_path: "orderly_pass p \<Longrightarrow> asg_path d (run_pass p d)"
  using dispatch_path drain_path resume_path settle_turn_path late_path reconcile_path stale_path asg_path_store
  by (cases p) (auto simp: on_turn_done_def late_reply_for_turn_def split: option.split)

lemma passes_path: "list_all orderly_pass ps \<Longrightarrow> asg_path d (fold run_pass ps d)"
  by (induction ps arbitrary: d) (auto intro: asg_path_trans pass_path)

end
