(* ===== verification/Dispatch_Properties.thy ===== *)
theory Dispatch_Properties
  imports Dispatch_Safety Assignment_Properties
begin

text \<open>
  The properties of the controller over assignments: what may be sent, where refusals end, what the end of a turn leaves, and what no
  interleaving of the passes can undo.
\<close>

section \<open>Statements that succeed\<close>

lemma assignments_ok_upd:
  assumes "assignments_ok t" "map_of t i = Some a" "a_crid (f a) = a_crid a"
  shows "assignments_ok (upd_row i f t)"
  using assms unique_index_upd_row_same [of t "\<lambda>a. Some (a_crid a)" i a f] by (simp add: assignments_ok_def)

lemma update_assignment_hit:
  assumes "assignments_ok (assignments d)" "map_of (assignments d) i = Some a" "w a" "a_crid (f a) = a_crid a"
    and "a_status (f a) = a_status a \<or> a_status a \<in> set ALL_STATES \<and> a_status (f a) \<in> set ALL_STATES \<and> allowed (a_status a) (a_status (f a))"
  shows "update_assignment i w f d = Inr (d\<lparr>assignments := upd_row i f (assignments d)\<rparr>, 1)"
proof -
  have "assignments_ok (upd_row i f (assignments d))" using assignments_ok_upd [of "assignments d" i a f] assms(1,2,4) by simp
  moreover have "\<not> asg_guard_aborts (a_status a) (a_status (f a))" using assms(5) guard_passes by auto
  ultimately show ?thesis using assms(2,3) by (simp add: update_assignment_def update_by_id_def)
qed

lemma in_flight_states: "s \<in> set IN_FLIGHT \<Longrightarrow> s \<in> set ALL_STATES"
  by (auto simp: IN_FLIGHT_def ALL_STATES_def)

section \<open>What no interleaving undoes\<close>

text \<open>
  C10. However the passes of the controller interleave (handing over, draining the queue, resuming
  after a quota wait, ends of turns, late replies, reconciling, giving up stale queues) and whatever
  the operations of the store write between them, inside a pass too: an assignment is never lost, its
  request id, text and target stay, its counts of retries and of refusals never go back, its status
  only takes steps of the transition table, a decided one keeps its decision, and its request id
  never comes to name another assignment.
\<close>

theorem controller_keeps_decisions:
  assumes "list_all orderly_pass ps" "map_of (assignments d) i = Some a"
  shows "\<exists>b. map_of (assignments (fold run_pass ps d)) i = Some b
    \<and> a_crid b = a_crid a \<and> a_text b = a_text a \<and> a_target_bot b = a_target_bot a
    \<and> a_quota_retries a \<le> a_quota_retries b \<and> a_busy_rounds a \<le> a_busy_rounds b
    \<and> allowed\<^sup>*\<^sup>* (a_status a) (a_status b) \<and> (asg_terminal (a_status a) \<longrightarrow> a_status b = a_status a)
    \<and> (assignments_ok (assignments d) \<longrightarrow>
        (\<forall>j c. map_of (assignments (fold run_pass ps d)) j = Some c \<and> a_crid c = a_crid b \<longrightarrow> j = i))"
proof -
  have p: "asg_path d (fold run_pass ps d)" using passes_path [OF assms(1)] .
  then obtain b where b: "map_of (assignments (fold run_pass ps d)) i = Some b" "allowed\<^sup>*\<^sup>* (a_status a) (a_status b)" "same_work a b"
    using assms(2) unfolding asg_move_def by blast
  have one: "j = i" if ok: "assignments_ok (assignments d)" and c: "map_of (assignments (fold run_pass ps d)) j = Some c" "a_crid c = a_crid b" for j c
  proof -
    have "assignments_ok (assignments (fold run_pass ps d))" using p ok unfolding asg_move_def by blast
    then show ?thesis
      using unique_indexD [of "\<lambda>a. Some (a_crid a)" "assignments (fold run_pass ps d)" j c i b] c b(1) by (simp add: assignments_ok_def)
  qed
  have w: "a_crid b = a_crid a" "a_text b = a_text a" "a_target_bot b = a_target_bot a" "a_quota_retries a \<le> a_quota_retries b"
      "a_busy_rounds a \<le> a_busy_rounds b"
    using b(3) by (simp_all add: same_work_def)
  have fin: "asg_terminal (a_status a) \<longrightarrow> a_status b = a_status a" using path_final [OF b(2)] by blast
  have u: "assignments_ok (assignments d) \<longrightarrow>
        (\<forall>j c. map_of (assignments (fold run_pass ps d)) j = Some c \<and> a_crid c = a_crid b \<longrightarrow> j = i)"
    using one by blast
  show ?thesis by (rule exI [of _ b], intro conjI) (fact b(1) w b(2) fin u)+
qed

section \<open>What may be sent\<close>

definition sender :: "dispatch_env \<Rightarrow> assignment \<Rightarrow> ident option" where
  "sender e a =
     (if di_manager e = None then None
      else if a_review_role a = Some ''patrol'' then the (di_manager e)
      else (case di_responder e of None \<Rightarrow> None | Some (Some r) \<Rightarrow> Some r | Some None \<Rightarrow> the (di_manager e)))"

definition gates_open :: "dispatch_env \<Rightarrow> bool" where
  "gates_open e \<longleftrightarrow> di_read e \<and> di_target e = Some True \<and> di_role e = Some False \<and> di_limit e = Some None \<and> di_window e = Not_Held"

lemma attribution_sender: "attribution e i a = Inr from \<longleftrightarrow> sender e a = Some from"
  by (auto simp: attribution_def sender_def Let_def split: option.splits if_splits)

lemma dispatch_queued_sent:
  "dispatch_queued e i a = Inr p \<longleftrightarrow>
     di_target e = Some True \<and> di_role e = Some False \<and> di_limit e = Some None \<and> di_window e = Not_Held
     \<and> sender e a = Some (sp_from p) \<and> sp_bot p = a_target_bot a \<and> sp_crid p = dispatch_crid a \<and> sp_text p = a_text a"
  by (auto simp: dispatch_queued_def attribution_sender split: option.splits bool.splits window_state.splits sum.splits)
    (metis attribution_sender sum.distinct(1))+

lemma dispatch_sends:
  "fst (dispatch e i d) = Some p \<longleftrightarrow>
     (\<exists>a. map_of (assignments d) i = Some a \<and> a_status a = ''queued'' \<and> gates_open e \<and> sender e a = Some (sp_from p)
        \<and> sp_bot p = a_target_bot a \<and> sp_crid p = dispatch_crid a \<and> sp_text p = a_text a)"
proof -
  have "fst (dispatch e i d) = Some p \<longleftrightarrow>
      di_read e \<and> (\<exists>a. map_of (assignments d) i = Some a \<and> a_status a = ''queued'' \<and> dispatch_queued e i a = Inr p)"
    by (cases "map_of (assignments d) i") (auto simp: dispatch_def split: sum.split)
  then show ?thesis unfolding dispatch_queued_sent gates_open_def by blast
qed

text \<open>What an orderly pass leaves of an assignment it did not decide.\<close>

lemma drain_sends:
  assumes "\<And>i. orderly (di_race (es i))" "p \<in> set (fst (fold (drain_one now es) xs s))" "asg_path d0 (snd s)"
    and "\<And>x. x \<in> set xs \<Longrightarrow> map_of (assignments d0) (fst x) = Some (snd x)"
  shows "p \<in> set (fst s) \<or> (\<exists>(i, a) \<in> set xs. a_status a = ''queued'' \<and> (\<forall>t. a_next_attempt_at a = Some t \<longrightarrow> t \<le> now)
      \<and> gates_open (es i) \<and> (\<exists>b. same_work a b \<and> sender (es i) b = Some (sp_from p) \<and> sp_crid p = dispatch_crid b)
      \<and> sp_bot p = a_target_bot a \<and> sp_text p = a_text a)"
  using assms(2-4)
proof (induction xs arbitrary: s)
  case (Cons x xs)
  let ?s = "drain_one now es x s"
  have path: "asg_path d0 (snd ?s)"
    using Cons.prems(2) asg_path_trans [OF Cons.prems(2) dispatch_path [OF assms(1)]]
    by (simp add: drain_one_def case_prod_beta)
  have "p \<in> set (fst ?s) \<or> (\<exists>(i, a) \<in> set xs. a_status a = ''queued'' \<and> (\<forall>t. a_next_attempt_at a = Some t \<longrightarrow> t \<le> now)
      \<and> gates_open (es i) \<and> (\<exists>b. same_work a b \<and> sender (es i) b = Some (sp_from p) \<and> sp_crid p = dispatch_crid b)
      \<and> sp_bot p = a_target_bot a \<and> sp_text p = a_text a)"
    using Cons.IH [of ?s] Cons.prems(1,3) path by simp
  moreover
  { assume new: "p \<in> set (fst ?s)" "p \<notin> set (fst s)"
    let ?i = "fst x"
    have sent: "fst (dispatch (es ?i) ?i (snd s)) = Some p" and q: "a_status (snd x) = ''queued''"
      "\<forall>t. a_next_attempt_at (snd x) = Some t \<longrightarrow> t \<le> now"
      using new by (auto simp: drain_one_def case_prod_beta split: if_splits option.splits)
    from sent obtain b where b: "map_of (assignments (snd s)) ?i = Some b" "gates_open (es ?i)" "sender (es ?i) b = Some (sp_from p)"
        "sp_bot p = a_target_bot b" "sp_crid p = dispatch_crid b" "sp_text p = a_text b"
      unfolding dispatch_sends by blast
    obtain c where "map_of (assignments (snd s)) ?i = Some c" "same_work (snd x) c"
      using Cons.prems(2) Cons.prems(3) [of x] unfolding asg_move_def by auto
    then have w: "same_work (snd x) b" using b(1) by simp
    then have "sp_bot p = a_target_bot (snd x)" "sp_text p = a_text (snd x)" using b(4,6) by (simp_all add: same_work_def)
    then have "\<exists>(i, a) \<in> set (x # xs). a_status a = ''queued'' \<and> (\<forall>t. a_next_attempt_at a = Some t \<longrightarrow> t \<le> now)
      \<and> gates_open (es i) \<and> (\<exists>b. same_work a b \<and> sender (es i) b = Some (sp_from p) \<and> sp_crid p = dispatch_crid b)
      \<and> sp_bot p = a_target_bot a \<and> sp_text p = a_text a"
      using q b(2,3,5) w by (intro bexI [of _ x]) auto }
  ultimately show ?case by auto
qed simp

lemma drain_count: "length (fst (fold (drain_one now es) xs s)) \<le> length (fst s) + length xs"
proof (induction xs arbitrary: s)
  case (Cons x xs)
  have "length (fst (drain_one now es x s)) \<le> Suc (length (fst s))"
    by (simp add: drain_one_def case_prod_beta split: option.split)
  then show ?case using Cons.IH [of "drain_one now es x s"] by simp
qed simp

lemma open_rows:
  assumes "distinct (map fst (assignments d))" "x \<in> set (open_assignments d)"
  shows "map_of (assignments d) (fst x) = Some (snd x)"
  using assms by (auto simp: open_assignments_def)

lemma lift_eq:
  "\<exists>P f. (\<forall>a. a_status (f a) = a_status a \<and> same_work a (f a))
     \<and> assignments (kept (clear_restart_holds now d) d) = map (\<lambda>x. (fst x, if P (snd x) then f (snd x) else snd x)) (assignments d)"
proof (cases "clear_restart_holds now d")
  case (Inl e)
  then show ?thesis by (intro exI [of _ "\<lambda>_. False"] exI [of _ id]) simp
next
  case (Inr r)
  then show ?thesis
    by (intro exI [of _ "\<lambda>a. a_status a = ''queued'' \<and> held_by_window (a_error a)"]
        exI [of _ "\<lambda>a. a\<lparr>a_next_attempt_at := None, a_error := None, a_conflict_since := None, a_updated_at := now\<rparr>"])
      (auto simp: clear_restart_holds_def update_where_def Let_def same_work_def bind_res_def split: if_splits)
qed

lemma lift_rows:
  assumes "map_of (assignments (kept (clear_restart_holds now d) d)) i = Some b"
  shows "\<exists>a. map_of (assignments d) i = Some a \<and> a_status b = a_status a \<and> same_work a b"
proof -
  obtain P f where f: "\<forall>a. a_status (f a) = a_status a \<and> same_work a (f a)"
      "assignments (kept (clear_restart_holds now d) d) = map (\<lambda>x. (fst x, if P (snd x) then f (snd x) else snd x)) (assignments d)"
    using lift_eq [of now d] by blast
  then show ?thesis
    using assms map_of_map_snd [of "\<lambda>a. if P a then f a else a" "assignments d" i] by (auto split: if_splits)
qed

lemma lift_count:
  "length (open_assignments (kept (clear_restart_holds now d) d)) = length (filter (\<lambda>(_, a). a_status a \<in> set IN_FLIGHT) (assignments d))"
proof -
  obtain P f where f: "\<forall>a. a_status (f a) = a_status a \<and> same_work a (f a)"
      "assignments (kept (clear_restart_holds now d) d) = map (\<lambda>x. (fst x, if P (snd x) then f (snd x) else snd x)) (assignments d)"
    using lift_eq [of now d] by blast
  have "length (filter (\<lambda>(_, a). a_status a \<in> set IN_FLIGHT) (map (\<lambda>x. (fst x, if P (snd x) then f (snd x) else snd x)) t))
      = length (filter (\<lambda>(_, a). a_status a \<in> set IN_FLIGHT) t)" for t
    using f(1) by (induction t) auto
  then show ?thesis by (simp add: open_assignments_def f(2))
qed

text \<open>
  C11. One pass over the queue sends only assignments that were queued before it, each with its own
  text to its own target, and only when every gate was read and found open: the target exists, is
  no AGM role and has not hit its limit, no restart window is held, and the sender is the manager or
  the responder. It never sends more prompts than there are assignments in flight, and while a
  window is held, or its state cannot be read, it sends nothing at all.
\<close>

theorem sent_through_open_gates:
  assumes "\<And>i. orderly (di_race (es i))" "assignments_ok (assignments d)"
  shows "((\<forall>i. di_window (es i) = window_held readable now w) \<and> window_held readable now w \<noteq> Not_Held \<longrightarrow>
        fst (drain_queue paused listed now es d) = [])
    \<and> length (fst (drain_queue paused listed now es d)) \<le> length (filter (\<lambda>(_, a). a_status a \<in> set IN_FLIGHT) (assignments d))
    \<and> (\<forall>p \<in> set (fst (drain_queue paused listed now es d)).
        \<exists>i a. map_of (assignments d) i = Some a \<and> a_status a = ''queued'' \<and> di_target (es i) = Some True \<and> di_role (es i) = Some False
          \<and> di_limit (es i) = Some None \<and> di_window (es i) = Not_Held \<and> sp_bot p = a_target_bot a \<and> sp_text p = a_text a
          \<and> (di_manager (es i) = Some (Some (sp_from p)) \<or> di_responder (es i) = Some (Some (sp_from p)) \<and> di_manager (es i) \<noteq> None))"
proof -
  obtain d' where d': "drain_queue paused listed now es d = (if \<not> listed then ([], d') else fold (drain_one now es) (open_assignments d') ([], d'))"
    and rows: "\<And>i b. map_of (assignments d') i = Some b \<Longrightarrow> \<exists>a. map_of (assignments d) i = Some a \<and> a_status b = a_status a \<and> same_work a b"
    and ok: "assignments_ok (assignments d')"
    and count: "length (open_assignments d') = length (filter (\<lambda>(_, a). a_status a \<in> set IN_FLIGHT) (assignments d))"
  proof (cases "paused = Inr None")
    case True
    show ?thesis
      by (rule that [of "kept (clear_restart_holds now d) d"])
        (use True lift_rows [where now = now and d = d] lift_count [where now = now and d = d] asg_path_store [of d "Lift_Holds now"] assms(2) in
          \<open>auto simp: drain_queue_def Let_def asg_move_def\<close>)
  next
    case False
    show ?thesis by (rule that [of d]) (use False assms(2) in \<open>auto simp: drain_queue_def Let_def open_assignments_def case_prod_beta same_work_def\<close>)
  qed
  let ?ps = "fst (drain_queue paused listed now es d)"
  have keys: "distinct (map fst (assignments d'))" using ok by (simp add: assignments_ok_def)
  have sent: "\<exists>(i, a) \<in> set (open_assignments d'). a_status a = ''queued'' \<and> gates_open (es i)
      \<and> (\<exists>b. same_work a b \<and> sender (es i) b = Some (sp_from p)) \<and> sp_bot p = a_target_bot a \<and> sp_text p = a_text a"
    if "p \<in> set ?ps" for p
    using drain_sends [of es p now "open_assignments d'" "([], d')" d', OF assms(1)] that open_rows [OF keys]
    by (fastforce simp: d' split: if_splits)
  have one: "length ?ps \<le> length (open_assignments d')"
    using drain_count [of now es "open_assignments d'" "([], d')"] by (simp add: d')
  have "?ps = []" if "\<forall>i. di_window (es i) = window_held readable now w" "window_held readable now w \<noteq> Not_Held"
  proof (rule ccontr)
    assume "?ps \<noteq> []"
    then obtain p where "p \<in> set ?ps" by (meson list.set_sel(1))
    from sent [OF this] show False using that by (auto simp: gates_open_def)
  qed
  moreover have "\<exists>i a. map_of (assignments d) i = Some a \<and> a_status a = ''queued'' \<and> di_target (es i) = Some True \<and> di_role (es i) = Some False
          \<and> di_limit (es i) = Some None \<and> di_window (es i) = Not_Held \<and> sp_bot p = a_target_bot a \<and> sp_text p = a_text a
          \<and> (di_manager (es i) = Some (Some (sp_from p)) \<or> di_responder (es i) = Some (Some (sp_from p)) \<and> di_manager (es i) \<noteq> None)"
    if p: "p \<in> set ?ps" for p
  proof -
    obtain i b c where b: "(i, b) \<in> set (open_assignments d')" "a_status b = ''queued''" "gates_open (es i)" "same_work b c"
        "sender (es i) c = Some (sp_from p)" "sp_bot p = a_target_bot b" "sp_text p = a_text b"
      using sent [OF p] by blast
    obtain a where a: "map_of (assignments d) i = Some a" "a_status b = a_status a" "same_work a b"
      using rows open_rows [OF keys b(1)] by fastforce
    have "di_manager (es i) = Some (Some (sp_from p)) \<or> di_responder (es i) = Some (Some (sp_from p)) \<and> di_manager (es i) \<noteq> None"
      using b(5) by (auto simp: sender_def split: if_splits option.splits)
    then show ?thesis using a b by (intro exI [of _ i] exI [of _ a]) (simp add: gates_open_def same_work_def)
  qed
  ultimately show ?thesis using one count by (intro conjI impI ballI) auto
qed

definition open_env :: dispatch_env where
  "open_env = \<lparr>di_now = 100, di_read = True, di_target = Some True, di_role = Some False, di_limit = Some None, di_window = Not_Held,
     di_responder = Some None, di_manager = Some (Some ''M''), di_answer = Prompt_Conflict ''busy'', di_reset = None, di_race = id,
     di_cap = None, di_mins = None, di_event = ''E1'', di_words = ''undeliverable'', di_shown = (\<lambda>_. ''later'')\<rparr>"

theorem sent_through_open_gates_witness:
  "\<exists>p i a. fst (drain_queue (Inr None) True 100 (\<lambda>_. open_env) office) = [p] \<and> map_of (assignments office) i = Some a
     \<and> a_status a = ''queued'' \<and> sp_bot p = a_target_bot a \<and> sp_text p = a_text a \<and> sp_bot p = ''B''"
proof -
  have r: "orderly (di_race open_env)" by (simp add: open_env_def)
  have one: "map sp_bot (fst (drain_queue (Inr None) True 100 (\<lambda>_. open_env) office)) = [''B'']" by code_simp
  then obtain p where p: "fst (drain_queue (Inr None) True 100 (\<lambda>_. open_env) office) = [p]" "sp_bot p = ''B''"
    by (cases "fst (drain_queue (Inr None) True 100 (\<lambda>_. open_env) office)") auto
  have "p \<in> set (fst (drain_queue (Inr None) True 100 (\<lambda>_. open_env) office))" unfolding p(1) by simp
  then show ?thesis
    using p sent_through_open_gates [of "\<lambda>_. open_env" office "\<lambda>_. True" 100 _ "Inr None" True, OF r office_ok] by metis
qed

theorem controller_keeps_decisions_witness:
  "asg_status_of (fold run_pass [Draining (Inr None) True 100 (\<lambda>_. open_env), Dispatching open_env ''A0'',
     Stored (Settle ''A0'' ''completed'' True None None ''k'' ''assignment_completed'' (JObj []) ''E'' 8)] office) ''A0'' = Some ''cancelled''"
proof -
  let ?ps = "[Draining (Inr None) True 100 (\<lambda>_. open_env), Dispatching open_env ''A0'',
     Stored (Settle ''A0'' ''completed'' True None None ''k'' ''assignment_completed'' (JObj []) ''E'' 8)]"
  have o: "list_all orderly_pass ?ps" by (simp add: open_env_def)
  have row: "map_of (assignments office) ''A0'' = Some (an_assignment ''c0'' ''cancelled'')" by code_simp
  have st: "a_status (an_assignment ''c0'' ''cancelled'') = ''cancelled''" "asg_terminal ''cancelled''" by code_simp+
  obtain b where "map_of (assignments (fold run_pass ?ps office)) ''A0'' = Some b" "a_status b = ''cancelled''"
    using controller_keeps_decisions [OF o row] st by metis
  then show ?thesis by (simp only: asg_status_of_def option.map)
qed

end
