(* ===== verification/Dispatch_Ends.thy ===== *)
theory Dispatch_Ends
  imports Dispatch_Properties Assignment_Properties
begin

text \<open>
  Where the handing over of an assignment comes to an end: refusals of a busy target are counted and given up after a bound, and the
  end of a turn leaves its assignment settled or waiting for quota, never in between.
\<close>

section \<open>Refusals of a busy target\<close>

definition busy_answer :: "dispatch_env \<Rightarrow> bool" where
  "busy_answer e \<longleftrightarrow> gates_open e \<and> (\<exists>m. di_manager e = Some (Some m)) \<and> di_responder e \<noteq> None
     \<and> (\<exists>why. di_answer e = Prompt_Conflict why) \<and> di_race e = id"

definition attempt :: "ident \<Rightarrow> dispatch_env \<Rightarrow> nat \<times> db \<Rightarrow> nat \<times> db" where
  "attempt i e s = (let (p, d) = dispatch e i (snd s) in (if p = None then fst s else Suc (fst s), d))"

lemma busy_sender: "busy_answer e \<Longrightarrow> \<exists>m. sender e a = Some m"
  by (auto simp: busy_answer_def sender_def split: option.split)

lemma busy_dispatch:
  assumes "busy_answer e" "map_of (assignments d) i = Some a" "a_status a = ''queued''"
  shows "\<exists>p why. dispatch e i d = (Some p, refused_busy e i a why d)"
proof -
  obtain why where why: "di_answer e = Prompt_Conflict why" using assms(1) by (auto simp: busy_answer_def)
  obtain m where m: "sender e a = Some m" using busy_sender [OF assms(1)] by blast
  let ?p = "\<lparr>sp_bot = a_target_bot a, sp_crid = dispatch_crid a, sp_text = a_text a, sp_from = m\<rparr>"
  have q: "dispatch_queued e i a = Inr ?p"
    using assms(1) m by (simp add: dispatch_queued_sent busy_answer_def gates_open_def)
  have "dispatch e i d = (Some ?p, refused_busy e i a why d)"
    using assms q why by (simp add: dispatch_def busy_answer_def gates_open_def after_sending_def)
  then show ?thesis by blast
qed

lemma defer_hit:
  assumes "assignments_ok (assignments d)" "map_of (assignments d) i = Some a" "a_status a = ''queued''" "d' = kept (defer_conflict i nx why now d) d"
  shows "\<exists>b. map_of (assignments d') i = Some b \<and> a_status b = ''queued'' \<and> a_busy_rounds b = a_busy_rounds a + 1 \<and> a_turn b = a_turn a
     \<and> inbox d' = inbox d \<and> assignments_ok (assignments d')"
proof -
  let ?f = "\<lambda>a. a\<lparr>a_busy_rounds := a_busy_rounds a + 1, a_next_attempt_at := Some nx, a_error := Some why,
               a_conflict_since := (case a_conflict_since a of None \<Rightarrow> Some now | Some t \<Rightarrow> Some t), a_updated_at := now\<rparr>"
  have "update_assignment i (\<lambda>a. a_status a = ''queued'') ?f d = Inr (d\<lparr>assignments := upd_row i ?f (assignments d)\<rparr>, 1)"
    by (rule update_assignment_hit [OF assms(1,2)]) (simp_all add: assms(3))
  then have "d' = d\<lparr>assignments := upd_row i ?f (assignments d)\<rparr>"
    using assms(4) by (simp add: defer_conflict_def)
  then show ?thesis using assms(1-3) assignments_ok_upd [OF assms(1,2), of ?f] by simp
qed

lemma undeliverable_hit:
  assumes "assignments_ok (assignments d)" "map_of (assignments d) i = Some a" "a_status a = ''queued''" "map_of (inbox d) event = None"
    and "d' = undeliverable mins i a since why note event now d"
  shows "asg_status_of d' i = Some ''blocked'' \<and> told (event_key_for ''assignment_undeliverable'' i a) d'"
proof -
  let ?f = "\<lambda>a. a\<lparr>a_status := ''blocked'', a_updated_at := now\<rparr>"
  let ?g = "\<lambda>a. a\<lparr>a_error := Some note, a_next_attempt_at := None, a_updated_at := now\<rparr>"
  let ?d1 = "d\<lparr>assignments := upd_row i ?f (assignments d)\<rparr>"
  have al: "allowed ''queued'' ''blocked''" "''queued'' \<in> set ALL_STATES" "''blocked'' \<in> set ALL_STATES" by code_simp+
  have "update_assignment i (\<lambda>a. a_status a = ''queued'') ?f d = Inr (?d1, 1)"
    by (rule update_assignment_hit [OF assms(1,2)]) (simp_all add: assms(3) al)
  then have s: "asg_set_status_on i assignment_state.Queued assignment_state.Blocked now d = Inr (AsgApplied, ?d1)"
    by (simp add: asg_set_status_on_def al)
  have ok1: "assignments_ok (assignments ?d1)" using assignments_ok_upd [OF assms(1,2), of ?f] by simp
  have row1: "map_of (assignments ?d1) i = Some (?f a)" using assms(2) by simp
  have u: "update_assignment i (\<lambda>_. True) ?g ?d1 = Inr (?d1\<lparr>assignments := upd_row i ?g (assignments ?d1)\<rparr>, 1)"
    by (rule update_assignment_hit [OF ok1 row1]) simp_all
  let ?key = "event_key_for ''assignment_undeliverable'' i a"
  obtain x where m: "\<And>p. \<exists>x. mark_undeliverable i note ?key p event now d = Inr (True, x)"
    using s u row1 by (auto simp: mark_undeliverable_def case_prod_beta Let_def)
  obtain p where p: "d' = kept (mark_undeliverable i note ?key p event now d) d" using assms(5) by (auto simp: undeliverable_def)
  obtain x where x: "mark_undeliverable i note ?key p event now d = Inr (True, x)" using m by blast
  have "asg_status_of x i = Some ''blocked''"
    using x s u row1 by (auto simp: mark_undeliverable_def case_prod_beta Let_def asg_status_of_def)
  moreover have "told ?key x" using undeliverable_told [OF x assms(4)] by (simp add: moved_and_told_def)
  ultimately show ?thesis using p x by simp
qed

lemma busy_attempt:
  assumes "busy_answer e" "assignments_ok (assignments d)" "map_of (assignments d) i = Some a" "a_status a = ''queued''"
    and "map_of (inbox d) (di_event e) = None" "attempt i e (n, d) = (n', d')"
  shows "n' = Suc n \<and>
     (asg_status_of d' i = Some ''blocked'' \<and> told (event_key_for ''assignment_undeliverable'' i a) d' \<or>
      a_busy_rounds a + 1 < CONFLICT_MAX_ROUNDS \<and> inbox d' = inbox d \<and> assignments_ok (assignments d')
      \<and> (\<exists>b. map_of (assignments d') i = Some b \<and> a_status b = ''queued'' \<and> a_busy_rounds b = a_busy_rounds a + 1 \<and> a_turn b = a_turn a))"
proof -
  obtain p why where p: "dispatch e i d = (Some p, refused_busy e i a why d)" using busy_dispatch [OF assms(1,3,4)] by blast
  then have n: "n' = Suc n" "d' = refused_busy e i a why d" using assms(6) by (simp_all add: attempt_def)
  show ?thesis
  proof (cases "(case a_conflict_since a of None \<Rightarrow> False | Some s \<Rightarrow> conflict_gave_up (di_mins e) s (di_now e)) \<or> a_busy_rounds a + 1 \<ge> CONFLICT_MAX_ROUNDS")
    case True
    then have "\<exists>since. d' = undeliverable (di_mins e) i a since why (di_words e) (di_event e) (di_now e) d"
      unfolding n(2) refused_busy_def by (auto split: if_splits)
    then obtain since where "d' = undeliverable (di_mins e) i a since why (di_words e) (di_event e) (di_now e) d" by blast
    from undeliverable_hit [OF assms(2-5) this] n(1) show ?thesis by simp
  next
    case False
    then have "d' = kept (defer_conflict i (di_now e + 1000 * conflict_backoff_secs (di_cap e) (a_busy_rounds a)) why (di_now e) d) d"
      using n(2) by (auto simp: refused_busy_def)
    from defer_hit [OF assms(2-4) this] n(1) False show ?thesis by auto
  qed
qed

text \<open>An assignment that is not queued is not sent.\<close>

lemma attempts_idle:
  assumes "asg_status_of (snd s) i \<noteq> Some ''queued''"
  shows "fold (attempt i) es s = s"
proof (induction es)
  case (Cons e es)
  have "attempt i e s = s"
    using assms by (cases s) (auto simp: attempt_def dispatch_def asg_status_of_def split: option.split)
  then show ?case using Cons by simp
qed simp

lemma attempts_end:
  assumes "list_all busy_answer es" "assignments_ok (assignments d)" "map_of (assignments d) i = Some a" "a_status a = ''queued''"
    and "\<And>e. e \<in> set es \<Longrightarrow> map_of (inbox d) (di_event e) = None" "es \<noteq> []" "CONFLICT_MAX_ROUNDS \<le> a_busy_rounds a + int (length es)"
    and "fold (attempt i) es (n, d) = (n', d')"
  shows "asg_status_of d' i = Some ''blocked'' \<and> told (event_key_for ''assignment_undeliverable'' i a) d'
     \<and> n < n' \<and> int n' - int n \<le> max 1 (CONFLICT_MAX_ROUNDS - a_busy_rounds a)"
  using assms
proof (induction es arbitrary: n d a)
  case (Cons e es)
  obtain n1 d1 where one: "attempt i e (n, d) = (n1, d1)" by (cases "attempt i e (n, d)")
  have b: "busy_answer e" and fresh: "map_of (inbox d) (di_event e) = None" using Cons.prems(1,5) by simp_all
  note step = busy_attempt [OF b Cons.prems(2-4) fresh one]
  show ?case
  proof (cases "asg_status_of d1 i = Some ''queued''")
    case False
    then have "fold (attempt i) es (n1, d1) = (n1, d1)" by (intro attempts_idle) simp
    then show ?thesis using step False Cons.prems(8) one by (auto simp: asg_status_of_def)
  next
    case True
    then obtain b where b: "map_of (assignments d1) i = Some b" "a_status b = ''queued''" "a_busy_rounds b = a_busy_rounds a + 1" "a_turn b = a_turn a"
      and rest: "a_busy_rounds a + 1 < CONFLICT_MAX_ROUNDS" "inbox d1 = inbox d" "assignments_ok (assignments d1)" "n1 = Suc n"
      using step by auto
    have ne: "es \<noteq> []" using rest(1) Cons.prems(7) by auto
    have "asg_status_of d' i = Some ''blocked'' \<and> told (event_key_for ''assignment_undeliverable'' i b) d'
       \<and> n1 < n' \<and> int n' - int n1 \<le> max 1 (CONFLICT_MAX_ROUNDS - a_busy_rounds b)"
      by (rule Cons.IH [OF _ rest(3) b(1,2) _ ne]) (use Cons.prems(1,5,7,8) one rest(2) b(3) in auto)
    then show ?thesis using b(3,4) rest(1,4) by (auto simp: event_key_for_def)
  qed
qed simp

text \<open>
  C12. A target that is always busy is not asked for ever: when every sending of a queued assignment
  is answered with a conflict and nobody else writes between, then after at most twenty prompts the
  assignment is blocked, the event that says so is in the inbox, and no later attempt sends anything
  or changes anything, whatever the settings of the environment say about waiting.
\<close>

theorem refusals_end:
  assumes "list_all busy_answer es" "assignments_ok (assignments d)" "map_of (assignments d) i = Some a" "a_status a = ''queued''"
    and "\<And>e. e \<in> set es \<Longrightarrow> map_of (inbox d) (di_event e) = None"
    and "0 \<le> a_busy_rounds a" "length es = nat CONFLICT_MAX_ROUNDS" "s = fold (attempt i) (es @ later) (0, d)"
  shows "asg_status_of (snd (fold (attempt i) es (0, d))) i = Some ''blocked'' \<and> snd s = snd (fold (attempt i) es (0, d))
    \<and> told (event_key_for ''assignment_undeliverable'' i a) (snd s) \<and> 1 \<le> fst s \<and> int (fst s) \<le> CONFLICT_MAX_ROUNDS"
proof -
  obtain n' d' where r: "fold (attempt i) es (0, d) = (n', d')" by (cases "fold (attempt i) es (0, d)")
  have ne: "es \<noteq> []" using assms(7) by (auto simp: CONFLICT_MAX_ROUNDS_def)
  have e: "asg_status_of d' i = Some ''blocked'' \<and> told (event_key_for ''assignment_undeliverable'' i a) d'
     \<and> 0 < n' \<and> int n' - int 0 \<le> max 1 (CONFLICT_MAX_ROUNDS - a_busy_rounds a)"
    by (rule attempts_end [OF assms(1-5) ne _ r]) (use assms(6,7) in \<open>auto simp: CONFLICT_MAX_ROUNDS_def\<close>)
  have "fold (attempt i) later (n', d') = (n', d')" by (rule attempts_idle) (use e in simp)
  then have "s = (n', d')" using assms(8) r by simp
  then show ?thesis using e r assms(6) by (auto simp: CONFLICT_MAX_ROUNDS_def)
qed

theorem refusals_end_witness:
  "asg_status_of (snd (fold (attempt ''A2'') (replicate 20 open_env @ [open_env]) (0, office))) ''A2'' = Some ''blocked''
   \<and> told ''assignment_undeliverable:A2:'' (snd (fold (attempt ''A2'') (replicate 20 open_env @ [open_env]) (0, office)))"
proof -
  have row: "map_of (assignments office) ''A2'' = Some (an_assignment ''c2'' ''queued'')" by code_simp
  have st: "a_status (an_assignment ''c2'' ''queued'') = ''queued''" "0 \<le> a_busy_rounds (an_assignment ''c2'' ''queued'')"
    "event_key_for ''assignment_undeliverable'' ''A2'' (an_assignment ''c2'' ''queued'') = ''assignment_undeliverable:A2:''" by code_simp+
  have b: "list_all busy_answer (replicate 20 open_env)" by (simp add: list_all_iff busy_answer_def gates_open_def open_env_def)
  have f: "map_of (inbox office) (di_event e) = None" if "e \<in> set (replicate 20 open_env)" for e
    by (simp add: office_def sample_def)
  have n: "length (replicate 20 open_env) = nat CONFLICT_MAX_ROUNDS" by (simp add: CONFLICT_MAX_ROUNDS_def)
  show ?thesis
    using refusals_end [where later = "[open_env]", OF b office_ok row st(1) f st(2) n refl] unfolding st(3) by metis
qed

section \<open>The end of a turn\<close>

lemma resume_bounds: "now < resume_at_from now b r \<and> resume_at_from now b r \<le> now + 1000 * MAX_QUOTA_WAIT_SECS"
proof -
  let ?l = "filter (\<lambda>t. now < t) (List.map_filter (\<lambda>s. Option.bind s parse_utc) [b, r])"
  have later: "now < x" if "x \<in> set ?l" for x using that by simp
  show ?thesis
  proof (cases ?l)
    case Nil
    then show ?thesis by (simp add: resume_at_from_def QUOTA_BLIND_WAIT_SECS_def MAX_QUOTA_WAIT_SECS_def)
  next
    case (Cons t ts)
    then have "now < Min (set (t # ts))" using later by (metis List.finite_set Min_in list.set_intros(1) empty_iff)
    then show ?thesis
      using Cons by (simp add: resume_at_from_def Let_def QUOTA_RECHECK_SECS_def MAX_QUOTA_WAIT_SECS_def del: Min.insert_not_elem)
  qed
qed

lemma settle_hit:
  assumes "assignments_ok (assignments d)" "map_of (assignments d) i = Some a" "a_status a \<in> set IN_FLIGHT" "map_of (inbox d) event = None"
    and "d' = settle_asg i c ts ec res err event now d"
  shows "\<exists>b. map_of (assignments d') i = Some b \<and> a_turn_status b = Some ts \<and> a_evidence_complete b = ec
     \<and> a_result b = (case res of None \<Rightarrow> a_result a | Some r \<Rightarrow> Some r)
     \<and> a_status b = (if (ts = ''completed'' \<or> ts = ''completed_fallback'') \<and> \<not> a_expects_review a then ''completed'' else ''awaiting_review'')
     \<and> told (event_key_for (fst (settle_event c ts ec res err)) i c) d'"
proof -
  let ?ok = "ts = ''completed'' \<or> ts = ''completed_fallback''"
  let ?f = "\<lambda>a. a\<lparr>a_status := (if ?ok \<and> \<not> a_expects_review a then ''completed'' else ''awaiting_review''),
                a_turn_status := Some ts, a_evidence_complete := ec,
                a_result := (case res of None \<Rightarrow> a_result a | Some r \<Rightarrow> Some r),
                a_error := (case err of None \<Rightarrow> a_error a | Some e \<Rightarrow> Some e),
                a_completed_at := Some now, a_updated_at := now\<rparr>"
  let ?kind = "fst (settle_event c ts ec res err)" and ?p = "snd (settle_event c ts ec res err)"
  let ?d1 = "d\<lparr>assignments := upd_row i ?f (assignments d)\<rparr>"
  have src: "List.member (sources_for ''awaiting_review'') (a_status a)" using assms(3) by (simp add: in_flight_sources)
  have al: "allowed (a_status a) s \<and> s \<in> set ALL_STATES" if "s = ''completed'' \<or> s = ''awaiting_review''" for s
    using assms(3) that by (auto simp: IN_FLIGHT_def; code_simp)
  have u: "update_assignment i (\<lambda>a. List.member (sources_for ''awaiting_review'') (a_status a)) ?f d = Inr (?d1, 1)"
    by (rule update_assignment_hit [OF assms(1,2)]) (use src al [of "''completed''"] al [of "''awaiting_review''"] in_flight_states [OF assms(3)] in auto)
  obtain ps where p: "?p = JObj ps" by (simp add: settle_event_def)
  have "\<exists>x y. settle_and_notify_on i ts ec res err (event_key_for ?kind i c) ?kind ?p event now d = Inr (x, y) \<and> assignments y = assignments ?d1"
    using u assms(2) p by (auto simp: settle_and_notify_on_def Let_def case_prod_beta insert_or_ignore_def)
  then obtain x y where st: "settle_and_notify_on i ts ec res err (event_key_for ?kind i c) ?kind ?p event now d = Inr (x, y)"
      and y: "assignments y = assignments ?d1" by blast
  have d': "d' = y" using assms(5) st by (simp add: settle_asg_def case_prod_beta)
  have "a_status (?f a) \<noteq> a_status a" using assms(3) by (auto simp: IN_FLIGHT_def)
  moreover have "map_of (assignments y) i = Some (?f a)" using y assms(2) by simp
  ultimately have "y \<noteq> d" using assms(2) by (metis option.inject)
  then have "told (event_key_for ?kind i c) y" using settle_told [OF st assms(4)] by (auto simp: moved_and_told_def)
  then show ?thesis using d' y assms(2) by simp
qed

lemma park_hit:
  assumes "assignments_ok (assignments d)" "map_of (assignments d) i = Some a" "a_status a \<in> set IN_FLIGHT" "map_of (inbox d) event = None"
    and "d' = park_quota i c hit seen_at reset why event now d" "a_quota_retries c < MAX_QUOTA_RETRIES"
  shows "\<exists>b r. map_of (assignments d') i = Some b \<and> a_status b = ''quota_blocked'' \<and> a_result b = a_result a
     \<and> a_resume_at b = Some r \<and> now < r \<and> r \<le> now + 1000 * MAX_QUOTA_WAIT_SECS
     \<and> told (''quota_blocked:'' @ i @ '':'' @ nat_str (nat (a_quota_retries c))) d'"
proof -
  let ?r = "resume_at_from now (lh_until hit) reset" and ?key = "''quota_blocked:'' @ i @ '':'' @ nat_str (nat (a_quota_retries c))"
  let ?f = "\<lambda>a. a\<lparr>a_status := ''quota_blocked'', a_resume_at := Some ?r, a_error := Some why, a_conflict_since := None, a_updated_at := now\<rparr>"
  let ?d1 = "d\<lparr>assignments := upd_row i ?f (assignments d)\<rparr>"
  have src: "List.member (sources_for ''quota_blocked'') (a_status a)" using assms(3) by (simp add: in_flight_sources)
  have al: "allowed (a_status a) ''quota_blocked'' \<and> ''quota_blocked'' \<in> set ALL_STATES"
    using assms(3) by (auto simp: IN_FLIGHT_def; code_simp)
  have u: "update_assignment i (\<lambda>a. List.member (sources_for ''quota_blocked'') (a_status a)) ?f d = Inr (?d1, 1)"
    by (rule update_assignment_hit [OF assms(1,2)]) (use src al in_flight_states [OF assms(3)] in auto)
  have go: "quota_action (a_quota_retries c) (lh_until hit) now \<noteq> Give_Up_Quota"
    using assms(6) by (simp add: quota_action_def split: option.split)
  obtain p where p: "d' = kept (park_quota_blocked i ?r why ?key p event now d) d"
    using assms(5) go by (auto simp: park_quota_def Let_def)
  have "\<exists>x y. park_quota_blocked i ?r why ?key p event now d = Inr (x, y) \<and> assignments y = assignments ?d1"
    using u assms(2) by (auto simp: park_quota_blocked_def Let_def case_prod_beta insert_or_ignore_def)
  then obtain x y where st: "park_quota_blocked i ?r why ?key p event now d = Inr (x, y)" and y: "assignments y = assignments ?d1" by blast
  have "a_status (?f a) \<noteq> a_status a" using assms(3) by (auto simp: IN_FLIGHT_def)
  moreover have "map_of (assignments y) i = Some (?f a)" using y assms(2) by simp
  ultimately have "y \<noteq> d" using assms(2) by (metis option.inject)
  then have "told ?key y" using park_told [OF st assms(4)] by (auto simp: moved_and_told_def)
  then show ?thesis using p st y assms(2) resume_bounds [of now "lh_until hit" reset] by simp
qed

definition end_of :: "settle_env \<Rightarrow> db \<Rightarrow> ident \<Rightarrow> string \<Rightarrow> turn_end" where
  "end_of e d t status = \<lparr>te_status = status, te_reply = last_reply d t, te_error = turn_error_of (se_turn_error e) d t\<rparr>"

definition all_read :: "settle_env \<Rightarrow> turn_end \<Rightarrow> bool" where
  "all_read e x \<longleftrightarrow> se_found e \<and> se_error_read e \<and> (te_error x = None \<or> se_noted e) \<and> se_reply_read e
     \<and> (cut_by_limit (se_banner e) x \<longrightarrow> se_bot e \<noteq> None \<and> (se_bot e = Some True \<longrightarrow> se_limit e \<noteq> None))"

definition limit_of :: "settle_env \<Rightarrow> turn_end \<Rightarrow> limit_hit option" where
  "limit_of e x = (if cut_by_limit (se_banner e) x \<and> se_bot e = Some True then Option.bind (se_limit e) id else None)"

definition noted_db :: "settle_env \<Rightarrow> ident \<Rightarrow> ident \<Rightarrow> db \<Rightarrow> db" where
  "noted_db e t i d = (case turn_error_of (se_turn_error e) d t of None \<Rightarrow> d | Some x \<Rightarrow> kept (set_turn_error i x d) d)"

lemma noted_rows:
  assumes "assignments_ok (assignments d)" "map_of (assignments d) i = Some a"
  shows "\<exists>x. map_of (assignments (noted_db e t i d)) i = Some (a\<lparr>a_turn_error := x\<rparr>) \<and> assignments_ok (assignments (noted_db e t i d))
     \<and> inbox (noted_db e t i d) = inbox d \<and> messages (noted_db e t i d) = messages d"
proof (cases "turn_error_of (se_turn_error e) d t")
  case None
  then show ?thesis using assms by (intro exI [of _ "a_turn_error a"]) (simp add: noted_db_def)
next
  case (Some x)
  let ?f = "\<lambda>a. a\<lparr>a_turn_error := Some x\<rparr>"
  have "update_assignment i (\<lambda>_. True) ?f d = Inr (d\<lparr>assignments := upd_row i ?f (assignments d)\<rparr>, 1)"
    by (rule update_assignment_hit [OF assms]) simp_all
  then have "noted_db e t i d = d\<lparr>assignments := upd_row i ?f (assignments d)\<rparr>"
    using Some by (simp add: noted_db_def set_turn_error_def)
  then show ?thesis using assms assignments_ok_upd [OF assms, of ?f] by (intro exI [of _ "Some x"]) simp
qed

lemma noted_messages: "messages (kept (set_turn_error i x d) d) = messages d"
proof (cases "set_turn_error i x d")
  case (Inr r)
  then have "messages (snd r) = messages d"
    by (cases r) (auto simp: set_turn_error_def update_assignment_def elim!: bind_res_InrE)
  then show ?thesis using Inr by (cases r) simp
qed simp

lemma settle_finished_cases:
  assumes "List.find (\<lambda>(_, a). a_turn a = Some t) (assignments d) = Some (i, a)" "is_executing a" "se_race e = id" "x = end_of e d t status"
  shows "settle_finished_turn e t status d =
    (if \<not> se_found e \<or> \<not> se_error_read e \<or> te_error x \<noteq> None \<and> \<not> se_noted e then d
     else if \<not> all_read e x then noted_db e t i d
     else (case limit_of e x of
         Some hit \<Rightarrow> park_quota i a hit ''turn'' (se_reset e) (se_words e) (se_event e) (se_now e) (noted_db e t i d)
       | None \<Rightarrow> settle_asg i a status (status \<noteq> ''completed_fallback'') (te_reply x)
           (if status = ''completed'' \<or> status = ''completed_fallback'' then None else Some status) (se_event e) (se_now e) (noted_db e t i d)))"
proof -
  have m: "last_reply (noted_db e t i d) t = last_reply d t"
    by (simp add: noted_db_def last_reply_def noted_messages split: option.split)
  let ?settle = "settle_asg i a status (status \<noteq> ''completed_fallback'') (te_reply x)
      (if status = ''completed'' \<or> status = ''completed_fallback'' then None else Some status) (se_event e) (se_now e) (noted_db e t i d)"
  have eq: "settle_finished_turn e t status d =
    (if \<not> se_found e \<or> \<not> se_error_read e \<or> te_error x \<noteq> None \<and> \<not> se_noted e then d
     else if \<not> se_reply_read e then noted_db e t i d
     else if \<not> cut_by_limit (se_banner e) x then ?settle
     else (case se_bot e of None \<Rightarrow> noted_db e t i d | Some False \<Rightarrow> ?settle
       | Some True \<Rightarrow> (case se_limit e of None \<Rightarrow> noted_db e t i d | Some None \<Rightarrow> ?settle
         | Some (Some hit) \<Rightarrow> park_quota i a hit ''turn'' (se_reset e) (se_words e) (se_event e) (se_now e) (noted_db e t i d))))"
    unfolding settle_finished_turn_def noted_db_def [symmetric] Let_def assms(1,3,4) end_of_def m id_apply turn_end.simps
    using assms(2) by (simp add: m del: not_None_eq cong: if_cong option.case_cong bool.case_cong)
  show ?thesis
    unfolding eq all_read_def limit_of_def
    by (cases "cut_by_limit (se_banner e) x"; cases "se_bot e"; cases "se_limit e"; cases "te_error x"; simp split: bool.split option.split)
qed

text \<open>
  C13. What the end of a turn leaves of its assignment, when nobody else writes while it is being settled. When something the decision needs cannot be
  read, the status and the inbox are as before. Otherwise, unless the turn was cut by a limit its account
  still has, the assignment is settled with the turn's status, its reply as the result, evidence complete
  exactly unless the fallback ended it, closed at once only if no review was asked for and the turn
  did not fail, and the inbox says so. A cut turn is never settled as work: it waits for quota, at most
  six hours to the next look, or, when its retries are used up, goes to review as quota_exhausted with
  the result it had.
\<close>

theorem turn_end_settled:
  assumes "List.find (\<lambda>(_, a). a_turn a = Some t) (assignments d) = Some (i, a)" "is_executing a" "assignments_ok (assignments d)"
    and "status = ''completed'' \<or> status = ''completed_fallback'' \<or> status = ''failed''"
    and "se_race e = id" "map_of (inbox d) (se_event e) = None" "x = end_of e d t status" "d' = on_turn_done e t status d"
  shows "(\<not> all_read e x \<longrightarrow> asg_status_of d' i = asg_status_of d i \<and> inbox d' = inbox d)
    \<and> (all_read e x \<and> limit_of e x = None \<longrightarrow>
        (\<exists>b. map_of (assignments d') i = Some b \<and> a_turn_status b = Some status \<and> a_evidence_complete b = (status \<noteq> ''completed_fallback'')
          \<and> (te_reply x \<noteq> None \<longrightarrow> a_result b = te_reply x)
          \<and> a_status b = (if status \<noteq> ''failed'' \<and> \<not> a_expects_review a then ''completed'' else ''awaiting_review'')
          \<and> told (event_key_for (if status = ''failed'' then ''assignment_failed'' else ''assignment_completed'') i a) d'))
    \<and> (all_read e x \<and> limit_of e x \<noteq> None \<and> a_quota_retries a < MAX_QUOTA_RETRIES \<longrightarrow>
        (\<exists>b r. map_of (assignments d') i = Some b \<and> a_status b = ''quota_blocked'' \<and> a_result b = a_result a
          \<and> a_resume_at b = Some r \<and> se_now e < r \<and> r \<le> se_now e + 1000 * MAX_QUOTA_WAIT_SECS
          \<and> told (''quota_blocked:'' @ i @ '':'' @ nat_str (nat (a_quota_retries a))) d'))
    \<and> (all_read e x \<and> limit_of e x \<noteq> None \<and> MAX_QUOTA_RETRIES \<le> a_quota_retries a \<longrightarrow>
        (\<exists>b. map_of (assignments d') i = Some b \<and> a_status b = ''awaiting_review'' \<and> a_turn_status b = Some ''quota_exhausted''
          \<and> a_result b = a_result a \<and> told (event_key_for ''assignment_failed'' i a) d'))"
proof -
  have keys: "distinct (map fst (assignments d))" using assms(3) by (simp add: assignments_ok_def)
  have row: "map_of (assignments d) i = Some a"
  proof -
    from assms(1) obtain k where "k < length (assignments d)" "(i, a) = assignments d ! k" by (auto simp: find_Some_iff)
    then have "(i, a) \<in> set (assignments d)" by simp
    then show ?thesis using keys by (rule map_of_is_SomeI [rotated])
  qed
  have fly: "a_status a \<in> set IN_FLIGHT"
    using assms(2) by (auto simp: is_executing_def EXECUTING_STATES_def IN_FLIGHT_def)
  let ?n = "noted_db e t i d"
  obtain err where n: "map_of (assignments ?n) i = Some (a\<lparr>a_turn_error := err\<rparr>)" "assignments_ok (assignments ?n)" "inbox ?n = inbox d"
    using noted_rows [OF assms(3) row] by blast
  have d': "d' = settle_finished_turn e t status d" using assms(4,8) by (auto simp: on_turn_done_def)
  note cs = settle_finished_cases [OF assms(1,2,5,7)]
  have fl: "a_status (a\<lparr>a_turn_error := err\<rparr>) \<in> set IN_FLIGHT" using fly by simp
  have fr: "map_of (inbox ?n) (se_event e) = None" using n(3) assms(6) by simp
  show ?thesis
  proof (cases "all_read e x")
    case False
    then have "d' = d \<or> d' = ?n" unfolding d' cs by simp
    then show ?thesis using False n(1,3) row by (auto simp: asg_status_of_def)
  next
    case True
    then have early: "\<not> (\<not> se_found e \<or> \<not> se_error_read e \<or> te_error x \<noteq> None \<and> \<not> se_noted e)" by (auto simp: all_read_def)
    show ?thesis
    proof (cases "limit_of e x")
      case None
      then have "d' = settle_asg i a status (status \<noteq> ''completed_fallback'') (te_reply x)
           (if status = ''completed'' \<or> status = ''completed_fallback'' then None else Some status) (se_event e) (se_now e) ?n"
        using True unfolding d' cs if_not_P [OF early] by simp
      from settle_hit [OF n(2,1) fl fr this] show ?thesis
        using True None assms(4) by (auto simp: settle_event_def split: option.splits)
    next
      case (Some hit)
      then have p: "d' = park_quota i a hit ''turn'' (se_reset e) (se_words e) (se_event e) (se_now e) ?n"
        using True unfolding d' cs if_not_P [OF early] by simp
      show ?thesis
      proof (cases "a_quota_retries a < MAX_QUOTA_RETRIES")
        case ok: True
        from park_hit [OF n(2,1) fl fr p ok] show ?thesis using True Some ok by simp
      next
        case no: False
        then have "d' = settle_asg i a ''quota_exhausted'' True None (Some (se_words e)) (se_event e) (se_now e) ?n"
          using p by (simp add: park_quota_def quota_action_def)
        from settle_hit [OF n(2,1) fl fr this] show ?thesis using True Some no by (simp add: settle_event_def) blast
      qed
    qed
  qed
qed

definition end_env :: "ident \<Rightarrow> settle_env" where
  "end_env event = \<lparr>se_now = 100, se_banner = (\<lambda>l. l = ''limit''), se_turn_error = (\<lambda>_. None), se_found = True, se_error_read = True,
     se_noted = True, se_reply_read = True, se_bot = Some True, se_limit = Some None, se_reset = None, se_race = id, se_event = event,
     se_words = ''waiting''\<rparr>"

text \<open>A delivered assignment whose turn ended with a reply.\<close>

definition desk :: "string \<Rightarrow> db" where
  "desk reply = office\<lparr>assignments := [(''A1'', (an_assignment ''c1'' ''delivered'')\<lparr>a_turn := Some ''T0''\<rparr>)],
     messages := [(''M0'', \<lparr>m_conversation = ''C'', m_turn = Some ''T0'', m_role = ''assistant'', m_content = reply, m_relay_from = None,
       m_relay_unverified = False, m_relay_auth = None\<rparr>)]\<rparr>"

theorem turn_end_settled_witness:
  "\<exists>b. map_of (assignments (on_turn_done (end_env ''E1'') ''T0'' ''completed'' (desk ''all done''))) ''A1'' = Some b
     \<and> a_result b = Some ''all done'' \<and> a_status b = ''awaiting_review''"
proof -
  let ?e = "end_env ''E1''" and ?d = "desk ''all done''" and ?a = "(an_assignment ''c1'' ''delivered'')\<lparr>a_turn := Some ''T0''\<rparr>"
  let ?x = "end_of ?e ?d ''T0'' ''completed''"
  have f: "List.find (\<lambda>(_, a). a_turn a = Some ''T0'') (assignments ?d) = Some (''A1'', ?a)" by code_simp
  have ex: "is_executing ?a" by code_simp
  have ok: "assignments_ok (assignments ?d)" by (simp add: desk_def assignments_ok_def an_assignment_def new_assignment_def)
  have st: "''completed'' = ''completed'' \<or> ''completed'' = ''completed_fallback'' \<or> ''completed'' = ''failed''" by simp
  have rc: "se_race ?e = id" and fr: "map_of (inbox ?d) (se_event ?e) = None" by (simp_all add: end_env_def desk_def office_def sample_def)
  have x: "all_read ?e ?x" "limit_of ?e ?x = None" "te_reply ?x = Some ''all done''" "a_expects_review ?a" by code_simp+
  show ?thesis
    using turn_end_settled [OF f ex ok st rc fr refl refl] x by (simp only: x simp_thms) fastforce
qed

text \<open>A reply that comes late does not reach the result when the result is blank, although the event that carries it counts it as missing.\<close>

definition late_desk :: db where
  "late_desk = (desk ''late reply'')\<lparr>assignments := [(''A1'', (an_assignment ''c1'' ''awaiting_review'')\<lparr>a_turn := Some ''T0'',
     a_turn_status := Some ''completed_fallback'', a_result := Some '' ''\<rparr>)]\<rparr>"

lemma late_reply_leaves_blank_result:
  "let d = late_reply_for_turn \<lparr>la_now = 100, la_reads = True, la_writes = True, la_race = id, la_event = ''E1''\<rparr> True ''T0'' ''completed'' late_desk
   in map_option a_result (map_of (assignments d) ''A1'') = Some (Some '' '') \<and> map (i_kind \<circ> snd) (inbox d) = [''assignment_completed'']
    \<and> map_option a_turn_status (map_of (assignments d) ''A1'') = Some (Some ''completed'')"
  by code_simp

end
