(* ===== verification/Spec2Isabelle.thy ===== *)
theory Spec2Isabelle
  imports Fence Run_Properties Assignment_Properties Inbox_Properties Kill_Properties Window_Properties
    Quota_Properties Manager_Properties Mail_Properties Dispatch_Ends
begin

text \<open>
  A model of the core of agents-manager, a daemon that drives command-line AI agents (bots): it keeps
  their turns, runs, assignments and maintenance windows in SQLite, hands prompts to the agents, reads
  back what their hooks report, and lets a supervisor (AGM) assign work and decide about it.

  \<^bold>\<open>The program and its parts.\<close> A prompt becomes a turn. It is queued, claimed for a running
  session (\<open>turn_controller.rs\<close>, \<open>queue.rs\<close>, \<open>relay_grant.rs\<close>), and closed by
  evidence of the agent itself that a fence (\<open>fence.rs\<close>) attributes to the session that is
  running now. A run is one session of a bot; its state moves by compare-and-swap
  (\<open>run_state.rs\<close>). The supervisor gives assignments that carry prompts out
  (\<open>assignment_state.rs\<close>, \<open>store.rs\<close>), and reads what happened in an inbox whose events
  belong to one of its roles (\<open>roles.rs\<close>, \<open>supervisor_inbox.rs\<close>). A rebuild or a restart
  of the daemon needs an approval and a lease (\<open>store.rs\<close>, \<open>maintenance.rs\<close>,
  \<open>runners/supervisor/api.rs\<close>), and while a restart window is held no new work goes out. The
  agents' own shell commands pass a guard that refuses to kill the daemon or other sessions
  (\<open>kill_guard.rs\<close>). What is left of each account is kept in a table of readings and limits
  (\<open>quota.rs\<close>) that decides who gets work; the supervisor itself switches between two models by it
  (\<open>policy.rs\<close>, \<open>controller.rs\<close>, \<open>runners/supervisor/runtime.rs\<close>) and is started again
  by a watchdog when it dies (\<open>watchdog.rs\<close>). Its second bot, the responder, answers the requests of the
  others and waits while its account is used up or asks for a login (\<open>responder.rs\<close>); a pass over the inbox
  every few seconds wakes both, offers unanswered events again and gives up on them in the end
  (\<open>controller.rs\<close>), and hands approvals to the patrol while the responder is down (\<open>failover.rs\<close>,
  \<open>health.rs\<close>, \<open>role_faults.rs\<close>). The dispatcher (\<open>controller.rs\<close>) offers queued assignments to
  their targets, parks them while an account is at its limit, settles them when their turn ends, and looks again at what was missed.

  \<^bold>\<open>Theories, by part.\<close>
  \<^item> \<open>Prelude\<close>, \<open>Rust_Text\<close>, \<open>Json\<close>: tables with UPDATE and INSERT as guarded rewriting,
    the sum of errors and results, Rust's string functions on UTF-8 bytes, JSON values.
  \<^item> \<open>Store_Schema\<close>: the rows, CHECKs and unique indexes of \<open>db.rs\<close> and \<open>store.rs\<close>;
    \<open>Sample_Data\<close>: a database the witnesses evaluate on; \<open>Status_Tables\<close>: the interface
    \<open>guarded_status\<close> (a status column whose moves are edges of a table) and \<open>forward_rows\<close>
    (rows that only move forward), with what holds along every sequence of operations.
  \<^item> \<open>Turn_Guard\<close> (\<open>turn_guard.rs\<close>, \<open>transitions.rs\<close>), \<open>Admission\<close>
    (\<open>queue.rs\<close>, \<open>relay_grant.rs\<close>), \<open>Turn_Controller\<close>, and over them
    \<open>Turn_Safety\<close> and \<open>Turn_Properties\<close>.
  \<^item> \<open>Fence\<close> (\<open>fence.rs\<close>, the closing of a turn in \<open>hookrecv.rs\<close>).
  \<^item> \<open>Run_State\<close> and \<open>Run_Properties\<close> (\<open>run_state.rs\<close>).
  \<^item> \<open>Assignment_State\<close>, \<open>Assignment_Store\<close>, \<open>Assignment_Safety\<close>,
    \<open>Assignment_Properties\<close> (\<open>assignment_state.rs\<close>, \<open>store.rs\<close>).
  \<^item> \<open>Inbox_Roles\<close>, \<open>Inbox_Properties\<close> (\<open>roles.rs\<close>, \<open>supervisor_inbox.rs\<close>).
  \<^item> \<open>Kill_Regex\<close> (pattern syntax and its automaton), \<open>Kill_Regex_Emit\<close>,
    \<open>Kill_Regex_Match\<close>, \<open>Kill_Regex_Judge\<close> (the automaton accepts the language of the
    pattern), \<open>Kill_Shell\<close> (the shell reader), \<open>Kill_Guard\<close> (the judgement),
    \<open>Kill_Spec\<close> (what a refusal is, as an inductive relation), \<open>Kill_Quoting\<close>,
    \<open>Kill_Literal\<close>, \<open>Kill_Properties\<close>.
  \<^item> \<open>Window_Schema\<close>, \<open>Window_Approvals\<close>, \<open>Window_Leases\<close>,
    \<open>Window_Maintenance\<close> (the rows and operations), \<open>Window_Safety\<close>,
    \<open>Window_Holders\<close>, \<open>Window_Runs\<close>, \<open>Window_Lifetime\<close> (what one operation and
    a sequence of them leave), \<open>Window_History\<close> (the notes behind the decisions),
    \<open>Window_Properties\<close>.
  \<^item> \<open>Quota_Windows\<close> (readings and when they still say something), \<open>Quota_Limits\<close> (limits,
    status lines, marks), \<open>Quota_Store\<close> (table and cache), \<open>Quota_Safety\<close>,
    \<open>Quota_Steps\<close> (histories with restarts and interleaved writes), \<open>Quota_Marks\<close>,
    \<open>Quota_Properties\<close> (\<open>quota.rs\<close>).
  \<^item> \<open>Manager\<close> (the supervisor's row, its policy, switch, start and stop), \<open>Watchdog\<close>,
    \<open>Watchdog_Safety\<close>, \<open>Watchdog_Outage\<close>, \<open>Manager_Safety\<close>,
    \<open>Manager_Properties\<close>. \<open>Retry_Bounds\<close>: the interfaces \<open>counted_retries\<close> and
    \<open>retried_outage\<close> of a retrier that counts its attempts and gives up, with the bound and the end of an outage proved
    once for both watchdogs.
  \<^item> \<open>Failover\<close> (faults of the roles, whether a role can work, the hand-over of approvals),
    \<open>Role_Rows\<close> (the rows of the roles, second half of \<open>roles.rs\<close>), \<open>Responder\<close>,
    \<open>Responder_Watch\<close>, \<open>Responder_Outage\<close>, \<open>Responder_Waits\<close> (what its operations do to its
    row), \<open>Responder_Properties\<close>.
  \<^item> \<open>Mail_Loop\<close> (the part of \<open>controller.rs\<close> that moves the inbox, and \<open>mail_pass\<close>, one pass in
    the order of \<open>tick_once\<close> in \<open>runtime.rs\<close>), \<open>Mail_Safety\<close> (what each of its steps does to one event),
    \<open>Mail_Properties\<close>.
  \<^item> \<open>Dispatcher\<close> (\<open>dispatch\<close>, \<open>drain_queue\<close>, waiting for quota), \<open>Settling\<close>
    (\<open>on_turn_done\<close>, \<open>reconcile\<close>, late replies, stale queues), \<open>Dispatch_Safety\<close> (each write of a pass is an
    operation of the store, so a pass is a path of the transition table), \<open>Dispatch_Properties\<close>, \<open>Dispatch_Ends\<close>.

  \<^bold>\<open>How state and operations correspond.\<close> A table is an association list from ids to records, in
  insertion order; one SQL statement is one rewriting of a table; a transaction returns a new state or
  an error and then nothing has changed. An operation of the code is a definition of the same name that
  takes the state and returns the answer with the new state. Errors are values of a sum. Ids that the
  code draws, the clock, and what the operating system or other code answers are arguments; what other
  tasks write between two statements is an argument of the operations that allow it (\<open>race\<close>).
  Timestamps are milliseconds; where the code keeps them as text, they are an instant or a text that reads
  as none, and \<open>shown\<close> prints an instant. Percentages (\<open>f64\<close>) are rationals with the values that
  are no numbers. Rust strings are lists of their UTF-8 bytes.

  \<^bold>\<open>What the lemmas show.\<close> Turns: every path through the operations moves a turn along a legal edge
  (C1; \<open>turn_slots_exclusive\<close>: one turn in flight per session and one queued per conversation), is answered
  honestly (C2) and stamped once at its end (\<open>completion_stamped_once\<close>); a claim is admitted exactly under its
  conditions (C3), and re-delivery is bounded (C4). Fence: refusal is characterised (C5), and a hook closes only a turn of its own
  generation (C6). Runs: a run that ended never comes back (C7), relabelling is exact (\<open>relabel_exact\<close>), and the
  settling of an unfinished stop is safe and ends (C8, C9). Dispatcher: no interleaving of its passes undoes a decision (C10), only
  what passed every gate is sent (C11), refusals end (C12), and the end of a turn leaves its assignment settled or waiting
  (C13). Assignment store: whoever moves an assignment tells (C14), a resend has a new id (C15) and a follow-up is written whole
  (C16). Inbox and roles:
  no role is told of its own failure (C17), what is handled stays handled (C18), each event is due to one role (C19), approvals
  leave a responder that cannot decide them (C20), and nothing is offered again without end (C21), with
  \<open>ack_exact\<close> and \<open>merge_keeps_newest\<close> on acknowledging and merging. Guard: the automaton decides the
  language of the pattern (C22), the guard refines an
  inductive specification of refusal (C23), quoting and reading are inverse (C24), wrapping hides
  nothing (C25), and the verdict on pkill is exact (C26, C27). Windows: a window opens only under its
  conditions (C28), once per approval (C29), the gate opens on proof (C30), what is held stays held
  (C31), and every decision leaves its note (C32). Quota: an account is used up exactly until its window is
  over, across restarts and partial readings (C33), a limit is lifted by a percentage once (C34), status
  lines never roll a window back (C35), and restoring limits only lengthens them
  (\<open>backfill_only_lengthens\<close>). Supervisor: switches of the model are rare and never in the middle of a turn (C36),
  the watchdog stops after five starts and says so once (C37), the waits of the responder begin and end on evidence (C38), an
  outage of the responder ends in a report (C39), and the supervisor's row stays within its types (C40).

  \<^bold>\<open>Bounds and fuel.\<close> The shell reader and the judgement recurse over nested commands; the code
  bounds the nesting (\<open>MAX_DEPTH\<close>) and the model recurses over the same bound. Loops of the
  code that consume their input recurse on it, with a measure where the recursion is not structural.
  The closure of the automaton carries fuel for its states, and enough of it is proved to be given.
  C12 counts prompts: twenty rounds of refusals (\<open>CONFLICT_MAX_ROUNDS\<close>). C37 and C39 count ticks: one to note the first deadline, five starts, one report. C21 is proved by a measure on the event, what it may
  still be delivered (\<open>allowance\<close>), that no step raises. Counters of the code that cannot reach the width of their type are unbounded; where they can
  (\<open>escalate_after_secs\<close>) the width is kept.

  \<^bold>\<open>Not modelled.\<close> HTTP and access control (\<open>daemon/src/api.rs\<close>): handlers that translate
  requests to the operations above. Panes, screens and prompts (\<open>am-lifecycle\<close>): they drive other
  programs through a terminal, and their outcome is what those show. The parsing of what the CLIs print about
  quota; of the dispatcher the refilling of the cache of limits at start, the shadow questions of the judge and the recognition of a
  limit banner in one line (an argument); the probes behind the health of the system and the list of incidents; of the responder the creation of its environment and the text of its digests. Remote hosts and builds, sharing,
  configuration, the web client and the desktop shell. Of the modelled files: migrations, page queries
  and JSON views, log output, and events to the web client.
\<close>

end
